(* ===== verification/Prelude.thy ===== *)
theory Prelude
  imports Main "HOL-Library.Word" "HOL-Library.List_Lexorder" "HOL-Library.Char_ord"
begin

text \<open>
  Shared vocabulary of the development: bytes and memory, the outcome of a C++ call (it returns,
  it does not return, or it takes the process down), and the standard containers the sources use
  (\<open>std::map\<close>, \<open>std::set\<close>) with their lemmas.  Nothing here is specific to one component.
\<close>

section \<open>Lemma collections\<close>

named_theorems outcome_simps \<open>characteristic equations of the outcome monad\<close>
named_theorems mem_simps \<open>reading and writing memory\<close>
named_theorems smap_simps \<open>ordered maps and sets\<close>

section \<open>Bytes, keys and values\<close>

type_synonym byte = "8 word"
type_synonym key = string
type_synonym field = string
type_synonym val = "byte list"

section \<open>Outcome of a call\<close>

text \<open>
  A C++ member function modelled here has one of three outcomes.  \<open>Ret x\<close>: it returns \<open>x\<close>.
  \<open>Blocks\<close>: in the given state it does not return (a polling loop whose flag is not set, a
  blocking system call with nothing to deliver).  \<open>Dies f\<close>: the process is gone, because the
  code calls \<open>exit\<close>, lets an exception escape its thread, or executes undefined behaviour.
\<close>

datatype fault =
    Exit_failure
  | Uncaught_exception
  | Null_pointer
  | Out_of_bounds
  | Division_by_zero
  | Unlock_not_held

datatype 'a outcome = Dies fault | Blocks | Ret 'a

definition bind_outcome :: "'a outcome \<Rightarrow> ('a \<Rightarrow> 'b outcome) \<Rightarrow> 'b outcome" where
  "bind_outcome m f = (case m of Dies e \<Rightarrow> Dies e | Blocks \<Rightarrow> Blocks | Ret x \<Rightarrow> f x)"

lemma bind_outcome_simps [simp, outcome_simps]:
  "bind_outcome (Dies e) f = Dies e"
  "bind_outcome Blocks f = Blocks"
  "bind_outcome (Ret x) f = f x"
  by (simp_all add: bind_outcome_def)

lemma bind_outcome_Ret_iff [outcome_simps]:
  "bind_outcome m f = Ret y \<longleftrightarrow> (\<exists>x. m = Ret x \<and> f x = Ret y)"
  by (cases m) auto

lemma bind_outcome_RetE:
  assumes "bind_outcome m f = Ret y"
  obtains x where "m = Ret x" and "f x = Ret y"
  using assms by (auto simp: bind_outcome_Ret_iff)

lemma bind_outcome_assoc:
  "bind_outcome (bind_outcome m f) g = bind_outcome m (\<lambda>x. bind_outcome (f x) g)"
  by (cases m) auto

definition returns :: "'a outcome \<Rightarrow> bool" where
  "returns m \<longleftrightarrow> (\<exists>x. m = Ret x)"

lemma returns_simps [simp]:
  "returns (Ret x)" "\<not> returns Blocks" "\<not> returns (Dies e)"
  by (auto simp: returns_def)

text \<open>A call that may stop with a value of another type.\<close>

definition bind_sum :: "'e + 'a \<Rightarrow> ('a \<Rightarrow> 'e + 'b) \<Rightarrow> 'e + 'b" where
  "bind_sum m f = (case m of Inl e \<Rightarrow> Inl e | Inr x \<Rightarrow> f x)"

lemma bind_sum_simps [simp]: "bind_sum (Inl e) f = Inl e" "bind_sum (Inr x) f = f x"
  by (simp_all add: bind_sum_def)

lemma bind_sum_Inr_iff: "bind_sum m f = Inr y \<longleftrightarrow> (\<exists>x. m = Inr x \<and> f x = Inr y)"
  by (cases m) simp_all

text \<open>A loop over a list whose body is fallible and threads a state.\<close>

fun fold_outcome :: "('a \<Rightarrow> 's \<Rightarrow> 's outcome) \<Rightarrow> 'a list \<Rightarrow> 's \<Rightarrow> 's outcome" where
  "fold_outcome f [] s = Ret s"
| "fold_outcome f (x # xs) s = bind_outcome (f x s) (fold_outcome f xs)"

lemma fold_outcome_append:
  "fold_outcome f (xs @ ys) s = bind_outcome (fold_outcome f xs s) (fold_outcome f ys)"
proof (induction xs arbitrary: s)
  case (Cons x xs)
  have "fold_outcome f (xs @ ys) = (\<lambda>s. bind_outcome (fold_outcome f xs s) (fold_outcome f ys))"
    by (rule ext) (rule Cons.IH)
  then show ?case by (simp add: bind_outcome_assoc)
qed simp

lemma fold_outcome_invariant:
  assumes "fold_outcome f xs s = Ret s'" and "P s"
    and "\<And>x s s'. x \<in> set xs \<Longrightarrow> P s \<Longrightarrow> f x s = Ret s' \<Longrightarrow> P s'"
  shows "P s'"
  using assms
proof (induction xs arbitrary: s)
  case Nil
  then show ?case by simp
next
  case (Cons x xs)
  from Cons.prems(1) obtain s1 where s1: "f x s = Ret s1" and rest: "fold_outcome f xs s1 = Ret s'"
    by (auto simp: bind_outcome_Ret_iff)
  have "P s1" by (rule Cons.prems(3)[OF _ Cons.prems(2) s1]) simp
  with rest show ?case by (rule Cons.IH) (rule Cons.prems(3), auto)
qed

lemma fold_outcome_returns:
  assumes "P s" and "\<And>x s. x \<in> set xs \<Longrightarrow> P s \<Longrightarrow> \<exists>s'. f x s = Ret s' \<and> P s'"
  shows "\<exists>s'. fold_outcome f xs s = Ret s' \<and> P s'"
  using assms
proof (induction xs arbitrary: s)
  case (Cons x xs)
  from Cons.prems(2)[of x s] Cons.prems(1) obtain s1 where s1: "f x s = Ret s1" "P s1" by auto
  have "\<exists>s'. fold_outcome f xs s1 = Ret s' \<and> P s'"
    by (rule Cons.IH[OF s1(2)]) (rule Cons.prems(2), auto)
  then show ?case using s1 by simp
qed simp

section \<open>Memory\<close>

text \<open>
  The bytes of a process, indexed by address.  Addresses are natural numbers below \<open>2 ^ 64\<close>;
  pointer differences that the code stores in a \<open>size_t\<close> are taken at width 64 where they
  occur.  \<open>mem_write\<close> is \<open>memcpy\<close> into memory, \<open>mem_read\<close> is \<open>memcpy\<close> out of it.
\<close>

type_synonym mem = "nat \<Rightarrow> byte"

definition mem_write :: "mem \<Rightarrow> nat \<Rightarrow> byte list \<Rightarrow> mem" where
  "mem_write m a bs = (\<lambda>p. if a \<le> p \<and> p < a + length bs then bs ! (p - a) else m p)"

definition mem_read :: "mem \<Rightarrow> nat \<Rightarrow> nat \<Rightarrow> byte list" where
  "mem_read m a n = map m [a..<a + n]"

lemma length_mem_read [simp]: "length (mem_read m a n) = n"
  by (simp add: mem_read_def)

lemma mem_read_0 [simp]: "mem_read m a 0 = []"
  by (simp add: mem_read_def)

lemma mem_write_Nil [simp]: "mem_write m a [] = m"
  by (rule ext) (auto simp: mem_write_def)

lemma mem_write_outside [mem_simps]:
  "p < a \<or> a + length bs \<le> p \<Longrightarrow> mem_write m a bs p = m p"
  by (auto simp: mem_write_def)

lemma mem_read_nth: "i < n \<Longrightarrow> mem_read m a n ! i = m (a + i)"
  by (simp add: mem_read_def)

lemma mem_read_append: "mem_read m a (i + j) = mem_read m a i @ mem_read m (a + i) j"
  by (rule nth_equalityI) (auto simp: mem_read_nth nth_append)

lemma mem_read_write_same [simp, mem_simps]:
  "mem_read (mem_write m a bs) a (length bs) = bs"
  by (rule nth_equalityI) (auto simp: mem_read_nth mem_write_def)

lemma mem_read_write_same_len [mem_simps]:
  "n = length bs \<Longrightarrow> mem_read (mem_write m a bs) a n = bs"
  by simp

lemma mem_read_write_disjoint [mem_simps]:
  "b + n \<le> a \<or> a + length bs \<le> b \<Longrightarrow> mem_read (mem_write m a bs) b n = mem_read m b n"
  by (rule nth_equalityI) (auto simp: mem_read_nth mem_write_def)

lemma mem_write_append:
  "mem_write m a (bs @ cs) = mem_write (mem_write m a bs) (a + length bs) cs"
  by (rule ext) (auto simp: mem_write_def nth_append)

lemma mem_read_cong:
  "(\<And>p. a \<le> p \<Longrightarrow> p < a + n \<Longrightarrow> m p = m' p) \<Longrightarrow> mem_read m a n = mem_read m' a n"
  by (rule nth_equalityI) (auto simp: mem_read_nth)

lemma mem_read_take: "k \<le> n \<Longrightarrow> take k (mem_read m a n) = mem_read m a k"
  by (simp add: mem_read_def take_map take_upt)

lemma mem_read_write_prefix [mem_simps]:
  "n \<le> length bs \<Longrightarrow> mem_read (mem_write m a bs) a n = take n bs"
  by (rule nth_equalityI) (auto simp: mem_read_nth mem_write_def)

lemma mem_read_write_inside [mem_simps]:
  "a \<le> b \<Longrightarrow> b + n \<le> a + length bs \<Longrightarrow>
   mem_read (mem_write m a bs) b n = take n (drop (b - a) bs)"
  by (rule nth_equalityI) (auto simp: mem_read_nth mem_write_def)

section \<open>Little-endian integers\<close>

text \<open>The object representation of an unsigned integer of \<open>k\<close> bytes on the x86-64 targets.\<close>

fun le_bytes :: "nat \<Rightarrow> nat \<Rightarrow> byte list" where
  "le_bytes 0 n = []"
| "le_bytes (Suc k) n = word_of_nat (n mod 256) # le_bytes k (n div 256)"

fun le_val :: "byte list \<Rightarrow> nat" where
  "le_val [] = 0"
| "le_val (b # bs) = unat b + 256 * le_val bs"

lemma length_le_bytes [simp]: "length (le_bytes k n) = k"
  by (induction k arbitrary: n) auto

lemma unat_byte_mod [simp]: "unat (word_of_nat (n mod 256) :: byte) = n mod 256"
  by (simp add: unat_of_nat)

lemma le_val_le_bytes: "le_val (le_bytes k n) = n mod 256 ^ k"
proof (induction k arbitrary: n)
  case 0
  then show ?case by simp
next
  case (Suc k)
  have "n mod (256 * 256 ^ k) = 256 * (n div 256 mod 256 ^ k) + n mod 256"
    by (rule mod_mult2_eq)
  with Suc.IH[of "n div 256"] show ?case by simp
qed

lemma le_val_le_bytes_id [simp]: "n < 256 ^ k \<Longrightarrow> le_val (le_bytes k n) = n"
  by (simp add: le_val_le_bytes)

lemma le_val_replicate_0 [simp]: "le_val (replicate k 0) = 0"
  by (induction k) auto

section \<open>Ordered maps and sets\<close>

text \<open>
  \<open>std::map\<close> is an association list in strictly increasing key order, so that a range-based
  loop over it is a loop over the list; \<open>std::set\<close> is a strictly increasing list, filled with
  the library's \<^const>\<open>insort_insert\<close>.
\<close>

type_synonym ('k, 'v) smap = "('k \<times> 'v) list"

fun smap_put :: "'k::linorder \<Rightarrow> 'v \<Rightarrow> ('k, 'v) smap \<Rightarrow> ('k, 'v) smap" where
  "smap_put k v [] = [(k, v)]"
| "smap_put k v ((k', v') # xs) =
     (if k < k' then (k, v) # (k', v') # xs
      else if k = k' then (k, v) # xs
      else (k', v') # smap_put k v xs)"

definition smap_ok :: "('k::linorder, 'v) smap \<Rightarrow> bool" where
  "smap_ok xs \<longleftrightarrow> sorted_wrt (<) (map fst xs)"

definition sset_ok :: "'k::linorder list \<Rightarrow> bool" where
  "sset_ok xs \<longleftrightarrow> sorted_wrt (<) xs"

lemma smap_ok_Nil [simp]: "smap_ok []"
  by (simp add: smap_ok_def)

lemma set_keys_smap_put [simp, smap_simps]:
  "fst ` set (smap_put k v xs) = insert k (fst ` set xs)"
  by (induction k v xs rule: smap_put.induct) auto

lemma smap_put_ok [smap_simps]: "smap_ok xs \<Longrightarrow> smap_ok (smap_put k v xs)"
proof (induction k v xs rule: smap_put.induct)
  case (2 k v k' v' xs)
  then show ?case
    using set_keys_smap_put[of k v xs] unfolding smap_ok_def by (auto simp: image_iff)
qed (simp add: smap_ok_def)

lemma map_of_smap_put [smap_simps]:
  "smap_ok xs \<Longrightarrow> map_of (smap_put k v xs) = (map_of xs)(k \<mapsto> v)"
proof (induction k v xs rule: smap_put.induct)
  case (2 k v k' v' xs)
  then show ?case by (auto simp: smap_ok_def fun_eq_iff)
qed (auto simp: fun_eq_iff)

lemma smap_ok_distinct: "smap_ok xs \<Longrightarrow> distinct (map fst xs)"
  by (auto simp: smap_ok_def strict_sorted_iff)

lemma smap_put_not_Nil [simp]: "smap_put k v xs \<noteq> []"
  by (induction k v xs rule: smap_put.induct) auto

lemma sset_ok_Nil [simp]: "sset_ok []"
  by (simp add: sset_ok_def)

lemma sset_insert_ok [smap_simps]: "sset_ok xs \<Longrightarrow> sset_ok (insort_insert x xs)"
  by (simp add: sset_ok_def strict_sorted_iff sorted_insort_insert distinct_insort_insert)

section \<open>Characters\<close>

definition NUL :: char where "NUL = CHR 0x00"

definition is_space :: "char \<Rightarrow> bool" where
  "is_space c \<longleftrightarrow> c \<in> {CHR '' '', CHR 0x09, CHR 0x0A, CHR 0x0B, CHR 0x0C, CHR 0x0D}"

definition is_digit :: "char \<Rightarrow> bool" where
  "is_digit c \<longleftrightarrow> (of_char CHR ''0'' :: nat) \<le> of_char c \<and> (of_char c :: nat) \<le> of_char CHR ''9''"

definition skip_space :: "string \<Rightarrow> string" where
  "skip_space = dropWhile is_space"

definition until_NUL :: "string \<Rightarrow> string" where
  "until_NUL = takeWhile (\<lambda>c. c \<noteq> NUL)"

section \<open>Decimal notation\<close>

text \<open>\<open>std::to_string\<close> on integers.\<close>

definition digit_char :: "nat \<Rightarrow> char" where
  "digit_char d = char_of (48 + d)"

fun dec_digits :: "nat \<Rightarrow> string" where
  "dec_digits n =
     (if n < 10 then [digit_char n] else dec_digits (n div 10) @ [digit_char (n mod 10)])"

declare dec_digits.simps [simp del]

definition to_string_int :: "int \<Rightarrow> string" where
  "to_string_int i = (if i < 0 then CHR ''-'' # dec_digits (nat (- i)) else dec_digits (nat i))"

definition dec_val :: "string \<Rightarrow> nat" where
  "dec_val cs = foldl (\<lambda>a c. 10 * a + (of_char c - 48)) 0 cs"

definition dec_int :: "string \<Rightarrow> int" where
  "dec_int cs = (case cs of [] \<Rightarrow> 0
     | c # cs' \<Rightarrow> if c = CHR ''-'' then - int (dec_val cs') else int (dec_val (c # cs')))"

lemma of_char_digit_char: "d < 10 \<Longrightarrow> of_char (digit_char d) = 48 + d"
  by (simp add: digit_char_def)

lemma dec_val_snoc: "dec_val (cs @ [c]) = 10 * dec_val cs + (of_char c - 48)"
  by (simp add: dec_val_def)

lemma dec_val_digits [simp]: "dec_val (dec_digits n) = n"
proof (induction n rule: dec_digits.induct)
  case (1 n)
  show ?case
  proof (cases "n < 10")
    case True
    then show ?thesis by (simp add: dec_digits.simps[of n] dec_val_def of_char_digit_char)
  next
    case False
    with 1 have "dec_val (dec_digits (n div 10)) = n div 10" by simp
    with False show ?thesis
      by (simp add: dec_digits.simps[of n] dec_val_snoc of_char_digit_char)
  qed
qed

lemma dec_digits_range: "c \<in> set (dec_digits n) \<Longrightarrow> 48 \<le> (of_char c :: nat) \<and> of_char c < (58::nat)"
proof (induction n rule: dec_digits.induct)
  case (1 n)
  show ?case
  proof (cases "n < 10")
    case True
    with 1 show ?thesis by (simp add: dec_digits.simps[of n] of_char_digit_char)
  next
    case False
    have "n mod 10 < 10" by simp
    then have "(of_char (digit_char (n mod 10)) :: nat) = 48 + n mod 10"
      by (rule of_char_digit_char)
    moreover have "c \<in> set (dec_digits (n div 10)) \<or> c = digit_char (n mod 10)"
      using 1(2) False by (auto simp: dec_digits.simps[of n])
    ultimately show ?thesis using 1(1)[OF False] \<open>n mod 10 < 10\<close> by auto
  qed
qed

lemma dec_digits_not_Nil [simp]: "dec_digits n \<noteq> []"
  by (subst dec_digits.simps) simp

lemma dec_digits_chars:
  "CHR ''.'' \<notin> set (dec_digits n)" "CHR ''-'' \<notin> set (dec_digits n)"
  by (auto dest: dec_digits_range)

lemma dec_int_to_string [simp]: "dec_int (to_string_int i) = i"
proof (cases "i < 0")
  case True
  then show ?thesis by (simp add: to_string_int_def dec_int_def)
next
  case False
  obtain c cs where d: "dec_digits (nat i) = c # cs" by (cases "dec_digits (nat i)") auto
  with dec_digits_chars(2)[of "nat i"] have "c \<noteq> CHR ''-''" by auto
  moreover have "dec_val (c # cs) = nat i" using dec_val_digits[of "nat i"] d by simp
  ultimately show ?thesis using False d by (simp add: to_string_int_def dec_int_def)
qed

lemma to_string_int_inject [simp]: "to_string_int i = to_string_int j \<longleftrightarrow> i = j"
  by (metis dec_int_to_string)

lemma to_string_int_no_dot: "CHR ''.'' \<notin> set (to_string_int i)"
  by (simp add: to_string_int_def dec_digits_chars)

end
