(* ===== verification/Timestamps.thy ===== *)
theory Timestamps
  imports Prelude
begin

text \<open>
  \<open>include/common/data/Timestamp.h\<close> and \<open>src/common/data/Timestamp.cpp\<close>: the version numbers of
  the store.  A timestamp is the pair of signed 64-bit fields that \<open>gettimeofday\<close> fills; the
  code only compares them, so they are integers here.  The comparison operators make the type a
  linear order, which is instantiated so that the library's \<open>max\<close> and sorting lemmas apply.
  \<open>get_elapsed_sec\<close> (floating point, used for the final performance line) is not modelled.
\<close>

datatype timestamp = Timestamp (ts_sec: int) (ts_usec: int)

text \<open>The default constructor, and the one from a \<open>struct timeval\<close>.\<close>

definition Timestamp_default :: timestamp where
  "Timestamp_default = Timestamp 0 0"

definition Timestamp_of_timeval :: "int \<times> int \<Rightarrow> timestamp" where
  "Timestamp_of_timeval time = Timestamp (fst time) (snd time)"

definition Timestamp_eq :: "timestamp \<Rightarrow> timestamp \<Rightarrow> bool" where
  "Timestamp_eq this other \<longleftrightarrow> ts_sec this = ts_sec other \<and> ts_usec this = ts_usec other"

definition Timestamp_gt :: "timestamp \<Rightarrow> timestamp \<Rightarrow> bool" where
  "Timestamp_gt this other =
     (if ts_sec this = ts_sec other then ts_usec this > ts_usec other
      else ts_sec this > ts_sec other)"

definition Timestamp_lt :: "timestamp \<Rightarrow> timestamp \<Rightarrow> bool" where
  "Timestamp_lt this other =
     (if ts_sec this = ts_sec other then ts_usec this < ts_usec other
      else ts_sec this < ts_sec other)"

definition Timestamp_is_empty :: "timestamp \<Rightarrow> bool" where
  "Timestamp_is_empty this = Timestamp_eq this Timestamp_default"

definition Timestamp_to_str :: "timestamp \<Rightarrow> string" where
  "Timestamp_to_str this = to_string_int (ts_sec this) @ ''.'' @ to_string_int (ts_usec this)"

text \<open>
  \<open>Timestamp::now()\<close>: the system call fills a \<open>timeval\<close>; its result is the argument.
\<close>

definition Timestamp_now :: "int \<times> int \<Rightarrow> timestamp" where
  "Timestamp_now gettimeofday_result = Timestamp_of_timeval gettimeofday_result"

section \<open>The order\<close>

instantiation timestamp :: linorder
begin

definition less_timestamp :: "timestamp \<Rightarrow> timestamp \<Rightarrow> bool" where
  "less_timestamp s t = Timestamp_lt s t"

definition less_eq_timestamp :: "timestamp \<Rightarrow> timestamp \<Rightarrow> bool" where
  "less_eq_timestamp s t = (Timestamp_lt s t \<or> s = t)"

instance
  by standard
    (auto simp: less_timestamp_def less_eq_timestamp_def Timestamp_lt_def
      intro: timestamp.expand split: if_splits)

end

lemma Timestamp_eq_iff [simp]: "Timestamp_eq s t \<longleftrightarrow> s = t"
  by (cases s; cases t) (auto simp: Timestamp_eq_def)

lemma Timestamp_lt_iff [simp]: "Timestamp_lt s t \<longleftrightarrow> s < t"
  by (simp add: less_timestamp_def)

lemma Timestamp_gt_iff [simp]: "Timestamp_gt s t \<longleftrightarrow> t < s"
  unfolding less_timestamp_def Timestamp_lt_def Timestamp_gt_def by auto

lemma Timestamp_is_empty_iff [simp]: "Timestamp_is_empty t \<longleftrightarrow> t = Timestamp_default"
  by (simp add: Timestamp_is_empty_def)

lemma Timestamp_less_simp [simp]:
  "Timestamp a b < Timestamp c d \<longleftrightarrow> a < c \<or> a = c \<and> b < d"
  unfolding less_timestamp_def Timestamp_lt_def by auto

lemma Timestamp_to_str_inject: "Timestamp_to_str s = Timestamp_to_str t \<longleftrightarrow> s = t"
proof
  assume eq: "Timestamp_to_str s = Timestamp_to_str t"
  have split: "takeWhile (\<lambda>c. c \<noteq> CHR ''.'') (Timestamp_to_str u) = to_string_int (ts_sec u)"
    "dropWhile (\<lambda>c. c \<noteq> CHR ''.'') (Timestamp_to_str u) = ''.'' @ to_string_int (ts_usec u)" for u
    using to_string_int_no_dot[of "ts_sec u"]
    by (auto simp: Timestamp_to_str_def takeWhile_append dropWhile_append)
  have "to_string_int (ts_sec s) = to_string_int (ts_sec t)"
    using split(1)[of s] split(1)[of t] eq by simp
  moreover have "''.'' @ to_string_int (ts_usec s) = ''.'' @ to_string_int (ts_usec t)"
    using split(2)[of s] split(2)[of t] eq by simp
  ultimately show "s = t" by (auto intro: timestamp.expand)
qed simp

end
