(* ===== verification/Items.thy ===== *)
theory Items
  imports Timestamps
begin

text \<open>
  The data the client and the server exchange: \<open>Item\<close> (\<open>include/common/data/Item.h\<close>,
  \<open>src/common/data/Item.cpp\<close>), \<open>Transaction\<close> (\<open>include/common/service/Transaction.h\<close>,
  \<open>src/common/service/Transaction.cpp\<close>) and \<open>RemoteKeyAndAddr\<close>.  A \<open>Value\<close> is a
  \<open>msgpack::type::raw_ref\<close>, a pointer and a length; it stands for the bytes it points to.
\<close>

section \<open>Items\<close>

record item =
  item_key :: key
  item_values :: "(field, val) smap"
  item_ts :: timestamp
  item_trx_keys :: "key list"

definition Item_default :: item where
  "Item_default = \<lparr>item_key = [], item_values = [], item_ts = Timestamp_default, item_trx_keys = []\<rparr>"

definition Item_of_key :: "key \<Rightarrow> item" where
  "Item_of_key k = Item_default\<lparr>item_key := k\<rparr>"

definition Item_versioned :: "key \<Rightarrow> (field, val) smap \<Rightarrow> timestamp \<Rightarrow> item" where
  "Item_versioned k vs ts = Item_default\<lparr>item_key := k, item_values := vs, item_ts := ts\<rparr>"

definition Item_full :: "key \<Rightarrow> (field, val) smap \<Rightarrow> timestamp \<Rightarrow> key list \<Rightarrow> item" where
  "Item_full k vs ts ks = \<lparr>item_key = k, item_values = vs, item_ts = ts, item_trx_keys = ks\<rparr>"

definition Item_is_empty :: "item \<Rightarrow> bool" where
  "Item_is_empty i \<longleftrightarrow> item_key i = []"

lemma Item_sel [simp]:
  "item_key Item_default = []" "item_values Item_default = []"
  "item_ts Item_default = Timestamp_default" "item_trx_keys Item_default = []"
  "item_key (Item_of_key k) = k" "item_values (Item_of_key k) = []"
  "item_ts (Item_of_key k) = Timestamp_default" "item_trx_keys (Item_of_key k) = []"
  "item_key (Item_versioned k vs ts) = k" "item_values (Item_versioned k vs ts) = vs"
  "item_ts (Item_versioned k vs ts) = ts" "item_trx_keys (Item_versioned k vs ts) = []"
  "item_key (Item_full k vs ts ks) = k" "item_values (Item_full k vs ts ks) = vs"
  "item_ts (Item_full k vs ts ks) = ts" "item_trx_keys (Item_full k vs ts ks) = ks"
  by (simp_all add: Item_default_def Item_of_key_def Item_versioned_def Item_full_def)

lemma Item_is_empty_default [simp]: "Item_is_empty Item_default"
  by (simp add: Item_is_empty_def)

section \<open>Remote keys and addresses\<close>

record rka =
  rka_rkey :: nat
  rka_addr :: nat

definition RemoteKeyAndAddr_default :: rka where
  "RemoteKeyAndAddr_default = \<lparr>rka_rkey = 0, rka_addr = 0\<rparr>"

definition RemoteKeyAndAddr :: "nat \<Rightarrow> nat \<Rightarrow> rka" where
  "RemoteKeyAndAddr rkey addr = \<lparr>rka_rkey = rkey, rka_addr = addr\<rparr>"

section \<open>Transactions\<close>

record trx =
  access_keys :: "key list"
  read_set :: "(key, field list) smap"
  write_set :: "(key, (field, val) smap) smap"

definition Transaction_new :: trx where
  "Transaction_new = \<lparr>access_keys = [], read_set = [], write_set = []\<rparr>"

definition Transaction_add_write :: "key \<Rightarrow> (field, val) smap \<Rightarrow> trx \<Rightarrow> trx" where
  "Transaction_add_write k values t =
     t\<lparr>access_keys := insort_insert k (access_keys t), write_set := smap_put k values (write_set t)\<rparr>"

definition Transaction_add_read :: "key \<Rightarrow> field list \<Rightarrow> trx \<Rightarrow> trx" where
  "Transaction_add_read k flds t =
     t\<lparr>access_keys := insort_insert k (access_keys t), read_set := smap_put k flds (read_set t)\<rparr>"

definition Transaction_clear :: "trx \<Rightarrow> trx" where
  "Transaction_clear t = t\<lparr>access_keys := [], read_set := [], write_set := []\<rparr>"

text \<open>
  The invariant of a transaction: its three containers are ordered and \<open>access_keys\<close> is exactly
  the union of the keys of the read set and of the write set.
\<close>

definition Transaction_ok :: "trx \<Rightarrow> bool" where
  "Transaction_ok t \<longleftrightarrow> sset_ok (access_keys t) \<and> smap_ok (read_set t) \<and> smap_ok (write_set t) \<and>
     set (access_keys t) = fst ` set (read_set t) \<union> fst ` set (write_set t)"

lemma Transaction_new_ok [simp]: "Transaction_ok Transaction_new"
  by (simp add: Transaction_ok_def Transaction_new_def)

lemma Transaction_clear_new [simp]: "Transaction_clear t = Transaction_new"
  by (simp add: Transaction_clear_def Transaction_new_def)

lemma Transaction_add_write_ok: "Transaction_ok t \<Longrightarrow> Transaction_ok (Transaction_add_write k vs t)"
  by (auto simp: Transaction_ok_def Transaction_add_write_def smap_simps set_insort_insert)

lemma Transaction_add_read_ok: "Transaction_ok t \<Longrightarrow> Transaction_ok (Transaction_add_read k fs t)"
  by (auto simp: Transaction_ok_def Transaction_add_read_def smap_simps set_insort_insert)

lemma Transaction_add_write_lookup:
  "Transaction_ok t \<Longrightarrow> map_of (write_set (Transaction_add_write k vs t)) = (map_of (write_set t))(k \<mapsto> vs)"
  by (simp add: Transaction_ok_def Transaction_add_write_def smap_simps)

end
