(* ===== verification/Messages.thy ===== *)
theory Messages
  imports Items
begin

text \<open>
  Message types and headers (\<open>include/common/service/MessageType.h\<close>, \<open>MessageHeader.h\<close>,
  \<open>src/common/service/MessageHeader.cpp\<close>) with the object representation that the sockets
  \<open>memcpy\<close>, and the typed part of \<open>include/common/net/Communicator.h\<close>: packing arguments into
  a message body and unpacking a body into destinations.

  MessagePack is not part of the repository.  It is a parameter, the record \<open>msgpack\<close> of the
  functions the code calls, and \<open>msgpack_ok\<close> is its documented round-trip contract.
\<close>

section \<open>Message types\<close>

datatype message_type =
  PREPARE | COMMIT | PUT | GET | GET_WITH_ADDR | DONE | RESULT | RELEASE_LOCKS | CLOSE

fun msg_code :: "message_type \<Rightarrow> nat" where
  "msg_code PREPARE = 0"
| "msg_code COMMIT = 1"
| "msg_code PUT = 2"
| "msg_code GET = 3"
| "msg_code GET_WITH_ADDR = 4"
| "msg_code DONE = 5"
| "msg_code RESULT = 6"
| "msg_code RELEASE_LOCKS = 7"
| "msg_code CLOSE = 8"

lemma msg_code_less: "msg_code t < 9"
  by (cases t) auto

lemma msg_code_inject [simp]: "msg_code s = msg_code t \<longleftrightarrow> s = t"
  by (cases s; cases t) auto

section \<open>Message headers\<close>

text \<open>
  On the x86-64 ABI the header occupies 24 bytes: the 4-byte enum, 4 bytes of padding, the
  8-byte \<open>size_t\<close>, the 4-byte \<open>int\<close> and 4 bytes of padding.  A copy of the object copies the
  padding too, whose contents no constructor sets; they are fields of the model that the
  constructor takes as an argument.  The fields hold the unsigned values of their bytes.
\<close>

record message_header =
  hdr_req_type :: nat
  hdr_body_size :: nat
  hdr_is_arrived :: nat
  hdr_padding :: "nat \<times> nat"

definition MessageHeader :: "nat \<times> nat \<Rightarrow> message_type \<Rightarrow> nat \<Rightarrow> message_header" where
  "MessageHeader junk req_type body_size =
     \<lparr>hdr_req_type = msg_code req_type, hdr_body_size = body_size,
      hdr_is_arrived = 0xffffffff, hdr_padding = junk\<rparr>"

definition sizeof_int :: nat where "sizeof_int = 4"
definition sizeof_MessageHeader :: nat where "sizeof_MessageHeader = 24"
definition offsetof_is_arrived :: nat where "offsetof_is_arrived = 16"

lemmas sizeof_simps = sizeof_int_def sizeof_MessageHeader_def offsetof_is_arrived_def

definition header_bytes :: "message_header \<Rightarrow> byte list" where
  "header_bytes h =
     le_bytes 4 (hdr_req_type h) @ le_bytes 4 (fst (hdr_padding h)) @
     le_bytes 8 (hdr_body_size h) @ le_bytes 4 (hdr_is_arrived h) @
     le_bytes 4 (snd (hdr_padding h))"

definition header_of_bytes :: "byte list \<Rightarrow> message_header" where
  "header_of_bytes bs =
     \<lparr>hdr_req_type = le_val (take 4 bs), hdr_body_size = le_val (take 8 (drop 8 bs)),
      hdr_is_arrived = le_val (take 4 (drop 16 bs)),
      hdr_padding = (le_val (take 4 (drop 4 bs)), le_val (take 4 (drop 20 bs)))\<rparr>"

definition header_ok :: "message_header \<Rightarrow> bool" where
  "header_ok h \<longleftrightarrow> hdr_req_type h < 2 ^ 32 \<and> hdr_body_size h < 2 ^ 64 \<and>
     hdr_is_arrived h < 2 ^ 32 \<and> fst (hdr_padding h) < 2 ^ 32 \<and> snd (hdr_padding h) < 2 ^ 32"

lemma length_header_bytes [simp]: "length (header_bytes h) = 24"
  by (simp add: header_bytes_def)

lemma header_roundtrip:
  assumes "header_ok h"
  shows "header_of_bytes (header_bytes h) = h"
proof -
  have p: "(256::nat) ^ 4 = 2 ^ 32" "(256::nat) ^ 8 = 2 ^ 64" by simp_all
  show ?thesis
    using assms by (cases h) (auto simp: header_of_bytes_def header_bytes_def header_ok_def p)
qed

lemma header_of_bytes_append: "length bs = 24 \<Longrightarrow> header_of_bytes (bs @ xs) = header_of_bytes bs"
  by (simp add: header_of_bytes_def)

lemma header_bytes_is_arrived: "take 4 (drop 16 (header_bytes h)) = le_bytes 4 (hdr_is_arrived h)"
  by (simp add: header_bytes_def)

lemma MessageHeader_ok [simp]:
  "fst junk < 2 ^ 32 \<Longrightarrow> snd junk < 2 ^ 32 \<Longrightarrow> n < 2 ^ 64 \<Longrightarrow> header_ok (MessageHeader junk t n)"
  using msg_code_less[of t] by (simp add: MessageHeader_def header_ok_def)

lemma MessageHeader_sel [simp]:
  "hdr_req_type (MessageHeader junk t n) = msg_code t"
  "hdr_body_size (MessageHeader junk t n) = n"
  "hdr_is_arrived (MessageHeader junk t n) = 0xffffffff"
  "hdr_padding (MessageHeader junk t n) = junk"
  by (simp_all add: MessageHeader_def)

section \<open>MessagePack\<close>

text \<open>
  What is packed and unpacked: keys, timestamps, items and remote keys.  \<open>mp_next\<close> is
  \<open>unpacker::next\<close> on the pending bytes: an object and the bytes after it, not enough bytes, or a
  parse error with what it leaves pending.  \<open>mp_nil\<close> is the object of a fresh \<open>unpacked\<close>.
  \<open>mp_convert\<close> gives what the destination holds afterwards, and whether \<open>convert\<close> returned
  normally (otherwise it threw \<open>type_error\<close>).
\<close>

datatype arg = Key_arg key | Ts_arg timestamp | Item_arg item | Rka_arg rka

datatype 'o next_result =
    Next_object 'o "byte list"
  | Next_incomplete
  | Next_error "byte list"

record 'o msgpack =
  mp_pack :: "arg \<Rightarrow> byte list"
  mp_next :: "byte list \<Rightarrow> 'o next_result"
  mp_nil :: 'o
  mp_convert :: "'o \<Rightarrow> arg \<Rightarrow> arg \<times> bool"

fun same_kind :: "arg \<Rightarrow> arg \<Rightarrow> bool" where
  "same_kind (Key_arg _) (Key_arg _) = True"
| "same_kind (Ts_arg _) (Ts_arg _) = True"
| "same_kind (Item_arg _) (Item_arg _) = True"
| "same_kind (Rka_arg _) (Rka_arg _) = True"
| "same_kind _ _ = False"

definition msgpack_ok :: "'o msgpack \<Rightarrow> bool" where
  "msgpack_ok mp \<longleftrightarrow>
     (\<forall>a rest. \<exists>obj. mp_next mp (mp_pack mp a @ rest) = Next_object obj rest \<and>
        (\<forall>dst. same_kind a dst \<longrightarrow> mp_convert mp obj dst = (a, True)))"

section \<open>Communicator: typed messages\<close>

fun pack_args :: "'o msgpack \<Rightarrow> arg list \<Rightarrow> byte list \<Rightarrow> byte list" where
  "pack_args mp [] sbuf = sbuf"
| "pack_args mp (first # rest) sbuf = pack_args mp rest (sbuf @ mp_pack mp first)"

fun unpack_args :: "'o msgpack \<Rightarrow> arg list \<Rightarrow> byte list \<Rightarrow> arg list \<times> byte list" where
  "unpack_args mp [] unpk = ([], unpk)"
| "unpack_args mp (first # rest) unpk =
     (let (first', unpk') =
        (case mp_next mp unpk of
           Next_object obj unpk1 \<Rightarrow> (fst (mp_convert mp obj first), unpk1)
         | Next_incomplete \<Rightarrow> (fst (mp_convert mp (mp_nil mp) first), unpk)
         | Next_error unpk1 \<Rightarrow> (first, unpk1));
        (rest', unpk'') = unpack_args mp rest unpk'
      in (first' # rest', unpk''))"

text \<open>
  \<open>send\<close>: the header and the body handed to \<open>send_msg\<close>, and the packing buffer left behind.
  \<open>recv_body\<close>: the bytes of the body join those still pending in the unpacker, and the
  destinations are filled one after the other.
\<close>

definition Communicator_send ::
    "'o msgpack \<Rightarrow> nat \<times> nat \<Rightarrow> byte list \<Rightarrow> message_type \<Rightarrow> arg list \<Rightarrow>
     (message_header \<times> byte list) \<times> byte list" where
  "Communicator_send mp junk sbuf msg_type args =
     (let sbuf' = pack_args mp args sbuf
      in ((MessageHeader junk msg_type (length sbuf'), sbuf'), []))"

definition Communicator_recv_body ::
    "'o msgpack \<Rightarrow> byte list \<Rightarrow> byte list \<Rightarrow> arg list \<Rightarrow> arg list \<times> byte list" where
  "Communicator_recv_body mp unpk body dsts = unpack_args mp dsts (unpk @ body)"

lemma pack_args_concat: "pack_args mp args sbuf = sbuf @ concat (map (mp_pack mp) args)"
  by (induction args arbitrary: sbuf) auto

lemma msgpack_okE:
  assumes "msgpack_ok mp"
  obtains obj where "mp_next mp (mp_pack mp a @ rest) = Next_object obj rest"
    and "\<And>dst. same_kind a dst \<Longrightarrow> mp_convert mp obj dst = (a, True)"
  using assms unfolding msgpack_ok_def by blast

lemma unpack_pack:
  assumes "msgpack_ok mp" and "list_all2 same_kind args dsts"
  shows "unpack_args mp dsts (concat (map (mp_pack mp) args) @ rest) = (args, rest)"
  using assms(2)
proof (induction args dsts rule: list_all2_induct)
  case (Cons a args dst dsts)
  obtain obj where "mp_next mp (mp_pack mp a @ concat (map (mp_pack mp) args) @ rest) =
      Next_object obj (concat (map (mp_pack mp) args) @ rest)"
    and "\<And>dst. same_kind a dst \<Longrightarrow> mp_convert mp obj dst = (a, True)"
    using msgpack_okE[OF assms(1), of a "concat (map (mp_pack mp) args) @ rest"] by blast
  then show ?case using Cons by simp
qed simp

section \<open>Messages\<close>

type_synonym message = "message_header \<times> byte list"

text \<open>The message that \<open>send(msg_type, args...)\<close> hands to \<open>send_msg\<close>; the packing buffer is empty between calls.\<close>

definition sent_msg :: "'o msgpack \<Rightarrow> nat \<times> nat \<Rightarrow> message_type \<Rightarrow> arg list \<Rightarrow> message" where
  "sent_msg mp junk msg_type args = fst (Communicator_send mp junk [] msg_type args)"

text \<open>The destinations \<open>Item item\<close>, \<open>Timestamp ts_c\<close> and \<open>Key key\<close> read back after \<open>recv_body\<close>.\<close>

fun arg_item :: "arg \<Rightarrow> item" where
  "arg_item (Item_arg i) = i"
| "arg_item _ = Item_default"

fun arg_ts :: "arg \<Rightarrow> timestamp" where
  "arg_ts (Ts_arg t) = t"
| "arg_ts _ = Timestamp_default"

fun arg_key :: "arg \<Rightarrow> key" where
  "arg_key (Key_arg k) = k"
| "arg_key _ = []"

fun arg_rka :: "arg \<Rightarrow> rka" where
  "arg_rka (Rka_arg r) = r"
| "arg_rka _ = RemoteKeyAndAddr_default"

definition req_type_is :: "message_header \<Rightarrow> message_type \<Rightarrow> bool" where
  "req_type_is h t \<longleftrightarrow> hdr_req_type h = msg_code t"

lemma sent_msg_eq:
  "sent_msg mp junk t args =
     (MessageHeader junk t (length (concat (map (mp_pack mp) args))), concat (map (mp_pack mp) args))"
  by (simp add: sent_msg_def Communicator_send_def pack_args_concat Let_def)

lemma req_type_is_sent [simp]: "req_type_is (fst (sent_msg mp junk t args)) t' \<longleftrightarrow> t = t'"
  by (auto simp: req_type_is_def sent_msg_eq)

text \<open>A body as \<open>send\<close> builds it is unpacked into the arguments that were sent.\<close>

lemma recv_body_sent:
  assumes "msgpack_ok mp" and "list_all2 same_kind args dsts"
  shows "Communicator_recv_body mp [] (snd (sent_msg mp junk t args)) dsts = (args, [])"
  using unpack_pack[OF assms, of "[]"] by (simp add: Communicator_recv_body_def sent_msg_eq)

end
