(* ===== verification/Buffers.thy ===== *)
theory Buffers
  imports Prelude
begin

text \<open>
  \<open>include/common/util/Buffer.h\<close> and \<open>src/common/util/Buffer.cpp\<close>: a window on raw memory with a
  write cursor and a read cursor.  The object holds pointers, so the operations take and return
  the memory they act on.  The bounds checks compare a pointer difference, which is signed, with
  a \<open>size_t\<close>; the comparison is made on unsigned 64-bit words, and so it is here.
\<close>

record buffer =
  write_pos :: nat
  read_pos :: nat
  buf_addr :: nat
  buf_size :: nat

text \<open>\<open>Buffer()\<close> leaves \<open>size\<close> uninitialised: its value is the argument.\<close>

definition Buffer_null :: "nat \<Rightarrow> buffer" where
  "Buffer_null junk = \<lparr>write_pos = 0, read_pos = 0, buf_addr = 0, buf_size = junk\<rparr>"

definition Buffer_on :: "nat \<Rightarrow> nat \<Rightarrow> buffer" where
  "Buffer_on addr sz = \<lparr>write_pos = addr, read_pos = addr, buf_addr = addr, buf_size = sz\<rparr>"

text \<open>The room between two pointers, as the \<open>size_t\<close> that the comparison converts it to.\<close>

definition room :: "nat \<Rightarrow> nat \<Rightarrow> 64 word" where
  "room hi lo = word_of_int (int hi - int lo)"

text \<open>
  \<open>Buffer::allocate\<close>: \<open>posix_memalign\<close> gives an address or fails.
\<close>

definition Buffer_allocate :: "nat option \<Rightarrow> nat \<Rightarrow> mem \<Rightarrow> (mem \<times> buffer) outcome" where
  "Buffer_allocate memalign sz m =
     (case memalign of
        None \<Rightarrow> Dies Exit_failure
      | Some addr \<Rightarrow> Ret (mem_write m addr (replicate sz 0), Buffer_on addr sz))"

definition Buffer_update :: "buffer \<Rightarrow> nat \<Rightarrow> byte list \<Rightarrow> mem \<Rightarrow> mem outcome" where
  "Buffer_update b offset src m =
     (if room (buf_addr b + buf_size b) (buf_addr b + offset) < word_of_nat (length src)
      then Dies Exit_failure
      else Ret (mem_write m (buf_addr b + offset) src))"

definition Buffer_append :: "buffer \<Rightarrow> byte list \<Rightarrow> mem \<Rightarrow> (mem \<times> buffer) outcome" where
  "Buffer_append b src m =
     (if room (buf_addr b + buf_size b) (write_pos b) < word_of_nat (length src)
      then Dies Exit_failure
      else Ret (mem_write m (write_pos b) src, b\<lparr>write_pos := write_pos b + length src\<rparr>))"

definition Buffer_read :: "buffer \<Rightarrow> nat \<Rightarrow> mem \<Rightarrow> (buffer \<times> byte list) outcome" where
  "Buffer_read b len m =
     (if room (buf_addr b + buf_size b) (read_pos b) < word_of_nat len
      then Dies Exit_failure
      else Ret (b\<lparr>read_pos := read_pos b + len\<rparr>, mem_read m (read_pos b) len))"

definition Buffer_clear :: "buffer \<Rightarrow> mem \<Rightarrow> mem \<times> buffer" where
  "Buffer_clear b m =
     (mem_write m (buf_addr b) (replicate (buf_size b) 0),
      b\<lparr>write_pos := buf_addr b, read_pos := buf_addr b\<rparr>)"

section \<open>Well-formed buffers\<close>

definition Buffer_ok :: "buffer \<Rightarrow> bool" where
  "Buffer_ok b \<longleftrightarrow> buf_size b < 2 ^ 63 \<and>
     buf_addr b \<le> write_pos b \<and> write_pos b \<le> buf_addr b + buf_size b \<and>
     buf_addr b \<le> read_pos b \<and> read_pos b \<le> buf_addr b + buf_size b"

lemma Buffer_on_sel [simp]:
  "write_pos (Buffer_on a n) = a" "read_pos (Buffer_on a n) = a"
  "buf_addr (Buffer_on a n) = a" "buf_size (Buffer_on a n) = n"
  by (simp_all add: Buffer_on_def)

lemma Buffer_on_ok [simp]: "Buffer_ok (Buffer_on a n) \<longleftrightarrow> n < 2 ^ 63"
  by (simp add: Buffer_ok_def)

lemma uint_room: "uint (room hi lo) = (int hi - int lo) mod 2 ^ 64"
  unfolding room_def uint_word_of_int by simp

lemma uint_size_t: "n < 2 ^ 64 \<Longrightarrow> uint (word_of_nat n :: 64 word) = int n"
  by (simp add: uint_nat unat_of_nat)

lemma room_less_iff:
  assumes "lo \<le> hi" and "hi - lo < 2 ^ 63" and "len < 2 ^ 64"
  shows "room hi lo < word_of_nat len \<longleftrightarrow> hi < lo + len"
proof -
  have "int hi - int lo = int (hi - lo)" using assms(1) by (simp add: of_nat_diff)
  moreover have "int (hi - lo) < 2 ^ 64" using assms(2) by (simp del: of_nat_diff)
  ultimately have "uint (room hi lo) = int (hi - lo)"
    unfolding uint_room by (simp del: of_nat_diff)
  then show ?thesis
    using assms(1) uint_size_t[OF assms(3)] unfolding word_less_def by auto
qed

text \<open>A start position past the end has, at width 64, almost \<open>2 ^ 64\<close> bytes of room.\<close>

lemma room_wraps:
  assumes "hi < lo" and "lo - hi \<le> 2 ^ 63" and "len \<le> 2 ^ 63"
  shows "\<not> room hi lo < word_of_nat len"
proof -
  define d where "d = int lo - int hi"
  have d: "int hi - int lo = - d" "0 < d" "d \<le> 2 ^ 63"
    using assms by (auto simp: d_def)
  have "(- d) mod 2 ^ 64 = 2 ^ 64 - d"
    using d by (simp add: zmod_zminus1_eq_if)
  then have "uint (room hi lo) = 2 ^ 64 - d"
    using d(1) by (simp add: uint_room)
  moreover have "uint (word_of_nat len :: 64 word) = int len"
    using assms(3) by (intro uint_size_t) simp
  moreover have "int len \<le> 2 ^ 63" using assms(3) by simp
  ultimately show ?thesis using d(3) unfolding word_less_def by simp
qed

section \<open>The operations on well-formed buffers\<close>

lemma Buffer_append_iff:
  assumes "Buffer_ok b" and "length src < 2 ^ 64"
  shows "Buffer_append b src m =
    (if write_pos b + length src \<le> buf_addr b + buf_size b
     then Ret (mem_write m (write_pos b) src, b\<lparr>write_pos := write_pos b + length src\<rparr>)
     else Dies Exit_failure)"
proof -
  have "room (buf_addr b + buf_size b) (write_pos b) < word_of_nat (length src) \<longleftrightarrow>
      buf_addr b + buf_size b < write_pos b + length src"
    using assms by (intro room_less_iff) (auto simp: Buffer_ok_def)
  then show ?thesis unfolding Buffer_append_def by auto
qed

lemma Buffer_read_iff:
  assumes "Buffer_ok b" and "len < 2 ^ 64"
  shows "Buffer_read b len m =
    (if read_pos b + len \<le> buf_addr b + buf_size b
     then Ret (b\<lparr>read_pos := read_pos b + len\<rparr>, mem_read m (read_pos b) len)
     else Dies Exit_failure)"
proof -
  have "room (buf_addr b + buf_size b) (read_pos b) < word_of_nat len \<longleftrightarrow>
      buf_addr b + buf_size b < read_pos b + len"
    using assms by (intro room_less_iff) (auto simp: Buffer_ok_def)
  then show ?thesis unfolding Buffer_read_def by auto
qed

lemma Buffer_update_iff:
  assumes "buf_size b < 2 ^ 63" and "offset \<le> buf_size b" and "length src < 2 ^ 64"
  shows "Buffer_update b offset src m =
    (if offset + length src \<le> buf_size b then Ret (mem_write m (buf_addr b + offset) src)
     else Dies Exit_failure)"
proof -
  have "room (buf_addr b + buf_size b) (buf_addr b + offset) < word_of_nat (length src) \<longleftrightarrow>
      buf_addr b + buf_size b < buf_addr b + offset + length src"
    using assms by (intro room_less_iff) auto
  then show ?thesis unfolding Buffer_update_def by auto
qed

lemma Buffer_update_past_end:
  assumes "buf_size b < offset" and "offset - buf_size b \<le> 2 ^ 63" and "length src \<le> 2 ^ 63"
  shows "Buffer_update b offset src m = Ret (mem_write m (buf_addr b + offset) src)"
proof -
  have "\<not> room (buf_addr b + buf_size b) (buf_addr b + offset) < word_of_nat (length src)"
    using assms by (intro room_wraps) auto
  then show ?thesis unfolding Buffer_update_def by simp
qed

lemma Buffer_append_ok:
  assumes "Buffer_ok b" and "length src < 2 ^ 64" and "Buffer_append b src m = Ret (m', b')"
  shows "Buffer_ok b'"
  using assms by (auto simp: Buffer_append_iff Buffer_ok_def split: if_splits)

lemma Buffer_read_ok:
  assumes "Buffer_ok b" and "len < 2 ^ 64" and "Buffer_read b len m = Ret (b', bs)"
  shows "Buffer_ok b'"
  using assms by (auto simp: Buffer_read_iff Buffer_ok_def split: if_splits)

lemma Buffer_clear_ok: "Buffer_ok b \<Longrightarrow> Buffer_ok (snd (Buffer_clear b m))"
  by (simp add: Buffer_clear_def Buffer_ok_def)

end
