(* ===== verification/Containers.thy ===== *)
theory Containers
  imports Prelude
begin

text \<open>
  The concurrent containers of \<open>include/common/data/Containers.h\<close>.  The header only names TBB
  templates; what the sources use of them is their documented container interface, stated here
  as two locales and provided by partial maps and lists.  Each operation is atomic on its
  container, which is what TBB guarantees for the operations the sources call.
\<close>

section \<open>Concurrent maps\<close>

text \<open>
  \<open>ConcurrentMap\<close>: \<open>operator[]\<close> inserts a value-initialised element when the key is absent and
  returns the element, \<open>insert\<close> leaves an existing element alone, \<open>at\<close> and \<open>find\<close> do not insert.
\<close>

type_synonym ('k, 'v) cmap = "'k \<rightharpoonup> 'v"

definition cmap_index :: "('k, 'v) cmap \<Rightarrow> 'k \<Rightarrow> 'v \<Rightarrow> ('k, 'v) cmap \<times> 'v" where
  "cmap_index m k d = (case m k of None \<Rightarrow> (m(k \<mapsto> d), d) | Some v \<Rightarrow> (m, v))"

definition cmap_assign :: "('k, 'v) cmap \<Rightarrow> 'k \<Rightarrow> 'v \<Rightarrow> ('k, 'v) cmap" where
  "cmap_assign m k v = m(k \<mapsto> v)"

definition cmap_insert :: "('k, 'v) cmap \<Rightarrow> 'k \<Rightarrow> 'v \<Rightarrow> ('k, 'v) cmap" where
  "cmap_insert m k v = (case m k of None \<Rightarrow> m(k \<mapsto> v) | Some _ \<Rightarrow> m)"

locale concurrent_map =
  fixes at :: "'m \<Rightarrow> 'k \<Rightarrow> 'v option"
    and index :: "'m \<Rightarrow> 'k \<Rightarrow> 'v \<Rightarrow> 'm \<times> 'v"
    and assign :: "'m \<Rightarrow> 'k \<Rightarrow> 'v \<Rightarrow> 'm"
    and insert :: "'m \<Rightarrow> 'k \<Rightarrow> 'v \<Rightarrow> 'm"
  assumes at_index: "at (fst (index m k d)) j = (if j = k \<and> at m k = None then Some d else at m j)"
    and index_val: "snd (index m k d) = (case at m k of None \<Rightarrow> d | Some v \<Rightarrow> v)"
    and at_assign: "at (assign m k v) j = (if j = k then Some v else at m j)"
    and at_insert: "at (insert m k v) j = (if j = k \<and> at m k = None then Some v else at m j)"
begin

text \<open>An \<open>insert\<close> after \<open>operator[]\<close> on the same key never stores its value.\<close>

lemma insert_after_index: "at (insert (fst (index m k d)) k v) = at (fst (index m k d))"
  by (rule ext) (simp add: at_insert at_index)

lemma assign_after_index: "at (assign (fst (index m k d)) k v) k = Some v"
  by (simp add: at_assign)

lemma index_twice: "at (fst (index (fst (index m k d)) k d')) = at (fst (index m k d))"
  by (rule ext) (simp add: at_index)

end

interpretation tbb_map: concurrent_map "\<lambda>m. m" cmap_index cmap_assign cmap_insert
  by unfold_locales
    (auto simp: cmap_index_def cmap_assign_def cmap_insert_def split: option.splits)

section \<open>Concurrent queues\<close>

type_synonym 'a cqueue = "'a list"

definition cqueue_push :: "'a cqueue \<Rightarrow> 'a \<Rightarrow> 'a cqueue" where
  "cqueue_push q x = q @ [x]"

definition cqueue_try_pop :: "'a cqueue \<Rightarrow> 'a cqueue \<times> 'a option" where
  "cqueue_try_pop q = (case q of [] \<Rightarrow> ([], None) | x # q' \<Rightarrow> (q', Some x))"

locale fifo_queue =
  fixes elems :: "'q \<Rightarrow> 'a list"
    and push :: "'q \<Rightarrow> 'a \<Rightarrow> 'q"
    and try_pop :: "'q \<Rightarrow> 'q \<times> 'a option"
  assumes elems_push: "elems (push q x) = elems q @ [x]"
    and elems_try_pop: "elems (fst (try_pop q)) = tl (elems q)"
    and try_pop_val: "snd (try_pop q) = (case elems q of [] \<Rightarrow> None | x # _ \<Rightarrow> Some x)"
begin

text \<open>Popping until the queue answers \<open>None\<close> yields exactly its elements, in order.\<close>

fun pops :: "nat \<Rightarrow> 'q \<Rightarrow> 'a list \<times> 'q" where
  "pops 0 q = ([], q)"
| "pops (Suc n) q =
     (case try_pop q of (q', None) \<Rightarrow> ([], q')
      | (q', Some x) \<Rightarrow> (let (xs, r) = pops n q' in (x # xs, r)))"

lemma pops_elems: "fst (pops n q) = take n (elems q)"
proof (induction n arbitrary: q)
  case (Suc n)
  obtain q' r where p: "try_pop q = (q', r)" by (cases "try_pop q")
  then have q': "elems q' = tl (elems q)" and r: "r = (case elems q of [] \<Rightarrow> None | x # _ \<Rightarrow> Some x)"
    using elems_try_pop[of q] try_pop_val[of q] by auto
  show ?case
    using p q' r Suc.IH[of q'] by (cases "elems q") (auto simp: Let_def split: prod.splits)
qed simp

lemma pops_drains: "length (elems q) \<le> n \<Longrightarrow> elems (snd (pops n q)) = []"
proof (induction n arbitrary: q)
  case (Suc n)
  obtain q' r where p: "try_pop q = (q', r)" by (cases "try_pop q")
  then have q': "elems q' = tl (elems q)" and r: "r = (case elems q of [] \<Rightarrow> None | x # _ \<Rightarrow> Some x)"
    using elems_try_pop[of q] try_pop_val[of q] by auto
  show ?case
    using p q' r Suc.IH[of q'] Suc.prems by (cases "elems q") (auto simp: Let_def split: prod.splits)
qed simp

end

interpretation tbb_queue: fifo_queue "\<lambda>q. q" cqueue_push cqueue_try_pop
  by unfold_locales (auto simp: cqueue_push_def cqueue_try_pop_def split: list.splits)

end
