(* ===== verification/Entries.thy ===== *)
theory Entries
  imports Messages Buffers Containers
begin

text \<open>
  The cache of committed items that clients read by one-sided RDMA: \<open>Entry\<close>
  (\<open>include/server/data/Entry.h\<close>, \<open>src/server/data/Entry.cpp\<close>) and \<open>CommittedItems\<close>
  (\<open>include/server/data/CommittedItems.h\<close>, \<open>src/server/data/CommittedItems.cpp\<close>).

  An entry is 2560 bytes: a 4-byte invalid flag, a message header, the packed item and a 4-byte
  arrived flag.  The writes of \<open>Entry::update\<close> are kept as a list in program order, because a
  remote reader can see the memory between any two of them.
\<close>

definition ENTRY_SIZE :: nat where "ENTRY_SIZE = 2560"
definition ENTRY_NUM :: nat where "ENTRY_NUM = 1000"
definition CACHE_SIZE :: nat where "CACHE_SIZE = ENTRY_NUM * ENTRY_SIZE"

definition Entry_IS_INVALID :: nat where "Entry_IS_INVALID = 0xffffffff"
definition Entry_IS_ARRIVED :: nat where "Entry_IS_ARRIVED = 0xffffffff"
definition Entry_IS_VALID :: nat where "Entry_IS_VALID = 0"

section \<open>Entries\<close>

definition Entry_at :: "nat \<Rightarrow> buffer" where
  "Entry_at addr = Buffer_on addr ENTRY_SIZE"

definition Entry_invalidate :: "buffer \<Rightarrow> mem \<Rightarrow> mem outcome" where
  "Entry_invalidate e m = Buffer_update e 0 (le_bytes 4 Entry_IS_INVALID) m"

definition Entry_update_writes :: "'o msgpack \<Rightarrow> nat \<times> nat \<Rightarrow> item \<Rightarrow> (nat \<times> byte list) list" where
  "Entry_update_writes mp junk it =
     (let sbuf = mp_pack mp (Item_arg it);
          header = MessageHeader junk RESULT (length sbuf);
          offset1 = sizeof_int;
          offset2 = offset1 + sizeof_MessageHeader;
          offset3 = offset2 + length sbuf
      in [(offset1, header_bytes header), (offset2, sbuf),
          (offset3, le_bytes 4 Entry_IS_ARRIVED), (0, le_bytes 4 Entry_IS_VALID)])"

definition Entry_update :: "'o msgpack \<Rightarrow> nat \<times> nat \<Rightarrow> buffer \<Rightarrow> item \<Rightarrow> mem \<Rightarrow> mem outcome" where
  "Entry_update mp junk e it m =
     fold_outcome (\<lambda>(offset, src). Buffer_update e offset src) (Entry_update_writes mp junk it) m"

text \<open>The number of bytes of an entry that an item needs, and whether it fits.\<close>

definition Entry_need :: "'o msgpack \<Rightarrow> item \<Rightarrow> nat" where
  "Entry_need mp it = 32 + length (mp_pack mp (Item_arg it))"

text \<open>An entry at address \<open>a\<close> holds an item: the four parts of a completed update.\<close>

definition Entry_holds :: "'o msgpack \<Rightarrow> nat \<times> nat \<Rightarrow> item \<Rightarrow> mem \<Rightarrow> nat \<Rightarrow> bool" where
  "Entry_holds mp junk it m a \<longleftrightarrow>
     (let sbuf = mp_pack mp (Item_arg it)
      in mem_read m a 4 = le_bytes 4 Entry_IS_VALID \<and>
         mem_read m (a + 4) 24 = header_bytes (MessageHeader junk RESULT (length sbuf)) \<and>
         mem_read m (a + 28) (length sbuf) = sbuf \<and>
         mem_read m (a + 28 + length sbuf) 4 = le_bytes 4 Entry_IS_ARRIVED)"

lemma Entry_invalidate_eq:
  "Entry_invalidate (Entry_at a) m = Ret (mem_write m a (le_bytes 4 Entry_IS_INVALID))"
  by (simp add: Entry_invalidate_def Entry_at_def Buffer_update_iff ENTRY_SIZE_def)

lemma Entry_update_fits:
  assumes "Entry_need mp it \<le> ENTRY_SIZE"
  shows "Entry_update mp junk (Entry_at a) it m =
    Ret (mem_write (mem_write (mem_write (mem_write m
      (a + 4) (header_bytes (MessageHeader junk RESULT (length (mp_pack mp (Item_arg it))))))
      (a + 28) (mp_pack mp (Item_arg it)))
      (a + 28 + length (mp_pack mp (Item_arg it))) (le_bytes 4 Entry_IS_ARRIVED))
      a (le_bytes 4 Entry_IS_VALID))"
  using assms
  by (simp add: Entry_update_def Entry_update_writes_def Entry_at_def Entry_need_def ENTRY_SIZE_def
      sizeof_simps Let_def Buffer_update_iff add.assoc)

text \<open>An item that does not fit takes the server process down.\<close>

lemma Entry_update_dies:
  assumes "ENTRY_SIZE < Entry_need mp it" and "length (mp_pack mp (Item_arg it)) < 2 ^ 63"
  shows "Entry_update mp junk (Entry_at a) it m = Dies Exit_failure"
  using assms
  by (simp add: Entry_update_def Entry_update_writes_def Entry_at_def Entry_need_def ENTRY_SIZE_def
      sizeof_simps Let_def Buffer_update_iff)

lemma Entry_update_outside:
  assumes "Entry_need mp it \<le> ENTRY_SIZE" and "Entry_update mp junk (Entry_at a) it m = Ret m'"
    and "p < a \<or> a + ENTRY_SIZE \<le> p"
  shows "m' p = m p"
proof -
  have "a + 32 + length (mp_pack mp (Item_arg it)) \<le> p \<or> p < a"
    using assms(1,3) by (auto simp: Entry_need_def)
  then show ?thesis
    using assms(2) Entry_update_fits[OF assms(1), of junk a m] by (auto simp: mem_simps)
qed

lemma Entry_update_holds:
  assumes "Entry_need mp it \<le> ENTRY_SIZE" and "Entry_update mp junk (Entry_at a) it m = Ret m'"
  shows "Entry_holds mp junk it m' a"
proof -
  let ?body = "mp_pack mp (Item_arg it)"
  have m': "m' = mem_write (mem_write (mem_write (mem_write m
      (a + 4) (header_bytes (MessageHeader junk RESULT (length ?body)))) (a + 28) ?body)
      (a + 28 + length ?body) (le_bytes 4 Entry_IS_ARRIVED)) a (le_bytes 4 Entry_IS_VALID)"
    using assms(2) Entry_update_fits[OF assms(1), of junk a m] by simp
  have 1: "mem_read m' a 4 = le_bytes 4 Entry_IS_VALID"
    unfolding m' by (rule mem_read_write_same_len) simp
  have 2: "mem_read m' (a + 4) 24 = header_bytes (MessageHeader junk RESULT (length ?body))"
    unfolding m' by (simp add: mem_simps)
  have 3: "mem_read m' (a + 28) (length ?body) = ?body"
    unfolding m' by (simp add: mem_simps)
  have 4: "mem_read m' (a + 28 + length ?body) 4 = le_bytes 4 Entry_IS_ARRIVED"
    unfolding m' by (simp add: mem_simps)
  show ?thesis unfolding Entry_holds_def Let_def using 1 2 3 4 by blast
qed

section \<open>Reading an entry remotely\<close>

text \<open>
  \<open>RDMAWriteSocket::read\<close> (\<open>src/common/net/RDMAWriteSocket.cpp\<close>) after its RDMA read has
  completed: \<open>rb\<close> is the local buffer the 2560 bytes of the entry were transferred to.  The loop
  on the header's arrived flag and the loop on the trailing flag spin on local memory, which
  nothing changes any more: if the flag is zero the call does not return.  \<open>std::bad_cast\<close>
  relatives of MessagePack other than the two the code catches end the process.
\<close>

definition rdma_transfer :: "mem \<Rightarrow> nat \<Rightarrow> mem \<Rightarrow> nat \<Rightarrow> nat \<Rightarrow> mem" where
  "rdma_transfer src a dst b n = mem_write dst b (mem_read src a n)"

definition RDMAWriteSocket_read_entry ::
    "'o msgpack \<Rightarrow> buffer \<Rightarrow> item \<Rightarrow> mem \<Rightarrow> (int \<times> item) outcome" where
  "RDMAWriteSocket_read_entry mp rb it m =
     (if le_val (mem_read m (buf_addr rb + sizeof_int + offsetof_is_arrived) 4) = 0 then Blocks
      else bind_outcome (Buffer_read rb sizeof_int m) (\<lambda>(rb1, flag).
        bind_outcome (Buffer_read rb1 sizeof_MessageHeader m) (\<lambda>(rb2, hdr).
          let header = header_of_bytes hdr;
              body = buf_addr rb + sizeof_int + sizeof_MessageHeader
          in if le_val flag \<noteq> 0 then Ret (-1, it)
             else if le_val (mem_read m (body + hdr_body_size header) 4) = 0 then Blocks
             else (case mp_next mp (mem_read m body (hdr_body_size header)) of
                 Next_incomplete \<Rightarrow> Ret (-1, it)
               | Next_error _ \<Rightarrow> Dies Uncaught_exception
               | Next_object obj _ \<Rightarrow>
                   (case mp_convert mp obj (Item_arg it) of
                      (Item_arg it', True) \<Rightarrow> Ret (0, it')
                    | (Item_arg it', False) \<Rightarrow> Ret (-1, it')
                    | _ \<Rightarrow> Ret (-1, it))))))"

lemma Buffer_read_on_eq:
  "i + n \<le> sz \<Longrightarrow> sz < 2 ^ 63 \<Longrightarrow>
   Buffer_read (Buffer_on a sz\<lparr>read_pos := a + i\<rparr>) n m =
     Ret (Buffer_on a sz\<lparr>read_pos := a + i + n\<rparr>, mem_read m (a + i) n)"
  by (subst Buffer_read_iff) (auto simp: Buffer_ok_def)

lemma Buffer_read_on_start:
  "n \<le> sz \<Longrightarrow> sz < 2 ^ 63 \<Longrightarrow>
   Buffer_read (Buffer_on a sz) n m = Ret (Buffer_on a sz\<lparr>read_pos := a + n\<rparr>, mem_read m a n)"
  by (subst Buffer_read_iff) (auto simp: Buffer_ok_def)

text \<open>The call on a packet-sized buffer, with the two cursor moves resolved.\<close>

lemma RDMAWriteSocket_read_entry_eq:
  "RDMAWriteSocket_read_entry mp (Buffer_on b ENTRY_SIZE) it m =
     (if le_val (mem_read m (b + 20) 4) = 0 then Blocks
      else if le_val (mem_read m b 4) \<noteq> 0 then Ret (-1, it)
      else let n = hdr_body_size (header_of_bytes (mem_read m (b + 4) 24)) in
        if le_val (mem_read m (b + 28 + n) 4) = 0 then Blocks
        else (case mp_next mp (mem_read m (b + 28) n) of
            Next_incomplete \<Rightarrow> Ret (-1, it)
          | Next_error _ \<Rightarrow> Dies Uncaught_exception
          | Next_object obj _ \<Rightarrow>
              (case mp_convert mp obj (Item_arg it) of
                 (Item_arg it', True) \<Rightarrow> Ret (0, it')
               | (Item_arg it', False) \<Rightarrow> Ret (-1, it')
               | _ \<Rightarrow> Ret (-1, it))))"
  by (simp add: RDMAWriteSocket_read_entry_def sizeof_simps ENTRY_SIZE_def Buffer_read_on_start
      Buffer_read_on_eq Let_def add.assoc)

text \<open>What the call sees when the buffer holds an item.\<close>

lemma read_entry_holds:
  assumes mp: "msgpack_ok mp" and fits: "Entry_need mp i \<le> ENTRY_SIZE"
    and junk: "fst junk < 2 ^ 32" "snd junk < 2 ^ 32"
    and holds: "Entry_holds mp junk i m b"
  shows "RDMAWriteSocket_read_entry mp (Buffer_on b ENTRY_SIZE) it m = Ret (0, i)"
proof -
  let ?body = "mp_pack mp (Item_arg i)"
  let ?hdr = "MessageHeader junk RESULT (length ?body)"
  have small: "length ?body < 2 ^ 64" using fits by (simp add: Entry_need_def ENTRY_SIZE_def)
  have parts: "mem_read m b 4 = le_bytes 4 Entry_IS_VALID"
      "mem_read m (b + 4) 24 = header_bytes ?hdr"
      "mem_read m (b + 28) (length ?body) = ?body"
      "mem_read m (b + 28 + length ?body) 4 = le_bytes 4 Entry_IS_ARRIVED"
    using holds unfolding Entry_holds_def Let_def by blast+
  have hdr: "header_of_bytes (mem_read m (b + 4) 24) = ?hdr"
    using parts(2) small junk by (simp add: header_roundtrip)
  have "mem_read m (b + 20) 4 = take 4 (drop 16 (mem_read m (b + 4) 24))"
    by (rule nth_equalityI) (auto simp: mem_read_nth add.assoc)
  then have arrived: "mem_read m (b + 20) 4 = le_bytes 4 0xffffffff"
    using parts(2) by (simp add: header_bytes_is_arrived)
  obtain obj where "mp_next mp ?body = Next_object obj []"
    and "\<And>dst. same_kind (Item_arg i) dst \<Longrightarrow> mp_convert mp obj dst = (Item_arg i, True)"
    using msgpack_okE[OF mp, of "Item_arg i" "[]"] by auto
  then show ?thesis
    using parts hdr arrived
    by (simp add: RDMAWriteSocket_read_entry_eq Entry_IS_VALID_def Entry_IS_ARRIVED_def)
qed

lemma read_entry_invalid:
  assumes "le_val (mem_read m b 4) \<noteq> 0"
  shows "RDMAWriteSocket_read_entry mp (Buffer_on b ENTRY_SIZE) it m \<in> {Blocks, Ret (-1, it)}"
  using assms by (simp add: RDMAWriteSocket_read_entry_eq)

text \<open>An RDMA read copies the entry, so the copy holds what the original holds.\<close>

lemma mem_read_transfer:
  "i + k \<le> n \<Longrightarrow> mem_read (rdma_transfer m a m' b n) (b + i) k = mem_read m (a + i) k"
  by (rule nth_equalityI) (auto simp: rdma_transfer_def mem_read_nth mem_write_def add.assoc)

lemma mem_read_transfer0:
  "k \<le> n \<Longrightarrow> mem_read (rdma_transfer m a m' b n) b k = mem_read m a k"
  using mem_read_transfer[of 0 k n m a m' b] by simp

lemma Entry_holds_transfer:
  assumes "Entry_holds mp junk it m a" and "Entry_need mp it \<le> ENTRY_SIZE"
  shows "Entry_holds mp junk it (rdma_transfer m a m' b ENTRY_SIZE) b"
  using assms
  unfolding Entry_holds_def Entry_need_def ENTRY_SIZE_def Let_def
  by (simp add: mem_read_transfer mem_read_transfer0 add.assoc)

end
