(* ===== verification/Caches.thy ===== *)
theory Caches
  imports Entries
begin

text \<open>
  \<open>CommittedItems\<close> (\<open>include/server/data/CommittedItems.h\<close>, \<open>src/server/data/CommittedItems.cpp\<close>):
  a region of \<open>ENTRY_NUM\<close> entries, a map from keys to entries and a queue of unused entries.
  An \<open>Entry*\<close> is the address of its window on the region; \<open>None\<close> is the null pointer, which
  \<open>operator[]\<close> stores when it creates a map element.
\<close>

record committed_items =
  ci_buf :: buffer
  ci_entries :: "(key, nat option) cmap"
  ci_unused :: "nat cqueue"
  ci_mem :: mem

definition CommittedItems_new :: "nat option \<Rightarrow> mem \<Rightarrow> committed_items outcome" where
  "CommittedItems_new memalign m =
     (case memalign of
        None \<Rightarrow> Dies Exit_failure
      | Some addr \<Rightarrow>
          (let (m', b) = Buffer_clear (Buffer_on addr CACHE_SIZE) m;
               unused = foldl (\<lambda>q i. cqueue_push q (addr + i * ENTRY_SIZE)) [] [0..<ENTRY_NUM]
           in Ret \<lparr>ci_buf = b, ci_entries = Map.empty, ci_unused = unused, ci_mem = m'\<rparr>))"

text \<open>
  \<open>unused_entries.try_pop(entries[key])\<close>: the element for the key is created first, holding a
  null pointer, and is overwritten only if the queue had an entry.
\<close>

definition CommittedItems_invalidate :: "key \<Rightarrow> committed_items \<Rightarrow> committed_items outcome" where
  "CommittedItems_invalidate k ci =
     (case ci_entries ci k of
        None \<Rightarrow>
          (let entries = fst (cmap_index (ci_entries ci) k None);
               (unused, popped) = cqueue_try_pop (ci_unused ci)
           in Ret (ci\<lparr>ci_unused := unused,
                      ci_entries := (case popped of None \<Rightarrow> entries
                                     | Some a \<Rightarrow> cmap_assign entries k (Some a))\<rparr>))
      | Some None \<Rightarrow> Dies Null_pointer
      | Some (Some a) \<Rightarrow>
          bind_outcome (Entry_invalidate (Entry_at a) (ci_mem ci)) (\<lambda>m. Ret (ci\<lparr>ci_mem := m\<rparr>)))"

definition CommittedItems_update ::
    "'o msgpack \<Rightarrow> nat \<times> nat \<Rightarrow> item \<Rightarrow> committed_items \<Rightarrow> committed_items outcome" where
  "CommittedItems_update mp junk it ci =
     (case ci_entries ci (item_key it) of
        None \<Rightarrow> Ret ci
      | Some None \<Rightarrow> Dies Null_pointer
      | Some (Some a) \<Rightarrow>
          bind_outcome (Entry_update mp junk (Entry_at a) it (ci_mem ci))
            (\<lambda>m. Ret (ci\<lparr>ci_mem := m\<rparr>)))"

definition CommittedItems_get_item_addr ::
    "'o msgpack \<Rightarrow> nat \<times> nat \<Rightarrow> key \<Rightarrow> committed_items \<Rightarrow> (committed_items \<times> nat) outcome" where
  "CommittedItems_get_item_addr mp junk k ci =
     bind_outcome
       (case ci_entries ci k of
          None \<Rightarrow>
            (case cqueue_try_pop (ci_unused ci) of
               (unused, None) \<Rightarrow> Ret (ci\<lparr>ci_unused := unused\<rparr>)
             | (unused, Some a) \<Rightarrow>
                 bind_outcome (Entry_update mp junk (Entry_at a) (Item_of_key k) (ci_mem ci))
                   (\<lambda>m. Ret (ci\<lparr>ci_unused := unused, ci_mem := m,
                                 ci_entries := cmap_assign (ci_entries ci) k (Some a)\<rparr>)))
        | Some _ \<Rightarrow> Ret ci)
       (\<lambda>ci. case ci_entries ci k of
          None \<Rightarrow> Dies Uncaught_exception
        | Some None \<Rightarrow> Dies Null_pointer
        | Some (Some a) \<Rightarrow> Ret (ci, a))"

section \<open>The cache invariant\<close>

text \<open>
  \<open>CommittedItems_ok\<close>: unused entries and entries in use are distinct slots of the region,
  and unused slots are still zero.
\<close>

definition cache_slots :: "committed_items \<Rightarrow> nat set" where
  "cache_slots ci = (\<lambda>i. buf_addr (ci_buf ci) + i * ENTRY_SIZE) ` {..<ENTRY_NUM}"

definition CommittedItems_ok :: "committed_items \<Rightarrow> bool" where
  "CommittedItems_ok ci \<longleftrightarrow>
     distinct (ci_unused ci) \<and> set (ci_unused ci) \<subseteq> cache_slots ci \<and>
     (\<forall>k a. ci_entries ci k = Some (Some a) \<longrightarrow> a \<in> cache_slots ci - set (ci_unused ci)) \<and>
     (\<forall>j k a. ci_entries ci j = Some (Some a) \<longrightarrow> ci_entries ci k = Some (Some a) \<longrightarrow> j = k) \<and>
     (\<forall>a \<in> set (ci_unused ci). \<forall>p. a \<le> p \<and> p < a + ENTRY_SIZE \<longrightarrow> ci_mem ci p = 0)"

text \<open>
  \<open>slot_ok P\<close>: the entry at \<open>a\<close> has never been written, is marked invalid, or holds an item
  that satisfies \<open>P\<close>.  \<open>cache_inv P\<close>: every entry in use is in such a state for its key.
\<close>

definition slot_ok :: "'o msgpack \<Rightarrow> (item \<Rightarrow> bool) \<Rightarrow> mem \<Rightarrow> nat \<Rightarrow> bool" where
  "slot_ok mp P m a \<longleftrightarrow>
     mem_read m a ENTRY_SIZE = replicate ENTRY_SIZE 0 \<or>
     le_val (mem_read m a 4) \<noteq> 0 \<or>
     (\<exists>it junk. fst junk < 2 ^ 32 \<and> snd junk < 2 ^ 32 \<and> Entry_need mp it \<le> ENTRY_SIZE \<and>
        Entry_holds mp junk it m a \<and> P it)"

definition cache_inv :: "'o msgpack \<Rightarrow> (key \<Rightarrow> item \<Rightarrow> bool) \<Rightarrow> committed_items \<Rightarrow> bool" where
  "cache_inv mp P ci \<longleftrightarrow> CommittedItems_ok ci \<and>
     (\<forall>k a. ci_entries ci k = Some (Some a) \<longrightarrow> slot_ok mp (P k) (ci_mem ci) a)"

lemma slots_apart:
  assumes "a \<in> cache_slots ci" and "b \<in> cache_slots ci" and "a \<noteq> b"
  shows "a + ENTRY_SIZE \<le> b \<or> b + ENTRY_SIZE \<le> a"
proof -
  obtain i j where ij: "a = buf_addr (ci_buf ci) + i * ENTRY_SIZE" "b = buf_addr (ci_buf ci) + j * ENTRY_SIZE"
    using assms by (auto simp: cache_slots_def)
  with assms(3) have "i < j \<or> j < i" by auto
  then have "Suc i * ENTRY_SIZE \<le> j * ENTRY_SIZE \<or> Suc j * ENTRY_SIZE \<le> i * ENTRY_SIZE"
    by (meson Suc_leI mult_le_mono1)
  then show ?thesis using ij by auto
qed

lemma cache_slots_simps [simp]:
  "cache_slots (ci\<lparr>ci_mem := m\<rparr>) = cache_slots ci"
  "cache_slots (ci\<lparr>ci_unused := u\<rparr>) = cache_slots ci"
  "cache_slots (ci\<lparr>ci_entries := e\<rparr>) = cache_slots ci"
  by (simp_all add: cache_slots_def)

lemma slot_ok_frame:
  assumes "\<And>p. a \<le> p \<Longrightarrow> p < a + ENTRY_SIZE \<Longrightarrow> m' p = m p"
  shows "slot_ok mp P m' a = slot_ok mp P m a"
proof -
  have rd: "mem_read m' (a + i) n = mem_read m (a + i) n" if "i + n \<le> ENTRY_SIZE" for i n
    using that assms by (intro mem_read_cong) auto
  have "Entry_holds mp junk it m' a = Entry_holds mp junk it m a"
    if "Entry_need mp it \<le> ENTRY_SIZE" for junk it
    using that rd[of 0 4] rd[of 4 24] rd[of 28 "length (mp_pack mp (Item_arg it))"]
      rd[of "28 + length (mp_pack mp (Item_arg it))" 4]
    by (simp add: Entry_holds_def Entry_need_def ENTRY_SIZE_def Let_def add.assoc)
  moreover have "mem_read m' a ENTRY_SIZE = mem_read m a ENTRY_SIZE"
    using rd[of 0 ENTRY_SIZE] by simp
  moreover have "mem_read m' a 4 = mem_read m a 4"
    using rd[of 0 4] by (simp add: ENTRY_SIZE_def)
  ultimately show ?thesis unfolding slot_ok_def by (metis (no_types, lifting))
qed

lemma slot_ok_holdsI:
  "Entry_holds mp junk it m a \<Longrightarrow> fst junk < 2 ^ 32 \<Longrightarrow> snd junk < 2 ^ 32 \<Longrightarrow>
   Entry_need mp it \<le> ENTRY_SIZE \<Longrightarrow> P it \<Longrightarrow> slot_ok mp P m a"
  unfolding slot_ok_def by blast

lemma slot_ok_mono: "slot_ok mp P m a \<Longrightarrow> (\<And>it. P it \<Longrightarrow> Q it) \<Longrightarrow> slot_ok mp Q m a"
  unfolding slot_ok_def by blast

lemma cache_inv_mono: "cache_inv mp P ci \<Longrightarrow> (\<And>k it. P k it \<Longrightarrow> Q k it) \<Longrightarrow> cache_inv mp Q ci"
  unfolding cache_inv_def by (blast intro: slot_ok_mono)

text \<open>Rewriting one entry in use, inside its slot, keeps the structure.\<close>

lemma cache_inv_write_slot:
  assumes inv: "cache_inv mp P ci" and a: "ci_entries ci k = Some (Some a)"
    and frame: "\<And>p. p < a \<or> a + ENTRY_SIZE \<le> p \<Longrightarrow> m' p = ci_mem ci p"
    and ok: "slot_ok mp (P k) m' a"
  shows "cache_inv mp P (ci\<lparr>ci_mem := m'\<rparr>)"
proof -
  have wf: "CommittedItems_ok ci" using inv by (simp add: cache_inv_def)
  have a_slot: "a \<in> cache_slots ci - set (ci_unused ci)"
    using wf a by (auto simp: CommittedItems_ok_def)
  have apart: "m' p = ci_mem ci p"
    if "b \<in> cache_slots ci" "b \<noteq> a" "b \<le> p" "p < b + ENTRY_SIZE" for b p
    using slots_apart[of a ci b] a_slot that by (intro frame) auto
  have "m' p = 0" if b: "b \<in> set (ci_unused ci)" "b \<le> p" "p < b + ENTRY_SIZE" for b p
  proof -
    have "b \<in> cache_slots ci" "b \<noteq> a" "ci_mem ci p = 0"
      using b wf a_slot by (auto simp: CommittedItems_ok_def)
    then show ?thesis using apart[of b p] b by simp
  qed
  then have "CommittedItems_ok (ci\<lparr>ci_mem := m'\<rparr>)"
    using wf by (simp add: CommittedItems_ok_def)
  moreover have "slot_ok mp (P j) m' b" if j: "ci_entries ci j = Some (Some b)" for j b
  proof (cases "b = a")
    case True
    then have "j = k" using wf a j unfolding CommittedItems_ok_def by blast
    then show ?thesis using True ok by simp
  next
    case False
    have "b \<in> cache_slots ci" using wf j by (auto simp: CommittedItems_ok_def)
    then have "slot_ok mp (P j) m' b = slot_ok mp (P j) (ci_mem ci) b"
      using False apart by (intro slot_ok_frame) auto
    then show ?thesis using inv j by (simp add: cache_inv_def)
  qed
  ultimately show ?thesis by (simp add: cache_inv_def)
qed

text \<open>Taking an unused entry for a key that had none.\<close>

lemma cache_inv_take_slot:
  assumes inv: "cache_inv mp P ci" and k: "ci_entries ci k = None"
    and u: "ci_unused ci = a # u"
  shows "cache_inv mp P (ci\<lparr>ci_unused := u, ci_entries := (ci_entries ci)(k \<mapsto> Some a)\<rparr>)"
proof -
  have wf: "CommittedItems_ok ci" using inv by (simp add: cache_inv_def)
  have fresh: "mem_read (ci_mem ci) a ENTRY_SIZE = replicate ENTRY_SIZE 0"
    using wf u by (intro nth_equalityI) (auto simp: CommittedItems_ok_def mem_read_nth)
  have old: "b \<noteq> a" if "ci_entries ci j = Some (Some b)" for j b
    using wf u that unfolding CommittedItems_ok_def by auto
  have wf': "CommittedItems_ok (ci\<lparr>ci_unused := u, ci_entries := (ci_entries ci)(k \<mapsto> Some a)\<rparr>)"
    using wf u old unfolding CommittedItems_ok_def by (auto split: if_splits)
  have "slot_ok mp (P k) (ci_mem ci) a" using fresh by (simp add: slot_ok_def)
  then show ?thesis
    using inv wf' unfolding cache_inv_def by auto
qed

lemma cache_inv_null_slot:
  assumes "cache_inv mp P ci" and "ci_entries ci k = None"
  shows "cache_inv mp P (ci\<lparr>ci_entries := (ci_entries ci)(k \<mapsto> None)\<rparr>)"
  using assms unfolding cache_inv_def CommittedItems_ok_def by (auto split: if_splits)

section \<open>The operations keep the invariant\<close>

lemma CommittedItems_invalidate_inv:
  assumes inv: "cache_inv mp P ci" and ret: "CommittedItems_invalidate k ci = Ret ci'"
  shows "cache_inv mp P ci'"
proof (cases "ci_entries ci k")
  case None
  show ?thesis
  proof (cases "ci_unused ci")
    case Nil
    with None ret have "ci' = ci\<lparr>ci_entries := (ci_entries ci)(k \<mapsto> None)\<rparr>"
      by (cases ci) (auto simp: CommittedItems_invalidate_def cmap_index_def cqueue_try_pop_def)
    then show ?thesis using cache_inv_null_slot[OF inv None] by simp
  next
    case (Cons a u)
    with None ret have "ci' = ci\<lparr>ci_unused := u, ci_entries := (ci_entries ci)(k \<mapsto> Some a)\<rparr>"
      by (simp add: CommittedItems_invalidate_def cmap_index_def cmap_assign_def cqueue_try_pop_def)
    then show ?thesis using cache_inv_take_slot[OF inv None Cons] by simp
  qed
next
  case (Some e)
  then obtain a where e: "e = Some a"
    using ret by (cases e) (auto simp: CommittedItems_invalidate_def)
  let ?m = "mem_write (ci_mem ci) a (le_bytes 4 Entry_IS_INVALID)"
  have ci': "ci' = ci\<lparr>ci_mem := ?m\<rparr>"
    using Some e ret by (simp add: CommittedItems_invalidate_def Entry_invalidate_eq)
  have "le_val (mem_read ?m a 4) \<noteq> 0"
    by (subst mem_read_write_same_len) (simp_all add: Entry_IS_INVALID_def)
  then have "slot_ok mp (P k) ?m a" by (simp add: slot_ok_def)
  moreover have "?m p = ci_mem ci p" if "p < a \<or> a + ENTRY_SIZE \<le> p" for p
    using that by (intro mem_write_outside) (auto simp: ENTRY_SIZE_def)
  ultimately show ?thesis
    unfolding ci' using inv Some e by (intro cache_inv_write_slot) auto
qed

lemma CommittedItems_update_inv:
  assumes inv: "cache_inv mp P ci" and ret: "CommittedItems_update mp junk it ci = Ret ci'"
    and junk: "fst junk < 2 ^ 32" "snd junk < 2 ^ 32"
    and fits: "Entry_need mp it \<le> ENTRY_SIZE" and P: "P (item_key it) it"
  shows "cache_inv mp P ci'"
proof (cases "ci_entries ci (item_key it)")
  case None
  then show ?thesis using inv ret by (simp add: CommittedItems_update_def)
next
  case (Some e)
  then obtain a m where e: "e = Some a" and m: "Entry_update mp junk (Entry_at a) it (ci_mem ci) = Ret m"
    and ci': "ci' = ci\<lparr>ci_mem := m\<rparr>"
    using ret by (cases e) (auto simp: CommittedItems_update_def bind_outcome_Ret_iff)
  have "slot_ok mp (P (item_key it)) m a"
    by (rule slot_ok_holdsI[where P = "P (item_key it)", OF Entry_update_holds[OF fits m] junk fits P])
  then show ?thesis
    unfolding ci' using inv Some e Entry_update_outside[OF fits m]
    by (intro cache_inv_write_slot) auto
qed

text \<open>
  The lookup of an address answers an entry in use for the key; a key without one gets a slot
  holding the empty item.
\<close>

lemma CommittedItems_get_item_addr_inv:
  assumes inv: "cache_inv mp P ci"
    and ret: "CommittedItems_get_item_addr mp junk k ci = Ret (ci', a)"
    and junk: "fst junk < 2 ^ 32" "snd junk < 2 ^ 32"
    and fits: "Entry_need mp (Item_of_key k) \<le> ENTRY_SIZE" and P: "P k (Item_of_key k)"
  shows "cache_inv mp P ci' \<and> ci_entries ci' k = Some (Some a)"
proof (cases "ci_entries ci k")
  case None
  have "ci_unused ci \<noteq> []"
    using None ret by (auto simp: CommittedItems_get_item_addr_def cqueue_try_pop_def)
  then obtain b u where u: "ci_unused ci = b # u" by (cases "ci_unused ci") auto
  let ?ci1 = "ci\<lparr>ci_unused := u, ci_entries := (ci_entries ci)(k \<mapsto> Some b)\<rparr>"
  have "returns (Entry_update mp junk (Entry_at b) (Item_of_key k) (ci_mem ci))"
    using None u ret
    by (cases "Entry_update mp junk (Entry_at b) (Item_of_key k) (ci_mem ci)")
      (simp_all add: CommittedItems_get_item_addr_def cqueue_try_pop_def)
  then obtain m where m: "Entry_update mp junk (Entry_at b) (Item_of_key k) (ci_mem ci) = Ret m"
    by (auto simp: returns_def)
  then have "ci' = ?ci1\<lparr>ci_mem := m\<rparr> \<and> a = b"
    using None u ret
    by (auto simp: CommittedItems_get_item_addr_def cqueue_try_pop_def cmap_assign_def)
  then have ci': "ci' = ?ci1\<lparr>ci_mem := m\<rparr>" and a: "a = b" by blast+
  have "slot_ok mp (P k) m b"
    by (rule slot_ok_holdsI[where P = "P k", OF Entry_update_holds[OF fits m] junk fits P])
  moreover have "cache_inv mp P ?ci1" by (rule cache_inv_take_slot[OF inv None u])
  ultimately have "cache_inv mp P (?ci1\<lparr>ci_mem := m\<rparr>)"
    using Entry_update_outside[OF fits m] by (intro cache_inv_write_slot) auto
  then show ?thesis using ci' a by simp
next
  case (Some e)
  then show ?thesis
    using inv ret by (cases e) (auto simp: CommittedItems_get_item_addr_def)
qed

section \<open>Remote readers\<close>

text \<open>
  A client that reads an entry in use gets \<^emph>\<open>no\<close> item (the call does not return, or answers -1)
  or an item satisfying the invariant: never a mixture of two items.
\<close>

lemma read_entry_fresh:
  assumes "mem_read m b ENTRY_SIZE = replicate ENTRY_SIZE 0"
  shows "RDMAWriteSocket_read_entry mp (Buffer_on b ENTRY_SIZE) it m = Blocks"
proof -
  have "mem_read m b ENTRY_SIZE = mem_read m b 20 @ mem_read m (b + 20) 4 @ mem_read m (b + 24) 2536"
    using mem_read_append[of m b 20 2540] mem_read_append[of m "b + 20" 4 2536]
    by (simp add: ENTRY_SIZE_def add.assoc)
  then have "mem_read m (b + 20) 4 = take 4 (drop 20 (replicate ENTRY_SIZE (0::byte)))"
    using assms by (metis append_eq_conv_conj length_mem_read)
  then have "mem_read m (b + 20) 4 = replicate 4 0" by (simp add: ENTRY_SIZE_def)
  then show ?thesis by (simp add: RDMAWriteSocket_read_entry_eq)
qed

lemma read_entry_slot:
  assumes mp: "msgpack_ok mp" and ok: "slot_ok mp P m a"
  shows "RDMAWriteSocket_read_entry mp (Buffer_on b ENTRY_SIZE) it
           (rdma_transfer m a m' b ENTRY_SIZE) \<in> {Blocks, Ret (-1, it)} \<union> (\<lambda>i. Ret (0, i)) ` {i. P i}"
proof -
  let ?t = "rdma_transfer m a m' b ENTRY_SIZE"
  from ok consider
      "mem_read m a ENTRY_SIZE = replicate ENTRY_SIZE 0"
    | "le_val (mem_read m a 4) \<noteq> 0"
    | i junk where "fst junk < 2 ^ 32" "snd junk < 2 ^ 32" "Entry_need mp i \<le> ENTRY_SIZE"
        "Entry_holds mp junk i m a" "P i"
    unfolding slot_ok_def by blast
  then show ?thesis
  proof cases
    case 1
    then have "mem_read ?t b ENTRY_SIZE = replicate ENTRY_SIZE 0"
      by (simp add: mem_read_transfer0)
    then show ?thesis by (simp add: read_entry_fresh)
  next
    case 2
    have "mem_read ?t b 4 = mem_read m a 4"
      by (rule mem_read_transfer0) (simp add: ENTRY_SIZE_def)
    then have "le_val (mem_read ?t b 4) \<noteq> 0" using 2 by simp
    then show ?thesis using read_entry_invalid by blast
  next
    case 3
    then show ?thesis
      using read_entry_holds[OF mp _ _ _ Entry_holds_transfer[OF 3(4,3)]] by auto
  qed
qed

section \<open>The constructor\<close>

lemma foldl_push: "foldl (\<lambda>q i. cqueue_push q (f i)) q is = q @ map f is"
  by (induction "is" arbitrary: q) (auto simp: cqueue_push_def)

lemma CommittedItems_new_inv:
  assumes "CommittedItems_new memalign m = Ret ci"
  shows "cache_inv mp P ci \<and> ci_entries ci = Map.empty \<and> length (ci_unused ci) = ENTRY_NUM"
proof -
  obtain addr where addr: "memalign = Some addr"
    using assms by (cases memalign) (auto simp: CommittedItems_new_def)
  have ci: "ci_buf ci = Buffer_on addr CACHE_SIZE" "ci_entries ci = Map.empty"
    "ci_unused ci = map (\<lambda>i. addr + i * ENTRY_SIZE) [0..<ENTRY_NUM]"
    "ci_mem ci = mem_write m addr (replicate CACHE_SIZE 0)"
    using assms addr
    by (auto simp: CommittedItems_new_def Buffer_clear_def foldl_push Buffer_on_def)
  have "inj_on (\<lambda>i. addr + i * ENTRY_SIZE) {0..<ENTRY_NUM}"
    by (rule inj_onI) (simp add: ENTRY_SIZE_def)
  then have 1: "distinct (ci_unused ci)" by (simp add: ci distinct_map)
  have 2: "set (ci_unused ci) = cache_slots ci" by (auto simp: ci cache_slots_def)
  have 3: "ci_mem ci p = 0" if a: "a \<in> set (ci_unused ci)" "a \<le> p" "p < a + ENTRY_SIZE" for a p
  proof -
    obtain i where i: "a = addr + i * ENTRY_SIZE" "i < ENTRY_NUM" using a by (auto simp: ci)
    then have "Suc i * ENTRY_SIZE \<le> CACHE_SIZE" unfolding CACHE_SIZE_def by (intro mult_le_mono1) simp
    then show ?thesis using a i by (auto simp: ci mem_write_def)
  qed
  show ?thesis using 1 2 3 ci(2,3) by (auto simp: cache_inv_def CommittedItems_ok_def)
qed

section \<open>Entries stay where they are\<close>

text \<open>A key keeps its entry for ever, so an address once handed out stays the address of the key.\<close>

definition entries_le :: "committed_items \<Rightarrow> committed_items \<Rightarrow> bool" where
  "entries_le ci ci' \<longleftrightarrow> (\<forall>k a. ci_entries ci k = Some (Some a) \<longrightarrow> ci_entries ci' k = Some (Some a))"

lemma entries_le_refl [simp]: "entries_le ci ci"
  by (simp add: entries_le_def)

lemma entries_le_trans: "entries_le a b \<Longrightarrow> entries_le b c \<Longrightarrow> entries_le a c"
  by (simp add: entries_le_def)

lemma CommittedItems_invalidate_entries:
  assumes "CommittedItems_invalidate k ci = Ret ci'"
  shows "entries_le ci ci'"
proof (cases "ci_entries ci k")
  case None
  then have "ci_entries ci' k' = ci_entries ci k'" if "k' \<noteq> k" for k'
    using assms that
    by (cases "ci_unused ci")
      (auto simp: CommittedItems_invalidate_def cmap_index_def cmap_assign_def cqueue_try_pop_def)
  moreover have "k' \<noteq> k" if "ci_entries ci k' = Some (Some b)" for k' b
    using that None by auto
  ultimately have "ci_entries ci' k' = Some (Some b)" if "ci_entries ci k' = Some (Some b)" for k' b
    using that by metis
  then show ?thesis by (simp add: entries_le_def)
next
  case (Some e)
  then show ?thesis
    using assms by (cases e) (auto simp: CommittedItems_invalidate_def entries_le_def bind_outcome_Ret_iff)
qed

lemma CommittedItems_update_entries:
  "CommittedItems_update mp junk it ci = Ret ci' \<Longrightarrow> entries_le ci ci'"
  by (auto simp: CommittedItems_update_def entries_le_def bind_outcome_Ret_iff split: option.splits)

lemma CommittedItems_get_item_addr_entries:
  assumes "CommittedItems_get_item_addr mp junk k ci = Ret (ci', a)"
  shows "entries_le ci ci'"
proof (cases "ci_entries ci k")
  case None
  show ?thesis
  proof (cases "ci_unused ci")
    case Nil
    then show ?thesis
      using assms None by (simp add: CommittedItems_get_item_addr_def cqueue_try_pop_def)
  next
    case (Cons b u)
    then have "ci_entries ci' = (ci_entries ci)(k \<mapsto> Some b)"
      using assms None
      by (cases "Entry_update mp junk (Entry_at b) (Item_of_key k) (ci_mem ci)")
        (auto simp: CommittedItems_get_item_addr_def cqueue_try_pop_def cmap_assign_def)
    then show ?thesis using None by (auto simp: entries_le_def)
  qed
next
  case (Some e)
  then show ?thesis using assms by (cases e) (auto simp: CommittedItems_get_item_addr_def)
qed

section \<open>Room for all keys\<close>

text \<open>
  As long as no more than \<open>ENTRY_NUM\<close> keys are used, the queue has an entry for every new key and
  no null pointer is stored.
\<close>

definition cache_room :: "key set \<Rightarrow> committed_items \<Rightarrow> bool" where
  "cache_room K ci \<longleftrightarrow> finite K \<and> card K \<le> ENTRY_NUM \<and> dom (ci_entries ci) \<subseteq> K \<and>
     (\<forall>k. ci_entries ci k \<noteq> Some None) \<and> card (dom (ci_entries ci)) + length (ci_unused ci) = ENTRY_NUM"

lemma cache_room_unused:
  assumes "cache_room K ci" and "k \<in> K" and "ci_entries ci k = None"
  shows "ci_unused ci \<noteq> []"
proof -
  have "dom (ci_entries ci) \<subset> K" using assms by (auto simp: cache_room_def)
  then have "card (dom (ci_entries ci)) < card K"
    using assms(1) by (auto simp: cache_room_def intro: psubset_card_mono)
  then show ?thesis using assms(1) by (auto simp: cache_room_def)
qed

lemma cache_room_take:
  assumes "cache_room K ci" and "k \<in> K" and "ci_entries ci k = None" and "ci_unused ci = a # u"
  shows "cache_room K (ci\<lparr>ci_unused := u, ci_entries := (ci_entries ci)(k \<mapsto> Some a)\<rparr>)"
proof -
  have "finite (dom (ci_entries ci))" using assms(1) by (auto simp: cache_room_def intro: finite_subset)
  then have "card (insert k (dom (ci_entries ci))) = Suc (card (dom (ci_entries ci)))"
    using assms(3) by (intro card_insert_disjoint) auto
  then show ?thesis using assms by (auto simp: cache_room_def)
qed

lemma cache_room_mem [simp]: "cache_room K (ci\<lparr>ci_mem := m\<rparr>) = cache_room K ci"
  by (simp add: cache_room_def)

lemma cache_room_some: "cache_room K ci \<Longrightarrow> ci_entries ci k = Some e \<Longrightarrow> \<exists>a. e = Some a"
  by (cases e) (auto simp: cache_room_def)

lemma CommittedItems_invalidate_room:
  assumes "cache_room K ci" and "k \<in> K"
  shows "\<exists>ci'. CommittedItems_invalidate k ci = Ret ci' \<and> cache_room K ci'"
proof (cases "ci_entries ci k")
  case None
  then obtain a u where u: "ci_unused ci = a # u"
    using cache_room_unused[OF assms None] by (cases "ci_unused ci") auto
  then show ?thesis
    using None cache_room_take[OF assms None u]
    by (simp add: CommittedItems_invalidate_def cmap_index_def cmap_assign_def cqueue_try_pop_def)
next
  case (Some e)
  then obtain a where "e = Some a" using cache_room_some assms(1) by blast
  then show ?thesis using Some assms(1) by (simp add: CommittedItems_invalidate_def Entry_invalidate_eq)
qed

lemma CommittedItems_update_room:
  assumes "cache_room K ci" and "Entry_need mp it \<le> ENTRY_SIZE"
  shows "\<exists>ci'. CommittedItems_update mp junk it ci = Ret ci' \<and> cache_room K ci'"
proof (cases "ci_entries ci (item_key it)")
  case (Some e)
  then obtain a where "e = Some a" using cache_room_some assms(1) by blast
  then show ?thesis using Some assms by (simp add: CommittedItems_update_def Entry_update_fits)
qed (use assms in \<open>simp add: CommittedItems_update_def\<close>)

lemma CommittedItems_get_item_addr_room:
  assumes "cache_room K ci" and "k \<in> K" and "Entry_need mp (Item_of_key k) \<le> ENTRY_SIZE"
  shows "\<exists>ci' a. CommittedItems_get_item_addr mp junk k ci = Ret (ci', a) \<and> cache_room K ci'"
proof (cases "ci_entries ci k")
  case None
  then obtain a u where u: "ci_unused ci = a # u"
    using cache_room_unused[OF assms(1,2) None] by (cases "ci_unused ci") auto
  then show ?thesis
    using None cache_room_take[OF assms(1,2) None u] assms(3)
    by (simp add: CommittedItems_get_item_addr_def cmap_assign_def cqueue_try_pop_def Entry_update_fits
        cache_room_def)
next
  case (Some e)
  then obtain a where "e = Some a" using cache_room_some assms(1) by blast
  then show ?thesis using Some assms(1) by (simp add: CommittedItems_get_item_addr_def)
qed

lemma CommittedItems_new_room:
  assumes "CommittedItems_new memalign m = Ret ci" and "finite K" and "card K \<le> ENTRY_NUM"
  shows "cache_room K ci"
proof -
  have "ci_entries ci = Map.empty \<and> length (ci_unused ci) = ENTRY_NUM"
    using CommittedItems_new_inv[OF assms(1)] by blast
  then show ?thesis using assms(2,3) unfolding cache_room_def by simp
qed

end
