(* ===== verification/Tables.thy ===== *)
theory Tables
  imports Caches
begin

text \<open>
  \<open>Table\<close> (\<open>include/server/data/Table.h\<close>, \<open>src/server/data/Table.cpp\<close>): the multi-version store
  of a server.  \<open>items\<close> maps a timestamp to the items written with it, \<open>latest_commit\<close> maps a
  key to the version that readers get by default, \<open>committed_items\<close> is the cache of the RDMA
  readers.  Logging is left out.
\<close>

record table =
  tbl_items :: "(timestamp, item list) cmap"
  tbl_latest :: "(key, timestamp) cmap"
  tbl_committed :: committed_items

definition Table_new :: "nat option \<Rightarrow> mem \<Rightarrow> table outcome" where
  "Table_new memalign m =
     bind_outcome (CommittedItems_new memalign m) (\<lambda>ci.
       Ret \<lparr>tbl_items = Map.empty, tbl_latest = Map.empty, tbl_committed = ci\<rparr>)"

definition Table_prepare :: "item \<Rightarrow> table \<Rightarrow> table outcome" where
  "Table_prepare it t =
     (let (items, v) = cmap_index (tbl_items t) (item_ts it) [];
          t = t\<lparr>tbl_items := cmap_assign items (item_ts it) (v @ [it])\<rparr>
      in bind_outcome (CommittedItems_invalidate (item_key it) (tbl_committed t))
           (\<lambda>ci. Ret (t\<lparr>tbl_committed := ci\<rparr>)))"

text \<open>
  The body of the loop in \<open>Table::commit(ts_c)\<close>: \<open>latest_commit[item.key]\<close> creates the element
  before it is compared, and the new version is stored with \<open>insert\<close>.
\<close>

definition Table_commit_item ::
    "'o msgpack \<Rightarrow> nat \<times> nat \<Rightarrow> timestamp \<Rightarrow> item \<Rightarrow> table \<Rightarrow> table outcome" where
  "Table_commit_item mp junk ts_c it t =
     (let (latest, v) = cmap_index (tbl_latest t) (item_key it) Timestamp_default
      in if Timestamp_lt v ts_c
         then bind_outcome (CommittedItems_update mp junk it (tbl_committed t)) (\<lambda>ci.
                Ret (t\<lparr>tbl_latest := cmap_insert latest (item_key it) ts_c, tbl_committed := ci\<rparr>))
         else Ret (t\<lparr>tbl_latest := latest\<rparr>))"

definition Table_commit ::
    "'o msgpack \<Rightarrow> nat \<times> nat \<Rightarrow> timestamp \<Rightarrow> table \<Rightarrow> table outcome" where
  "Table_commit mp junk ts_c t =
     (case tbl_items t ts_c of
        None \<Rightarrow> Ret t
      | Some its \<Rightarrow> fold_outcome (Table_commit_item mp junk ts_c) its t)"

definition Table_commit_key :: "key \<Rightarrow> timestamp \<Rightarrow> table \<Rightarrow> table" where
  "Table_commit_key k ts_c t =
     (let (latest, v) = cmap_index (tbl_latest t) k Timestamp_default
      in if Timestamp_lt v ts_c then t\<lparr>tbl_latest := cmap_assign latest k ts_c\<rparr>
         else t\<lparr>tbl_latest := latest\<rparr>)"

definition Table_put :: "item \<Rightarrow> table \<Rightarrow> table outcome" where
  "Table_put it t =
     bind_outcome (Table_prepare it t) (\<lambda>t. Ret (Table_commit_key (item_key it) (item_ts it) t))"

definition Table_get_item_by_ver :: "key \<Rightarrow> timestamp \<Rightarrow> table \<Rightarrow> item" where
  "Table_get_item_by_ver k ts t =
     (case tbl_items t ts of
        None \<Rightarrow> Item_default
      | Some its \<Rightarrow>
          (case find (\<lambda>it. item_key it = k) its of Some it \<Rightarrow> it | None \<Rightarrow> Item_default))"

definition Table_get_latest_item :: "key \<Rightarrow> table \<Rightarrow> table \<times> item" where
  "Table_get_latest_item k t =
     (let (latest, v) = cmap_index (tbl_latest t) k Timestamp_default;
          t = t\<lparr>tbl_latest := latest\<rparr>
      in (t, Table_get_item_by_ver k v t))"

definition Table_get :: "key \<Rightarrow> table \<Rightarrow> table \<times> item" where
  "Table_get k t = Table_get_latest_item k t"

section \<open>What each operation changes\<close>

definition latest_of :: "table \<Rightarrow> key \<Rightarrow> timestamp" where
  "latest_of t k = (case tbl_latest t k of None \<Rightarrow> Timestamp_default | Some v \<Rightarrow> v)"

definition items_at :: "table \<Rightarrow> timestamp \<Rightarrow> item list" where
  "items_at t ts = (case tbl_items t ts of None \<Rightarrow> [] | Some its \<Rightarrow> its)"

text \<open>The version of a key that a read without a timestamp answers.\<close>

definition visible :: "table \<Rightarrow> key \<Rightarrow> item" where
  "visible t k = snd (Table_get k t)"

lemma get_item_by_ver_items_at:
  "Table_get_item_by_ver k ts t =
     (case find (\<lambda>it. item_key it = k) (items_at t ts) of Some it \<Rightarrow> it | None \<Rightarrow> Item_default)"
  by (simp add: Table_get_item_by_ver_def items_at_def split: option.splits)

lemma get_latest_simps [simp]:
  "tbl_items (fst (Table_get_latest_item k t)) = tbl_items t"
  "tbl_committed (fst (Table_get_latest_item k t)) = tbl_committed t"
  "latest_of (fst (Table_get_latest_item k t)) = latest_of t"
  "snd (Table_get_latest_item k t) = Table_get_item_by_ver k (latest_of t k) t"
  by (auto simp: Table_get_latest_item_def cmap_index_def latest_of_def fun_eq_iff
      Table_get_item_by_ver_def split: option.splits)

lemma visible_eq: "visible t k = Table_get_item_by_ver k (latest_of t k) t"
  by (simp add: visible_def Table_get_def)

lemma Table_prepare_Ret:
  assumes "Table_prepare it t = Ret t'"
  shows "items_at t' ts = (if ts = item_ts it then items_at t ts @ [it] else items_at t ts)"
    and "tbl_latest t' = tbl_latest t"
    and "CommittedItems_invalidate (item_key it) (tbl_committed t) = Ret (tbl_committed t')"
  using assms
  by (auto simp: Table_prepare_def bind_outcome_Ret_iff cmap_index_def cmap_assign_def items_at_def
      split: option.splits)

lemma Table_commit_item_Ret:
  assumes "Table_commit_item mp junk ts it t = Ret t'"
  shows "tbl_items t' = tbl_items t" and "latest_of t' = latest_of t"
    and "tbl_committed t' = tbl_committed t \<or>
      CommittedItems_update mp junk it (tbl_committed t) = Ret (tbl_committed t')"
  using assms
  by (auto simp: Table_commit_item_def bind_outcome_Ret_iff cmap_index_def cmap_insert_def
      latest_of_def fun_eq_iff split: option.splits if_splits)

lemma Table_commit_Ret:
  assumes "Table_commit mp junk ts t = Ret t'"
  shows "tbl_items t' = tbl_items t" and "latest_of t' = latest_of t"
proof -
  have "tbl_items t' = tbl_items t \<and> latest_of t' = latest_of t"
  proof (cases "tbl_items t ts")
    case (Some its)
    then have "fold_outcome (Table_commit_item mp junk ts) its t = Ret t'"
      using assms by (simp add: Table_commit_def)
    then show ?thesis
    proof (rule fold_outcome_invariant)
      show "tbl_items t = tbl_items t \<and> latest_of t = latest_of t" by simp
    next
      fix x s s'
      assume "tbl_items s = tbl_items t \<and> latest_of s = latest_of t"
        and "Table_commit_item mp junk ts x s = Ret s'"
      then show "tbl_items s' = tbl_items t \<and> latest_of s' = latest_of t"
        using Table_commit_item_Ret(1,2) by metis
    qed
  qed (use assms in \<open>simp add: Table_commit_def\<close>)
  then show "tbl_items t' = tbl_items t" and "latest_of t' = latest_of t" by auto
qed

text \<open>A commit keeps the cache invariant when the items of its timestamp satisfy it.\<close>

lemma Table_commit_cache_inv:
  assumes ret: "Table_commit mp junk ts t = Ret t'" and inv: "cache_inv mp P (tbl_committed t)"
    and junk: "fst junk < 2 ^ 32" "snd junk < 2 ^ 32"
    and its: "\<And>it. it \<in> set (items_at t ts) \<Longrightarrow>
        Entry_need mp it \<le> ENTRY_SIZE \<and> P (item_key it) it"
  shows "cache_inv mp P (tbl_committed t')"
proof (cases "tbl_items t ts")
  case None
  then show ?thesis using ret inv by (simp add: Table_commit_def)
next
  case (Some xs)
  then have "fold_outcome (Table_commit_item mp junk ts) xs t = Ret t'"
    using ret by (simp add: Table_commit_def)
  then show ?thesis
  proof (rule fold_outcome_invariant)
    show "cache_inv mp P (tbl_committed t)" by (rule inv)
  next
    fix x s s'
    assume x: "x \<in> set xs" and s: "cache_inv mp P (tbl_committed s)"
      and step: "Table_commit_item mp junk ts x s = Ret s'"
    have x': "Entry_need mp x \<le> ENTRY_SIZE" "P (item_key x) x"
      using its[of x] x Some by (auto simp: items_at_def)
    from Table_commit_item_Ret(3)[OF step] show "cache_inv mp P (tbl_committed s')"
      using s CommittedItems_update_inv[where P = P, OF s _ junk x'] by auto
  qed
qed

lemma Table_commit_key_simps [simp]:
  "tbl_items (Table_commit_key k ts t) = tbl_items t"
  "tbl_committed (Table_commit_key k ts t) = tbl_committed t"
  "latest_of (Table_commit_key k ts t) = (latest_of t)(k := max (latest_of t k) ts)"
  by (auto simp: Table_commit_key_def cmap_index_def cmap_assign_def latest_of_def fun_eq_iff
      max_def split: option.splits)

text \<open>With room in the cache for all keys, prepares and commits return.\<close>

lemma Table_prepare_returns:
  assumes "cache_room K (tbl_committed t)" and "item_key it \<in> K"
  shows "returns (Table_prepare it t)"
  using CommittedItems_invalidate_room[OF assms]
  by (auto simp: Table_prepare_def returns_def cmap_index_def cmap_assign_def split: option.splits)

lemma Table_commit_item_room:
  assumes "cache_room K (tbl_committed t)" and "Entry_need mp it \<le> ENTRY_SIZE"
  shows "\<exists>t'. Table_commit_item mp junk ts it t = Ret t' \<and> cache_room K (tbl_committed t')"
  using CommittedItems_update_room[OF assms, of junk] assms(1)
  by (auto simp: Table_commit_item_def case_prod_beta' Let_def)

lemma Table_commit_returns:
  assumes "cache_room K (tbl_committed t)"
    and "\<And>it. it \<in> set (items_at t ts) \<Longrightarrow> Entry_need mp it \<le> ENTRY_SIZE"
  shows "returns (Table_commit mp junk ts t)"
proof (cases "tbl_items t ts")
  case None
  then show ?thesis by (simp add: Table_commit_def)
next
  case (Some its)
  have "\<exists>t'. fold_outcome (Table_commit_item mp junk ts) its t = Ret t' \<and> cache_room K (tbl_committed t')"
    by (rule fold_outcome_returns[where P = "\<lambda>t. cache_room K (tbl_committed t)", OF assms(1)])
      (use assms(2) Some in \<open>auto simp: items_at_def intro!: Table_commit_item_room\<close>)
  then show ?thesis using Some by (auto simp: Table_commit_def)
qed

section \<open>Commits do not publish\<close>

text \<open>
  \<open>Table::commit(ts_c)\<close> stores the version with \<open>insert\<close> into an element that \<open>operator[]\<close> has just
  created, so the stored version is never replaced: no call changes what a read answers.
\<close>

lemma commit_keeps_visible:
  assumes "Table_commit mp junk ts t = Ret t'"
  shows "visible t' k = visible t k"
  using Table_commit_Ret[OF assms] by (simp add: visible_eq Table_get_item_by_ver_def)

section \<open>Puts refine a last-writer-wins register\<close>

text \<open>
  In the locking mode a table is only driven by \<open>put\<close> and \<open>get\<close>.  \<open>put_inv\<close> holds of every such
  table: a stored item carries its timestamp, is no newer than the version of its key, and every
  published version has its item.
\<close>

definition put_inv :: "table \<Rightarrow> bool" where
  "put_inv t \<longleftrightarrow>
     (\<forall>ts it. it \<in> set (items_at t ts) \<longrightarrow> item_ts it = ts \<and> Timestamp_default < ts \<and> ts \<le> latest_of t (item_key it)) \<and>
     (\<forall>k. latest_of t k \<noteq> Timestamp_default \<longrightarrow>
        (\<exists>it \<in> set (items_at t (latest_of t k)). item_key it = k))"

lemma Table_put_Ret:
  assumes "Table_put it t = Ret t'"
  shows "items_at t' ts = (if ts = item_ts it then items_at t ts @ [it] else items_at t ts)"
    and "latest_of t' = (latest_of t)(item_key it := max (latest_of t (item_key it)) (item_ts it))"
proof -
  obtain t1 where t1: "Table_prepare it t = Ret t1" and t': "t' = Table_commit_key (item_key it) (item_ts it) t1"
    using assms by (auto simp: Table_put_def bind_outcome_Ret_iff)
  show "items_at t' ts = (if ts = item_ts it then items_at t ts @ [it] else items_at t ts)"
    using Table_prepare_Ret(1)[OF t1, of ts] by (simp add: t' items_at_def)
  show "latest_of t' = (latest_of t)(item_key it := max (latest_of t (item_key it)) (item_ts it))"
  proof -
    have "latest_of t1 = latest_of t"
      by (simp add: latest_of_def fun_eq_iff Table_prepare_Ret(2)[OF t1])
    then show ?thesis by (simp add: t')
  qed
qed

lemma Table_put_inv:
  assumes "put_inv t" and "Table_put it t = Ret t'" and "Timestamp_default < item_ts it"
  shows "put_inv t'"
proof -
  note put = Table_put_Ret[OF assms(2)]
  have 1: "item_ts x = ts \<and> Timestamp_default < ts \<and> ts \<le> latest_of t' (item_key x)"
    if "x \<in> set (items_at t' ts)" for x ts
  proof (cases "x \<in> set (items_at t ts)")
    case True
    then have "item_ts x = ts \<and> Timestamp_default < ts \<and> ts \<le> latest_of t (item_key x)"
      using assms(1) unfolding put_inv_def by blast
    then show ?thesis by (auto simp: put le_max_iff_disj)
  next
    case False
    then have "x = it \<and> ts = item_ts it" using that by (auto simp: put split: if_splits)
    then show ?thesis using assms(3) by (simp add: put)
  qed
  have 2: "\<exists>x \<in> set (items_at t' (latest_of t' k)). item_key x = k"
    if "latest_of t' k \<noteq> Timestamp_default" for k
  proof (cases "k = item_key it \<and> latest_of t (item_key it) < item_ts it")
    case True
    then show ?thesis by (auto simp: put)
  next
    case False
    then have "latest_of t' k = latest_of t k" by (auto simp: put)
    moreover from this that have "latest_of t k \<noteq> Timestamp_default" by simp
    then have "\<exists>x \<in> set (items_at t (latest_of t k)). item_key x = k"
      using assms(1) unfolding put_inv_def by blast
    ultimately obtain x where "x \<in> set (items_at t (latest_of t k))" "item_key x = k"
      "latest_of t' k = latest_of t k" by blast
    then show ?thesis by (auto simp: put)
  qed
  show ?thesis unfolding put_inv_def using 1 2 by blast
qed

lemma find_append: "find P (xs @ ys) = (case find P xs of None \<Rightarrow> find P ys | Some x \<Rightarrow> Some x)"
  by (induction xs) auto

lemma Table_put_visible:
  assumes inv: "put_inv t" and put: "Table_put it t = Ret t'" and ts: "Timestamp_default < item_ts it"
  shows "visible t' = (visible t)(item_key it :=
           (if latest_of t (item_key it) < item_ts it then it else visible t (item_key it)))"
proof (rule ext)
  fix k
  note put_simps = Table_put_Ret[OF put]
  let ?k = "item_key it"
  show "visible t' k = ((visible t)(?k := (if latest_of t ?k < item_ts it then it else visible t ?k))) k"
  proof (cases "k = ?k")
    case False
    then show ?thesis
      by (auto simp: visible_eq get_item_by_ver_items_at put_simps find_append split: option.splits)
  next
    case k: True
    show ?thesis
    proof (cases "latest_of t ?k < item_ts it")
      case True
      have "find (\<lambda>x. item_key x = ?k) (items_at t (item_ts it)) = None"
      proof (rule ccontr)
        assume "\<not> ?thesis"
        then obtain x where x: "x \<in> set (items_at t (item_ts it))" "item_key x = ?k"
          unfolding find_None_iff by blast
        then have "item_ts it \<le> latest_of t (item_key x)"
          using inv unfolding put_inv_def by blast
        then show False using True x(2) by simp
      qed
      then show ?thesis
        using k True by (simp add: visible_eq get_item_by_ver_items_at put_simps find_append max_def)
    next
      case False
      then have "latest_of t ?k \<noteq> Timestamp_default" using ts by auto
      then have "find (\<lambda>x. item_key x = ?k) (items_at t (latest_of t ?k)) \<noteq> None"
        using inv unfolding put_inv_def find_None_iff by auto
      then show ?thesis
        using k False
        by (auto simp: visible_eq get_item_by_ver_items_at put_simps find_append max_def
            split: option.splits)
    qed
  qed
qed

section \<open>Prepared versions can be read by their timestamp\<close>

lemma get_by_ver_in:
  assumes "it \<in> set (items_at t ts)" and "item_key it = k"
  shows "\<exists>x \<in> set (items_at t ts). item_key x = k \<and> Table_get_item_by_ver k ts t = x"
proof -
  have "find (\<lambda>x. item_key x = k) (items_at t ts) \<noteq> None"
    using assms by (auto simp: find_None_iff)
  then obtain x where x: "find (\<lambda>x. item_key x = k) (items_at t ts) = Some x" by auto
  then have "x \<in> set (items_at t ts) \<and> item_key x = k"
    by (auto simp: find_Some_iff)
  with x show ?thesis by (auto simp: get_item_by_ver_items_at)
qed

lemma get_by_ver_cases:
  "Table_get_item_by_ver k ts t = Item_default \<or>
   (Table_get_item_by_ver k ts t \<in> set (items_at t ts) \<and> item_key (Table_get_item_by_ver k ts t) = k)"
  by (auto simp: get_item_by_ver_items_at find_Some_iff split: option.splits)

text \<open>The visible item of a key carries the version of the key.\<close>

lemma put_inv_visible_ts:
  assumes "put_inv t"
  shows "item_ts (visible t k) = latest_of t k"
proof (cases "latest_of t k = Timestamp_default")
  case True
  have "x \<notin> set (items_at t Timestamp_default)" for x using assms unfolding put_inv_def by blast
  then have "items_at t Timestamp_default = []" by (cases "items_at t Timestamp_default") auto
  then show ?thesis using True by (simp add: visible_eq get_item_by_ver_items_at)
next
  case False
  then obtain x where "x \<in> set (items_at t (latest_of t k))" "item_key x = k"
    using assms unfolding put_inv_def by blast
  from get_by_ver_in[OF this] show ?thesis
    using assms unfolding put_inv_def visible_eq by metis
qed

end
