(* ===== verification/Locks.thy ===== *)
theory Locks
  imports Containers
begin

text \<open>
  \<open>Mutex\<close> (\<open>include/common/service/Mutex.h\<close>, \<open>src/common/service/Mutex.cpp\<close>), a
  \<open>pthread_rwlock_t\<close>, and \<open>LockManager\<close> (\<open>include/server/service/LockManager.h\<close>,
  \<open>src/server/service/LockManager.cpp\<close>), one such lock per key, created on first use.

  The lock functions of POSIX are given by what they promise: a read lock is granted unless a
  writer holds the lock, a write lock is granted when nobody does, otherwise the caller waits
  (\<open>Blocks\<close>).  Unlocking a lock that nobody holds is undefined.
\<close>

section \<open>Mutex\<close>

record mutex =
  mtx_readers :: nat
  mtx_writer :: bool

definition Mutex_new :: mutex where
  "Mutex_new = \<lparr>mtx_readers = 0, mtx_writer = False\<rparr>"

definition Mutex_read_lock :: "mutex \<Rightarrow> mutex outcome" where
  "Mutex_read_lock m =
     (if mtx_writer m then Blocks else Ret (m\<lparr>mtx_readers := mtx_readers m + 1\<rparr>))"

definition Mutex_write_lock :: "mutex \<Rightarrow> mutex outcome" where
  "Mutex_write_lock m =
     (if mtx_writer m \<or> mtx_readers m \<noteq> 0 then Blocks else Ret (m\<lparr>mtx_writer := True\<rparr>))"

definition Mutex_lock :: "mutex \<Rightarrow> mutex outcome" where
  "Mutex_lock m = Mutex_write_lock m"

definition Mutex_unlock :: "mutex \<Rightarrow> mutex outcome" where
  "Mutex_unlock m =
     (if mtx_writer m then Ret (m\<lparr>mtx_writer := False\<rparr>)
      else if mtx_readers m \<noteq> 0 then Ret (m\<lparr>mtx_readers := mtx_readers m - 1\<rparr>)
      else Dies Unlock_not_held)"

section \<open>LockManager\<close>

record lock_manager =
  mutex_table :: "(key, mutex) cmap"

definition LockManager_new :: lock_manager where
  "LockManager_new = \<lparr>mutex_table = Map.empty\<rparr>"

definition LockManager_read_lock :: "key \<Rightarrow> lock_manager \<Rightarrow> lock_manager outcome" where
  "LockManager_read_lock k lm =
     (let (tbl, m) = cmap_index (mutex_table lm) k Mutex_new
      in bind_outcome (Mutex_read_lock m) (\<lambda>m'. Ret (lm\<lparr>mutex_table := cmap_assign tbl k m'\<rparr>)))"

definition LockManager_write_lock :: "key \<Rightarrow> lock_manager \<Rightarrow> lock_manager outcome" where
  "LockManager_write_lock k lm =
     (let (tbl, m) = cmap_index (mutex_table lm) k Mutex_new
      in bind_outcome (Mutex_write_lock m) (\<lambda>m'. Ret (lm\<lparr>mutex_table := cmap_assign tbl k m'\<rparr>)))"

definition LockManager_unlock :: "key \<Rightarrow> lock_manager \<Rightarrow> lock_manager outcome" where
  "LockManager_unlock k lm =
     (case mutex_table lm k of
        None \<Rightarrow> Dies Uncaught_exception
      | Some m \<Rightarrow>
          bind_outcome (Mutex_unlock m) (\<lambda>m'. Ret (lm\<lparr>mutex_table := cmap_assign (mutex_table lm) k m'\<rparr>)))"

definition LockManager_unlock_all :: "key list \<Rightarrow> lock_manager \<Rightarrow> lock_manager outcome" where
  "LockManager_unlock_all ks lm = fold_outcome LockManager_unlock ks lm"

section \<open>The contract\<close>

text \<open>
  What the executors rely on.  \<open>readers\<close> and \<open>writer\<close> describe the lock of a key; a lock operation
  on one key leaves the others alone.
\<close>

locale lock_service =
  fixes readers :: "'l \<Rightarrow> 'k \<Rightarrow> nat"
    and writer :: "'l \<Rightarrow> 'k \<Rightarrow> bool"
    and read_lock :: "'k \<Rightarrow> 'l \<Rightarrow> 'l outcome"
    and write_lock :: "'k \<Rightarrow> 'l \<Rightarrow> 'l outcome"
    and unlock :: "'k \<Rightarrow> 'l \<Rightarrow> 'l outcome"
  assumes read_lock_iff:
      "returns (read_lock k l) \<longleftrightarrow> \<not> writer l k"
    and write_lock_iff:
      "returns (write_lock k l) \<longleftrightarrow> \<not> writer l k \<and> readers l k = 0"
    and unlock_iff:
      "writer l k \<or> readers l k \<noteq> 0 \<Longrightarrow> returns (unlock k l)"
    and read_lock_state:
      "read_lock k l = Ret l' \<Longrightarrow>
         readers l' = (readers l)(k := readers l k + 1) \<and> writer l' = writer l"
    and write_lock_state:
      "write_lock k l = Ret l' \<Longrightarrow>
         readers l' = readers l \<and> writer l' = (writer l)(k := True)"
    and unlock_state:
      "unlock k l = Ret l' \<Longrightarrow>
         (if writer l k then readers l' = readers l \<and> writer l' = (writer l)(k := False)
          else readers l' = (readers l)(k := readers l k - 1) \<and> writer l' = writer l)"
begin

text \<open>A lock is never held by a writer and a reader at once.\<close>

definition exclusive :: "'l \<Rightarrow> bool" where
  "exclusive l \<longleftrightarrow> (\<forall>k. writer l k \<longrightarrow> readers l k = 0)"

lemma read_lock_exclusive: "exclusive l \<Longrightarrow> read_lock k l = Ret l' \<Longrightarrow> exclusive l'"
  using read_lock_state[of k l l'] read_lock_iff[of k l] by (auto simp: exclusive_def)

lemma write_lock_exclusive: "exclusive l \<Longrightarrow> write_lock k l = Ret l' \<Longrightarrow> exclusive l'"
  using write_lock_state[of k l l'] write_lock_iff[of k l] by (auto simp: exclusive_def)

lemma unlock_exclusive: "exclusive l \<Longrightarrow> unlock k l = Ret l' \<Longrightarrow> exclusive l'"
  using unlock_state[of k l l'] by (auto simp: exclusive_def split: if_splits)

text \<open>Releasing a list of distinct keys that are all held succeeds and releases exactly them.\<close>

definition released :: "'k set \<Rightarrow> 'l \<Rightarrow> 'l \<Rightarrow> bool" where
  "released K l l' \<longleftrightarrow>
     (\<forall>k. writer l' k = (if k \<in> K then False else writer l k) \<and>
          readers l' k = (if k \<in> K \<and> \<not> writer l k then readers l k - 1 else readers l k))"

lemma unlock_list:
  assumes "distinct ks" and "\<And>k. k \<in> set ks \<Longrightarrow> writer l k \<or> readers l k \<noteq> 0"
  shows "\<exists>l'. fold_outcome unlock ks l = Ret l' \<and> released (set ks) l l'"
  using assms
proof (induction ks arbitrary: l)
  case Nil
  then show ?case by (simp add: released_def)
next
  case (Cons k ks)
  have "returns (unlock k l)" by (rule unlock_iff) (rule Cons.prems(2), simp)
  then obtain l1 where l1: "unlock k l = Ret l1" by (auto simp: returns_def)
  note st = unlock_state[OF l1]
  have keep: "writer l1 j = writer l j \<and> readers l1 j = readers l j" if "j \<noteq> k" for j
    using st that by (auto split: if_splits)
  have "\<exists>l'. fold_outcome unlock ks l1 = Ret l' \<and> released (set ks) l1 l'"
  proof (rule Cons.IH)
    show "distinct ks" using Cons.prems(1) by simp
    show "writer l1 j \<or> readers l1 j \<noteq> 0" if j: "j \<in> set ks" for j
    proof -
      have "j \<noteq> k" using Cons.prems(1) j by auto
      then show ?thesis using Cons.prems(2)[of j] keep[of j] j by simp
    qed
  qed
  then obtain l' where l': "fold_outcome unlock ks l1 = Ret l'" "released (set ks) l1 l'"
    by blast
  have "released (set (k # ks)) l l'"
    unfolding released_def
  proof (intro allI)
    fix j
    show "writer l' j = (if j \<in> set (k # ks) then False else writer l j) \<and>
        readers l' j = (if j \<in> set (k # ks) \<and> \<not> writer l j then readers l j - 1 else readers l j)"
      using l'(2) keep[of j] st Cons.prems(1) unfolding released_def
      by (cases "j = k") (auto split: if_splits)
  qed
  then show ?case using l1 l'(1) by auto
qed

end

definition lm_readers :: "lock_manager \<Rightarrow> key \<Rightarrow> nat" where
  "lm_readers lm k = (case mutex_table lm k of None \<Rightarrow> 0 | Some m \<Rightarrow> mtx_readers m)"

definition lm_writer :: "lock_manager \<Rightarrow> key \<Rightarrow> bool" where
  "lm_writer lm k = (case mutex_table lm k of None \<Rightarrow> False | Some m \<Rightarrow> mtx_writer m)"

lemmas lm_defs = lm_readers_def lm_writer_def LockManager_read_lock_def LockManager_write_lock_def
  LockManager_unlock_def Mutex_read_lock_def Mutex_write_lock_def Mutex_unlock_def Mutex_new_def
  cmap_index_def cmap_assign_def

interpretation lm: lock_service lm_readers lm_writer
  LockManager_read_lock LockManager_write_lock LockManager_unlock
proof unfold_locales
  fix k l
  show "returns (LockManager_read_lock k l) \<longleftrightarrow> \<not> lm_writer l k"
    by (auto simp: lm_defs split: option.splits)
  show "returns (LockManager_write_lock k l) \<longleftrightarrow> \<not> lm_writer l k \<and> lm_readers l k = 0"
    by (auto simp: lm_defs split: option.splits)
  show "lm_writer l k \<or> lm_readers l k \<noteq> 0 \<Longrightarrow> returns (LockManager_unlock k l)"
    by (auto simp: lm_defs split: option.splits)
  fix l'
  show "LockManager_read_lock k l = Ret l' \<Longrightarrow>
      lm_readers l' = (lm_readers l)(k := lm_readers l k + 1) \<and> lm_writer l' = lm_writer l"
    by (auto simp: lm_defs fun_eq_iff split: option.splits if_splits)
  show "LockManager_write_lock k l = Ret l' \<Longrightarrow>
      lm_readers l' = lm_readers l \<and> lm_writer l' = (lm_writer l)(k := True)"
    by (auto simp: lm_defs fun_eq_iff split: option.splits if_splits)
  show "LockManager_unlock k l = Ret l' \<Longrightarrow>
      (if lm_writer l k then lm_readers l' = lm_readers l \<and> lm_writer l' = (lm_writer l)(k := False)
       else lm_readers l' = (lm_readers l)(k := lm_readers l k - 1) \<and> lm_writer l' = lm_writer l)"
    by (auto simp: lm_defs fun_eq_iff split: option.splits if_splits)
qed

text \<open>Unlocking a key that was never locked ends the server: \<open>at\<close> throws.\<close>

lemma LockManager_unlock_unknown:
  "mutex_table lm k = None \<Longrightarrow> LockManager_unlock k lm = Dies Uncaught_exception"
  by (simp add: LockManager_unlock_def)

end
