(* ===== verification/Executors.thy ===== *)
theory Executors
  imports Tables Locks
begin

text \<open>
  The server side of a connection: \<open>TrxExecutor\<close> and its four subclasses
  (\<open>include/server/service/executor/\<close>, \<open>src/server/service/executor/\<close>).  A server keeps one table
  and one lock manager, shared by all its executors.  An executor is described by what its
  members hold; the bytes still pending in the unpacker of its communicator are one of them.

  One iteration of a \<open>run\<close> loop takes the header and the body of the received message, and gives
  the new state, the messages sent, and whether the loop goes on.  An iteration acts on the
  shared state at once: the containers of the table are concurrent, and requests of different
  connections are interleaved between iterations.
\<close>

record server =
  srv_table :: table
  srv_locks :: lock_manager

record executor =
  ex_id :: nat
  ex_unpk :: "byte list"
  ex_access_keys :: "key list"
  ex_rkey :: nat

type_synonym iteration = "(server \<times> executor) \<times> message list \<times> bool"

definition TrxExecutor :: "nat \<Rightarrow> executor" where
  "TrxExecutor i = \<lparr>ex_id = i, ex_unpk = [], ex_access_keys = [], ex_rkey = 0\<rparr>"

text \<open>\<open>com->recv_body\<close> of an executor.\<close>

definition ex_recv_body ::
    "'o msgpack \<Rightarrow> executor \<Rightarrow> byte list \<Rightarrow> arg list \<Rightarrow> executor \<times> arg list" where
  "ex_recv_body mp ex body dsts =
     (let (vals, unpk) = Communicator_recv_body mp (ex_unpk ex) body dsts
      in (ex\<lparr>ex_unpk := unpk\<rparr>, vals))"

section \<open>RAMP-Fast\<close>

definition RAMPFastExecutor :: "nat \<Rightarrow> executor" where
  "RAMPFastExecutor i = TrxExecutor i"

definition RAMPFastExecutor_prepare ::
    "'o msgpack \<Rightarrow> nat \<times> nat \<Rightarrow> item \<Rightarrow> server \<Rightarrow> (server \<times> message) outcome" where
  "RAMPFastExecutor_prepare mp junk it s =
     bind_outcome (Table_prepare it (srv_table s))
       (\<lambda>t. Ret (s\<lparr>srv_table := t\<rparr>, sent_msg mp junk DONE []))"

definition RAMPFastExecutor_commit ::
    "'o msgpack \<Rightarrow> nat \<times> nat \<Rightarrow> timestamp \<Rightarrow> server \<Rightarrow> (server \<times> message) outcome" where
  "RAMPFastExecutor_commit mp junk ts_c s =
     bind_outcome (Table_commit mp junk ts_c (srv_table s))
       (\<lambda>t. Ret (s\<lparr>srv_table := t\<rparr>, sent_msg mp junk DONE []))"

definition RAMPFastExecutor_get ::
    "'o msgpack \<Rightarrow> nat \<times> nat \<Rightarrow> key \<Rightarrow> timestamp \<Rightarrow> server \<Rightarrow> (server \<times> message) outcome" where
  "RAMPFastExecutor_get mp junk k ts_req s =
     (if Timestamp_is_empty ts_req
      then let (t, it) = Table_get_latest_item k (srv_table s)
           in Ret (s\<lparr>srv_table := t\<rparr>, sent_msg mp junk RESULT [Item_arg it])
      else Ret (s, sent_msg mp junk RESULT [Item_arg (Table_get_item_by_ver k ts_req (srv_table s))]))"

text \<open>Every iteration that answers a request ends alike.\<close>

definition answered :: "executor \<Rightarrow> (server \<times> message) outcome \<Rightarrow> iteration outcome" where
  "answered ex r = bind_outcome r (\<lambda>(s, reply). Ret ((s, ex), [reply], True))"

definition RAMPFastExecutor_run_iter ::
    "'o msgpack \<Rightarrow> nat \<times> nat \<Rightarrow> message \<Rightarrow> server \<times> executor \<Rightarrow> iteration outcome" where
  "RAMPFastExecutor_run_iter mp junk msg st =
     (let (header, body) = msg; (s, ex) = st in
      if req_type_is header PREPARE then
        let (ex, vals) = ex_recv_body mp ex body [Item_arg Item_default]
        in answered ex (RAMPFastExecutor_prepare mp junk (arg_item (vals ! 0)) s)
      else if req_type_is header COMMIT then
        let (ex, vals) = ex_recv_body mp ex body [Ts_arg Timestamp_default]
        in answered ex (RAMPFastExecutor_commit mp junk (arg_ts (vals ! 0)) s)
      else if req_type_is header GET then
        let (ex, vals) = ex_recv_body mp ex body [Key_arg [], Ts_arg Timestamp_default]
        in answered ex (RAMPFastExecutor_get mp junk (arg_key (vals ! 0)) (arg_ts (vals ! 1)) s)
      else
        let (ex, vals) = ex_recv_body mp ex body [] in Ret ((s, ex), [], False))"

section \<open>The loop\<close>

text \<open>
  \<open>run\<close> on the messages received so far: the state after them, everything sent, and whether the
  loop was left (then \<open>delete com\<close> and the end of the thread follow).
\<close>

fun executor_run ::
    "(message \<Rightarrow> 'st \<Rightarrow> ('st \<times> message list \<times> bool) outcome) \<Rightarrow> message list \<Rightarrow> 'st \<Rightarrow>
     ('st \<times> message list \<times> bool) outcome" where
  "executor_run iter [] st = Ret (st, [], True)"
| "executor_run iter (msg # msgs) st =
     bind_outcome (iter msg st) (\<lambda>(st, out, go_on).
       if go_on
       then bind_outcome (executor_run iter msgs st) (\<lambda>(st, out', go_on). Ret (st, out @ out', go_on))
       else Ret (st, out, False))"

definition RAMPFastExecutor_run where
  "RAMPFastExecutor_run mp junk = executor_run (RAMPFastExecutor_run_iter mp junk)"

section \<open>No concurrency control\<close>

definition NoCCExecutor :: "nat \<Rightarrow> executor" where
  "NoCCExecutor i = TrxExecutor i"

definition NoCCExecutor_prepare ::
    "'o msgpack \<Rightarrow> nat \<times> nat \<Rightarrow> item \<Rightarrow> server \<Rightarrow> (server \<times> message) outcome" where
  "NoCCExecutor_prepare mp junk it s =
     bind_outcome (Table_prepare it (srv_table s))
       (\<lambda>t. Ret (s\<lparr>srv_table := t\<rparr>, sent_msg mp junk DONE []))"

definition NoCCExecutor_commit ::
    "'o msgpack \<Rightarrow> nat \<times> nat \<Rightarrow> timestamp \<Rightarrow> server \<Rightarrow> (server \<times> message) outcome" where
  "NoCCExecutor_commit mp junk ts_c s =
     bind_outcome (Table_commit mp junk ts_c (srv_table s))
       (\<lambda>t. Ret (s\<lparr>srv_table := t\<rparr>, sent_msg mp junk DONE []))"

definition NoCCExecutor_get ::
    "'o msgpack \<Rightarrow> nat \<times> nat \<Rightarrow> key \<Rightarrow> server \<Rightarrow> (server \<times> message) outcome" where
  "NoCCExecutor_get mp junk k s =
     (let (t, it) = Table_get_latest_item k (srv_table s)
      in Ret (s\<lparr>srv_table := t\<rparr>, sent_msg mp junk RESULT [Item_arg it]))"

definition NoCCExecutor_run_iter ::
    "'o msgpack \<Rightarrow> nat \<times> nat \<Rightarrow> message \<Rightarrow> server \<times> executor \<Rightarrow> iteration outcome" where
  "NoCCExecutor_run_iter mp junk msg st =
     (let (header, body) = msg; (s, ex) = st in
      if req_type_is header PREPARE then
        let (ex, vals) = ex_recv_body mp ex body [Item_arg Item_default]
        in answered ex (NoCCExecutor_prepare mp junk (arg_item (vals ! 0)) s)
      else if req_type_is header COMMIT then
        let (ex, vals) = ex_recv_body mp ex body [Ts_arg Timestamp_default]
        in answered ex (NoCCExecutor_commit mp junk (arg_ts (vals ! 0)) s)
      else if req_type_is header GET then
        let (ex, vals) = ex_recv_body mp ex body [Key_arg []]
        in answered ex (NoCCExecutor_get mp junk (arg_key (vals ! 0)) s)
      else
        let (ex, vals) = ex_recv_body mp ex body [] in Ret ((s, ex), [], False))"

definition NoCCExecutor_run where
  "NoCCExecutor_run mp junk = executor_run (NoCCExecutor_run_iter mp junk)"

section \<open>RAMP-Fast over one-sided reads\<close>

text \<open>
  The constructor reinterprets its communicator as an RDMA socket and registers the cache of
  committed items; \<open>rkey\<close> is the remote key the registration answers.
\<close>

definition ACRAMPFastExecutor :: "nat \<Rightarrow> nat \<Rightarrow> executor" where
  "ACRAMPFastExecutor rkey i = (TrxExecutor i)\<lparr>ex_rkey := rkey\<rparr>"

definition ACRAMPFastExecutor_get_item_and_addr ::
    "'o msgpack \<Rightarrow> nat \<times> nat \<Rightarrow> executor \<Rightarrow> key \<Rightarrow> timestamp \<Rightarrow> server \<Rightarrow> (server \<times> message) outcome" where
  "ACRAMPFastExecutor_get_item_and_addr mp junk ex k ts_req s =
     (let (t, it) = Table_get_latest_item k (srv_table s)
      in bind_outcome (CommittedItems_get_item_addr mp junk k (tbl_committed t)) (\<lambda>(ci, addr).
           let rka = RemoteKeyAndAddr (ex_rkey ex) addr
           in Ret (s\<lparr>srv_table := t\<lparr>tbl_committed := ci\<rparr>\<rparr>,
                   sent_msg mp junk RESULT [Item_arg it, Rka_arg rka])))"

definition ACRAMPFastExecutor_run_iter ::
    "'o msgpack \<Rightarrow> nat \<times> nat \<Rightarrow> message \<Rightarrow> server \<times> executor \<Rightarrow> iteration outcome" where
  "ACRAMPFastExecutor_run_iter mp junk msg st =
     (let (header, body) = msg; (s, ex) = st in
      if req_type_is header PREPARE then
        let (ex, vals) = ex_recv_body mp ex body [Item_arg Item_default]
        in answered ex (RAMPFastExecutor_prepare mp junk (arg_item (vals ! 0)) s)
      else if req_type_is header COMMIT then
        let (ex, vals) = ex_recv_body mp ex body [Ts_arg Timestamp_default]
        in answered ex (RAMPFastExecutor_commit mp junk (arg_ts (vals ! 0)) s)
      else if req_type_is header GET then
        let (ex, vals) = ex_recv_body mp ex body [Key_arg [], Ts_arg Timestamp_default]
        in answered ex (RAMPFastExecutor_get mp junk (arg_key (vals ! 0)) (arg_ts (vals ! 1)) s)
      else if req_type_is header GET_WITH_ADDR then
        let (ex, vals) = ex_recv_body mp ex body [Key_arg [], Ts_arg Timestamp_default]
        in answered ex (ACRAMPFastExecutor_get_item_and_addr mp junk ex (arg_key (vals ! 0)) (arg_ts (vals ! 1)) s)
      else
        let (ex, vals) = ex_recv_body mp ex body [] in Ret ((s, ex), [], False))"

definition ACRAMPFastExecutor_run where
  "ACRAMPFastExecutor_run mp junk = executor_run (ACRAMPFastExecutor_run_iter mp junk)"

section \<open>Two-phase locking\<close>

definition LockBasedExecutor :: "nat \<Rightarrow> executor" where
  "LockBasedExecutor i = TrxExecutor i"

definition LockBasedExecutor_put ::
    "'o msgpack \<Rightarrow> nat \<times> nat \<Rightarrow> item \<Rightarrow> server \<times> executor \<Rightarrow> iteration outcome" where
  "LockBasedExecutor_put mp junk it st =
     (let (s, ex) = st in
      bind_outcome (LockManager_write_lock (item_key it) (srv_locks s)) (\<lambda>lm.
      bind_outcome (Table_put it (srv_table s)) (\<lambda>t.
        Ret ((s\<lparr>srv_table := t, srv_locks := lm\<rparr>,
              ex\<lparr>ex_access_keys := insort_insert (item_key it) (ex_access_keys ex)\<rparr>),
             [sent_msg mp junk DONE []], True))))"

definition LockBasedExecutor_get ::
    "'o msgpack \<Rightarrow> nat \<times> nat \<Rightarrow> key \<Rightarrow> server \<times> executor \<Rightarrow> iteration outcome" where
  "LockBasedExecutor_get mp junk k st =
     (let (s, ex) = st in
      bind_outcome (LockManager_read_lock k (srv_locks s)) (\<lambda>lm.
        let (t, it) = Table_get k (srv_table s)
        in Ret ((s\<lparr>srv_table := t, srv_locks := lm\<rparr>,
                 ex\<lparr>ex_access_keys := insort_insert k (ex_access_keys ex)\<rparr>),
                [sent_msg mp junk RESULT [Item_arg it]], True)))"

definition LockBasedExecutor_release_locks ::
    "'o msgpack \<Rightarrow> nat \<times> nat \<Rightarrow> server \<times> executor \<Rightarrow> iteration outcome" where
  "LockBasedExecutor_release_locks mp junk st =
     (let (s, ex) = st in
      bind_outcome (LockManager_unlock_all (ex_access_keys ex) (srv_locks s)) (\<lambda>lm.
        Ret ((s\<lparr>srv_locks := lm\<rparr>, ex\<lparr>ex_access_keys := []\<rparr>),
             [sent_msg mp junk DONE []], True)))"

definition LockBasedExecutor_run_iter ::
    "'o msgpack \<Rightarrow> nat \<times> nat \<Rightarrow> message \<Rightarrow> server \<times> executor \<Rightarrow> iteration outcome" where
  "LockBasedExecutor_run_iter mp junk msg st =
     (let (header, body) = msg; (s, ex) = st in
      if req_type_is header PUT then
        let (ex, vals) = ex_recv_body mp ex body [Item_arg Item_default]
        in LockBasedExecutor_put mp junk (arg_item (vals ! 0)) (s, ex)
      else if req_type_is header GET then
        let (ex, vals) = ex_recv_body mp ex body [Key_arg []]
        in LockBasedExecutor_get mp junk (arg_key (vals ! 0)) (s, ex)
      else if req_type_is header RELEASE_LOCKS then
        let (ex, vals) = ex_recv_body mp ex body []
        in LockBasedExecutor_release_locks mp junk (s, ex)
      else
        let (ex, vals) = ex_recv_body mp ex body [] in Ret ((s, ex), [], False))"

definition LockBasedExecutor_run where
  "LockBasedExecutor_run mp junk = executor_run (LockBasedExecutor_run_iter mp junk)"

section \<open>Serving well-formed requests\<close>

text \<open>A message as \<open>Communicator::send\<close> builds it is unpacked into the arguments that were sent.\<close>

lemma ex_recv_body_sent:
  assumes "msgpack_ok mp" and "list_all2 same_kind args dsts" and "ex_unpk ex = []"
  shows "ex_recv_body mp ex (snd (sent_msg mp junk t args)) dsts = (ex, args)"
  using unpack_pack[OF assms(1,2), of "[]"] assms(3)
  by (simp add: ex_recv_body_def Communicator_recv_body_def sent_msg_eq)

lemma unpack_args_Nil [simp]: "ex_recv_body mp ex body [] = (ex\<lparr>ex_unpk := ex_unpk ex @ body\<rparr>, [])"
  by (simp add: ex_recv_body_def Communicator_recv_body_def)

lemma executor_run_append:
  assumes "executor_run iter ms st = Ret (st', out, True)"
  shows "executor_run iter (ms @ ms') st =
    bind_outcome (executor_run iter ms' st') (\<lambda>(st, out', go_on). Ret (st, out @ out', go_on))"
  using assms
proof (induction ms arbitrary: st out)
  case Nil
  then show ?case by (cases "executor_run iter ms' st'") auto
next
  case (Cons m ms)
  from Cons.prems obtain st1 out1 out2 where 1: "iter m st = Ret (st1, out1, True)"
    and 2: "executor_run iter ms st1 = Ret (st', out2, True)" and out: "out = out1 @ out2"
    by (auto simp: bind_outcome_Ret_iff split: if_splits)
  show ?case
    by (simp add: 1 Cons.IH[OF 2] out bind_outcome_assoc case_prod_beta')
qed

text \<open>Once an iteration leaves the loop nothing more is read.\<close>

lemma executor_run_stops:
  assumes "executor_run iter ms st = Ret (st', out, False)"
  shows "executor_run iter (ms @ ms') st = Ret (st', out, False)"
  using assms
proof (induction ms arbitrary: st out)
  case (Cons m ms)
  obtain st1 out1 go_on where 1: "iter m st = Ret (st1, out1, go_on)"
    using Cons.prems by (auto simp: bind_outcome_Ret_iff)
  show ?case
  proof (cases go_on)
    case True
    then obtain out2 where 2: "executor_run iter ms st1 = Ret (st', out2, False)" and out: "out = out1 @ out2"
      using Cons.prems 1 by (auto simp: bind_outcome_Ret_iff)
    show ?thesis using True by (simp add: 1 Cons.IH[OF 2] out)
  next
    case False
    then show ?thesis using Cons.prems by (simp add: 1)
  qed
qed simp

end
