(* ===== verification/Programs.thy ===== *)
theory Programs
  imports Messages
begin

text \<open>
  Client code as a program that talks to servers.  A client thread runs local code between its
  messages; what the other side sees of it is a tree: \<open>Request com msg k\<close> sends \<open>msg\<close> on connection
  \<open>com\<close>, waits for the answer and goes on with \<open>k answer\<close>; \<open>Remote_read com rka k\<close> reads a packet
  of remote memory without involving the remote process.  \<open>Crash\<close> ends the process, \<open>Hang\<close> is a loop
  that is never left.  Programs of different clients are interleaved at these points.

  The second half is a logic for such programs among others: a world with an order \<open>le\<close> that says
  how far other programs may take it, an invariant, and \<open>serve\<close>, the answer of the other side.
\<close>

datatype 'a prog =
    Return 'a
  | Crash fault
  | Hang
  | Request nat message "message \<Rightarrow> 'a prog"
  | Remote_read nat rka "byte list \<Rightarrow> 'a prog"

primrec bind_prog :: "'a prog \<Rightarrow> ('a \<Rightarrow> 'b prog) \<Rightarrow> 'b prog" where
  "bind_prog (Return x) f = f x"
| "bind_prog (Crash e) f = Crash e"
| "bind_prog Hang f = Hang"
| "bind_prog (Request c m k) f = Request c m (\<lambda>r. bind_prog (k r) f)"
| "bind_prog (Remote_read c a k) f = Remote_read c a (\<lambda>bs. bind_prog (k bs) f)"

definition of_outcome :: "'a outcome \<Rightarrow> 'a prog" where
  "of_outcome m = (case m of Dies e \<Rightarrow> Crash e | Blocks \<Rightarrow> Hang | Ret x \<Rightarrow> Return x)"

lemma of_outcome_simps [simp]:
  "of_outcome (Dies e) = Crash e" "of_outcome Blocks = Hang" "of_outcome (Ret x) = Return x"
  by (simp_all add: of_outcome_def)

text \<open>A loop whose body is a program and threads a state.\<close>

fun for_each_prog :: "('a \<Rightarrow> 's \<Rightarrow> 's prog) \<Rightarrow> 'a list \<Rightarrow> 's \<Rightarrow> 's prog" where
  "for_each_prog f [] s = Return s"
| "for_each_prog f (x # xs) s = bind_prog (f x s) (for_each_prog f xs)"

text \<open>
  \<open>tbb::parallel_for_each\<close>: the bodies run in some order.  \<open>perm n\<close> is the order of \<open>n\<close> bodies.
\<close>

definition in_order :: "(nat \<Rightarrow> nat list) \<Rightarrow> 'a list \<Rightarrow> 'a list" where
  "in_order perm xs = map (\<lambda>i. xs ! i) (perm (length xs))"

definition parallel_for_each ::
    "(nat \<Rightarrow> nat list) \<Rightarrow> 'a list \<Rightarrow> ('a \<Rightarrow> 's \<Rightarrow> 's prog) \<Rightarrow> 's \<Rightarrow> 's prog" where
  "parallel_for_each perm xs f s = for_each_prog f (in_order perm xs) s"

definition order_ok :: "(nat \<Rightarrow> nat list) \<Rightarrow> bool" where
  "order_ok perm \<longleftrightarrow> (\<forall>n. distinct (perm n) \<and> set (perm n) = {..<n})"

lemma set_in_order [simp]: "order_ok perm \<Longrightarrow> set (in_order perm xs) = set xs"
  by (auto simp: in_order_def order_ok_def in_set_conv_nth)

lemma distinct_in_order:
  assumes "order_ok perm" and "distinct (map f xs)"
  shows "distinct (map f (in_order perm xs))"
proof -
  have "inj_on (\<lambda>i. f (xs ! i)) (set (perm (length xs)))"
    using assms by (auto intro!: inj_onI simp: order_ok_def distinct_map nth_eq_iff_index_eq dest: inj_onD)
  then show ?thesis
    using assms(1) by (simp add: in_order_def order_ok_def distinct_map comp_def o_def)
qed

lemma order_ok_upt [simp]: "order_ok (\<lambda>n. [0..<n])"
  by (auto simp: order_ok_def)

section \<open>Steps of a system of programs\<close>

text \<open>
  \<open>serve\<close> answers a request, \<open>peek\<close> is the remote memory.  A request that is not answered yet (or
  that takes the server down) is not a step.  \<open>system_step\<close>: one of the client programs steps.
\<close>

inductive prog_step ::
    "(nat \<Rightarrow> message \<Rightarrow> 'w \<Rightarrow> ('w \<times> message) outcome) \<Rightarrow> (nat \<Rightarrow> rka \<Rightarrow> 'w \<Rightarrow> byte list) \<Rightarrow>
     'w \<times> 'a prog \<Rightarrow> 'w \<times> 'a prog \<Rightarrow> bool"
  for serve peek where
  step_request: "serve c m w = Ret (w', r) \<Longrightarrow> prog_step serve peek (w, Request c m k) (w', k r)"
| step_read: "prog_step serve peek (w, Remote_read c a k) (w, k (peek c a w))"

inductive_cases prog_step_ReturnE: "prog_step serve peek (w, Return x) st"
inductive_cases prog_step_CrashE: "prog_step serve peek (w, Crash e) st"
inductive_cases prog_step_HangE: "prog_step serve peek (w, Hang) st"
inductive_cases prog_step_RequestE: "prog_step serve peek (w, Request c m k) st"
inductive_cases prog_step_ReadE: "prog_step serve peek (w, Remote_read c a k) st"

inductive system_step ::
    "(nat \<Rightarrow> message \<Rightarrow> 'w \<Rightarrow> ('w \<times> message) outcome) \<Rightarrow> (nat \<Rightarrow> rka \<Rightarrow> 'w \<Rightarrow> byte list) \<Rightarrow>
     'w \<times> (nat \<Rightarrow> 'a prog) \<Rightarrow> 'w \<times> (nat \<Rightarrow> 'a prog) \<Rightarrow> bool"
  for serve peek where
  system_stepI: "prog_step serve peek (w, ps i) (w', p) \<Longrightarrow>
    system_step serve peek (w, ps) (w', ps(i := p))"

inductive_cases system_stepE: "system_step serve peek (w, ps) st"

text \<open>A program alone, run to its end.\<close>

primrec run_prog ::
    "(nat \<Rightarrow> message \<Rightarrow> 'w \<Rightarrow> ('w \<times> message) outcome) \<Rightarrow> (nat \<Rightarrow> rka \<Rightarrow> 'w \<Rightarrow> byte list) \<Rightarrow>
     'a prog \<Rightarrow> 'w \<Rightarrow> ('w \<times> 'a) outcome" where
  "run_prog serve peek (Return x) = (\<lambda>w. Ret (w, x))"
| "run_prog serve peek (Crash e) = (\<lambda>w. Dies e)"
| "run_prog serve peek Hang = (\<lambda>w. Blocks)"
| "run_prog serve peek (Request c m k) =
     (\<lambda>w. case serve c m w of Dies e \<Rightarrow> Dies e | Blocks \<Rightarrow> Blocks
        | Ret wr \<Rightarrow> run_prog serve peek (k (snd wr)) (fst wr))"
| "run_prog serve peek (Remote_read c a k) = (\<lambda>w. run_prog serve peek (k (peek c a w)) w)"

text \<open>A run alone is a run of the system in which only that program steps.\<close>

lemma run_prog_steps:
  assumes "run_prog serve peek p w = Ret (w', x)" and "ps i = p"
  shows "(system_step serve peek)\<^sup>*\<^sup>* (w, ps) (w', ps(i := Return x))"
  using assms
proof (induction p arbitrary: w ps)
  case (Return y)
  then have "ps(i := Return x) = ps" by (simp add: fun_upd_idem)
  then show ?case using Return by simp
next
  case (Request c m k)
  obtain w1 r where r: "serve c m w = Ret (w1, r)" and run: "run_prog serve peek (k r) w1 = Ret (w', x)"
    using Request.prems(1) by (auto split: outcome.splits)
  have "prog_step serve peek (w, ps i) (w1, k r)" unfolding Request.prems(2) by (rule step_request) (rule r)
  then have "system_step serve peek (w, ps) (w1, ps(i := k r))" by (rule system_stepI)
  moreover have "(system_step serve peek)\<^sup>*\<^sup>* (w1, ps(i := k r)) (w', (ps(i := k r))(i := Return x))"
    by (rule Request.IH[OF _ run]) simp_all
  ultimately show ?case unfolding fun_upd_upd by (rule converse_rtranclp_into_rtranclp)
next
  case (Remote_read c a k)
  have run: "run_prog serve peek (k (peek c a w)) w = Ret (w', x)" using Remote_read.prems(1) by simp
  have "prog_step serve peek (w, ps i) (w, k (peek c a w))"
    using step_read[of serve peek w c a k] Remote_read.prems(2) by simp
  then have "system_step serve peek (w, ps) (w, ps(i := k (peek c a w)))" by (rule system_stepI)
  moreover have "(system_step serve peek)\<^sup>*\<^sup>* (w, ps(i := k (peek c a w))) (w', (ps(i := k (peek c a w)))(i := Return x))"
    by (rule Remote_read.IH[OF _ run]) simp_all
  ultimately show ?case unfolding fun_upd_upd by (rule converse_rtranclp_into_rtranclp)
qed auto

section \<open>A logic for interleaved programs\<close>

locale interference =
  fixes inv :: "'w \<Rightarrow> bool"
    and le :: "'w \<Rightarrow> 'w \<Rightarrow> bool"
    and serve :: "nat \<Rightarrow> message \<Rightarrow> 'w \<Rightarrow> ('w \<times> message) outcome"
    and peek :: "nat \<Rightarrow> rka \<Rightarrow> 'w \<Rightarrow> byte list"
    and allowed :: "nat \<Rightarrow> message \<Rightarrow> 'w \<Rightarrow> bool"
  assumes le_refl: "le w w"
    and le_trans: "le u v \<Longrightarrow> le v w \<Longrightarrow> le u w"
    and serve_inv: "inv w \<Longrightarrow> allowed c m w \<Longrightarrow> serve c m w = Ret (w', r) \<Longrightarrow> inv w' \<and> le w w'"
begin

text \<open>
  \<open>safe t p Q w\<close>: whatever other programs do from \<open>w\<close> on, \<open>p\<close> only sends allowed messages and
  establishes \<open>Q\<close> when it returns; if \<open>t\<close>, it does return, and every request is answered.
\<close>

primrec safe :: "bool \<Rightarrow> 'a prog \<Rightarrow> ('a \<Rightarrow> 'w \<Rightarrow> bool) \<Rightarrow> 'w \<Rightarrow> bool" where
  "safe t (Return x) Q w = (\<forall>w'. le w w' \<longrightarrow> inv w' \<longrightarrow> Q x w')"
| "safe t (Crash e) Q w = (\<not> t)"
| "safe t Hang Q w = (\<not> t)"
| "safe t (Request c m k) Q w =
     (\<forall>w'. le w w' \<longrightarrow> inv w' \<longrightarrow> allowed c m w' \<and> (t \<longrightarrow> returns (serve c m w')) \<and>
        (\<forall>w'' r. serve c m w' = Ret (w'', r) \<longrightarrow> safe t (k r) Q w''))"
| "safe t (Remote_read c a k) Q w =
     (\<forall>w'. le w w' \<longrightarrow> inv w' \<longrightarrow> safe t (k (peek c a w')) Q w')"

lemma safe_le: "safe t p Q w \<Longrightarrow> le w w' \<Longrightarrow> safe t p Q w'"
  by (cases p) (auto intro: le_trans)

lemma safe_RequestI:
  assumes "\<And>w'. le w w' \<Longrightarrow> inv w' \<Longrightarrow> allowed c m w'"
    and "\<And>w'. le w w' \<Longrightarrow> inv w' \<Longrightarrow> t \<Longrightarrow> returns (serve c m w')"
    and "\<And>w' w'' r. le w w' \<Longrightarrow> inv w' \<Longrightarrow> serve c m w' = Ret (w'', r) \<Longrightarrow> safe t (k r) Q w''"
  shows "safe t (Request c m k) Q w"
  using assms by simp

lemma safe_RequestD:
  assumes "safe t (Request c m k) Q w" and "le w w'" and "inv w'"
  shows "allowed c m w'" and "t \<Longrightarrow> returns (serve c m w')"
    and "serve c m w' = Ret (w'', r) \<Longrightarrow> safe t (k r) Q w''"
  using assms by (cases r; simp)+

lemma safe_bind:
  assumes "safe t p R w" and "\<And>x w'. R x w' \<Longrightarrow> inv w' \<Longrightarrow> le w w' \<Longrightarrow> safe t (f x) Q w'"
    and "inv w"
  shows "safe t (bind_prog p f) Q w"
  using assms
proof (induction p arbitrary: w)
  case (Return x)
  then show ?case using le_refl[of w] by simp
next
  case (Request c m k)
  show ?case
    unfolding bind_prog.simps
  proof (rule safe_RequestI)
    fix w' assume w': "le w w'" "inv w'"
    show allow: "allowed c m w'" by (rule safe_RequestD(1)[OF Request.prems(1) w'])
    show "t \<Longrightarrow> returns (serve c m w')" by (rule safe_RequestD(2)[OF Request.prems(1) w'])
    fix w'' r assume s: "serve c m w' = Ret (w'', r)"
    have st: "inv w''" "le w' w''" using serve_inv[OF w'(2) allow s] by auto
    show "safe t (bind_prog (k r) f) Q w''"
    proof (rule Request.IH)
      show "safe t (k r) R w''" by (rule safe_RequestD(3)[OF Request.prems(1) w' s])
      show "safe t (f x) Q v" if "R x v" "inv v" "le w'' v" for x v
        using Request.prems(2)[OF that(1,2)] that(3) st w' by (meson le_trans)
    qed (use st in auto)
  qed
next
  case (Remote_read c a k)
  show ?case
  proof (simp, intro allI impI)
    fix w' assume w': "le w w'" "inv w'"
    show "safe t (bind_prog (k (peek c a w')) f) Q w'"
    proof (rule Remote_read.IH)
      show "safe t (k (peek c a w')) R w'" using Remote_read.prems(1) w' by simp
      show "safe t (f x) Q v" if "R x v" "inv v" "le w' v" for x v
        using Remote_read.prems(2)[OF that(1,2)] that(3) w' by (meson le_trans)
    qed (use w' in auto)
  qed
qed auto

lemma safe_mono:
  assumes "safe t p Q w" and "\<And>x w'. Q x w' \<Longrightarrow> inv w' \<Longrightarrow> le w w' \<Longrightarrow> R x w'" and "inv w"
  shows "safe t p R w"
proof -
  have "safe t (bind_prog p Return) R w"
  proof (rule safe_bind)
    show "safe t p (\<lambda>x w'. \<forall>v. le w' v \<longrightarrow> inv v \<longrightarrow> Q x v) w"
      using assms(1)
    proof (induction p arbitrary: w)
      case (Return x)
      then show ?case by (auto intro: le_trans)
    next
      case (Request c m k)
      show ?case
        by (rule safe_RequestI) (blast intro: Request.IH dest: safe_RequestD[OF Request.prems])+
    qed auto
  next
    fix x w'
    assume "\<forall>v. le w' v \<longrightarrow> inv v \<longrightarrow> Q x v" and "le w w'"
    then show "safe t (Return x) R w'" using assms(2) by (auto intro: le_trans)
  qed (rule assms(3))
  moreover have "bind_prog p Return = p" by (induction p) auto
  ultimately show ?thesis by simp
qed

text \<open>The rule for loops: an invariant of the state and of what has been visited.\<close>

lemma safe_for_each:
  assumes "J [] s w" and "inv w"
    and step: "\<And>done x s w. J done s w \<Longrightarrow> inv w \<Longrightarrow> x \<in> set xs \<Longrightarrow> x \<notin> set done \<or> \<not> distinct xs \<Longrightarrow>
        safe t (f x s) (J (done @ [x])) w"
    and stable: "\<And>done s w w'. J done s w \<Longrightarrow> le w w' \<Longrightarrow> inv w' \<Longrightarrow> J done s w'"
  shows "safe t (for_each_prog f xs s) (J xs) w"
proof -
  have "safe t (for_each_prog f ys s) (J xs) w"
    if "xs = ds @ ys" "J ds s w" "inv w" for ds ys s w
    using that
  proof (induction ys arbitrary: ds s w)
    case Nil
    then show ?case by (auto intro: stable)
  next
    case (Cons y ys)
    have y: "y \<in> set xs" "y \<notin> set ds \<or> \<not> distinct xs" using Cons.prems(1) by auto
    have "safe t (f y s) (J (ds @ [y])) w" by (rule step[OF Cons.prems(2,3) y])
    then show ?case
      unfolding for_each_prog.simps
    proof (rule safe_bind)
      show "safe t (for_each_prog f ys z) (J xs) v" if "J (ds @ [y]) z v" "inv v" for z v
        using Cons.IH[of "ds @ [y]" z v] Cons.prems(1) that by simp
    qed (rule Cons.prems(3))
  qed
  from this[of "[]" xs s w] assms(1,2) show ?thesis by simp
qed

text \<open>
  Soundness: from a state where every program is safe, every reachable state satisfies the
  invariant, programs that have returned satisfy their postcondition, and in the total reading
  no program is stuck.
\<close>

lemma safe_step:
  assumes "prog_step serve peek (w, p) (w', p')" and "safe t p Q w" and "inv w"
  shows "inv w' \<and> le w w' \<and> safe t p' Q w'"
  using assms(1)
proof cases
  case (step_request c m r k)
  have "allowed c m w" by (rule safe_RequestD(1)[OF assms(2)[unfolded step_request] le_refl assms(3)])
  moreover have "safe t (k r) Q w'"
    by (rule safe_RequestD(3)[OF assms(2)[unfolded step_request] le_refl assms(3) step_request(3)])
  ultimately show ?thesis using serve_inv[OF assms(3) _ step_request(3)] step_request by auto
next
  case (step_read c a k)
  then show ?thesis using assms(2,3) le_refl by auto
qed

definition system_ok :: "bool \<Rightarrow> (nat \<Rightarrow> 'a \<Rightarrow> 'w \<Rightarrow> bool) \<Rightarrow> 'w \<times> (nat \<Rightarrow> 'a prog) \<Rightarrow> bool" where
  "system_ok t Q st \<longleftrightarrow> inv (fst st) \<and> (\<forall>i. safe t (snd st i) (Q i) (fst st))"

lemma system_ok_step:
  assumes "system_ok t Q st" and "system_step serve peek st st'"
  shows "system_ok t Q st'"
proof -
  obtain w ps w' i p where st: "st = (w, ps)" "st' = (w', ps(i := p))"
    and step: "prog_step serve peek (w, ps i) (w', p)"
    using assms(2) by (cases rule: system_step.cases) auto
  have "inv w' \<and> le w w' \<and> safe t p (Q i) w'"
    using assms(1) by (intro safe_step[OF step]) (auto simp: system_ok_def st)
  then show ?thesis
    using assms(1) by (auto simp: system_ok_def st intro: safe_le)
qed

lemma system_ok_reach:
  assumes "(system_step serve peek)\<^sup>*\<^sup>* st st'" and "system_ok t Q st"
  shows "system_ok t Q st'"
  using assms by (induction rule: rtranclp_induct) (auto intro: system_ok_step)

lemma system_ok_Return:
  assumes "system_ok t Q (w, ps)" and "ps i = Return x"
  shows "Q i x w"
  using assms le_refl[of w] unfolding system_ok_def by (metis fst_conv safe.simps(1) snd_conv)

lemma system_ok_progress:
  assumes "system_ok True Q (w, ps)"
  shows "(\<exists>x. ps i = Return x) \<or> (\<exists>st. prog_step serve peek (w, ps i) st)"
proof (cases "ps i")
  case (Request c m k)
  then have "safe True (Request c m k) (Q i) w" "inv w"
    using assms unfolding system_ok_def by (metis fst_conv snd_conv)+
  then have "returns (serve c m w)" using safe_RequestD(2) le_refl by blast
  then show ?thesis using Request step_request[of serve c m w] unfolding returns_def by force
next
  case (Remote_read c a k)
  then show ?thesis using step_read[of serve peek w c a k] by auto
qed (use assms in \<open>auto simp: system_ok_def dest!: spec[of _ i]\<close>)

text \<open>Alone, a program that is safe in the total reading runs to its end.\<close>

lemma safe_run:
  assumes "safe True p Q w" and "inv w"
  shows "\<exists>w' x. run_prog serve peek p w = Ret (w', x) \<and> Q x w' \<and> inv w' \<and> le w w'"
  using assms
proof (induction p arbitrary: w)
  case (Request c m k)
  note S = safe_RequestD[OF Request.prems(1) le_refl Request.prems(2)]
  obtain w1 r where r: "serve c m w = Ret (w1, r)"
    using S(2) unfolding returns_def by auto
  have w1: "inv w1" "le w w1" using serve_inv[OF Request.prems(2) S(1) r] by auto
  have "\<exists>w' x. run_prog serve peek (k r) w1 = Ret (w', x) \<and> Q x w' \<and> inv w' \<and> le w1 w'"
    by (rule Request.IH[OF _ S(3)[OF r] w1(1)]) simp
  then show ?case using r w1(2) le_trans by auto
next
  case (Remote_read c a k)
  then show ?case using le_refl by auto
qed (use le_refl in auto)

text \<open>In the total reading every program of a reachable state can run to its end.\<close>

lemma system_ok_finish:
  assumes "system_ok True Q (w, ps)"
  shows "\<exists>w' x. (system_step serve peek)\<^sup>*\<^sup>* (w, ps) (w', ps(i := Return x)) \<and> Q i x w'"
proof -
  have "safe True (ps i) (Q i) w" "inv w" using assms by (auto simp: system_ok_def)
  from safe_run[OF this] obtain w' x where run: "run_prog serve peek (ps i) w = Ret (w', x)" and Q: "Q i x w'" by blast
  have "(system_step serve peek)\<^sup>*\<^sup>* (w, ps) (w', ps(i := Return x))" by (rule run_prog_steps[where p = "ps i", OF run]) simp
  then show ?thesis using Q by blast
qed

end

end
