(* ===== verification/Connections.thy ===== *)
theory Connections
  imports Messages Containers
begin

text \<open>
  Where requests go: \<open>HostAndPort\<close> (\<open>include/common/net/HostAndPort.h\<close>,
  \<open>src/common/net/HostAndPort.cpp\<close>), the fields of \<open>Config\<close> that the client and the server read
  (\<open>include/common/util/Config.h\<close>, \<open>ComType.h\<close>, \<open>TrxType.h\<close>), and \<open>ConnectionPool\<close>
  (\<open>include/client/net/ConnectionPool.h\<close>, \<open>src/client/net/ConnectionPool.cpp\<close>).  A
  \<open>Communicator*\<close> is the number of its connection.
\<close>

section \<open>Hosts and ports\<close>

record host_and_port =
  hp_hostname :: string
  hp_port_str :: string

definition MAXHOSTNAMELEN :: nat where "MAXHOSTNAMELEN = 64"
definition PORT_STR_LEN :: nat where "PORT_STR_LEN = 8"

text \<open>\<open>strncpy\<close> of a C string (its characters up to the NUL) into an array of \<open>n\<close> characters.\<close>

definition strncpy :: "nat \<Rightarrow> string \<Rightarrow> string" where
  "strncpy n src = take n src @ replicate (n - length src) NUL"

text \<open>Reading an array as a C string runs past the array when it holds no NUL.\<close>

definition c_string :: "string \<Rightarrow> string outcome" where
  "c_string arr = (if NUL \<in> set arr then Ret (takeWhile (\<lambda>c. c \<noteq> NUL) arr) else Dies Out_of_bounds)"

definition HostAndPort :: "string \<Rightarrow> string \<Rightarrow> host_and_port" where
  "HostAndPort hostname port_str =
     \<lparr>hp_hostname = strncpy MAXHOSTNAMELEN hostname, hp_port_str = strncpy PORT_STR_LEN port_str\<rparr>"

definition strcmp_eq :: "string \<Rightarrow> string \<Rightarrow> bool outcome" where
  "strcmp_eq a b = bind_outcome (c_string a) (\<lambda>s. bind_outcome (c_string b) (\<lambda>t. Ret (s = t)))"

definition HostAndPort_eq :: "host_and_port \<Rightarrow> host_and_port \<Rightarrow> bool outcome" where
  "HostAndPort_eq this other =
     bind_outcome (strcmp_eq (hp_hostname this) (hp_hostname other)) (\<lambda>same.
       if same then strcmp_eq (hp_port_str this) (hp_port_str other) else Ret False)"

text \<open>
  On hosts and ports built from strings that leave room for the NUL, \<open>==\<close> is equality of the
  arrays, so that the connection map can be keyed by the record.
\<close>

lemma length_strncpy [simp]: "length (strncpy n s) = n"
  by (simp add: strncpy_def)

lemma c_string_strncpy:
  assumes "length s < n" and "NUL \<notin> set s"
  shows "c_string (strncpy n s) = Ret s"
proof -
  obtain m where m: "n - length s = Suc m" using assms(1) by (metis Suc_diff_Suc)
  then have "take n s = s" by simp
  then have "strncpy n s = s @ NUL # replicate m NUL" by (simp add: strncpy_def m)
  moreover have "takeWhile (\<lambda>c. c \<noteq> NUL) (s @ NUL # r) = s" for r
    using assms(2) by (subst takeWhile_append2) auto
  ultimately show ?thesis by (simp add: c_string_def)
qed

lemma c_string_too_long:
  assumes "n \<le> length s" and "NUL \<notin> set s"
  shows "c_string (strncpy n s) = Dies Out_of_bounds"
proof -
  have "NUL \<notin> set (take n s)" using assms(2) by (meson in_set_takeD)
  then show ?thesis using assms(1) by (simp add: strncpy_def c_string_def)
qed

lemma strncpy_inject:
  assumes "length s < n" "NUL \<notin> set s" "length t < n" "NUL \<notin> set t"
  shows "strncpy n s = strncpy n t \<longleftrightarrow> s = t"
proof
  assume eq: "strncpy n s = strncpy n t"
  have "Ret s = c_string (strncpy n s)" using c_string_strncpy[OF assms(1,2)] by (rule sym)
  also have "\<dots> = Ret t" unfolding eq by (rule c_string_strncpy[OF assms(3,4)])
  finally show "s = t" by simp
qed simp

definition host_port_fits :: "string \<Rightarrow> string \<Rightarrow> bool" where
  "host_port_fits h p \<longleftrightarrow> length h < MAXHOSTNAMELEN \<and> NUL \<notin> set h \<and> length p < PORT_STR_LEN \<and> NUL \<notin> set p"

lemma HostAndPort_eq_iff:
  assumes "host_port_fits h p" and "host_port_fits h' p'"
  shows "HostAndPort_eq (HostAndPort h p) (HostAndPort h' p') = Ret (HostAndPort h p = HostAndPort h' p')"
proof -
  note fits = assms[unfolded host_port_fits_def]
  have "c_string (strncpy MAXHOSTNAMELEN h) = Ret h" "c_string (strncpy MAXHOSTNAMELEN h') = Ret h'"
    "c_string (strncpy PORT_STR_LEN p) = Ret p" "c_string (strncpy PORT_STR_LEN p') = Ret p'"
    using fits by (auto intro: c_string_strncpy)
  moreover have "HostAndPort h p = HostAndPort h' p' \<longleftrightarrow> h = h' \<and> p = p'"
    using fits by (auto simp: HostAndPort_def strncpy_inject)
  ultimately show ?thesis by (simp add: HostAndPort_eq_def HostAndPort_def strcmp_eq_def)
qed

section \<open>Configuration\<close>

datatype com_type = TCP | IPoIB | SEND_RECV | RDMA_WRITE | RDMA_WRITE_IMM

datatype trx_type = TWO_PHASE_LOCKING | NO_CONCURRENCY_CONTROL | RAMP_FAST | AC_RAMP_FAST

record config =
  cfg_com_type :: com_type
  cfg_trx_type :: trx_type
  cfg_data_num :: int
  cfg_worker_num :: int
  cfg_trx_len :: int
  cfg_write_trx_num :: int
  cfg_read_trx_num :: int
  cfg_value_size :: int
  cfg_server_list :: "host_and_port list"
  cfg_max_key_num :: int
  cfg_cache_addr :: nat
  cfg_cache_size :: nat
  cfg_cache_rkey :: nat

section \<open>Connection pool\<close>

record connection_pool =
  connections :: "(host_and_port, nat) cmap"
  access_coms :: "nat list"

definition ConnectionPool_new :: connection_pool where
  "ConnectionPool_new = \<lparr>connections = Map.empty, access_coms = []\<rparr>"

datatype socket_class = TCPSocket | SendRecvSocket | RDMAWriteSocket | RDMAWriteImmSocket

fun socket_class_of :: "com_type \<Rightarrow> socket_class" where
  "socket_class_of TCP = TCPSocket"
| "socket_class_of IPoIB = TCPSocket"
| "socket_class_of SEND_RECV = SendRecvSocket"
| "socket_class_of RDMA_WRITE = RDMAWriteSocket"
| "socket_class_of RDMA_WRITE_IMM = RDMAWriteImmSocket"

text \<open>
  \<open>connect\<close> is the static function of the socket class: it gives a fresh connection, or exits.
\<close>

definition ConnectionPool_connect_all ::
    "(socket_class \<Rightarrow> host_and_port \<Rightarrow> 'w \<Rightarrow> ('w \<times> nat) outcome) \<Rightarrow> config \<Rightarrow>
     'w \<times> connection_pool \<Rightarrow> ('w \<times> connection_pool) outcome" where
  "ConnectionPool_connect_all connect cfg st =
     fold_outcome (\<lambda>hp (w, cp).
         bind_outcome (connect (socket_class_of (cfg_com_type cfg)) hp w) (\<lambda>(w, com).
           Ret (w, cp\<lparr>connections := cmap_assign (connections cp) hp com\<rparr>)))
       (cfg_server_list cfg) st"

text \<open>\<open>hash\<close> is \<open>std::hash<std::string>\<close>.  The remainder by an empty server list is undefined.\<close>

definition ConnectionPool_get ::
    "(key \<Rightarrow> nat) \<Rightarrow> config \<Rightarrow> key \<Rightarrow> connection_pool \<Rightarrow> (connection_pool \<times> nat) outcome" where
  "ConnectionPool_get hash cfg k cp =
     (let hash_v = hash k in
      if cfg_server_list cfg = [] then Dies Division_by_zero
      else let hp = cfg_server_list cfg ! (hash_v mod length (cfg_server_list cfg)) in
        (case connections cp hp of
           None \<Rightarrow> Dies Uncaught_exception
         | Some com \<Rightarrow>
             Ret (cp\<lparr>access_coms := (if com \<in> set (access_coms cp) then access_coms cp
                                     else access_coms cp @ [com])\<rparr>, com)))"

definition ConnectionPool_clear_access_coms :: "connection_pool \<Rightarrow> connection_pool" where
  "ConnectionPool_clear_access_coms cp = cp\<lparr>access_coms := []\<rparr>"

text \<open>
  \<open>close_all\<close> visits the map in the order \<open>hps\<close> of its hash buckets; \<open>send_close\<close> is the socket's,
  \<open>destroy\<close> its destructor.
\<close>

definition ConnectionPool_close_all ::
    "(nat \<Rightarrow> 'w \<Rightarrow> 'w outcome) \<Rightarrow> (nat \<Rightarrow> 'w \<Rightarrow> 'w outcome) \<Rightarrow> host_and_port list \<Rightarrow>
     connection_pool \<Rightarrow> 'w \<Rightarrow> 'w outcome" where
  "ConnectionPool_close_all send_close destroy hps cp w =
     fold_outcome (\<lambda>hp w.
         (case connections cp hp of
            None \<Rightarrow> Ret w
          | Some com \<Rightarrow> bind_outcome (send_close com w) (destroy com)))
       hps w"

text \<open>A pool is connected when every server of the list has a connection.\<close>

definition pool_connected :: "config \<Rightarrow> connection_pool \<Rightarrow> bool" where
  "pool_connected cfg cp \<longleftrightarrow> cfg_server_list cfg \<noteq> [] \<and>
     (\<forall>hp \<in> set (cfg_server_list cfg). connections cp hp \<noteq> None)"

lemma connect_all_connected:
  assumes "ConnectionPool_connect_all connect cfg (w, cp) = Ret (w', cp')" and "cfg_server_list cfg \<noteq> []"
  shows "pool_connected cfg cp'"
proof -
  have "set hps \<union> dom (connections (snd st)) \<subseteq> dom (connections (snd st'))"
    if "fold_outcome (\<lambda>hp (w, cp).
         bind_outcome (connect (socket_class_of (cfg_com_type cfg)) hp w) (\<lambda>(w, com).
           Ret (w, cp\<lparr>connections := cmap_assign (connections cp) hp com\<rparr>))) hps st = Ret st'"
    for hps st st'
    using that
  proof (induction hps arbitrary: st)
    case (Cons hp hps)
    obtain w0 cp0 where st: "st = (w0, cp0)" by (cases st)
    with Cons.prems obtain w1 com where
      rest: "fold_outcome (\<lambda>hp (w, cp).
         bind_outcome (connect (socket_class_of (cfg_com_type cfg)) hp w) (\<lambda>(w, com).
           Ret (w, cp\<lparr>connections := cmap_assign (connections cp) hp com\<rparr>))) hps
         (w1, cp0\<lparr>connections := cmap_assign (connections cp0) hp com\<rparr>) = Ret st'"
      by (auto simp: bind_outcome_Ret_iff)
    have "dom (cmap_assign (connections cp0) hp com) = insert hp (dom (connections cp0))"
      by (simp add: cmap_assign_def)
    with Cons.IH[OF rest] show ?case unfolding st by simp
  qed simp
  from this[OF assms(1)[unfolded ConnectionPool_connect_all_def]]
  have "set (cfg_server_list cfg) \<subseteq> dom (connections cp')" by simp
  then show ?thesis using assms(2) unfolding pool_connected_def dom_def by blast
qed

text \<open>On a connected pool every key has a connection, and always the same one.\<close>

definition com_of :: "(key \<Rightarrow> nat) \<Rightarrow> config \<Rightarrow> connection_pool \<Rightarrow> key \<Rightarrow> nat" where
  "com_of hash cfg cp k =
     the (connections cp (cfg_server_list cfg ! (hash k mod length (cfg_server_list cfg))))"

lemma ConnectionPool_get_connected:
  assumes "pool_connected cfg cp"
  shows "ConnectionPool_get hash cfg k cp =
    Ret (cp\<lparr>access_coms := (if com_of hash cfg cp k \<in> set (access_coms cp) then access_coms cp
                            else access_coms cp @ [com_of hash cfg cp k])\<rparr>, com_of hash cfg cp k)"
proof -
  have "cfg_server_list cfg ! (hash k mod length (cfg_server_list cfg)) \<in> set (cfg_server_list cfg)"
    using assms by (intro nth_mem) (simp add: pool_connected_def)
  then obtain com where
    "connections cp (cfg_server_list cfg ! (hash k mod length (cfg_server_list cfg))) = Some com"
    using assms unfolding pool_connected_def by blast
  moreover have "cfg_server_list cfg \<noteq> []" using assms by (simp add: pool_connected_def)
  ultimately show ?thesis by (simp add: ConnectionPool_get_def com_of_def Let_def)
qed

lemma com_of_access [simp]:
  "com_of hash cfg (cp\<lparr>access_coms := cs\<rparr>) = com_of hash cfg cp"
  by (simp add: com_of_def fun_eq_iff)

lemma pool_connected_access [simp]:
  "pool_connected cfg (cp\<lparr>access_coms := cs\<rparr>) = pool_connected cfg cp"
  by (simp add: pool_connected_def)

end
