(* ===== verification/Handlers.thy ===== *)
theory Handlers
  imports Programs Connections Entries
begin

text \<open>
  The client side of a transaction: \<open>TrxHandler\<close> and its four subclasses
  (\<open>include/client/service/handler/\<close>, \<open>src/client/service/handler/\<close>) and the loop of a client
  thread (\<open>src/client/ClientThread.cpp\<close>).  A handler's operations are programs that exchange
  messages; the loops of \<open>tbb::parallel_for_each\<close> take the order of their bodies as an argument.
  A body locks its connection for the length of one exchange, so bodies of one loop interleave
  like exchanges of different clients do.  The local map of a \<open>get_all\<close> that the code drops on
  return is the result of the model.
\<close>

record handler =
  h_cp :: connection_pool
  h_unpk :: "nat \<Rightarrow> byte list"
  h_addr_cache :: "(key, rka) cmap"
  h_trx :: trx

definition TrxHandler_new :: handler where
  "TrxHandler_new = \<lparr>h_cp = ConnectionPool_new, h_unpk = (\<lambda>_. []), h_addr_cache = Map.empty,
                     h_trx = Transaction_new\<rparr>"

text \<open>\<open>this->cp.get(key)\<close>\<close>

definition cp_get :: "(key \<Rightarrow> nat) \<Rightarrow> config \<Rightarrow> key \<Rightarrow> handler \<Rightarrow> (handler \<times> nat) prog" where
  "cp_get hash cfg k h =
     of_outcome (bind_outcome (ConnectionPool_get hash cfg k (h_cp h))
       (\<lambda>(cp, com). Ret (h\<lparr>h_cp := cp\<rparr>, com)))"

text \<open>\<open>com->send(msg_type, args...); com->recv(dsts...);\<close>\<close>

definition com_exchange ::
    "'o msgpack \<Rightarrow> nat \<times> nat \<Rightarrow> nat \<Rightarrow> message_type \<Rightarrow> arg list \<Rightarrow> arg list \<Rightarrow> handler \<Rightarrow>
     (handler \<times> arg list) prog" where
  "com_exchange mp junk com msg_type args dsts h =
     Request com (sent_msg mp junk msg_type args) (\<lambda>(header, body).
       let (vals, unpk) = Communicator_recv_body mp (h_unpk h com) body dsts
       in Return (h\<lparr>h_unpk := (h_unpk h)(com := unpk)\<rparr>, vals))"

definition TrxHandler_send_to_all ::
    "'o msgpack \<Rightarrow> nat \<times> nat \<Rightarrow> (nat \<Rightarrow> nat list) \<Rightarrow> message_type \<Rightarrow> arg list \<Rightarrow> handler \<Rightarrow> handler prog" where
  "TrxHandler_send_to_all mp junk perm msg_type args h =
     parallel_for_each perm (access_coms (h_cp h))
       (\<lambda>com h. bind_prog (com_exchange mp junk com msg_type args [] h) (\<lambda>(h, _). Return h)) h"

section \<open>RAMP-Fast\<close>

definition RAMPFastHandler_put_all ::
    "'o msgpack \<Rightarrow> nat \<times> nat \<Rightarrow> (key \<Rightarrow> nat) \<Rightarrow> config \<Rightarrow> int \<times> int \<Rightarrow> (nat \<Rightarrow> nat \<Rightarrow> nat list) \<Rightarrow>
     handler \<Rightarrow> handler prog" where
  "RAMPFastHandler_put_all mp junk hash cfg timeofday perms h =
     (let ts = Timestamp_now timeofday in
      bind_prog
        (parallel_for_each (perms 0) (write_set (h_trx h)) (\<lambda>w h.
           let k = fst w in
           bind_prog (cp_get hash cfg k h) (\<lambda>(h, com).
           bind_prog (com_exchange mp junk com PREPARE
                        [Item_arg (Item_full k (snd w) ts (access_keys (h_trx h)))] [] h) (\<lambda>(h, _).
           Return h))) h)
        (TrxHandler_send_to_all mp junk (perms 1) COMMIT [Ts_arg ts]))"

text \<open>
  \<open>com->recv(&ret[key])\<close> creates the element before it is filled; \<open>com\<close> answers into it.
\<close>

definition get_into ::
    "'o msgpack \<Rightarrow> nat \<times> nat \<Rightarrow> nat \<Rightarrow> message_type \<Rightarrow> arg list \<Rightarrow> key \<Rightarrow>
     handler \<times> (key, item) cmap \<Rightarrow> (handler \<times> (key, item) cmap) prog" where
  "get_into mp junk com msg_type args k st =
     (let (h, ret) = st;
          (ret, it) = cmap_index ret k Item_default
      in bind_prog (com_exchange mp junk com msg_type args [Item_arg it] h) (\<lambda>(h, vals).
           Return (h, cmap_assign ret k (arg_item (vals ! 0)))))"

text \<open>
  The loop between the two rounds: \<open>its\<close> are the values of \<open>ret\<close> in the order of its buckets.
\<close>

definition note_version :: "timestamp \<Rightarrow> key \<Rightarrow> (key, timestamp) cmap \<Rightarrow> (key, timestamp) cmap" where
  "note_version ts k v_latest =
     (let (v_latest, v) = cmap_index v_latest k Timestamp_default
      in if Timestamp_lt v ts then cmap_assign v_latest k ts else v_latest)"

definition check_missing :: "item list \<Rightarrow> (key, timestamp) cmap" where
  "check_missing its =
     fold (\<lambda>it v_latest. fold (note_version (item_ts it)) (item_trx_keys it) v_latest) its Map.empty"

definition ret_item :: "(key, item) cmap \<Rightarrow> key \<Rightarrow> item" where
  "ret_item ret k = snd (cmap_index ret k Item_default)"

definition ret_values :: "(nat \<Rightarrow> nat list) \<Rightarrow> key list \<Rightarrow> (key, item) cmap \<Rightarrow> item list" where
  "ret_values perm ks ret = map (ret_item ret) (in_order perm ks)"

text \<open>
  The body of the second round.  The two \<open>operator[]\<close> in its condition create elements that
  nothing observes.
\<close>

definition second_round ::
    "'o msgpack \<Rightarrow> nat \<times> nat \<Rightarrow> (key \<Rightarrow> nat) \<Rightarrow> config \<Rightarrow> (key, timestamp) cmap \<Rightarrow> key \<Rightarrow>
     handler \<times> (key, item) cmap \<Rightarrow> (handler \<times> (key, item) cmap) prog" where
  "second_round mp junk hash cfg v_latest k st =
     (let (h, ret) = st;
          v = snd (cmap_index v_latest k Timestamp_default);
          (ret, it) = cmap_index ret k Item_default
      in if Timestamp_gt v (item_ts it)
         then bind_prog (cp_get hash cfg k h) (\<lambda>(h, com).
                get_into mp junk com GET [Key_arg k, Ts_arg v] k (h, ret))
         else Return (h, ret))"

definition RAMPFastHandler_get_all ::
    "'o msgpack \<Rightarrow> nat \<times> nat \<Rightarrow> (key \<Rightarrow> nat) \<Rightarrow> config \<Rightarrow> (nat \<Rightarrow> nat \<Rightarrow> nat list) \<Rightarrow>
     handler \<Rightarrow> (handler \<times> (key, item) cmap) prog" where
  "RAMPFastHandler_get_all mp junk hash cfg perms h =
     (let keys = map fst (read_set (h_trx h)) in
      bind_prog
        (parallel_for_each (perms 0) keys (\<lambda>k (h, ret).
           bind_prog (cp_get hash cfg k h) (\<lambda>(h, com).
             get_into mp junk com GET [Key_arg k, Ts_arg Timestamp_default] k (h, ret))) (h, Map.empty))
        (\<lambda>(h, ret).
           let v_latest = check_missing (ret_values (perms 1) keys ret)
           in parallel_for_each (perms 2) keys (second_round mp junk hash cfg v_latest) (h, ret)))"

section \<open>RAMP-Fast over one-sided reads\<close>

text \<open>
  \<open>com->read(&ret[key], rka)\<close>: the packet arrives in a send buffer that \<open>get_send_buf\<close> has
  cleared; where that buffer lies does not matter, so it lies at address 0 here.
\<close>

definition com_read ::
    "'o msgpack \<Rightarrow> nat \<Rightarrow> item \<Rightarrow> rka \<Rightarrow> (int \<times> item) prog" where
  "com_read mp com it rka =
     Remote_read com rka (\<lambda>packet.
       of_outcome (RDMAWriteSocket_read_entry mp (Buffer_on 0 ENTRY_SIZE) it (mem_write (\<lambda>_. 0) 0 packet)))"

definition get_with_addr ::
    "'o msgpack \<Rightarrow> nat \<times> nat \<Rightarrow> nat \<Rightarrow> key \<Rightarrow>
     handler \<times> (key, item) cmap \<Rightarrow> (handler \<times> (key, item) cmap) prog" where
  "get_with_addr mp junk com k st =
     (let (h, ret) = st;
          (ret, it) = cmap_index ret k Item_default;
          (cache, a) = cmap_index (h_addr_cache h) k RemoteKeyAndAddr_default;
          h = h\<lparr>h_addr_cache := cache\<rparr>
      in bind_prog (com_exchange mp junk com GET_WITH_ADDR [Key_arg k, Ts_arg Timestamp_default]
                      [Item_arg it, Rka_arg a] h) (\<lambda>(h, vals).
           Return (h\<lparr>h_addr_cache := cmap_assign (h_addr_cache h) k (arg_rka (vals ! 1))\<rparr>,
                   cmap_assign ret k (arg_item (vals ! 0)))))"

definition AC_first_round ::
    "'o msgpack \<Rightarrow> nat \<times> nat \<Rightarrow> (key \<Rightarrow> nat) \<Rightarrow> config \<Rightarrow> key \<Rightarrow>
     handler \<times> (key, item) cmap \<Rightarrow> (handler \<times> (key, item) cmap) prog" where
  "AC_first_round mp junk hash cfg k st =
     (let (h, ret) = st in
      bind_prog (cp_get hash cfg k h) (\<lambda>(h, com).
        (case h_addr_cache h k of
           None \<Rightarrow> get_with_addr mp junk com k (h, ret)
         | Some a \<Rightarrow>
             (let (ret, it) = cmap_index ret k Item_default in
              bind_prog (com_read mp com it a) (\<lambda>(rc, it).
                let ret = cmap_assign ret k it in
                if rc = -1 then get_with_addr mp junk com k (h, ret)
                else Return (h, ret))))))"

definition ACRAMPFastHandler_get_all ::
    "'o msgpack \<Rightarrow> nat \<times> nat \<Rightarrow> (key \<Rightarrow> nat) \<Rightarrow> config \<Rightarrow> (nat \<Rightarrow> nat \<Rightarrow> nat list) \<Rightarrow>
     handler \<Rightarrow> (handler \<times> (key, item) cmap) prog" where
  "ACRAMPFastHandler_get_all mp junk hash cfg perms h =
     (let keys = map fst (read_set (h_trx h)) in
      bind_prog
        (parallel_for_each (perms 0) keys (AC_first_round mp junk hash cfg) (h, Map.empty))
        (\<lambda>(h, ret).
           let v_latest = check_missing (ret_values (perms 1) keys ret)
           in parallel_for_each (perms 2) keys (second_round mp junk hash cfg v_latest) (h, ret)))"

section \<open>No concurrency control\<close>

definition NoCCHandler_put_all ::
    "'o msgpack \<Rightarrow> nat \<times> nat \<Rightarrow> (key \<Rightarrow> nat) \<Rightarrow> config \<Rightarrow> int \<times> int \<Rightarrow> (nat \<Rightarrow> nat \<Rightarrow> nat list) \<Rightarrow>
     handler \<Rightarrow> handler prog" where
  "NoCCHandler_put_all mp junk hash cfg timeofday perms h =
     (let ts = Timestamp_now timeofday in
      bind_prog
        (parallel_for_each (perms 0) (write_set (h_trx h)) (\<lambda>w h.
           let k = fst w in
           bind_prog (cp_get hash cfg k h) (\<lambda>(h, com).
           bind_prog (com_exchange mp junk com PREPARE [Item_arg (Item_versioned k (snd w) ts)] [] h) (\<lambda>(h, _).
           Return h))) h)
        (TrxHandler_send_to_all mp junk (perms 1) COMMIT [Ts_arg ts]))"

definition NoCCHandler_get_all ::
    "'o msgpack \<Rightarrow> nat \<times> nat \<Rightarrow> (key \<Rightarrow> nat) \<Rightarrow> config \<Rightarrow> (nat \<Rightarrow> nat \<Rightarrow> nat list) \<Rightarrow>
     handler \<Rightarrow> (handler \<times> (key, item) cmap) prog" where
  "NoCCHandler_get_all mp junk hash cfg perms h =
     parallel_for_each (perms 0) (map fst (read_set (h_trx h))) (\<lambda>k (h, ret).
       bind_prog (cp_get hash cfg k h) (\<lambda>(h, com).
         get_into mp junk com GET [Key_arg k] k (h, ret))) (h, Map.empty)"

section \<open>Two-phase locking\<close>

text \<open>The keys are visited in the order of the two \<open>std::map\<close>s.\<close>

definition LockBasedHandler_put_all ::
    "'o msgpack \<Rightarrow> nat \<times> nat \<Rightarrow> (key \<Rightarrow> nat) \<Rightarrow> config \<Rightarrow> int \<times> int \<Rightarrow> (nat \<Rightarrow> nat \<Rightarrow> nat list) \<Rightarrow>
     handler \<Rightarrow> handler prog" where
  "LockBasedHandler_put_all mp junk hash cfg timeofday perms h =
     (let ts = Timestamp_now timeofday in
      bind_prog
        (for_each_prog (\<lambda>w h.
           let k = fst w in
           bind_prog (cp_get hash cfg k h) (\<lambda>(h, com).
           bind_prog (com_exchange mp junk com PUT [Item_arg (Item_versioned k (snd w) ts)] [] h) (\<lambda>(h, _).
           Return h))) (write_set (h_trx h)) h)
        (TrxHandler_send_to_all mp junk (perms 0) RELEASE_LOCKS []))"

definition LockBasedHandler_get_all ::
    "'o msgpack \<Rightarrow> nat \<times> nat \<Rightarrow> (key \<Rightarrow> nat) \<Rightarrow> config \<Rightarrow> (nat \<Rightarrow> nat \<Rightarrow> nat list) \<Rightarrow>
     handler \<Rightarrow> (handler \<times> (key, item) cmap) prog" where
  "LockBasedHandler_get_all mp junk hash cfg perms h =
     bind_prog
       (for_each_prog (\<lambda>k (h, ret).
          bind_prog (cp_get hash cfg k h) (\<lambda>(h, com).
            get_into mp junk com GET [Key_arg k] k (h, ret))) (map fst (read_set (h_trx h))) (h, Map.empty))
       (\<lambda>(h, ret).
          bind_prog (TrxHandler_send_to_all mp junk (perms 0) RELEASE_LOCKS [] h) (\<lambda>h. Return (h, ret)))"

section \<open>The client thread\<close>

text \<open>
  \<open>ClientThread::run\<close> on the transactions it pops from the queue.  \<open>put_all\<close> and \<open>get_all\<close> are
  those of the handler's class; the number of the iteration selects the time of day and the
  orders of its loops.  The results of all \<open>get_all\<close> calls are collected.
\<close>

definition ClientThread_trx ::
    "(handler \<Rightarrow> handler prog) \<Rightarrow> (handler \<Rightarrow> (handler \<times> (key, item) cmap) prog) \<Rightarrow> trx \<Rightarrow>
     handler \<times> (key, item) cmap list \<Rightarrow> (handler \<times> (key, item) cmap list) prog" where
  "ClientThread_trx put_all get_all trx st =
     (let (h, rets) = st; h = h\<lparr>h_trx := trx\<rparr> in
      bind_prog (if write_set (h_trx h) \<noteq> [] then put_all h else Return h) (\<lambda>h.
      bind_prog (if read_set (h_trx h) \<noteq> []
                 then bind_prog (get_all h) (\<lambda>(h, ret). Return (h, rets @ [ret]))
                 else Return (h, rets)) (\<lambda>(h, rets).
      Return (h\<lparr>h_cp := ConnectionPool_clear_access_coms (h_cp h)\<rparr>, rets))))"

fun ClientThread_run ::
    "(nat \<Rightarrow> handler \<Rightarrow> handler prog) \<Rightarrow> (nat \<Rightarrow> handler \<Rightarrow> (handler \<times> (key, item) cmap) prog) \<Rightarrow>
     nat \<Rightarrow> trx list \<Rightarrow> handler \<times> (key, item) cmap list \<Rightarrow> (handler \<times> (key, item) cmap list) prog" where
  "ClientThread_run put_all get_all i [] st = Return st"
| "ClientThread_run put_all get_all i (trx # trxs) st =
     bind_prog (ClientThread_trx (put_all i) (get_all i) trx st)
       (ClientThread_run put_all get_all (Suc i) trxs)"

section \<open>What the second round asks for\<close>

definition missing_of :: "(key, timestamp) cmap \<Rightarrow> key \<Rightarrow> timestamp" where
  "missing_of v_latest k = (case v_latest k of None \<Rightarrow> Timestamp_default | Some v \<Rightarrow> v)"

lemma missing_of_index [simp]: "snd (cmap_index v k Timestamp_default) = missing_of v k"
  by (auto simp: cmap_index_def missing_of_def split: option.splits)

lemma missing_of_note_version:
  "missing_of (note_version ts k v) = (missing_of v)(k := max (missing_of v k) ts)"
  by (auto simp: note_version_def missing_of_def cmap_index_def cmap_assign_def max_def fun_eq_iff
      split: option.splits)

lemma missing_of_fold_note:
  "missing_of (fold (note_version ts) ks v) = (\<lambda>k. if k \<in> set ks then max (missing_of v k) ts else missing_of v k)"
  by (induction ks arbitrary: v) (auto simp: missing_of_note_version fun_eq_iff max_def)

lemma missing_of_fold_items:
  "missing_of (fold (\<lambda>it v. fold (note_version (item_ts it)) (item_trx_keys it) v) its v) k =
     fold max (map item_ts (filter (\<lambda>it. k \<in> set (item_trx_keys it)) its)) (missing_of v k)"
  by (induction its arbitrary: v) (auto simp: missing_of_fold_note max.commute)

lemma fold_max_ge: "(x::'a::linorder) \<le> fold max xs x" "y \<in> set xs \<Longrightarrow> y \<le> fold max xs x"
proof -
  have "x \<le> fold max xs x \<and> (\<forall>y \<in> set xs. y \<le> fold max xs x)" for x
  proof (induction xs arbitrary: x)
    case (Cons a xs)
    from Cons.IH[of "max a x"] show ?case by auto
  qed simp
  then show "x \<le> fold max xs x" "y \<in> set xs \<Longrightarrow> y \<le> fold max xs x" by blast+
qed

lemma fold_max_in: "fold max xs (x::'a::linorder) = x \<or> fold max xs x \<in> set xs"
proof (induction xs arbitrary: x)
  case (Cons a xs)
  from Cons.IH[of "max a x"] show ?case by (auto simp: max_def)
qed simp

text \<open>
  The version noted for a key is the largest timestamp among the items whose transaction wrote
  the key, and the default timestamp if there is none.
\<close>

lemma check_missing_upper:
  assumes "it \<in> set its" and "k \<in> set (item_trx_keys it)"
  shows "item_ts it \<le> missing_of (check_missing its) k"
  unfolding check_missing_def missing_of_fold_items
  by (rule fold_max_ge(2)) (use assms in auto)

lemma check_missing_attained:
  assumes "missing_of (check_missing its) k \<noteq> Timestamp_default"
  obtains it where "it \<in> set its" and "k \<in> set (item_trx_keys it)"
    and "item_ts it = missing_of (check_missing its) k"
proof -
  have "missing_of Map.empty k = Timestamp_default" by (simp add: missing_of_def)
  then show ?thesis
    using fold_max_in[of "map item_ts (filter (\<lambda>it. k \<in> set (item_trx_keys it)) its)" Timestamp_default]
      assms that
    unfolding check_missing_def missing_of_fold_items by auto
qed

end
