(* ===== verification/Cluster.thy ===== *)
theory Cluster
  imports Executors Handlers
begin

text \<open>
  Servers and the connections between clients and servers.  \<open>Server\<close> (\<open>include/server/Server.h\<close>,
  \<open>src/server/Server.cpp\<close>) accepts connections and starts a \<open>ServerThread\<close>
  (\<open>src/server/ServerThread.cpp\<close>) with an executor of the configured class for each.  A cluster is
  a number of servers and the executors of all connections; \<open>cluster_serve\<close> is what a request sent
  on a connection comes back with.
\<close>

section \<open>Server and ServerThread\<close>

text \<open>\<open>rkey\<close> is the remote key that the registration of the cache answers; only one class asks for it.\<close>

fun Server_new_executor :: "trx_type \<Rightarrow> nat \<Rightarrow> nat \<Rightarrow> executor" where
  "Server_new_executor TWO_PHASE_LOCKING rkey i = LockBasedExecutor i"
| "Server_new_executor NO_CONCURRENCY_CONTROL rkey i = NoCCExecutor i"
| "Server_new_executor RAMP_FAST rkey i = RAMPFastExecutor i"
| "Server_new_executor AC_RAMP_FAST rkey i = ACRAMPFastExecutor rkey i"

text \<open>
  \<open>Server::start\<close> publishes the cache region in the configuration and then serves every accepted
  connection (one element of \<open>rkeys\<close> each); the executors are numbered from 0.
\<close>

fun Server_accept_loop :: "config \<Rightarrow> nat list \<Rightarrow> nat \<Rightarrow> executor list \<Rightarrow> executor list" where
  "Server_accept_loop cfg [] i threads = threads"
| "Server_accept_loop cfg (rkey # rkeys) i threads =
     Server_accept_loop cfg rkeys (i + 1) (threads @ [Server_new_executor (cfg_trx_type cfg) rkey i])"

definition Server_start :: "config \<Rightarrow> nat list \<Rightarrow> server \<Rightarrow> config \<times> executor list" where
  "Server_start cfg rkeys s =
     (let committed = tbl_committed (srv_table s);
          cfg = cfg\<lparr>cfg_cache_addr := buf_addr (ci_buf committed), cfg_cache_size := buf_size (ci_buf committed)\<rparr>
      in (cfg, Server_accept_loop cfg rkeys 0 []))"

definition Server_new :: "nat option \<Rightarrow> mem \<Rightarrow> server outcome" where
  "Server_new memalign m =
     bind_outcome (Table_new memalign m) (\<lambda>t. Ret \<lparr>srv_table = t, srv_locks = LockManager_new\<rparr>)"

fun executor_iter ::
    "'o msgpack \<Rightarrow> nat \<times> nat \<Rightarrow> trx_type \<Rightarrow> message \<Rightarrow> server \<times> executor \<Rightarrow> iteration outcome" where
  "executor_iter mp junk TWO_PHASE_LOCKING = LockBasedExecutor_run_iter mp junk"
| "executor_iter mp junk NO_CONCURRENCY_CONTROL = NoCCExecutor_run_iter mp junk"
| "executor_iter mp junk RAMP_FAST = RAMPFastExecutor_run_iter mp junk"
| "executor_iter mp junk AC_RAMP_FAST = ACRAMPFastExecutor_run_iter mp junk"

definition ServerThread_run ::
    "'o msgpack \<Rightarrow> nat \<times> nat \<Rightarrow> trx_type \<Rightarrow> message list \<Rightarrow> server \<times> executor \<Rightarrow> iteration outcome" where
  "ServerThread_run mp junk tt = executor_run (executor_iter mp junk tt)"

section \<open>Clusters\<close>

text \<open>
  \<open>home c\<close> is the server at the other end of connection \<open>c\<close>.
\<close>

record cluster =
  cl_servers :: "nat \<Rightarrow> server"
  cl_conns :: "nat \<Rightarrow> executor"

definition cluster_serve ::
    "'o msgpack \<Rightarrow> nat \<times> nat \<Rightarrow> trx_type \<Rightarrow> (nat \<Rightarrow> nat) \<Rightarrow> nat \<Rightarrow> message \<Rightarrow> cluster \<Rightarrow> (cluster \<times> message) outcome" where
  "cluster_serve mp junk tt home c msg w =
     bind_outcome (executor_iter mp junk tt msg (cl_servers w (home c), cl_conns w c)) (\<lambda>((s, ex), out, _).
       (case out of
          [] \<Rightarrow> Blocks
        | reply # _ \<Rightarrow>
            Ret (w\<lparr>cl_servers := (cl_servers w)(home c := s), cl_conns := (cl_conns w)(c := ex)\<rparr>, reply)))"

text \<open>A one-sided read sees the memory of the cache as it is.\<close>

definition cluster_peek :: "(nat \<Rightarrow> nat) \<Rightarrow> nat \<Rightarrow> rka \<Rightarrow> cluster \<Rightarrow> byte list" where
  "cluster_peek home c a w =
     mem_read (ci_mem (tbl_committed (srv_table (cl_servers w (home c))))) (rka_addr a) ENTRY_SIZE"

lemma Server_accept_loop_append:
  "Server_accept_loop cfg rkeys i threads =
     threads @ map2 (Server_new_executor (cfg_trx_type cfg)) rkeys [i..<i + length rkeys]"
proof (induction rkeys arbitrary: i threads)
  case (Cons rkey rkeys)
  have "[i..<i + length (rkey # rkeys)] = i # [Suc i..<Suc i + length rkeys]"
    by (subst upt_conv_Cons) simp_all
  then show ?case by (simp add: Cons.IH del: upt.simps)
qed simp

section \<open>Answers to well-formed requests\<close>

text \<open>
  On a message that a client sends, an executor whose unpacker has nothing pending runs the
  handler of the request on the arguments that were sent.
\<close>

lemma sent_msg_fst_snd: "(case sent_msg mp junk t args of (header, body) \<Rightarrow> f header body) =
    f (fst (sent_msg mp junk t args)) (snd (sent_msg mp junk t args))"
  by (simp add: case_prod_beta')

lemmas run_iter_defs = RAMPFastExecutor_run_iter_def NoCCExecutor_run_iter_def
  ACRAMPFastExecutor_run_iter_def LockBasedExecutor_run_iter_def

lemma RAMP_iter_sent:
  assumes "msgpack_ok mp" and "ex_unpk ex = []" and tt: "tt = RAMP_FAST \<or> tt = AC_RAMP_FAST"
  shows "executor_iter mp junk tt (sent_msg mp junk PREPARE [Item_arg it]) (s, ex) =
      answered ex (RAMPFastExecutor_prepare mp junk it s)"
    and "executor_iter mp junk tt (sent_msg mp junk COMMIT [Ts_arg ts]) (s, ex) =
      answered ex (RAMPFastExecutor_commit mp junk ts s)"
    and "executor_iter mp junk tt (sent_msg mp junk GET [Key_arg k, Ts_arg ts]) (s, ex) =
      answered ex (RAMPFastExecutor_get mp junk k ts s)"
  using tt by (auto simp: run_iter_defs sent_msg_fst_snd ex_recv_body_sent[OF assms(1) _ assms(2)])

lemma AC_iter_sent:
  assumes "msgpack_ok mp" and "ex_unpk ex = []"
  shows "executor_iter mp junk AC_RAMP_FAST (sent_msg mp junk GET_WITH_ADDR [Key_arg k, Ts_arg ts]) (s, ex) =
      answered ex (ACRAMPFastExecutor_get_item_and_addr mp junk ex k ts s)"
  by (auto simp: run_iter_defs sent_msg_fst_snd ex_recv_body_sent[OF assms(1) _ assms(2)])

lemma NoCC_iter_sent:
  assumes "msgpack_ok mp" and "ex_unpk ex = []"
  shows "executor_iter mp junk NO_CONCURRENCY_CONTROL (sent_msg mp junk PREPARE [Item_arg it]) (s, ex) =
      answered ex (NoCCExecutor_prepare mp junk it s)"
    and "executor_iter mp junk NO_CONCURRENCY_CONTROL (sent_msg mp junk COMMIT [Ts_arg ts]) (s, ex) =
      answered ex (NoCCExecutor_commit mp junk ts s)"
    and "executor_iter mp junk NO_CONCURRENCY_CONTROL (sent_msg mp junk GET [Key_arg k]) (s, ex) =
      answered ex (NoCCExecutor_get mp junk k s)"
  by (auto simp: run_iter_defs sent_msg_fst_snd ex_recv_body_sent[OF assms(1) _ assms(2)])

lemma LockBased_iter_sent:
  assumes "msgpack_ok mp" and "ex_unpk ex = []"
  shows "executor_iter mp junk TWO_PHASE_LOCKING (sent_msg mp junk PUT [Item_arg it]) (s, ex) =
      LockBasedExecutor_put mp junk it (s, ex)"
    and "executor_iter mp junk TWO_PHASE_LOCKING (sent_msg mp junk GET [Key_arg k]) (s, ex) =
      LockBasedExecutor_get mp junk k (s, ex)"
    and "executor_iter mp junk TWO_PHASE_LOCKING (sent_msg mp junk RELEASE_LOCKS []) (s, ex) =
      LockBasedExecutor_release_locks mp junk (s, ex)"
proof -
  show "executor_iter mp junk TWO_PHASE_LOCKING (sent_msg mp junk PUT [Item_arg it]) (s, ex) =
      LockBasedExecutor_put mp junk it (s, ex)"
    and "executor_iter mp junk TWO_PHASE_LOCKING (sent_msg mp junk GET [Key_arg k]) (s, ex) =
      LockBasedExecutor_get mp junk k (s, ex)"
    by (auto simp: run_iter_defs sent_msg_fst_snd ex_recv_body_sent[OF assms(1) _ assms(2)])
  have e: "ex\<lparr>ex_unpk := []\<rparr> = ex" using assms(2) by (cases ex) simp
  moreover have "snd (sent_msg mp junk RELEASE_LOCKS []) = []" by (simp add: sent_msg_eq)
  ultimately show "executor_iter mp junk TWO_PHASE_LOCKING (sent_msg mp junk RELEASE_LOCKS []) (s, ex) =
      LockBasedExecutor_release_locks mp junk (s, ex)"
    using assms(2) by (simp add: run_iter_defs sent_msg_fst_snd e)
qed

text \<open>What a served request did to the server and to its connection.\<close>

lemma cluster_serve_Ret:
  assumes "cluster_serve mp junk tt home c msg w = Ret (w', reply)"
  obtains s ex out go_on where
    "executor_iter mp junk tt msg (cl_servers w (home c), cl_conns w c) = Ret ((s, ex), reply # out, go_on)"
    "cl_servers w' = (cl_servers w)(home c := s)" "cl_conns w' = (cl_conns w)(c := ex)"
proof -
  obtain s ex out go_on where
    iter: "executor_iter mp junk tt msg (cl_servers w (home c), cl_conns w c) = Ret ((s, ex), out, go_on)"
    and rest: "(case out of [] \<Rightarrow> Blocks | reply # _ \<Rightarrow>
        Ret (w\<lparr>cl_servers := (cl_servers w)(home c := s), cl_conns := (cl_conns w)(c := ex)\<rparr>, reply)) = Ret (w', reply)"
    using assms unfolding cluster_serve_def by (auto elim!: bind_outcome_RetE)
  from rest obtain out' where "out = reply # out'"
    "w' = w\<lparr>cl_servers := (cl_servers w)(home c := s), cl_conns := (cl_conns w)(c := ex)\<rparr>"
    by (cases out) auto
  then show thesis using that[of s ex out' go_on] iter by simp
qed

lemma answered_Ret:
  "answered ex r = Ret ((s', ex'), out, go_on) \<longleftrightarrow>
     (\<exists>reply. r = Ret (s', reply) \<and> ex' = ex \<and> out = [reply] \<and> go_on)"
  by (auto simp: answered_def bind_outcome_Ret_iff)

lemma returns_answered [simp]: "returns (answered ex r) \<longleftrightarrow> returns r"
  by (cases r) (auto simp: answered_def)

lemma returns_cluster_serve:
  assumes "executor_iter mp junk tt msg (cl_servers w (home c), cl_conns w c) = answered ex r" and "returns r"
  shows "returns (cluster_serve mp junk tt home c msg w)"
  using assms by (auto simp: returns_def cluster_serve_def answered_def split: prod.splits)

end
