(* ===== verification/Ramp_Cluster.thy ===== *)
theory Ramp_Cluster
  imports Cluster
begin

text \<open>
  What the servers of a cluster keep true while clients run RAMP-Fast transactions on it, with or
  without one-sided reads, and what their answers then mean.  A setting collects what is fixed
  during a run: the libraries, the configuration, the server at the other end of each connection,
  and the transaction that a timestamp stands for.  \<open>rs_room\<close> asks in addition that all keys
  in use fit the cache, which is what makes the servers answer.
\<close>

record 'o ramp =
  rs_mp :: "'o msgpack"
  rs_junk :: "nat \<times> nat"
  rs_tt :: trx_type
  rs_hash :: "key \<Rightarrow> nat"
  rs_cfg :: config
  rs_home :: "nat \<Rightarrow> nat"
  rs_txn :: "timestamp \<Rightarrow> trx option"
  rs_keys :: "key set"
  rs_room :: bool

definition key_server :: "'o ramp \<Rightarrow> key \<Rightarrow> nat" where
  "key_server S k = rs_hash S k mod length (cfg_server_list (rs_cfg S))"

definition trx_item :: "trx \<Rightarrow> timestamp \<Rightarrow> key \<Rightarrow> (field, val) smap \<Rightarrow> item" where
  "trx_item trx ts k vals = Item_full k vals ts (access_keys trx)"

text \<open>
  The timestamps of a run identify transactions that only write; their items and the empty items
  of their keys fit an entry.
\<close>

definition setting_ok :: "'o ramp \<Rightarrow> bool" where
  "setting_ok S \<longleftrightarrow>
     msgpack_ok (rs_mp S) \<and> fst (rs_junk S) < 2 ^ 32 \<and> snd (rs_junk S) < 2 ^ 32 \<and>
     (rs_tt S = RAMP_FAST \<or> rs_tt S = AC_RAMP_FAST) \<and>
     (\<forall>ts trx. rs_txn S ts = Some trx \<longrightarrow> Timestamp_default < ts \<and> Transaction_ok trx \<and> read_set trx = [] \<and>
        (\<forall>(k, vals) \<in> set (write_set trx).
           k \<in> rs_keys S \<and> Entry_need (rs_mp S) (trx_item trx ts k vals) \<le> ENTRY_SIZE)) \<and>
     (\<forall>k \<in> rs_keys S. k \<noteq> [] \<and> Entry_need (rs_mp S) (Item_of_key k) \<le> ENTRY_SIZE) \<and>
     (rs_room S \<longrightarrow> finite (rs_keys S) \<and> card (rs_keys S) \<le> ENTRY_NUM)"

definition cl_table :: "cluster \<Rightarrow> nat \<Rightarrow> table" where
  "cl_table w s = srv_table (cl_servers w s)"

text \<open>
  \<open>genuine\<close>: the item is one that the transaction of its timestamp writes.  \<open>prepared\<close>: the server
  of the key can answer that version.  \<open>settled\<close>: genuine, and its transaction is prepared
  everywhere.
\<close>

definition genuine :: "'o ramp \<Rightarrow> item \<Rightarrow> bool" where
  "genuine S it \<longleftrightarrow> (\<exists>trx vals. rs_txn S (item_ts it) = Some trx \<and>
     (item_key it, vals) \<in> set (write_set trx) \<and> it = trx_item trx (item_ts it) (item_key it) vals)"

definition prepared :: "'o ramp \<Rightarrow> cluster \<Rightarrow> timestamp \<Rightarrow> key \<Rightarrow> bool" where
  "prepared S w ts k \<longleftrightarrow> (\<exists>it \<in> set (items_at (cl_table w (key_server S k)) ts). item_key it = k)"

definition all_prepared :: "'o ramp \<Rightarrow> cluster \<Rightarrow> timestamp \<Rightarrow> bool" where
  "all_prepared S w ts \<longleftrightarrow> (\<exists>trx. rs_txn S ts = Some trx \<and> (\<forall>k \<in> set (access_keys trx). prepared S w ts k))"

definition settled :: "'o ramp \<Rightarrow> cluster \<Rightarrow> item \<Rightarrow> bool" where
  "settled S w it \<longleftrightarrow> genuine S it \<and> all_prepared S w (item_ts it)"

text \<open>The items an entry of the cache may hold for a key.\<close>

definition cached_ok :: "'o ramp \<Rightarrow> cluster \<Rightarrow> key \<Rightarrow> item \<Rightarrow> bool" where
  "cached_ok S w k it \<longleftrightarrow> it = Item_of_key k \<or> item_key it = k \<and> settled S w it"

definition table_inv :: "'o ramp \<Rightarrow> cluster \<Rightarrow> nat \<Rightarrow> table \<Rightarrow> bool" where
  "table_inv S w s t \<longleftrightarrow>
     (\<forall>ts it. it \<in> set (items_at t ts) \<longrightarrow> item_ts it = ts \<and> genuine S it \<and> key_server S (item_key it) = s) \<and>
     (\<forall>k. latest_of t k = Timestamp_default \<or> all_prepared S w (latest_of t k)) \<and>
     cache_inv (rs_mp S) (cached_ok S w) (tbl_committed t) \<and>
     (rs_room S \<longrightarrow> cache_room (rs_keys S) (tbl_committed t))"

definition ramp_inv :: "'o ramp \<Rightarrow> cluster \<Rightarrow> bool" where
  "ramp_inv S w \<longleftrightarrow> setting_ok S \<and> (\<forall>c. ex_unpk (cl_conns w c) = []) \<and> (\<forall>s. table_inv S w s (cl_table w s))"

text \<open>How the cluster can grow: prepared items stay, and so do the entries of the cache.\<close>

definition table_le :: "table \<Rightarrow> table \<Rightarrow> bool" where
  "table_le t t' \<longleftrightarrow> (\<forall>ts. set (items_at t ts) \<subseteq> set (items_at t' ts)) \<and>
     entries_le (tbl_committed t) (tbl_committed t')"

definition ramp_le :: "cluster \<Rightarrow> cluster \<Rightarrow> bool" where
  "ramp_le w w' \<longleftrightarrow> (\<forall>s. table_le (cl_table w s) (cl_table w' s))"

text \<open>
  The requests that RAMP-Fast clients send: items of known transactions go to the server of their
  key, and a transaction is committed only when it is prepared everywhere.
\<close>

definition ramp_request :: "'o ramp \<Rightarrow> nat \<Rightarrow> message \<Rightarrow> cluster \<Rightarrow> bool" where
  "ramp_request S c msg w \<longleftrightarrow>
     (\<exists>it. msg = sent_msg (rs_mp S) (rs_junk S) PREPARE [Item_arg it] \<and> genuine S it \<and>
        key_server S (item_key it) = rs_home S c) \<or>
     (\<exists>ts. msg = sent_msg (rs_mp S) (rs_junk S) COMMIT [Ts_arg ts] \<and> all_prepared S w ts) \<or>
     (\<exists>k ts. msg = sent_msg (rs_mp S) (rs_junk S) GET [Key_arg k, Ts_arg ts]) \<or>
     (\<exists>k ts. msg = sent_msg (rs_mp S) (rs_junk S) GET_WITH_ADDR [Key_arg k, Ts_arg ts] \<and>
        rs_tt S = AC_RAMP_FAST \<and> k \<in> rs_keys S)"

abbreviation ramp_serve :: "'o ramp \<Rightarrow> nat \<Rightarrow> message \<Rightarrow> cluster \<Rightarrow> (cluster \<times> message) outcome" where
  "ramp_serve S \<equiv> cluster_serve (rs_mp S) (rs_junk S) (rs_tt S) (rs_home S)"

section \<open>Growth\<close>

lemma table_le_refl [simp]: "table_le t t"
  by (simp add: table_le_def)

lemma table_le_trans: "table_le a b \<Longrightarrow> table_le b c \<Longrightarrow> table_le a c"
  unfolding table_le_def by (blast intro: entries_le_trans)

lemma ramp_le_refl: "ramp_le w w"
  by (simp add: ramp_le_def)

lemma ramp_le_trans: "ramp_le u v \<Longrightarrow> ramp_le v w \<Longrightarrow> ramp_le u w"
  unfolding ramp_le_def by (blast intro: table_le_trans)

lemma prepared_le: "prepared S w ts k \<Longrightarrow> ramp_le w w' \<Longrightarrow> prepared S w' ts k"
  unfolding prepared_def ramp_le_def table_le_def by blast

lemma all_prepared_le: "all_prepared S w ts \<Longrightarrow> ramp_le w w' \<Longrightarrow> all_prepared S w' ts"
  unfolding all_prepared_def by (blast intro: prepared_le)

lemma settled_le: "settled S w it \<Longrightarrow> ramp_le w w' \<Longrightarrow> settled S w' it"
  unfolding settled_def by (blast intro: all_prepared_le)

lemma cached_ok_le: "cached_ok S w k it \<Longrightarrow> ramp_le w w' \<Longrightarrow> cached_ok S w' k it"
  unfolding cached_ok_def by (blast intro: settled_le)

lemma table_inv_le: "table_inv S w s t \<Longrightarrow> ramp_le w w' \<Longrightarrow> table_inv S w' s t"
  unfolding table_inv_def by (blast intro: all_prepared_le cached_ok_le cache_inv_mono)

text \<open>Replacing one server by one whose table has grown and satisfies the invariant.\<close>

lemma ramp_inv_update:
  assumes inv: "ramp_inv S w" and w': "cl_servers w' = (cl_servers w)(s := srv)" "cl_conns w' = (cl_conns w)(c := ex)"
    and ex: "ex_unpk ex = []" and le: "table_le (cl_table w s) (srv_table srv)"
    and t: "ramp_le w w' \<Longrightarrow> table_inv S w' s (srv_table srv)"
  shows "ramp_inv S w' \<and> ramp_le w w'"
proof -
  have tbl: "cl_table w' j = (if j = s then srv_table srv else cl_table w j)" for j
    by (simp add: cl_table_def w')
  have grow: "ramp_le w w'" using le by (simp add: ramp_le_def tbl)
  have "table_inv S w j (cl_table w j)" for j using inv by (simp add: ramp_inv_def)
  then have "table_inv S w' j (cl_table w' j)" for j
    using t[OF grow] table_inv_le[OF _ grow, of S j "cl_table w j"] by (simp add: tbl)
  then show ?thesis using grow inv ex by (auto simp: ramp_inv_def w')
qed

section \<open>The requests keep the invariant\<close>

lemma genuine_fits:
  assumes "setting_ok S" and "genuine S it"
  shows "Entry_need (rs_mp S) it \<le> ENTRY_SIZE" and "item_key it \<in> rs_keys S" and "Timestamp_default < item_ts it"
    and "item_ts it \<noteq> Timestamp_default"
proof -
  obtain trx vals where t: "rs_txn S (item_ts it) = Some trx" "(item_key it, vals) \<in> set (write_set trx)"
    and it: "it = trx_item trx (item_ts it) (item_key it) vals"
    using assms(2) unfolding genuine_def by blast
  have "Timestamp_default < item_ts it \<and> item_key it \<in> rs_keys S \<and>
      Entry_need (rs_mp S) (trx_item trx (item_ts it) (item_key it) vals) \<le> ENTRY_SIZE"
    using assms(1) t unfolding setting_ok_def by blast
  then show "Entry_need (rs_mp S) it \<le> ENTRY_SIZE" "item_key it \<in> rs_keys S"
    "Timestamp_default < item_ts it" "item_ts it \<noteq> Timestamp_default"
    using it by auto
qed

lemma genuine_keys:
  assumes "setting_ok S" and "genuine S it"
  shows "\<exists>trx. rs_txn S (item_ts it) = Some trx \<and> item_trx_keys it = access_keys trx \<and>
    item_key it \<in> set (access_keys trx)"
proof -
  obtain trx vals where t: "rs_txn S (item_ts it) = Some trx" "(item_key it, vals) \<in> set (write_set trx)"
    and it: "it = trx_item trx (item_ts it) (item_key it) vals"
    using assms(2) unfolding genuine_def by blast
  have "Transaction_ok trx" using assms(1) t(1) unfolding setting_ok_def by blast
  then have "item_key it \<in> set (access_keys trx)"
    using t(2) unfolding Transaction_ok_def by force
  moreover have "item_trx_keys it = access_keys trx"
    by (subst it) (simp add: trx_item_def)
  ultimately show ?thesis using t(1) by blast
qed

lemma prepare_table:
  assumes inv: "table_inv S w s t" and g: "genuine S it" "key_server S (item_key it) = s"
    and S: "setting_ok S" and ret: "Table_prepare it t = Ret t'"
  shows "table_le t t'" and "table_inv S w s t'"
proof -
  note P = Table_prepare_Ret[OF ret]
  have latest: "latest_of t' = latest_of t" by (simp add: latest_of_def fun_eq_iff P(2))
  have "set (items_at t ts) \<subseteq> set (items_at t' ts)" for ts by (auto simp: P(1))
  then show "table_le t t'"
    using CommittedItems_invalidate_entries[OF P(3)] by (simp add: table_le_def)
  have "cache_room (rs_keys S) (tbl_committed t')" if "rs_room S"
  proof -
    have "cache_room (rs_keys S) (tbl_committed t)" using inv that by (simp add: table_inv_def)
    from CommittedItems_invalidate_room[OF this genuine_fits(2)[OF S g(1)]] show ?thesis
      using P(3) by auto
  qed
  moreover have "cache_inv (rs_mp S) (cached_ok S w) (tbl_committed t')"
    by (rule CommittedItems_invalidate_inv[OF _ P(3)]) (use inv in \<open>simp add: table_inv_def\<close>)
  ultimately show "table_inv S w s t'"
    using inv g by (auto simp: table_inv_def latest P(1) split: if_splits)
qed

lemma commit_table:
  assumes inv: "table_inv S w s t" and all: "all_prepared S w ts"
    and S: "setting_ok S" and ret: "Table_commit (rs_mp S) (rs_junk S) ts t = Ret t'"
  shows "table_le t t'" and "table_inv S w s t'"
proof -
  note P = Table_commit_Ret[OF ret]
  have its: "items_at t' = items_at t" by (simp add: items_at_def fun_eq_iff P)
  have junk: "fst (rs_junk S) < 2 ^ 32" "snd (rs_junk S) < 2 ^ 32" using S by (auto simp: setting_ok_def)
  have good: "Entry_need (rs_mp S) it \<le> ENTRY_SIZE \<and> cached_ok S w (item_key it) it"
    if "it \<in> set (items_at t ts)" for it
  proof -
    have "item_ts it = ts" "genuine S it" using inv that by (auto simp: table_inv_def)
    then show ?thesis using genuine_fits(1)[OF S] all by (simp add: cached_ok_def settled_def)
  qed
  have cache: "cache_inv (rs_mp S) (cached_ok S w) (tbl_committed t')"
    by (rule Table_commit_cache_inv[where P = "cached_ok S w", OF ret _ junk good])
      (use inv in \<open>auto simp: table_inv_def\<close>)
  have entries: "entries_le (tbl_committed t) (tbl_committed t') \<and>
      (rs_room S \<longrightarrow> cache_room (rs_keys S) (tbl_committed t'))"
  proof (cases "tbl_items t ts")
    case None
    then show ?thesis using ret inv by (simp add: Table_commit_def table_inv_def)
  next
    case (Some xs)
    then have "fold_outcome (Table_commit_item (rs_mp S) (rs_junk S) ts) xs t = Ret t'"
      using ret by (simp add: Table_commit_def)
    then show ?thesis
    proof (rule fold_outcome_invariant)
      show "entries_le (tbl_committed t) (tbl_committed t) \<and>
          (rs_room S \<longrightarrow> cache_room (rs_keys S) (tbl_committed t))"
        using inv by (simp add: table_inv_def)
    next
      fix x u u'
      assume x: "x \<in> set xs" and u: "entries_le (tbl_committed t) (tbl_committed u) \<and>
          (rs_room S \<longrightarrow> cache_room (rs_keys S) (tbl_committed u))"
        and step: "Table_commit_item (rs_mp S) (rs_junk S) ts x u = Ret u'"
      have fits: "Entry_need (rs_mp S) x \<le> ENTRY_SIZE" using good[of x] x Some by (auto simp: items_at_def)
      from Table_commit_item_Ret(3)[OF step]
      show "entries_le (tbl_committed t) (tbl_committed u') \<and>
          (rs_room S \<longrightarrow> cache_room (rs_keys S) (tbl_committed u'))"
      proof
        assume upd: "CommittedItems_update (rs_mp S) (rs_junk S) x (tbl_committed u) = Ret (tbl_committed u')"
        have "entries_le (tbl_committed t) (tbl_committed u')"
          using u CommittedItems_update_entries[OF upd] entries_le_trans by blast
        moreover have "cache_room (rs_keys S) (tbl_committed u')" if "rs_room S"
          using CommittedItems_update_room[OF _ fits, of "rs_keys S" "tbl_committed u" "rs_junk S"] u upd that
          by auto
        ultimately show ?thesis by blast
      qed (use u in simp)
    qed
  qed
  then show "table_le t t'" by (simp add: table_le_def its)
  show "table_inv S w s t'"
    using inv cache entries by (simp add: table_inv_def its P(2))
qed

lemma get_latest_table:
  assumes "table_inv S w s t"
  shows "table_le t (fst (Table_get_latest_item k t))" and "table_inv S w s (fst (Table_get_latest_item k t))"
  using assms by (auto simp: table_le_def table_inv_def items_at_def)

lemma get_item_addr_table:
  assumes inv: "table_inv S w s t" and k: "k \<in> rs_keys S" and S: "setting_ok S"
    and ret: "CommittedItems_get_item_addr (rs_mp S) (rs_junk S) k (tbl_committed t) = Ret (ci, a)"
  shows "table_le t (t\<lparr>tbl_committed := ci\<rparr>)" and "table_inv S w s (t\<lparr>tbl_committed := ci\<rparr>)"
    and "ci_entries ci k = Some (Some a)"
proof -
  have its: "items_at (t\<lparr>tbl_committed := ci\<rparr>) = items_at t" "latest_of (t\<lparr>tbl_committed := ci\<rparr>) = latest_of t"
    by (simp_all add: items_at_def latest_of_def fun_eq_iff)
  have junk: "fst (rs_junk S) < 2 ^ 32" "snd (rs_junk S) < 2 ^ 32"
    and fits: "Entry_need (rs_mp S) (Item_of_key k) \<le> ENTRY_SIZE"
    using S k by (auto simp: setting_ok_def)
  have "cache_inv (rs_mp S) (cached_ok S w) (tbl_committed t)" using inv by (simp add: table_inv_def)
  from CommittedItems_get_item_addr_inv[OF this ret junk fits]
  have ci: "cache_inv (rs_mp S) (cached_ok S w) ci" "ci_entries ci k = Some (Some a)"
    by (auto simp: cached_ok_def)
  then show "ci_entries ci k = Some (Some a)" by simp
  show "table_le t (t\<lparr>tbl_committed := ci\<rparr>)"
    using CommittedItems_get_item_addr_entries[OF ret] by (simp add: table_le_def its)
  have "cache_room (rs_keys S) ci" if "rs_room S"
    using CommittedItems_get_item_addr_room[OF _ k fits, of "tbl_committed t" "rs_junk S"] inv that ret
    by (auto simp: table_inv_def)
  then show "table_inv S w s (t\<lparr>tbl_committed := ci\<rparr>)"
    using inv ci by (simp add: table_inv_def its)
qed

section \<open>Serving a request\<close>

lemma ramp_unpk: "ramp_inv S w \<Longrightarrow> ex_unpk (cl_conns w c) = []"
  by (simp add: ramp_inv_def)

lemma ramp_table: "ramp_inv S w \<Longrightarrow> table_inv S w s (cl_table w s)"
  by (simp add: ramp_inv_def)

lemma ramp_setting: "ramp_inv S w \<Longrightarrow> setting_ok S"
  by (simp add: ramp_inv_def)

lemma setting_mp: "setting_ok S \<Longrightarrow> msgpack_ok (rs_mp S)"
  and setting_tt: "setting_ok S \<Longrightarrow> rs_tt S = RAMP_FAST \<or> rs_tt S = AC_RAMP_FAST"
  and setting_ts: "setting_ok S \<Longrightarrow> rs_txn S ts = Some trx \<Longrightarrow> Timestamp_default < ts"
  and setting_trx: "setting_ok S \<Longrightarrow> rs_txn S ts = Some trx \<Longrightarrow> Transaction_ok trx \<and> read_set trx = []"
  by (auto simp: setting_ok_def)

text \<open>The handler that a request runs, and its effect on the table of the server.\<close>

lemma serve_handler:
  assumes iter: "executor_iter (rs_mp S) (rs_junk S) (rs_tt S) m (cl_servers w (rs_home S c), cl_conns w c) =
      answered (cl_conns w c) r"
    and ret: "ramp_serve S c m w = Ret (w', reply)"
  obtains srv where "r = Ret (srv, reply)" "cl_servers w' = (cl_servers w)(rs_home S c := srv)"
    "cl_conns w' = (cl_conns w)(c := cl_conns w c)"
  using ret
proof (rule cluster_serve_Ret)
  fix srv ex out go_on
  assume "executor_iter (rs_mp S) (rs_junk S) (rs_tt S) m (cl_servers w (rs_home S c), cl_conns w c) =
      Ret ((srv, ex), reply # out, go_on)"
    and w': "cl_servers w' = (cl_servers w)(rs_home S c := srv)" "cl_conns w' = (cl_conns w)(c := ex)"
  then have "answered (cl_conns w c) r = Ret ((srv, ex), reply # out, go_on)" using iter by simp
  then have "r = Ret (srv, reply)" "ex = cl_conns w c" by (auto simp: answered_Ret)
  then show thesis using that[of srv] w' by simp
qed

lemma serve_update:
  assumes inv: "ramp_inv S w"
    and iter: "executor_iter (rs_mp S) (rs_junk S) (rs_tt S) m (cl_servers w (rs_home S c), cl_conns w c) =
      answered (cl_conns w c) r"
    and ret: "ramp_serve S c m w = Ret (w', reply)"
    and handler: "\<And>srv. r = Ret (srv, reply) \<Longrightarrow> table_le (cl_table w (rs_home S c)) (srv_table srv) \<and>
      table_inv S w (rs_home S c) (srv_table srv)"
  shows "ramp_inv S w' \<and> ramp_le w w'"
proof (rule serve_handler[OF iter ret])
  fix srv
  assume r: "r = Ret (srv, reply)" and w': "cl_servers w' = (cl_servers w)(rs_home S c := srv)"
    "cl_conns w' = (cl_conns w)(c := cl_conns w c)"
  note h = handler[OF r]
  show ?thesis
    by (rule ramp_inv_update[OF inv w' ramp_unpk[OF inv]]) (use h table_inv_le in auto)
qed

lemma serve_prepare:
  assumes inv: "ramp_inv S w" and g: "genuine S it" and home: "key_server S (item_key it) = rs_home S c"
    and ret: "ramp_serve S c (sent_msg (rs_mp S) (rs_junk S) PREPARE [Item_arg it]) w = Ret (w', r)"
  shows "ramp_inv S w' \<and> ramp_le w w'"
    and "r = sent_msg (rs_mp S) (rs_junk S) DONE []" and "prepared S w' (item_ts it) (item_key it)"
proof -
  note S = ramp_setting[OF inv]
  note iter = RAMP_iter_sent(1)[OF setting_mp[OF S] ramp_unpk[OF inv, of c] setting_tt[OF S]]
  have h: "\<exists>t'. Table_prepare it (cl_table w (rs_home S c)) = Ret t' \<and> srv_table srv = t' \<and>
      reply = sent_msg (rs_mp S) (rs_junk S) DONE []"
    if "RAMPFastExecutor_prepare (rs_mp S) (rs_junk S) it (cl_servers w (rs_home S c)) = Ret (srv, reply)" for srv reply
    using that by (auto simp: RAMPFastExecutor_prepare_def bind_outcome_Ret_iff cl_table_def)
  show grow: "ramp_inv S w' \<and> ramp_le w w'"
  proof (rule serve_update[OF inv iter ret])
    fix srv
    assume "RAMPFastExecutor_prepare (rs_mp S) (rs_junk S) it (cl_servers w (rs_home S c)) = Ret (srv, r)"
    from h[OF this] obtain t' where t': "Table_prepare it (cl_table w (rs_home S c)) = Ret t'" "srv_table srv = t'"
      by blast
    show "table_le (cl_table w (rs_home S c)) (srv_table srv) \<and> table_inv S w (rs_home S c) (srv_table srv)"
      using prepare_table[OF ramp_table[OF inv] g home S t'(1)] t'(2) by simp
  qed
  show "r = sent_msg (rs_mp S) (rs_junk S) DONE []" "prepared S w' (item_ts it) (item_key it)"
  proof (atomize (full), rule serve_handler[OF iter ret])
    fix srv
    assume r: "RAMPFastExecutor_prepare (rs_mp S) (rs_junk S) it (cl_servers w (rs_home S c)) = Ret (srv, r)"
      and w': "cl_servers w' = (cl_servers w)(rs_home S c := srv)"
    from h[OF r] obtain t' where t': "Table_prepare it (cl_table w (rs_home S c)) = Ret t'" "srv_table srv = t'"
      and reply: "r = sent_msg (rs_mp S) (rs_junk S) DONE []" by blast
    have "it \<in> set (items_at t' (item_ts it))" by (simp add: Table_prepare_Ret(1)[OF t'(1)])
    then have "prepared S w' (item_ts it) (item_key it)"
      using t'(2) by (auto simp: prepared_def home cl_table_def w')
    then show "r = sent_msg (rs_mp S) (rs_junk S) DONE [] \<and> prepared S w' (item_ts it) (item_key it)"
      using reply by simp
  qed
qed

lemma serve_commit:
  assumes inv: "ramp_inv S w" and all: "all_prepared S w ts"
    and ret: "ramp_serve S c (sent_msg (rs_mp S) (rs_junk S) COMMIT [Ts_arg ts]) w = Ret (w', r)"
  shows "ramp_inv S w' \<and> ramp_le w w'" and "r = sent_msg (rs_mp S) (rs_junk S) DONE []"
proof -
  note S = ramp_setting[OF inv]
  note iter = RAMP_iter_sent(2)[OF setting_mp[OF S] ramp_unpk[OF inv, of c] setting_tt[OF S]]
  have h: "\<exists>t'. Table_commit (rs_mp S) (rs_junk S) ts (cl_table w (rs_home S c)) = Ret t' \<and> srv_table srv = t' \<and>
      reply = sent_msg (rs_mp S) (rs_junk S) DONE []"
    if "RAMPFastExecutor_commit (rs_mp S) (rs_junk S) ts (cl_servers w (rs_home S c)) = Ret (srv, reply)" for srv reply
    using that by (auto simp: RAMPFastExecutor_commit_def bind_outcome_Ret_iff cl_table_def)
  show "ramp_inv S w' \<and> ramp_le w w'"
  proof (rule serve_update[OF inv iter ret])
    fix srv
    assume "RAMPFastExecutor_commit (rs_mp S) (rs_junk S) ts (cl_servers w (rs_home S c)) = Ret (srv, r)"
    from h[OF this] obtain t' where t': "Table_commit (rs_mp S) (rs_junk S) ts (cl_table w (rs_home S c)) = Ret t'"
      "srv_table srv = t'" by blast
    show "table_le (cl_table w (rs_home S c)) (srv_table srv) \<and> table_inv S w (rs_home S c) (srv_table srv)"
      using commit_table[OF ramp_table[OF inv] all S t'(1)] t'(2) by simp
  qed
  show "r = sent_msg (rs_mp S) (rs_junk S) DONE []"
    by (rule serve_handler[OF iter ret]) (use h in blast)
qed

text \<open>What a read without a timestamp, and one for a version, can answer.\<close>

lemma latest_settled:
  assumes S: "setting_ok S" and inv: "table_inv S w s t"
  shows "Table_get_item_by_ver k (latest_of t k) t = Item_default \<or>
    item_key (Table_get_item_by_ver k (latest_of t k) t) = k \<and> settled S w (Table_get_item_by_ver k (latest_of t k) t)"
proof -
  let ?it = "Table_get_item_by_ver k (latest_of t k) t"
  from get_by_ver_cases[of k "latest_of t k" t] show ?thesis
  proof
    assume it: "?it \<in> set (items_at t (latest_of t k)) \<and> item_key ?it = k"
    then have g: "item_ts ?it = latest_of t k" "genuine S ?it" using inv by (auto simp: table_inv_def)
    then have "latest_of t k \<noteq> Timestamp_default" using genuine_fits(4)[OF S g(2)] by simp
    then have "all_prepared S w (latest_of t k)" using inv by (auto simp: table_inv_def)
    then show ?thesis using it g by (simp add: settled_def)
  qed simp
qed

lemma version_genuine:
  assumes inv: "ramp_inv S w" and p: "prepared S w ts k"
  defines "it \<equiv> Table_get_item_by_ver k ts (cl_table w (key_server S k))"
  shows "item_key it = k \<and> item_ts it = ts \<and> genuine S it"
proof -
  obtain x where x: "x \<in> set (items_at (cl_table w (key_server S k)) ts)" "item_key x = k"
    using p by (auto simp: prepared_def)
  from get_by_ver_in[OF this] have "it \<in> set (items_at (cl_table w (key_server S k)) ts)" "item_key it = k"
    by (auto simp: it_def)
  then show ?thesis using ramp_table[OF inv, of "key_server S k"] by (auto simp: table_inv_def)
qed

lemma serve_get:
  assumes inv: "ramp_inv S w"
    and ret: "ramp_serve S c (sent_msg (rs_mp S) (rs_junk S) GET [Key_arg k, Ts_arg ts]) w = Ret (w', r)"
  shows "ramp_inv S w' \<and> ramp_le w w'"
    and "\<exists>it. r = sent_msg (rs_mp S) (rs_junk S) RESULT [Item_arg it] \<and>
      (ts = Timestamp_default \<longrightarrow> it = Item_default \<or> item_key it = k \<and> settled S w it) \<and>
      (ts \<noteq> Timestamp_default \<longrightarrow> prepared S w ts k \<longrightarrow> key_server S k = rs_home S c \<longrightarrow>
         item_key it = k \<and> item_ts it = ts \<and> genuine S it)"
proof -
  note S = ramp_setting[OF inv]
  note iter = RAMP_iter_sent(3)[OF setting_mp[OF S] ramp_unpk[OF inv, of c] setting_tt[OF S]]
  let ?t = "cl_table w (rs_home S c)"
  have h: "(srv_table srv = ?t \<or> srv_table srv = fst (Table_get_latest_item k ?t)) \<and>
      reply = sent_msg (rs_mp S) (rs_junk S) RESULT [Item_arg (Table_get_item_by_ver k
        (if ts = Timestamp_default then latest_of ?t k else ts) ?t)]"
    if "RAMPFastExecutor_get (rs_mp S) (rs_junk S) k ts (cl_servers w (rs_home S c)) = Ret (srv, reply)" for srv reply
    using that get_latest_simps(4)[of k ?t]
    by (auto simp: RAMPFastExecutor_get_def cl_table_def Let_def case_prod_beta' split: if_splits)
  show "ramp_inv S w' \<and> ramp_le w w'"
  proof (rule serve_update[OF inv iter ret])
    fix srv
    assume "RAMPFastExecutor_get (rs_mp S) (rs_junk S) k ts (cl_servers w (rs_home S c)) = Ret (srv, r)"
    from h[OF this]
    show "table_le ?t (srv_table srv) \<and> table_inv S w (rs_home S c) (srv_table srv)"
      using get_latest_table[OF ramp_table[OF inv], of "rs_home S c" k] ramp_table[OF inv] by auto
  qed
  let ?it = "Table_get_item_by_ver k (if ts = Timestamp_default then latest_of ?t k else ts) ?t"
  have "r = sent_msg (rs_mp S) (rs_junk S) RESULT [Item_arg ?it]"
    by (rule serve_handler[OF iter ret]) (use h in blast)
  moreover have "ts = Timestamp_default \<longrightarrow> ?it = Item_default \<or> item_key ?it = k \<and> settled S w ?it"
    using latest_settled[OF S ramp_table[OF inv, of "rs_home S c"], of k] by simp
  moreover have "ts \<noteq> Timestamp_default \<longrightarrow> prepared S w ts k \<longrightarrow> key_server S k = rs_home S c \<longrightarrow>
      item_key ?it = k \<and> item_ts ?it = ts \<and> genuine S ?it"
  proof (intro impI)
    assume a: "ts \<noteq> Timestamp_default" "prepared S w ts k" "key_server S k = rs_home S c"
    show "item_key ?it = k \<and> item_ts ?it = ts \<and> genuine S ?it"
      using version_genuine[OF inv a(2)] a(1,3) by simp
  qed
  ultimately show "\<exists>it. r = sent_msg (rs_mp S) (rs_junk S) RESULT [Item_arg it] \<and>
      (ts = Timestamp_default \<longrightarrow> it = Item_default \<or> item_key it = k \<and> settled S w it) \<and>
      (ts \<noteq> Timestamp_default \<longrightarrow> prepared S w ts k \<longrightarrow> key_server S k = rs_home S c \<longrightarrow>
         item_key it = k \<and> item_ts it = ts \<and> genuine S it)"
    by blast
qed

lemma serve_get_with_addr:
  assumes inv: "ramp_inv S w" and tt: "rs_tt S = AC_RAMP_FAST" and k: "k \<in> rs_keys S"
    and ret: "ramp_serve S c (sent_msg (rs_mp S) (rs_junk S) GET_WITH_ADDR [Key_arg k, Ts_arg ts]) w = Ret (w', r)"
  shows "ramp_inv S w' \<and> ramp_le w w'"
    and "\<exists>it a. r = sent_msg (rs_mp S) (rs_junk S) RESULT [Item_arg it, Rka_arg a] \<and>
      (it = Item_default \<or> item_key it = k \<and> settled S w it) \<and>
      ci_entries (tbl_committed (cl_table w' (rs_home S c))) k = Some (Some (rka_addr a))"
proof -
  note S = ramp_setting[OF inv]
  note iter = AC_iter_sent[OF setting_mp[OF S] ramp_unpk[OF inv, of c], folded tt]
  let ?t = "cl_table w (rs_home S c)"
  let ?g = "fst (Table_get_latest_item k ?t)"
  have h: "\<exists>ci a. CommittedItems_get_item_addr (rs_mp S) (rs_junk S) k (tbl_committed ?g) = Ret (ci, a) \<and>
      srv_table srv = ?g\<lparr>tbl_committed := ci\<rparr> \<and>
      reply = sent_msg (rs_mp S) (rs_junk S) RESULT [Item_arg (Table_get_item_by_ver k (latest_of ?t k) ?t),
        Rka_arg (RemoteKeyAndAddr (ex_rkey (cl_conns w c)) a)]"
    if "ACRAMPFastExecutor_get_item_and_addr (rs_mp S) (rs_junk S) (cl_conns w c) k ts
          (cl_servers w (rs_home S c)) = Ret (srv, reply)" for srv reply
    using that get_latest_simps(4)[of k ?t]
    by (auto simp: ACRAMPFastExecutor_get_item_and_addr_def cl_table_def Let_def case_prod_beta' bind_outcome_Ret_iff)
  note g = get_latest_table[OF ramp_table[OF inv], of "rs_home S c" k]
  show "ramp_inv S w' \<and> ramp_le w w'"
  proof (rule serve_update[OF inv iter ret])
    fix srv
    assume "ACRAMPFastExecutor_get_item_and_addr (rs_mp S) (rs_junk S) (cl_conns w c) k ts
        (cl_servers w (rs_home S c)) = Ret (srv, r)"
    from h[OF this] obtain ci a
      where ci: "CommittedItems_get_item_addr (rs_mp S) (rs_junk S) k (tbl_committed ?g) = Ret (ci, a)"
        "srv_table srv = ?g\<lparr>tbl_committed := ci\<rparr>" by blast
    show "table_le ?t (srv_table srv) \<and> table_inv S w (rs_home S c) (srv_table srv)"
      using get_item_addr_table[OF g(2) k S ci(1)] table_le_trans[OF g(1)] ci(2) by simp
  qed
  show "\<exists>it a. r = sent_msg (rs_mp S) (rs_junk S) RESULT [Item_arg it, Rka_arg a] \<and>
      (it = Item_default \<or> item_key it = k \<and> settled S w it) \<and>
      ci_entries (tbl_committed (cl_table w' (rs_home S c))) k = Some (Some (rka_addr a))"
  proof (rule serve_handler[OF iter ret])
    fix srv
    assume r: "ACRAMPFastExecutor_get_item_and_addr (rs_mp S) (rs_junk S) (cl_conns w c) k ts
        (cl_servers w (rs_home S c)) = Ret (srv, r)"
      and w': "cl_servers w' = (cl_servers w)(rs_home S c := srv)"
    from h[OF r] obtain ci a
      where ci: "CommittedItems_get_item_addr (rs_mp S) (rs_junk S) k (tbl_committed ?g) = Ret (ci, a)"
        "srv_table srv = ?g\<lparr>tbl_committed := ci\<rparr>"
        and reply: "r = sent_msg (rs_mp S) (rs_junk S) RESULT [Item_arg (Table_get_item_by_ver k (latest_of ?t k) ?t),
          Rka_arg (RemoteKeyAndAddr (ex_rkey (cl_conns w c)) a)]" by blast
    have "ci_entries (tbl_committed (cl_table w' (rs_home S c))) k = Some (Some a)"
      using get_item_addr_table(3)[OF g(2) k S ci(1)] ci(2) by (simp add: cl_table_def w')
    then have "ci_entries (tbl_committed (cl_table w' (rs_home S c))) k =
        Some (Some (rka_addr (RemoteKeyAndAddr (ex_rkey (cl_conns w c)) a)))"
      by (simp add: RemoteKeyAndAddr_def)
    then show ?thesis
      using reply latest_settled[OF S ramp_table[OF inv, of "rs_home S c"], of k] by blast
  qed
qed

section \<open>The contract of the servers\<close>

lemma ramp_serve_inv:
  assumes "ramp_inv S w" and "ramp_request S c m w" and "ramp_serve S c m w = Ret (w', r)"
  shows "ramp_inv S w' \<and> ramp_le w w'"
  using assms(2,3) serve_prepare(1)[OF assms(1)] serve_commit(1)[OF assms(1)] serve_get(1)[OF assms(1)]
    serve_get_with_addr(1)[OF assms(1)]
  unfolding ramp_request_def by metis

text \<open>With room in the cache every request is answered.\<close>

lemma ramp_serve_returns:
  assumes inv: "ramp_inv S w" and req: "ramp_request S c m w" and room: "rs_room S"
  shows "returns (ramp_serve S c m w)"
proof -
  note S = ramp_setting[OF inv]
  note iter = RAMP_iter_sent[OF setting_mp[OF S] ramp_unpk[OF inv, of c] setting_tt[OF S]]
  let ?t = "cl_table w (rs_home S c)"
  have T: "table_inv S w (rs_home S c) ?t" by (rule ramp_table[OF inv])
  then have cr: "cache_room (rs_keys S) (tbl_committed ?t)" using room by (simp add: table_inv_def)
  from req show ?thesis
    unfolding ramp_request_def
  proof (elim disjE exE conjE)
    fix it assume m: "m = sent_msg (rs_mp S) (rs_junk S) PREPARE [Item_arg it]" and g: "genuine S it"
    have "returns (Table_prepare it ?t)" by (rule Table_prepare_returns[OF cr genuine_fits(2)[OF S g]])
    then show ?thesis
      unfolding m by (intro returns_cluster_serve[OF iter(1)])
        (auto simp: RAMPFastExecutor_prepare_def cl_table_def returns_def)
  next
    fix ts assume m: "m = sent_msg (rs_mp S) (rs_junk S) COMMIT [Ts_arg ts]"
    have "returns (Table_commit (rs_mp S) (rs_junk S) ts ?t)"
      by (rule Table_commit_returns[OF cr]) (use T genuine_fits(1)[OF S] in \<open>auto simp: table_inv_def\<close>)
    then show ?thesis
      unfolding m by (intro returns_cluster_serve[OF iter(2)])
        (auto simp: RAMPFastExecutor_commit_def cl_table_def returns_def)
  next
    fix k ts assume m: "m = sent_msg (rs_mp S) (rs_junk S) GET [Key_arg k, Ts_arg ts]"
    show ?thesis
      unfolding m by (intro returns_cluster_serve[OF iter(3)])
        (auto simp: RAMPFastExecutor_get_def returns_def Let_def case_prod_beta')
  next
    fix k ts assume m: "m = sent_msg (rs_mp S) (rs_junk S) GET_WITH_ADDR [Key_arg k, Ts_arg ts]"
      and tt: "rs_tt S = AC_RAMP_FAST" and k: "k \<in> rs_keys S"
    have fits: "Entry_need (rs_mp S) (Item_of_key k) \<le> ENTRY_SIZE" using S k by (auto simp: setting_ok_def)
    have "cache_room (rs_keys S) (tbl_committed (fst (Table_get_latest_item k ?t)))" using cr by simp
    from CommittedItems_get_item_addr_room[OF this k fits, of "rs_junk S"] show ?thesis
      unfolding m by (intro returns_cluster_serve[OF AC_iter_sent[OF setting_mp[OF S] ramp_unpk[OF inv], folded tt]])
        (auto simp: ACRAMPFastExecutor_get_item_and_addr_def cl_table_def returns_def Let_def case_prod_beta')
  qed
qed

interpretation ramp: interference "ramp_inv S" ramp_le "ramp_serve S" "cluster_peek (rs_home S)"
  "ramp_request S" for S
proof
  show "ramp_le w w" for w by (rule ramp_le_refl)
  show "ramp_le u v \<Longrightarrow> ramp_le v w \<Longrightarrow> ramp_le u w" for u v w by (rule ramp_le_trans)
  show "ramp_inv S w' \<and> ramp_le w w'"
    if "ramp_inv S w" "ramp_request S c m w" "ramp_serve S c m w = Ret (w', r)" for w c m w' r
    using that by (rule ramp_serve_inv)
qed

abbreviation ramp_safe :: "'o ramp \<Rightarrow> bool \<Rightarrow> 'a prog \<Rightarrow> ('a \<Rightarrow> cluster \<Rightarrow> bool) \<Rightarrow> cluster \<Rightarrow> bool" where
  "ramp_safe S \<equiv> interference.safe (ramp_inv S) ramp_le (ramp_serve S) (cluster_peek (rs_home S)) (ramp_request S)"

end
