(* ===== verification/Ramp_Clients.thy ===== *)
theory Ramp_Clients
  imports Ramp_Cluster
begin

text \<open>
  The RAMP-Fast handlers on such a cluster: whatever other clients do between their messages,
  \<open>put_all\<close> commits only what is prepared everywhere, and \<open>get_all\<close> answers a set of items without
  fractured reads: if an item was written by a transaction that also wrote another key that was
  read, the item read for that key is at least as new.
\<close>

definition read_atomic :: "(key, item) cmap \<Rightarrow> bool" where
  "read_atomic ret \<longleftrightarrow> (\<forall>j k it it'. ret j = Some it \<longrightarrow> ret k = Some it' \<longrightarrow>
     k \<in> set (item_trx_keys it) \<longrightarrow> item_ts it \<le> item_ts it')"

text \<open>An item that a \<open>get_all\<close> may answer for a key: nothing was written, or a settled item.\<close>

definition answer_ok :: "'o ramp \<Rightarrow> cluster \<Rightarrow> key \<Rightarrow> item \<Rightarrow> bool" where
  "answer_ok S w k it \<longleftrightarrow> it = Item_default \<or> cached_ok S w k it"

definition answers_ok :: "'o ramp \<Rightarrow> key set \<Rightarrow> (key, item) cmap \<Rightarrow> cluster \<Rightarrow> bool" where
  "answers_ok S K ret w \<longleftrightarrow> dom ret = K \<and> (\<forall>k it. ret k = Some it \<longrightarrow> answer_ok S w k it)"

text \<open>The state of a handler between exchanges.\<close>

definition handler_ok :: "'o ramp \<Rightarrow> handler \<Rightarrow> cluster \<Rightarrow> bool" where
  "handler_ok S h w \<longleftrightarrow> h_unpk h = (\<lambda>_. []) \<and> pool_connected (rs_cfg S) (h_cp h) \<and>
     (\<forall>k. rs_home S (com_of (rs_hash S) (rs_cfg S) (h_cp h) k) = key_server S k) \<and>
     (\<forall>k a. h_addr_cache h k = Some a \<longrightarrow>
        ci_entries (tbl_committed (cl_table w (key_server S k))) k = Some (Some (rka_addr a)))"

abbreviation key_com :: "'o ramp \<Rightarrow> handler \<Rightarrow> key \<Rightarrow> nat" where
  "key_com S h k \<equiv> com_of (rs_hash S) (rs_cfg S) (h_cp h) k"

text \<open>A handler that has recorded the connection of a key.\<close>

definition touched :: "'o ramp \<Rightarrow> key \<Rightarrow> handler \<Rightarrow> handler" where
  "touched S k h = h\<lparr>h_cp := (h_cp h)\<lparr>access_coms :=
     (if key_com S h k \<in> set (access_coms (h_cp h)) then access_coms (h_cp h)
      else access_coms (h_cp h) @ [key_com S h k])\<rparr>\<rparr>"

lemma touched_simps [simp]:
  "h_trx (touched S k h) = h_trx h" "h_unpk (touched S k h) = h_unpk h"
  "h_addr_cache (touched S k h) = h_addr_cache h" "key_com S (touched S k h) = key_com S h"
  by (simp_all add: touched_def)

lemma touched_ok [simp]: "handler_ok S (touched S k h) w = handler_ok S h w"
  by (simp add: handler_ok_def touched_def)

lemma cp_get_ok:
  "handler_ok S h w \<Longrightarrow> cp_get (rs_hash S) (rs_cfg S) k h = Return (touched S k h, key_com S h k)"
  by (simp add: handler_ok_def cp_get_def ConnectionPool_get_connected touched_def)

lemma handler_ok_le: "handler_ok S h w \<Longrightarrow> ramp_le w w' \<Longrightarrow> handler_ok S h w'"
  unfolding handler_ok_def ramp_le_def table_le_def entries_le_def by blast

lemma handler_ok_home: "handler_ok S h w \<Longrightarrow> rs_home S (key_com S h k) = key_server S k"
  by (simp add: handler_ok_def)

lemma handler_ok_unpk: "handler_ok S h w \<Longrightarrow> h_unpk h = (\<lambda>_. [])"
  by (simp add: handler_ok_def)

lemma handler_ok_trx [simp]: "handler_ok S (h\<lparr>h_trx := trx\<rparr>) w = handler_ok S h w"
  by (simp add: handler_ok_def)

lemma answer_ok_le: "answer_ok S w k it \<Longrightarrow> ramp_le w w' \<Longrightarrow> answer_ok S w' k it"
  unfolding answer_ok_def by (blast intro: cached_ok_le)

lemma answers_ok_le: "answers_ok S K ret w \<Longrightarrow> ramp_le w w' \<Longrightarrow> answers_ok S K ret w'"
  unfolding answers_ok_def by (blast intro: answer_ok_le)

lemma answers_ok_update:
  "answers_ok S K ret w \<Longrightarrow> answer_ok S w k it \<Longrightarrow> answers_ok S (insert k K) (ret(k \<mapsto> it)) w"
  unfolding answers_ok_def by auto

section \<open>One exchange\<close>

text \<open>An exchange on a connection with nothing pending whose answer carries the given arguments.\<close>

lemma bind_exchange:
  "bind_prog (com_exchange mp junk com msg_type args dsts h) f =
     Request com (sent_msg mp junk msg_type args) (\<lambda>r.
       let (vals, unpk) = Communicator_recv_body mp (h_unpk h com) (snd r) dsts
       in f (h\<lparr>h_unpk := (h_unpk h)(com := unpk)\<rparr>, vals))"
  by (simp add: com_exchange_def Let_def case_prod_beta')

lemma recv_answer:
  assumes "msgpack_ok (rs_mp S)" and "h_unpk h = (\<lambda>_. [])" and "list_all2 same_kind args dsts"
  shows "(let (vals, unpk) = Communicator_recv_body (rs_mp S) (h_unpk h com)
            (snd (sent_msg (rs_mp S) (rs_junk S) t args)) dsts
          in f (h\<lparr>h_unpk := (h_unpk h)(com := unpk)\<rparr>, vals)) = f (h, args)"
proof -
  have "(h_unpk h)(com := []) = h_unpk h" using assms(2) by (simp add: fun_eq_iff)
  then have "h\<lparr>h_unpk := (h_unpk h)(com := [])\<rparr> = h" by simp
  then show ?thesis using recv_body_sent[OF assms(1,3)] assms(2) by simp
qed

lemma safe_exchange:
  assumes inv: "ramp_inv S w" and h: "handler_ok S h w" and t: "t \<Longrightarrow> rs_room S"
    and req: "\<And>w'. ramp_le w w' \<Longrightarrow> ramp_inv S w' \<Longrightarrow>
        ramp_request S com (sent_msg (rs_mp S) (rs_junk S) msg_type args) w'"
    and answer: "\<And>w' w'' r. ramp_le w w' \<Longrightarrow> ramp_inv S w' \<Longrightarrow>
        ramp_serve S com (sent_msg (rs_mp S) (rs_junk S) msg_type args) w' = Ret (w'', r) \<Longrightarrow>
        \<exists>t' vals. r = sent_msg (rs_mp S) (rs_junk S) t' vals \<and> list_all2 same_kind vals dsts \<and> R vals w''"
    and cont: "\<And>w' vals. ramp_le w w' \<Longrightarrow> ramp_inv S w' \<Longrightarrow> R vals w' \<Longrightarrow> ramp_safe S t (f (h, vals)) Q w'"
  shows "ramp_safe S t (bind_prog (com_exchange (rs_mp S) (rs_junk S) com msg_type args dsts h) f) Q w"
  unfolding bind_exchange
proof (rule ramp.safe_RequestI)
  fix w' assume w': "ramp_le w w'" "ramp_inv S w'"
  show r: "ramp_request S com (sent_msg (rs_mp S) (rs_junk S) msg_type args) w'" by (rule req[OF w'])
  show "t \<Longrightarrow> returns (ramp_serve S com (sent_msg (rs_mp S) (rs_junk S) msg_type args) w')"
    using ramp_serve_returns[OF w'(2) r] t by blast
  fix w'' reply
  assume s: "ramp_serve S com (sent_msg (rs_mp S) (rs_junk S) msg_type args) w' = Ret (w'', reply)"
  have grow: "ramp_inv S w''" "ramp_le w w''"
    using ramp_serve_inv[OF w'(2) r s] ramp_le_trans[OF w'(1)] by auto
  obtain t' vals where reply: "reply = sent_msg (rs_mp S) (rs_junk S) t' vals"
    and kinds: "list_all2 same_kind vals dsts" and R: "R vals w''"
    using answer[OF w' s] by blast
  show "ramp_safe S t (let (vals, unpk) = Communicator_recv_body (rs_mp S) (h_unpk h com) (snd reply) dsts
      in f (h\<lparr>h_unpk := (h_unpk h)(com := unpk)\<rparr>, vals)) Q w''"
    unfolding reply recv_answer[OF setting_mp[OF ramp_setting[OF inv]] handler_ok_unpk[OF h] kinds] by (rule cont[OF grow(2,1) R])
qed

section \<open>Reads\<close>

lemma get_into_eq:
  "get_into mp junk com msg_type args k (h, ret) =
     bind_prog (com_exchange mp junk com msg_type args [Item_arg (snd (cmap_index ret k Item_default))] h)
       (\<lambda>(h, vals). Return (h, (fst (cmap_index ret k Item_default))(k \<mapsto> arg_item (vals ! 0))))"
  by (simp add: get_into_def Let_def case_prod_beta' cmap_assign_def)

lemma cmap_index_update [simp]: "(fst (cmap_index m k d))(k \<mapsto> v) = m(k \<mapsto> v)"
  by (auto simp: cmap_index_def split: option.splits)

lemma safe_get_latest:
  assumes inv: "ramp_inv S w" and h: "handler_ok S h w" and t: "t \<Longrightarrow> rs_room S"
  shows "ramp_safe S t (get_into (rs_mp S) (rs_junk S) com GET [Key_arg k, Ts_arg Timestamp_default] k (h, ret))
    (\<lambda>x w'. case x of (h', ret') \<Rightarrow> h' = h \<and> ramp_le w w' \<and> (\<exists>it. ret' = ret(k \<mapsto> it) \<and> answer_ok S w' k it)) w"
  unfolding get_into_eq
proof (rule safe_exchange[where R = "\<lambda>vals w'. \<exists>it. vals = [Item_arg it] \<and> answer_ok S w' k it", OF inv h t])
  fix w' w'' r
  assume w': "ramp_inv S w'" and s: "ramp_serve S com (sent_msg (rs_mp S) (rs_junk S) GET
      [Key_arg k, Ts_arg Timestamp_default]) w' = Ret (w'', r)"
  from serve_get[OF w' s] obtain it where "r = sent_msg (rs_mp S) (rs_junk S) RESULT [Item_arg it]"
    and "it = Item_default \<or> item_key it = k \<and> settled S w'' it"
    by (auto intro: settled_le)
  then show "\<exists>t' vals. r = sent_msg (rs_mp S) (rs_junk S) t' vals \<and>
      list_all2 same_kind vals [Item_arg (snd (cmap_index ret k Item_default))] \<and>
      (\<exists>it. vals = [Item_arg it] \<and> answer_ok S w'' k it)"
    by (intro exI[of _ RESULT] exI[of _ "[Item_arg it]"]) (auto simp: answer_ok_def cached_ok_def)
next
  fix w' vals
  assume "ramp_le w w'" and "\<exists>it. vals = [Item_arg it] \<and> answer_ok S w' k it"
  then show "ramp_safe S t (case (h, vals) of (h, vals) \<Rightarrow>
      Return (h, (fst (cmap_index ret k Item_default))(k \<mapsto> arg_item (vals ! 0))))
      (\<lambda>x w'. case x of (h', ret') \<Rightarrow> h' = h \<and> ramp_le w w' \<and> (\<exists>it. ret' = ret(k \<mapsto> it) \<and> answer_ok S w' k it)) w'"
    by (auto intro: ramp_le_trans answer_ok_le)
qed (auto simp: ramp_request_def)

lemma safe_get_version:
  assumes inv: "ramp_inv S w" and h: "handler_ok S h w" and t: "t \<Longrightarrow> rs_room S"
    and ts: "ts \<noteq> Timestamp_default" and p: "prepared S w ts k" and home: "rs_home S com = key_server S k"
  shows "ramp_safe S t (get_into (rs_mp S) (rs_junk S) com GET [Key_arg k, Ts_arg ts] k (h, ret))
    (\<lambda>x w'. case x of (h', ret') \<Rightarrow> h' = h \<and> ramp_le w w' \<and>
       (\<exists>it. ret' = ret(k \<mapsto> it) \<and> item_key it = k \<and> item_ts it = ts \<and> genuine S it)) w"
  unfolding get_into_eq
proof (rule safe_exchange[where R = "\<lambda>vals w'. \<exists>it. vals = [Item_arg it] \<and> item_key it = k \<and> item_ts it = ts \<and> genuine S it",
      OF inv h t])
  fix w' w'' r
  assume w': "ramp_le w w'" "ramp_inv S w'" and s: "ramp_serve S com (sent_msg (rs_mp S) (rs_junk S) GET
      [Key_arg k, Ts_arg ts]) w' = Ret (w'', r)"
  from serve_get(2)[OF w'(2) s] obtain it where "r = sent_msg (rs_mp S) (rs_junk S) RESULT [Item_arg it]"
    and "item_key it = k \<and> item_ts it = ts \<and> genuine S it"
    using ts prepared_le[OF p w'(1)] home by auto
  then show "\<exists>t' vals. r = sent_msg (rs_mp S) (rs_junk S) t' vals \<and>
      list_all2 same_kind vals [Item_arg (snd (cmap_index ret k Item_default))] \<and>
      (\<exists>it. vals = [Item_arg it] \<and> item_key it = k \<and> item_ts it = ts \<and> genuine S it)"
    by (intro exI[of _ RESULT] exI[of _ "[Item_arg it]"]) auto
next
  fix w' vals
  assume "ramp_le w w'" and "\<exists>it. vals = [Item_arg it] \<and> item_key it = k \<and> item_ts it = ts \<and> genuine S it"
  then show "ramp_safe S t (case (h, vals) of (h, vals) \<Rightarrow>
      Return (h, (fst (cmap_index ret k Item_default))(k \<mapsto> arg_item (vals ! 0))))
      (\<lambda>x w'. case x of (h', ret') \<Rightarrow> h' = h \<and> ramp_le w w' \<and>
       (\<exists>it. ret' = ret(k \<mapsto> it) \<and> item_key it = k \<and> item_ts it = ts \<and> genuine S it)) w'"
    by (auto intro: ramp_le_trans)
qed (auto simp: ramp_request_def)

lemma safe_get_with_addr:
  assumes inv: "ramp_inv S w" and h: "handler_ok S h w" and t: "t \<Longrightarrow> rs_room S"
    and tt: "rs_tt S = AC_RAMP_FAST" and k: "k \<in> rs_keys S" and com: "com = key_com S h k"
  shows "ramp_safe S t (get_with_addr (rs_mp S) (rs_junk S) com k (h, ret))
    (\<lambda>x w'. case x of (h', ret') \<Rightarrow> handler_ok S h' w' \<and> h_trx h' = h_trx h \<and> ramp_le w w' \<and>
       (\<exists>it. ret' = ret(k \<mapsto> it) \<and> answer_ok S w' k it)) w"
proof -
  define a where "a = snd (cmap_index (h_addr_cache h) k RemoteKeyAndAddr_default)"
  define h1 where "h1 = h\<lparr>h_addr_cache := fst (cmap_index (h_addr_cache h) k RemoteKeyAndAddr_default)\<rparr>"
  define f :: "handler \<times> arg list \<Rightarrow> (handler \<times> (key, item) cmap) prog" where
    "f = (\<lambda>(h', vals). Return (h'\<lparr>h_addr_cache := cmap_assign (h_addr_cache h') k (arg_rka (vals ! 1))\<rparr>,
      ret(k \<mapsto> arg_item (vals ! 0))))"
  have eq: "get_with_addr (rs_mp S) (rs_junk S) com k (h, ret) =
      bind_prog (com_exchange (rs_mp S) (rs_junk S) com GET_WITH_ADDR [Key_arg k, Ts_arg Timestamp_default]
        [Item_arg (snd (cmap_index ret k Item_default)), Rka_arg a] h1) f"
    by (simp add: get_with_addr_def Let_def case_prod_beta' a_def h1_def f_def cmap_assign_def)
  text \<open>The element that \<open>operator[]\<close> creates is overwritten before it is used.\<close>
  have upd: "h1\<lparr>h_addr_cache := cmap_assign (h_addr_cache h1) k b\<rparr> = h\<lparr>h_addr_cache := (h_addr_cache h)(k \<mapsto> b)\<rparr>" for b
    by (simp add: h1_def cmap_assign_def)
  have home: "rs_home S com = key_server S k" using h by (simp add: com handler_ok_home)
  have recv: "(let (vals, unpk) = Communicator_recv_body (rs_mp S) (h_unpk h1 com) (snd (sent_msg (rs_mp S) (rs_junk S) t' args)) dsts
       in f (h1\<lparr>h_unpk := (h_unpk h1)(com := unpk)\<rparr>, vals)) = f (h1, args)"
    if "list_all2 same_kind args dsts" for t' args dsts
  proof -
    have u: "h_unpk h1 = (\<lambda>_. [])" using h by (simp add: handler_ok_def h1_def)
    then have "(h_unpk h1)(com := []) = h_unpk h1" by (simp add: fun_eq_iff)
    then have "h1\<lparr>h_unpk := (h_unpk h1)(com := [])\<rparr> = h1" by simp
    then show ?thesis using recv_body_sent[OF setting_mp[OF ramp_setting[OF inv]] that] u by simp
  qed
  show ?thesis
    unfolding eq bind_exchange
  proof (rule ramp.safe_RequestI)
    fix w' assume w': "ramp_le w w'" "ramp_inv S w'"
    show req: "ramp_request S com (sent_msg (rs_mp S) (rs_junk S) GET_WITH_ADDR
        [Key_arg k, Ts_arg Timestamp_default]) w'"
      using tt k by (auto simp: ramp_request_def)
    show "t \<Longrightarrow> returns (ramp_serve S com (sent_msg (rs_mp S) (rs_junk S) GET_WITH_ADDR
        [Key_arg k, Ts_arg Timestamp_default]) w')"
      using ramp_serve_returns[OF w'(2) req] t by blast
    fix w'' r
    assume s: "ramp_serve S com (sent_msg (rs_mp S) (rs_junk S) GET_WITH_ADDR
        [Key_arg k, Ts_arg Timestamp_default]) w' = Ret (w'', r)"
    have grow: "ramp_le w w''" "ramp_le w' w''" "ramp_inv S w''"
      using ramp_serve_inv[OF w'(2) req s] ramp_le_trans[OF w'(1)] by auto
    from serve_get_with_addr(2)[OF w'(2) tt k s] obtain it b where
      r: "r = sent_msg (rs_mp S) (rs_junk S) RESULT [Item_arg it, Rka_arg b]"
      and it: "it = Item_default \<or> item_key it = k \<and> settled S w' it"
      and b: "ci_entries (tbl_committed (cl_table w'' (rs_home S com))) k = Some (Some (rka_addr b))"
      by blast
    have kinds: "list_all2 same_kind [Item_arg it, Rka_arg b]
        [Item_arg (snd (cmap_index ret k Item_default)), Rka_arg a]" by simp
    have "handler_ok S (h\<lparr>h_addr_cache := (h_addr_cache h)(k \<mapsto> b)\<rparr>) w''"
      using handler_ok_le[OF h grow(1)] b home by (auto simp: handler_ok_def)
    moreover have "answer_ok S w'' k it"
      using it settled_le[OF _ grow(2)] by (auto simp: answer_ok_def cached_ok_def)
    ultimately show "ramp_safe S t (let (vals, unpk) = Communicator_recv_body (rs_mp S) (h_unpk h1 com) (snd r)
          [Item_arg (snd (cmap_index ret k Item_default)), Rka_arg a]
        in f (h1\<lparr>h_unpk := (h_unpk h1)(com := unpk)\<rparr>, vals))
      (\<lambda>x w'. case x of (h', ret') \<Rightarrow> handler_ok S h' w' \<and> h_trx h' = h_trx h \<and> ramp_le w w' \<and>
         (\<exists>it. ret' = ret(k \<mapsto> it) \<and> answer_ok S w' k it)) w''"
      unfolding r recv[OF kinds]
      by (auto simp: f_def upd intro: handler_ok_le answer_ok_le ramp_le_trans[OF grow(1)])
  qed
qed

text \<open>A one-sided read of the entry of a key, if it answers an item, answers one for the key.\<close>

lemma safe_com_read:
  assumes inv: "ramp_inv S w" and h: "handler_ok S h w" and a: "h_addr_cache h k = Some a"
  shows "ramp_safe S False (com_read (rs_mp S) (key_com S h k) it a)
    (\<lambda>x w'. case x of (rc, it') \<Rightarrow> ramp_le w w' \<and> (rc = -1 \<and> it' = it \<or> rc = 0 \<and> cached_ok S w' k it')) w"
  unfolding com_read_def ramp.safe.simps
proof (intro allI impI)
  fix w' assume w': "ramp_le w w'" "ramp_inv S w'"
  let ?ci = "tbl_committed (cl_table w' (key_server S k))"
  let ?m = "mem_write (\<lambda>_. 0) 0 (cluster_peek (rs_home S) (key_com S h k) a w')"
  have "ci_entries ?ci k = Some (Some (rka_addr a))"
    using handler_ok_le[OF h w'(1)] a by (simp add: handler_ok_def)
  moreover have "cache_inv (rs_mp S) (cached_ok S w') ?ci"
    using ramp_table[OF w'(2), of "key_server S k"] by (simp add: table_inv_def)
  ultimately have slot: "slot_ok (rs_mp S) (cached_ok S w' k) (ci_mem ?ci) (rka_addr a)"
    by (simp add: cache_inv_def)
  have m: "?m = rdma_transfer (ci_mem ?ci) (rka_addr a) (\<lambda>_. 0) 0 ENTRY_SIZE"
    using handler_ok_home[OF h, of k] by (simp add: rdma_transfer_def cluster_peek_def cl_table_def)
  have "RDMAWriteSocket_read_entry (rs_mp S) (Buffer_on 0 ENTRY_SIZE) it ?m \<in>
      {Blocks, Ret (-1, it)} \<union> (\<lambda>i. Ret (0, i)) ` {i. cached_ok S w' k i}"
    unfolding m by (rule read_entry_slot[OF setting_mp[OF ramp_setting[OF inv]] slot])
  then show "ramp_safe S False (of_outcome (RDMAWriteSocket_read_entry (rs_mp S) (Buffer_on 0 ENTRY_SIZE) it ?m))
      (\<lambda>x w'. case x of (rc, it') \<Rightarrow> ramp_le w w' \<and> (rc = -1 \<and> it' = it \<or> rc = 0 \<and> cached_ok S w' k it')) w'"
    by (auto intro: ramp_le_trans[OF w'(1)] cached_ok_le)
qed

section \<open>The first round\<close>

text \<open>
  What holds of the local state of a \<open>get_all\<close> after the keys \<open>ks\<close> have been read.
\<close>

definition round_ok :: "'o ramp \<Rightarrow> trx \<Rightarrow> key list \<Rightarrow> handler \<times> (key, item) cmap \<Rightarrow> cluster \<Rightarrow> bool" where
  "round_ok S trx ks st w \<longleftrightarrow> handler_ok S (fst st) w \<and> h_trx (fst st) = trx \<and> answers_ok S (set ks) (snd st) w"

lemma round_ok_le: "round_ok S trx ks st w \<Longrightarrow> ramp_le w w' \<Longrightarrow> round_ok S trx ks st w'"
  unfolding round_ok_def by (blast intro: handler_ok_le answers_ok_le)

lemma round_ok_snoc:
  assumes "answers_ok S (set ks) ret w" and "ramp_le w w'" and "answer_ok S w' k it"
    and "handler_ok S h w'" and "h_trx h = trx"
  shows "round_ok S trx (ks @ [k]) (h, ret(k \<mapsto> it)) w'"
  using answers_ok_update[OF answers_ok_le[OF assms(1,2)] assms(3)] assms(4,5) by (simp add: round_ok_def)

lemma safe_first_round:
  assumes inv: "ramp_inv S w" and st: "round_ok S trx ks (h, ret) w" and t: "t \<Longrightarrow> rs_room S"
  shows "ramp_safe S t (bind_prog (cp_get (rs_hash S) (rs_cfg S) k h) (\<lambda>(h, com).
      get_into (rs_mp S) (rs_junk S) com GET [Key_arg k, Ts_arg Timestamp_default] k (h, ret)))
    (round_ok S trx (ks @ [k])) w"
proof -
  have h: "handler_ok S h w" "h_trx h = trx" and ret: "answers_ok S (set ks) ret w"
    using st by (auto simp: round_ok_def)
  have "ramp_safe S t (get_into (rs_mp S) (rs_junk S) (key_com S h k) GET [Key_arg k, Ts_arg Timestamp_default] k
      (touched S k h, ret)) (round_ok S trx (ks @ [k])) w"
  proof (rule ramp.safe_mono[OF safe_get_latest[OF inv _ t] _ inv])
    show "handler_ok S (touched S k h) w" using h by simp
    fix x w'
    assume "case x of (h', ret') \<Rightarrow> h' = touched S k h \<and> ramp_le w w' \<and>
        (\<exists>it. ret' = ret(k \<mapsto> it) \<and> answer_ok S w' k it)"
    then show "round_ok S trx (ks @ [k]) x w'"
      using h ret by (auto intro!: round_ok_snoc intro: handler_ok_le)
  qed
  then show ?thesis by (simp add: cp_get_ok[OF h(1)])
qed

lemma safe_AC_first_round:
  assumes inv: "ramp_inv S w" and st: "round_ok S trx ks (h, ret) w" and k: "k \<notin> set ks" "k \<in> rs_keys S"
    and tt: "rs_tt S = AC_RAMP_FAST"
  shows "ramp_safe S False (AC_first_round (rs_mp S) (rs_junk S) (rs_hash S) (rs_cfg S) k (h, ret))
    (round_ok S trx (ks @ [k])) w"
proof -
  have h: "handler_ok S h w" "h_trx h = trx" and ret: "answers_ok S (set ks) ret w"
    using st by (auto simp: round_ok_def)
  have fresh: "ret k = None" using ret k(1) by (auto simp: answers_ok_def)
  have ask: "ramp_safe S False (get_with_addr (rs_mp S) (rs_junk S) (key_com S h k) k (touched S k h, ret'))
      (round_ok S trx (ks @ [k])) w'"
    if w': "ramp_le w w'" "ramp_inv S w'" and ret': "\<And>it. ret'(k \<mapsto> it) = ret(k \<mapsto> it)" for ret' w'
  proof (rule ramp.safe_mono[OF safe_get_with_addr[OF w'(2) _ _ tt k(2)] _ w'(2)])
    show "handler_ok S (touched S k h) w'" using handler_ok_le[OF h(1) w'(1)] by simp
    show "key_com S h k = key_com S (touched S k h) k" by simp
    fix x v
    assume "case x of (h', ret'') \<Rightarrow> handler_ok S h' v \<and> h_trx h' = h_trx (touched S k h) \<and> ramp_le w' v \<and>
        (\<exists>it. ret'' = ret'(k \<mapsto> it) \<and> answer_ok S v k it)"
    then show "round_ok S trx (ks @ [k]) x v"
      using ret h(2) ramp_le_trans[OF w'(1)] by (auto simp: ret' intro!: round_ok_snoc)
  qed simp
  show ?thesis
  proof (cases "h_addr_cache h k")
    case None
    have "AC_first_round (rs_mp S) (rs_junk S) (rs_hash S) (rs_cfg S) k (h, ret) =
        get_with_addr (rs_mp S) (rs_junk S) (key_com S h k) k (touched S k h, ret)"
      by (simp add: AC_first_round_def cp_get_ok[OF h(1)] None)
    then show ?thesis using ask[OF ramp_le_refl inv, of ret] by simp
  next
    case (Some a)
    define next_step where "next_step = (\<lambda>(rc::int, it).
      if rc = -1 then get_with_addr (rs_mp S) (rs_junk S) (key_com S h k) k (touched S k h, ret(k \<mapsto> it))
      else Return (touched S k h, ret(k \<mapsto> it)))"
    have "AC_first_round (rs_mp S) (rs_junk S) (rs_hash S) (rs_cfg S) k (h, ret) =
        bind_prog (com_read (rs_mp S) (key_com S h k) Item_default a) next_step"
      by (simp add: AC_first_round_def cp_get_ok[OF h(1)] Some cmap_index_def fresh cmap_assign_def
          Let_def next_step_def)
        (intro arg_cong[where f = "bind_prog (com_read (rs_mp S) (key_com S h k) Item_default a)"] ext,
          simp split: prod.split)
    moreover have "ramp_safe S False (bind_prog (com_read (rs_mp S) (key_com S h k) Item_default a) next_step)
        (round_ok S trx (ks @ [k])) w"
    proof (rule ramp.safe_bind[OF safe_com_read[OF inv h(1) Some] _ inv])
      fix x :: "int \<times> item" and w'
      assume x: "case x of (rc, it') \<Rightarrow> ramp_le w w' \<and>
          (rc = -1 \<and> it' = Item_default \<or> rc = 0 \<and> cached_ok S w' k it')" and w': "ramp_inv S w'"
      obtain rc it where xx: "x = (rc, it)" by (cases x)
      show "ramp_safe S False (next_step x) (round_ok S trx (ks @ [k])) w'"
      proof (cases "rc = -1")
        case True
        then show ?thesis using ask[of w' "ret(k \<mapsto> it)"] x w' by (simp add: next_step_def xx)
      next
        case False
        then have "ramp_le w w'" "answer_ok S w' k it" using x by (auto simp: xx answer_ok_def)
        then have "round_ok S trx (ks @ [k]) (touched S k h, ret(k \<mapsto> it)) w'"
          using h ret by (auto intro!: round_ok_snoc intro: handler_ok_le)
        then show ?thesis using False by (auto simp: next_step_def xx intro: round_ok_le)
      qed
    qed
    ultimately show ?thesis by simp
  qed
qed

section \<open>The second round\<close>

text \<open>
  \<open>r1\<close> is what the first round read.  A key is \<open>repaired\<close> when its item is at least as new as every
  version that the items of the first round say it should have.
\<close>

definition repaired :: "'o ramp \<Rightarrow> (key, item) cmap \<Rightarrow> (key, timestamp) cmap \<Rightarrow> key \<Rightarrow> item \<Rightarrow> bool" where
  "repaired S r1 v k it \<longleftrightarrow>
     (if item_ts (the (r1 k)) < missing_of v k
      then item_key it = k \<and> item_ts it = missing_of v k \<and> genuine S it
      else r1 k = Some it)"

definition repair_ok ::
    "'o ramp \<Rightarrow> trx \<Rightarrow> (key, item) cmap \<Rightarrow> (key, timestamp) cmap \<Rightarrow> key list \<Rightarrow>
     handler \<times> (key, item) cmap \<Rightarrow> cluster \<Rightarrow> bool" where
  "repair_ok S trx r1 v ks st w \<longleftrightarrow> handler_ok S (fst st) w \<and> h_trx (fst st) = trx \<and>
     dom (snd st) = dom r1 \<and>
     (\<forall>k. k \<notin> set ks \<longrightarrow> snd st k = r1 k) \<and>
     (\<forall>k it. k \<in> set ks \<longrightarrow> snd st k = Some it \<longrightarrow> repaired S r1 v k it)"

lemma repair_ok_le: "repair_ok S trx r1 v ks st w \<Longrightarrow> ramp_le w w' \<Longrightarrow> repair_ok S trx r1 v ks st w'"
  unfolding repair_ok_def by (blast intro: handler_ok_le)

lemma safe_second_round:
  assumes inv: "ramp_inv S w" and st: "repair_ok S trx r1 v ks (h, ret) w" and t: "t \<Longrightarrow> rs_room S"
    and k: "k \<notin> set ks" "k \<in> dom r1"
    and missing: "item_ts (the (r1 k)) < missing_of v k \<Longrightarrow>
        missing_of v k \<noteq> Timestamp_default \<and> prepared S w (missing_of v k) k"
  shows "ramp_safe S t (second_round (rs_mp S) (rs_junk S) (rs_hash S) (rs_cfg S) v k (h, ret))
    (repair_ok S trx r1 v (ks @ [k])) w"
proof -
  have h: "handler_ok S h w" "h_trx h = trx" using st by (auto simp: repair_ok_def)
  have old: "ret k = r1 k" using st k(1) by (simp add: repair_ok_def)
  obtain it0 where it0: "r1 k = Some it0" using k(2) by auto
  have add: "repair_ok S trx r1 v (ks @ [k]) (h', ret(k \<mapsto> it)) w'"
    if "handler_ok S h' w'" "h_trx h' = trx" "repaired S r1 v k it" for h' it w'
  proof -
    have "dom (ret(k \<mapsto> it)) = dom r1" using st k(2) by (auto simp: repair_ok_def)
    moreover have "\<forall>j it'. j \<in> set (ks @ [k]) \<longrightarrow> (ret(k \<mapsto> it)) j = Some it' \<longrightarrow> repaired S r1 v j it'"
      using st that(3) by (auto simp: repair_ok_def)
    ultimately show ?thesis using st that(1,2) by (simp add: repair_ok_def)
  qed
  show ?thesis
  proof (cases "item_ts it0 < missing_of v k")
    case True
    have eq: "second_round (rs_mp S) (rs_junk S) (rs_hash S) (rs_cfg S) v k (h, ret) =
        get_into (rs_mp S) (rs_junk S) (key_com S h k) GET [Key_arg k, Ts_arg (missing_of v k)] k (touched S k h, ret)"
      using True by (simp add: second_round_def cmap_index_def[of ret] old it0 cp_get_ok[OF h(1)])
    have m: "missing_of v k \<noteq> Timestamp_default" "prepared S w (missing_of v k) k"
      using missing True it0 by auto
    show ?thesis
      unfolding eq
    proof (rule ramp.safe_mono[OF safe_get_version[OF inv _ t m] _ inv])
      show "handler_ok S (touched S k h) w" "rs_home S (key_com S h k) = key_server S k"
        using h handler_ok_home by auto
      fix x w'
      assume "case x of (h', ret') \<Rightarrow> h' = touched S k h \<and> ramp_le w w' \<and> (\<exists>it. ret' = ret(k \<mapsto> it) \<and>
          item_key it = k \<and> item_ts it = missing_of v k \<and> genuine S it)"
      then obtain it where x: "x = (touched S k h, ret(k \<mapsto> it))" "ramp_le w w'"
        "item_key it = k" "item_ts it = missing_of v k" "genuine S it" by (cases x) blast
      have "repaired S r1 v k it" using True it0 x by (simp add: repaired_def)
      then show "repair_ok S trx r1 v (ks @ [k]) x w'"
        unfolding x(1) by (intro add) (use h handler_ok_le[OF h(1) x(2)] in auto)
    qed
  next
    case False
    then have "second_round (rs_mp S) (rs_junk S) (rs_hash S) (rs_cfg S) v k (h, ret) = Return (h, ret)"
      by (simp add: second_round_def cmap_index_def[of ret] old it0)
    moreover have "repair_ok S trx r1 v (ks @ [k]) (h, ret) w"
      using add[OF h, of it0] False it0 old by (simp add: repaired_def fun_upd_idem)
    ultimately show ?thesis by (auto intro: repair_ok_le)
  qed
qed

section \<open>What a read transaction answers\<close>

definition get_all_ok :: "'o ramp \<Rightarrow> trx \<Rightarrow> (key, item) cmap \<Rightarrow> cluster \<Rightarrow> bool" where
  "get_all_ok S trx ret w \<longleftrightarrow> answers_ok S (fst ` set (read_set trx)) ret w \<and> read_atomic ret"

lemma get_all_ok_le: "get_all_ok S trx ret w \<Longrightarrow> ramp_le w w' \<Longrightarrow> get_all_ok S trx ret w'"
  unfolding get_all_ok_def by (blast intro: answers_ok_le)

lemma ret_values_set:
  assumes "order_ok perm" and "dom ret = set ks"
  shows "set (ret_values perm ks ret) = ran ret"
proof -
  have "ret_item ret k = the (ret k)" if "k \<in> dom ret" for k
    using that by (auto simp: ret_item_def cmap_index_def)
  then have "ret_item ret ` set ks = (\<lambda>k. the (ret k)) ` dom ret" using assms(2) by (auto intro!: image_cong)
  also have "\<dots> = ran ret" by (force simp: ran_def)
  finally show ?thesis using assms(1) by (simp add: ret_values_def)
qed

lemma answer_with_keys:
  assumes "answer_ok S w k it" and "item_trx_keys it \<noteq> []"
  shows "item_key it = k \<and> settled S w it"
  using assms by (auto simp: answer_ok_def cached_ok_def)

text \<open>A version that the check between the rounds asks for is the version of a prepared transaction.\<close>

lemma missing_attained:
  assumes a: "answers_ok S K r1 w" and v: "v = check_missing its" "set its = ran r1"
    and m: "missing_of v k \<noteq> Timestamp_default"
  obtains it where "settled S w it" and "it \<in> ran r1" and "k \<in> set (item_trx_keys it)"
    and "item_ts it = missing_of v k"
proof -
  obtain it where it: "it \<in> set its" "k \<in> set (item_trx_keys it)" "item_ts it = missing_of v k"
    using check_missing_attained m unfolding v(1) by metis
  then obtain j where "r1 j = Some it" using v(2) by (auto simp: ran_def)
  then have "answer_ok S w j it" using a by (simp add: answers_ok_def)
  moreover have "item_trx_keys it \<noteq> []" using it(2) by auto
  ultimately show thesis using that[of it] answer_with_keys it v(2) by blast
qed

lemma answer_ts: "setting_ok S \<Longrightarrow> answer_ok S w k it \<Longrightarrow> Timestamp_default \<le> item_ts it"
  using genuine_fits(3)[of S it] by (auto simp: answer_ok_def cached_ok_def settled_def)

lemma settled_prepared:
  "setting_ok S \<Longrightarrow> settled S w it \<Longrightarrow> k \<in> set (item_trx_keys it) \<Longrightarrow> prepared S w (item_ts it) k"
  using genuine_keys[of S it] by (auto simp: settled_def all_prepared_def)

lemma missing_prepared:
  assumes S: "setting_ok S" and a: "answers_ok S K r1 w" and v: "v = check_missing its" "set its = ran r1"
    and k: "k \<in> dom r1" and less: "item_ts (the (r1 k)) < missing_of v k"
  shows "missing_of v k \<noteq> Timestamp_default \<and> prepared S w (missing_of v k) k"
proof -
  obtain it0 where it0: "r1 k = Some it0" using k by auto
  then have "answer_ok S w k it0" using a by (simp add: answers_ok_def)
  from answer_ts[OF S this] have m: "missing_of v k \<noteq> Timestamp_default" using less it0 by auto
  from missing_attained[OF a v m] obtain it where "settled S w it" "k \<in> set (item_trx_keys it)"
    "item_ts it = missing_of v k" by blast
  then show ?thesis using m settled_prepared[OF S] by metis
qed

text \<open>Items of one transaction name the same keys, so a repaired set of items has no fractured read.\<close>

lemma same_trx_keys:
  "setting_ok S \<Longrightarrow> genuine S a \<Longrightarrow> genuine S b \<Longrightarrow> item_ts a = item_ts b \<Longrightarrow> item_trx_keys a = item_trx_keys b"
  using genuine_keys[of S a] genuine_keys[of S b] by auto

lemma repaired_cases:
  assumes S: "setting_ok S" and a: "answers_ok S (dom r1) r1 w" and v: "v = check_missing its" "set its = ran r1"
    and r: "repaired S r1 v k it" and k: "k \<in> dom r1"
  obtains (kept) "r1 k = Some it" "missing_of v k \<le> item_ts it"
    | (fetched) it' where "item_key it = k" "genuine S it" "item_ts it = missing_of v k" "settled S w it'"
        "it' \<in> ran r1" "k \<in> set (item_trx_keys it')" "item_ts it' = item_ts it"
proof (cases "item_ts (the (r1 k)) < missing_of v k")
  case True
  then have it: "item_key it = k" "item_ts it = missing_of v k" "genuine S it" using r by (auto simp: repaired_def)
  have "missing_of v k \<noteq> Timestamp_default" using missing_prepared[OF S a v k True] by blast
  from missing_attained[OF a v this] obtain it' where it': "settled S w it'" "it' \<in> ran r1"
    "k \<in> set (item_trx_keys it')" "item_ts it' = missing_of v k" by blast
  show thesis by (rule fetched[OF it(1,3,2) it'(1,2,3)]) (simp add: it'(4) it(2))
next
  case False
  then show thesis using r kept by (auto simp: repaired_def)
qed

lemma repaired_get_all_ok:
  assumes S: "setting_ok S" and a: "answers_ok S (dom r1) r1 w" and v: "v = check_missing its" "set its = ran r1"
    and dom: "dom ret = dom r1" and r: "\<And>k it. ret k = Some it \<Longrightarrow> repaired S r1 v k it"
  shows "answers_ok S (dom r1) ret w" and "read_atomic ret"
proof -
  have "answer_ok S w k it" if k: "ret k = Some it" for k it
  proof -
    have "k \<in> dom r1" using dom k by auto
    from S a v r[OF k] this show ?thesis
    proof (cases rule: repaired_cases)
      case kept
      then show ?thesis using a by (simp add: answers_ok_def)
    next
      case (fetched it')
      then have "settled S w it" by (simp add: settled_def)
      then show ?thesis using fetched by (simp add: answer_ok_def cached_ok_def)
    qed
  qed
  then show "answers_ok S (dom r1) ret w" using dom by (simp add: answers_ok_def)
  have noted: "item_ts it \<le> missing_of v k" if "it \<in> ran r1" "k \<in> set (item_trx_keys it)" for it k
    unfolding v(1) by (rule check_missing_upper) (use that v(2) in auto)
  have upper: "item_ts it \<le> missing_of v k" if j: "ret j = Some it" and k: "k \<in> set (item_trx_keys it)" for j k it
  proof -
    have "j \<in> dom r1" using dom j by auto
    from S a v r[OF j] this show ?thesis
    proof (cases rule: repaired_cases)
      case kept
      then show ?thesis using noted[OF _ k] by (auto simp: ran_def)
    next
      case (fetched it')
      have "genuine S it'" using fetched(4) by (simp add: settled_def)
      from same_trx_keys[OF S this fetched(2,7)] have "item_trx_keys it' = item_trx_keys it" .
      then have "k \<in> set (item_trx_keys it')" using k by simp
      from noted[OF fetched(5) this] show ?thesis using fetched(7) by simp
    qed
  qed
  have lower: "missing_of v k \<le> item_ts it" if k: "ret k = Some it" for k it
  proof -
    have "k \<in> dom r1" using dom k by auto
    from S a v r[OF k] this show ?thesis by (cases rule: repaired_cases) auto
  qed
  show "read_atomic ret"
    unfolding read_atomic_def using upper lower order_trans by blast
qed

text \<open>Both rounds together.\<close>

lemma safe_rounds:
  assumes inv: "ramp_inv S w" and t: "t \<Longrightarrow> rs_room S" and keys: "distinct keys"
    "set keys = fst ` set (read_set trx)" and perms: "\<And>i. order_ok (perms i)"
    and h: "handler_ok S h w" "h_trx h = trx"
    and first: "\<And>ks k st w. round_ok S trx ks st w \<Longrightarrow> ramp_inv S w \<Longrightarrow> k \<in> set keys \<Longrightarrow> k \<notin> set ks \<Longrightarrow>
        ramp_safe S t (f k st) (round_ok S trx (ks @ [k])) w"
  shows "ramp_safe S t (bind_prog (parallel_for_each (perms 0) keys f (h, Map.empty))
      (\<lambda>(h, ret). let v_latest = check_missing (ret_values (perms (Suc 0)) keys ret)
         in parallel_for_each (perms 2) keys
              (second_round (rs_mp S) (rs_junk S) (rs_hash S) (rs_cfg S) v_latest) (h, ret)))
    (\<lambda>x w'. handler_ok S (fst x) w' \<and> h_trx (fst x) = trx \<and> get_all_ok S trx (snd x) w') w"
proof -
  have order: "set (in_order (perms i) keys) = set keys" "distinct (in_order (perms i) keys)" for i
    using perms[of i] distinct_in_order[OF perms[of i], of "\<lambda>k. k" keys] keys(1) by auto
  have r1: "ramp_safe S t (parallel_for_each (perms 0) keys f (h, Map.empty))
      (round_ok S trx (in_order (perms 0) keys)) w"
    unfolding parallel_for_each_def
  proof (rule ramp.safe_for_each[OF _ inv])
    show "round_ok S trx [] (h, Map.empty) w" using h by (simp add: round_ok_def answers_ok_def)
    show "ramp_safe S t (f k st) (round_ok S trx (ks @ [k])) v"
      if "round_ok S trx ks st v" "ramp_inv S v" "k \<in> set (in_order (perms 0) keys)"
        "k \<notin> set ks \<or> \<not> distinct (in_order (perms 0) keys)" for ks k st v
      using first[OF that(1,2)] that(3,4) order by simp
  qed (rule round_ok_le)
  show ?thesis
  proof (rule ramp.safe_bind[OF r1 _ inv])
    fix x w1
    assume x: "round_ok S trx (in_order (perms 0) keys) x w1" and w1: "ramp_inv S w1"
    obtain h1 ret1 where xx: "x = (h1, ret1)" by (cases x)
    note S = ramp_setting[OF inv]
    have a: "answers_ok S (set keys) ret1 w1" and h1: "handler_ok S h1 w1" "h_trx h1 = trx"
      using x order by (auto simp: round_ok_def xx)
    then have dom: "dom ret1 = set keys" by (simp add: answers_ok_def)
    define its where "its = ret_values (perms (Suc 0)) keys ret1"
    define v where "v = check_missing its"
    have its: "set its = ran ret1" unfolding its_def by (rule ret_values_set[OF perms dom])
    have "ramp_safe S t (for_each_prog (second_round (rs_mp S) (rs_junk S) (rs_hash S) (rs_cfg S) v)
        (in_order (perms 2) keys) (h1, ret1)) 
        (\<lambda>st w'. repair_ok S trx ret1 v (in_order (perms 2) keys) st w' \<and> ramp_le w1 w') w1"
    proof (rule ramp.safe_for_each[where J = "\<lambda>ks st w'. repair_ok S trx ret1 v ks st w' \<and> ramp_le w1 w'", OF _ w1])
      show "repair_ok S trx ret1 v [] (h1, ret1) w1 \<and> ramp_le w1 w1"
        using h1 ramp_le_refl by (simp add: repair_ok_def)
      fix ks k st u
      assume st: "repair_ok S trx ret1 v ks st u \<and> ramp_le w1 u" and u: "ramp_inv S u"
        and k: "k \<in> set (in_order (perms 2) keys)" "k \<notin> set ks \<or> \<not> distinct (in_order (perms 2) keys)"
      have k': "k \<notin> set ks" "k \<in> dom ret1" using k order dom by auto
      obtain h2 ret2 where st2: "st = (h2, ret2)" by (cases st)
      have "ramp_safe S t (second_round (rs_mp S) (rs_junk S) (rs_hash S) (rs_cfg S) v k (h2, ret2))
          (repair_ok S trx ret1 v (ks @ [k])) u"
      proof (rule safe_second_round[OF u _ t k'])
        show "repair_ok S trx ret1 v ks (h2, ret2) u" using st by (simp add: st2)
        show "missing_of v k \<noteq> Timestamp_default \<and> prepared S u (missing_of v k) k"
          if "item_ts (the (ret1 k)) < missing_of v k"
          using missing_prepared[OF S a v_def its k'(2) that] prepared_le st by blast
      qed
      then show "ramp_safe S t (second_round (rs_mp S) (rs_junk S) (rs_hash S) (rs_cfg S) v k st)
          (\<lambda>st w'. repair_ok S trx ret1 v (ks @ [k]) st w' \<and> ramp_le w1 w') u"
        unfolding st2 by (rule ramp.safe_mono[OF _ _ u]) (use st ramp_le_trans in blast)
    qed (use repair_ok_le ramp_le_trans in blast)
    moreover have "handler_ok S (fst y) w2 \<and> h_trx (fst y) = trx \<and> get_all_ok S trx (snd y) w2"
      if y: "repair_ok S trx ret1 v (in_order (perms 2) keys) y w2 \<and> ramp_le w1 w2" for y w2
    proof -
      have a2: "answers_ok S (dom ret1) ret1 w2" using answers_ok_le[OF a] y dom by simp
      have d: "dom (snd y) = dom ret1" using y by (simp add: repair_ok_def)
      have r: "repaired S ret1 v k it" if k: "snd y k = Some it" for k it
      proof -
        have "k \<in> set (in_order (perms 2) keys)" using k d dom order by blast
        then show ?thesis using y k by (simp add: repair_ok_def)
      qed
      show ?thesis
        using repaired_get_all_ok[OF S a2 v_def its d r] y dom keys(2) by (simp add: get_all_ok_def repair_ok_def)
    qed
    ultimately have "ramp_safe S t (for_each_prog (second_round (rs_mp S) (rs_junk S) (rs_hash S) (rs_cfg S) v)
        (in_order (perms 2) keys) (h1, ret1))
        (\<lambda>x w'. handler_ok S (fst x) w' \<and> h_trx (fst x) = trx \<and> get_all_ok S trx (snd x) w') w1"
      by (rule ramp.safe_mono[OF _ _ w1]) blast
    then show "ramp_safe S t (case x of (h, ret) \<Rightarrow> let v_latest = check_missing (ret_values (perms (Suc 0)) keys ret)
         in parallel_for_each (perms 2) keys
              (second_round (rs_mp S) (rs_junk S) (rs_hash S) (rs_cfg S) v_latest) (h, ret))
        (\<lambda>x w'. handler_ok S (fst x) w' \<and> h_trx (fst x) = trx \<and> get_all_ok S trx (snd x) w') w1"
      by (simp add: xx parallel_for_each_def its_def v_def)
  qed
qed

section \<open>Read transactions\<close>

lemma smap_keys_distinct: "smap_ok m \<Longrightarrow> distinct (map fst m)"
  by (rule smap_ok_distinct)

lemma safe_RAMP_get_all:
  assumes inv: "ramp_inv S w" and h: "handler_ok S h w" and t: "t \<Longrightarrow> rs_room S"
    and perms: "\<And>i. order_ok (perms i)" and reads: "smap_ok (read_set (h_trx h))"
  shows "ramp_safe S t (RAMPFastHandler_get_all (rs_mp S) (rs_junk S) (rs_hash S) (rs_cfg S) perms h)
    (\<lambda>x w'. handler_ok S (fst x) w' \<and> h_trx (fst x) = h_trx h \<and> get_all_ok S (h_trx h) (snd x) w') w"
  unfolding RAMPFastHandler_get_all_def Let_def[of "map fst (read_set (h_trx h))"] One_nat_def
proof (rule safe_rounds[OF inv t smap_keys_distinct[OF reads] _ perms h refl])
  fix ks k st v
  assume st: "round_ok S (h_trx h) ks st v" and v: "ramp_inv S v"
  obtain h' ret where "st = (h', ret)" by (cases st)
  then show "ramp_safe S t (case st of (h, ret) \<Rightarrow> bind_prog (cp_get (rs_hash S) (rs_cfg S) k h) (\<lambda>(h, com).
      get_into (rs_mp S) (rs_junk S) com GET [Key_arg k, Ts_arg Timestamp_default] k (h, ret)))
      (round_ok S (h_trx h) (ks @ [k])) v"
    using safe_first_round[OF v, of "h_trx h" ks h' ret t k] st t by simp
qed simp_all

lemma safe_AC_get_all:
  assumes inv: "ramp_inv S w" and h: "handler_ok S h w" and tt: "rs_tt S = AC_RAMP_FAST"
    and perms: "\<And>i. order_ok (perms i)" and reads: "smap_ok (read_set (h_trx h))"
    and keys: "fst ` set (read_set (h_trx h)) \<subseteq> rs_keys S"
  shows "ramp_safe S False (ACRAMPFastHandler_get_all (rs_mp S) (rs_junk S) (rs_hash S) (rs_cfg S) perms h)
    (\<lambda>x w'. handler_ok S (fst x) w' \<and> h_trx (fst x) = h_trx h \<and> get_all_ok S (h_trx h) (snd x) w') w"
  unfolding ACRAMPFastHandler_get_all_def Let_def[of "map fst (read_set (h_trx h))"] One_nat_def
proof (rule safe_rounds[OF inv _ smap_keys_distinct[OF reads] _ perms h refl])
  fix ks k st v
  assume st: "round_ok S (h_trx h) ks st v" and v: "ramp_inv S v"
    and k: "k \<in> set (map fst (read_set (h_trx h)))" "k \<notin> set ks"
  obtain h' ret where "st = (h', ret)" by (cases st)
  then show "ramp_safe S False (AC_first_round (rs_mp S) (rs_junk S) (rs_hash S) (rs_cfg S) k st)
      (round_ok S (h_trx h) (ks @ [k])) v"
    using safe_AC_first_round[OF v, of "h_trx h" ks h' ret k] st k keys tt by auto
qed simp_all

section \<open>Write transactions\<close>

text \<open>A step of \<open>put_all\<close>, and the commit of what is prepared everywhere.\<close>

lemma safe_put:
  assumes inv: "ramp_inv S w" and h: "handler_ok S h w" and t: "t \<Longrightarrow> rs_room S"
    and trx: "rs_txn S ts = Some (h_trx h)" and k: "(k, vals) \<in> set (write_set (h_trx h))"
  shows "ramp_safe S t (bind_prog (cp_get (rs_hash S) (rs_cfg S) k h) (\<lambda>(h, com).
      bind_prog (com_exchange (rs_mp S) (rs_junk S) com PREPARE
        [Item_arg (Item_full k vals ts (access_keys (h_trx h)))] [] h) (\<lambda>(h, _). Return h)))
    (\<lambda>h' w'. handler_ok S h' w' \<and> h_trx h' = h_trx h \<and> ramp_le w w' \<and> prepared S w' ts k) w"
proof -
  let ?it = "Item_full k vals ts (access_keys (h_trx h))"
  have g: "genuine S ?it" using trx k by (auto simp: genuine_def trx_item_def)
  have home: "key_server S (item_key ?it) = rs_home S (key_com S h k)" using handler_ok_home[OF h, of k] by simp
  have "ramp_safe S t (bind_prog (com_exchange (rs_mp S) (rs_junk S) (key_com S h k) PREPARE [Item_arg ?it] []
      (touched S k h)) (\<lambda>(h, _). Return h))
    (\<lambda>h' w'. handler_ok S h' w' \<and> h_trx h' = h_trx h \<and> ramp_le w w' \<and> prepared S w' ts k) w"
  proof (rule safe_exchange[where R = "\<lambda>vals w'. vals = [] \<and> prepared S w' ts k", OF inv _ t])
    show "handler_ok S (touched S k h) w" using h by simp
    show "ramp_request S (key_com S h k) (sent_msg (rs_mp S) (rs_junk S) PREPARE [Item_arg ?it]) w'" for w'
      using g home unfolding ramp_request_def by blast
    fix w' w'' r
    assume "ramp_inv S w'" and "ramp_serve S (key_com S h k) (sent_msg (rs_mp S) (rs_junk S) PREPARE [Item_arg ?it]) w' = Ret (w'', r)"
    from serve_prepare(2,3)[OF this(1) g home this(2)]
    show "\<exists>t' vals. r = sent_msg (rs_mp S) (rs_junk S) t' vals \<and> list_all2 same_kind vals [] \<and>
        vals = [] \<and> prepared S w'' ts k" by auto
  next
    fix w' vals
    assume "ramp_le w w'" and "vals = [] \<and> prepared S w' ts k"
    then show "ramp_safe S t (case (touched S k h, vals) of (h, _) \<Rightarrow> Return h)
        (\<lambda>h' w'. handler_ok S h' w' \<and> h_trx h' = h_trx h \<and> ramp_le w w' \<and> prepared S w' ts k) w'"
      using h by (auto intro: handler_ok_le ramp_le_trans prepared_le)
  qed
  then show ?thesis by (simp add: cp_get_ok[OF h])
qed

lemma safe_commit_all:
  assumes inv: "ramp_inv S w" and h: "handler_ok S h w" and t: "t \<Longrightarrow> rs_room S" and all: "all_prepared S w ts"
  shows "ramp_safe S t (TrxHandler_send_to_all (rs_mp S) (rs_junk S) perm COMMIT [Ts_arg ts] h)
    (\<lambda>h' w'. handler_ok S h' w' \<and> h_trx h' = h_trx h \<and> ramp_le w w') w"
  unfolding TrxHandler_send_to_all_def parallel_for_each_def
proof (rule ramp.safe_for_each[where J = "\<lambda>_ h' w'. handler_ok S h' w' \<and> h_trx h' = h_trx h \<and> ramp_le w w'", OF _ inv])
  show "handler_ok S h w \<and> h_trx h = h_trx h \<and> ramp_le w w" using h ramp_le_refl by simp
  fix com h' v
  assume h': "handler_ok S h' v \<and> h_trx h' = h_trx h \<and> ramp_le w v" and v: "ramp_inv S v"
  show "ramp_safe S t (bind_prog (com_exchange (rs_mp S) (rs_junk S) com COMMIT [Ts_arg ts] [] h') (\<lambda>(h, _). Return h))
      (\<lambda>h' w'. handler_ok S h' w' \<and> h_trx h' = h_trx h \<and> ramp_le w w') v"
  proof (rule safe_exchange[where R = "\<lambda>vals _. vals = []", OF v _ t])
    show "handler_ok S h' v" using h' by simp
    have all': "all_prepared S w' ts" if "ramp_le v w'" for w'
      using all_prepared_le[OF all] h' that ramp_le_trans by blast
    then show "ramp_request S com (sent_msg (rs_mp S) (rs_junk S) COMMIT [Ts_arg ts]) w'" if "ramp_le v w'" for w'
      using that unfolding ramp_request_def by blast
    show "\<exists>t' vals. r = sent_msg (rs_mp S) (rs_junk S) t' vals \<and> list_all2 same_kind vals [] \<and> vals = []"
      if "ramp_le v w'" "ramp_inv S w'"
        "ramp_serve S com (sent_msg (rs_mp S) (rs_junk S) COMMIT [Ts_arg ts]) w' = Ret (w'', r)" for w' w'' r
      using serve_commit(2)[OF that(2) all'[OF that(1)] that(3)] by auto
    fix w' vals
    assume "ramp_le v w'"
    then show "ramp_safe S t (case (h', vals) of (h, _) \<Rightarrow> Return h)
        (\<lambda>h' w'. handler_ok S h' w' \<and> h_trx h' = h_trx h \<and> ramp_le w w') w'"
      using h' by (auto intro: handler_ok_le ramp_le_trans)
  qed
qed (blast intro: handler_ok_le ramp_le_trans)

lemma safe_put_all:
  assumes inv: "ramp_inv S w" and h: "handler_ok S h w" and t: "t \<Longrightarrow> rs_room S"
    and perms: "\<And>i. order_ok (perms i)"
    and trx: "rs_txn S (Timestamp_now tod) = Some (h_trx h)"
  shows "ramp_safe S t (RAMPFastHandler_put_all (rs_mp S) (rs_junk S) (rs_hash S) (rs_cfg S) tod perms h)
    (\<lambda>h' w'. handler_ok S h' w' \<and> h_trx h' = h_trx h \<and> all_prepared S w' (Timestamp_now tod)) w"
proof -
  let ?ts = "Timestamp_now tod"
  let ?body = "\<lambda>w h. let k = fst w in bind_prog (cp_get (rs_hash S) (rs_cfg S) k h) (\<lambda>(h, com).
      bind_prog (com_exchange (rs_mp S) (rs_junk S) com PREPARE
        [Item_arg (Item_full k (snd w) ?ts (access_keys (h_trx h)))] [] h) (\<lambda>(h, _). Return h))"
  let ?ws = "in_order (perms 0) (write_set (h_trx h))"
  let ?J = "\<lambda>(ws :: (key \<times> (field, val) smap) list) h' w'. handler_ok S h' w' \<and> h_trx h' = h_trx h \<and> (\<forall>k \<in> fst ` set ws. prepared S w' ?ts k)"
  have prep: "ramp_safe S t (for_each_prog ?body ?ws h) (?J ?ws) w"
  proof (rule ramp.safe_for_each[where J = ?J, OF _ inv])
    show "?J [] h w" using h by simp
    fix ws x h' v
    assume J: "?J ws h' v" and v: "ramp_inv S v" and x: "x \<in> set ?ws"
    obtain k vals where kv: "x = (k, vals)" by (cases x)
    then have kv': "(k, vals) \<in> set (write_set (h_trx h'))" using x perms J by simp
    have "rs_txn S ?ts = Some (h_trx h')" using trx J by simp
    from safe_put[OF v _ t this kv'] J
    have "ramp_safe S t (?body x h') (\<lambda>h'' w'. handler_ok S h'' w' \<and> h_trx h'' = h_trx h' \<and> ramp_le v w' \<and>
        prepared S w' ?ts k) v"
      by (simp add: kv Let_def cp_get_ok)
    then show "ramp_safe S t (?body x h') (?J (ws @ [x])) v"
      by (rule ramp.safe_mono[OF _ _ v]) (use J in \<open>auto simp: kv intro: prepared_le\<close>)
  qed (use handler_ok_le prepared_le in blast)
  have "ramp_safe S t (bind_prog (for_each_prog ?body ?ws h)
      (TrxHandler_send_to_all (rs_mp S) (rs_junk S) (perms 1) COMMIT [Ts_arg ?ts]))
      (\<lambda>h' w'. handler_ok S h' w' \<and> h_trx h' = h_trx h \<and> all_prepared S w' ?ts) w"
  proof (rule ramp.safe_bind[OF prep _ inv])
    fix h' v
    assume J: "?J ?ws h' v" and v: "ramp_inv S v"
    have T: "Transaction_ok (h_trx h)" "read_set (h_trx h) = []" using setting_trx[OF ramp_setting[OF inv] trx] by auto
    then have "set (access_keys (h_trx h)) = fst ` set ?ws" using perms by (simp add: Transaction_ok_def)
    then have all: "all_prepared S v ?ts" using trx J by (auto simp: all_prepared_def)
    have "handler_ok S h' v" using J by blast
    from safe_commit_all[OF v this t all]
    show "ramp_safe S t (TrxHandler_send_to_all (rs_mp S) (rs_junk S) (perms 1) COMMIT [Ts_arg ?ts] h')
        (\<lambda>h' w'. handler_ok S h' w' \<and> h_trx h' = h_trx h \<and> all_prepared S w' ?ts) v"
      by (rule ramp.safe_mono[OF _ _ v]) (use J all_prepared_le[OF all] in auto)
  qed
  then show ?thesis by (simp add: RAMPFastHandler_put_all_def Let_def parallel_for_each_def)
qed

section \<open>Client threads\<close>

text \<open>
  The transactions of a thread: each either only writes, and then its timestamp stands for it, or
  only reads.  \<open>i\<close> numbers the iterations of the thread.
\<close>

definition trxs_ok :: "'o ramp \<Rightarrow> (nat \<Rightarrow> int \<times> int) \<Rightarrow> nat \<Rightarrow> trx list \<Rightarrow> bool" where
  "trxs_ok S tod i trxs \<longleftrightarrow> (\<forall>j < length trxs.
     (write_set (trxs ! j) \<noteq> [] \<longrightarrow> rs_txn S (Timestamp_now (tod (i + j))) = Some (trxs ! j)) \<and>
     smap_ok (read_set (trxs ! j)) \<and> (rs_tt S = AC_RAMP_FAST \<longrightarrow> fst ` set (read_set (trxs ! j)) \<subseteq> rs_keys S))"

lemma trxs_ok_Cons:
  assumes "trxs_ok S tod i (trx # trxs)"
  shows "write_set trx \<noteq> [] \<Longrightarrow> rs_txn S (Timestamp_now (tod i)) = Some trx"
    and "smap_ok (read_set trx)" and "rs_tt S = AC_RAMP_FAST \<Longrightarrow> fst ` set (read_set trx) \<subseteq> rs_keys S"
    and "trxs_ok S tod (Suc i) trxs"
proof -
  have *: "(write_set ((trx # trxs) ! j) \<noteq> [] \<longrightarrow> rs_txn S (Timestamp_now (tod (i + j))) = Some ((trx # trxs) ! j)) \<and>
     smap_ok (read_set ((trx # trxs) ! j)) \<and>
     (rs_tt S = AC_RAMP_FAST \<longrightarrow> fst ` set (read_set ((trx # trxs) ! j)) \<subseteq> rs_keys S)"
    if "j < Suc (length trxs)" for j using assms that by (simp add: trxs_ok_def)
  show "write_set trx \<noteq> [] \<Longrightarrow> rs_txn S (Timestamp_now (tod i)) = Some trx" "smap_ok (read_set trx)"
    "rs_tt S = AC_RAMP_FAST \<Longrightarrow> fst ` set (read_set trx) \<subseteq> rs_keys S"
    using *[of 0] by auto
  show "trxs_ok S tod (Suc i) trxs" unfolding trxs_ok_def using *[of "Suc _"] by auto
qed

text \<open>What a thread has answered so far: one read-atomic set of items for each read transaction.\<close>

definition answers_atomic :: "'o ramp \<Rightarrow> trx list \<Rightarrow> (key, item) cmap list \<Rightarrow> cluster \<Rightarrow> bool" where
  "answers_atomic S trxs rets w \<longleftrightarrow>
     list_all2 (\<lambda>trx ret. get_all_ok S trx ret w) (filter (\<lambda>trx. read_set trx \<noteq> []) trxs) rets"

lemma answers_atomic_le: "answers_atomic S trxs rets w \<Longrightarrow> ramp_le w w' \<Longrightarrow> answers_atomic S trxs rets w'"
  unfolding answers_atomic_def by (erule list_all2_mono) (rule get_all_ok_le)

definition thread_ok :: "'o ramp \<Rightarrow> trx list \<Rightarrow> handler \<times> (key, item) cmap list \<Rightarrow> cluster \<Rightarrow> bool" where
  "thread_ok S trxs st w \<longleftrightarrow> handler_ok S (fst st) w \<and> answers_atomic S trxs (snd st) w"

lemma thread_ok_le: "thread_ok S trxs st w \<Longrightarrow> ramp_le w w' \<Longrightarrow> thread_ok S trxs st w'"
  unfolding thread_ok_def by (blast intro: handler_ok_le answers_atomic_le)

lemma handler_ok_clear [simp]:
  "handler_ok S (h\<lparr>h_cp := ConnectionPool_clear_access_coms cp\<rparr>) w = handler_ok S (h\<lparr>h_cp := cp\<rparr>) w"
  by (simp add: handler_ok_def ConnectionPool_clear_access_coms_def)

lemma safe_ClientThread_trx:
  assumes inv: "ramp_inv S w" and st: "thread_ok S past st w"
    and put: "\<And>h v. handler_ok S h v \<Longrightarrow> ramp_inv S v \<Longrightarrow> h_trx h = trx \<Longrightarrow> write_set trx \<noteq> [] \<Longrightarrow>
        ramp_safe S t (put_all h) (\<lambda>h' w'. handler_ok S h' w' \<and> h_trx h' = trx) v"
    and get: "\<And>h v. handler_ok S h v \<Longrightarrow> ramp_inv S v \<Longrightarrow> h_trx h = trx \<Longrightarrow> read_set trx \<noteq> [] \<Longrightarrow>
        ramp_safe S t (get_all h) (\<lambda>x w'. handler_ok S (fst x) w' \<and> h_trx (fst x) = trx \<and> get_all_ok S trx (snd x) w') v"
  shows "ramp_safe S t (ClientThread_trx put_all get_all trx st) (thread_ok S (past @ [trx])) w"
proof -
  obtain h rets where s: "st = (h, rets)" by (cases st)
  let ?h = "h\<lparr>h_trx := trx\<rparr>"
  have h: "handler_ok S ?h w" and rets: "answers_atomic S past rets w" using st by (auto simp: thread_ok_def s)
  let ?P = "\<lambda>h' w'. handler_ok S h' w' \<and> h_trx h' = trx \<and> answers_atomic S past rets w'"
  have 1: "ramp_safe S t (if write_set (h_trx ?h) \<noteq> [] then put_all ?h else Return ?h) ?P w"
  proof (cases "write_set trx = []")
    case True
    then show ?thesis using h rets by (auto intro: handler_ok_le answers_atomic_le)
  next
    case False
    have "ramp_safe S t (put_all ?h) ?P w"
      by (rule ramp.safe_mono[OF put[OF h inv _ False] _ inv]) (use rets answers_atomic_le in auto)
    then show ?thesis using False by simp
  qed
  have "ramp_safe S t (bind_prog (if write_set (h_trx ?h) \<noteq> [] then put_all ?h else Return ?h) (\<lambda>h.
      bind_prog (if read_set (h_trx h) \<noteq> [] then bind_prog (get_all h) (\<lambda>(h, ret). Return (h, rets @ [ret]))
                 else Return (h, rets)) (\<lambda>(h, rets).
      Return (h\<lparr>h_cp := ConnectionPool_clear_access_coms (h_cp h)\<rparr>, rets)))) (thread_ok S (past @ [trx])) w"
  proof (rule ramp.safe_bind[OF 1 _ inv])
    fix h' v
    assume P: "?P h' v" and v: "ramp_inv S v"
    have "ramp_safe S t (if read_set (h_trx h') \<noteq> [] then bind_prog (get_all h') (\<lambda>(h, ret). Return (h, rets @ [ret]))
        else Return (h', rets)) (thread_ok S (past @ [trx])) v"
    proof (cases "read_set trx = []")
      case True
      then have "thread_ok S (past @ [trx]) (h', rets) v" using P by (simp add: thread_ok_def answers_atomic_def)
      then show ?thesis using True P by (auto intro: thread_ok_le)
    next
      case False
      have "ramp_safe S t (bind_prog (get_all h') (\<lambda>(h, ret). Return (h, rets @ [ret]))) (thread_ok S (past @ [trx])) v"
      proof (rule ramp.safe_bind[OF get[OF _ v _ False] _ v])
        show "handler_ok S h' v" "h_trx h' = trx" using P by auto
        fix x u
        assume x: "handler_ok S (fst x) u \<and> h_trx (fst x) = trx \<and> get_all_ok S trx (snd x) u" and u: "ramp_le v u"
        have "answers_atomic S (past @ [trx]) (rets @ [snd x]) u"
          using answers_atomic_le[of S past rets v u] P u x False
          by (simp add: answers_atomic_def list_all2_appendI)
        then have "thread_ok S (past @ [trx]) (fst x, rets @ [snd x]) u" using x by (simp add: thread_ok_def)
        then show "ramp_safe S t (case x of (h, ret) \<Rightarrow> Return (h, rets @ [ret])) (thread_ok S (past @ [trx])) u"
          by (cases x) (auto intro: thread_ok_le)
      qed
      then show ?thesis using False P by simp
    qed
    then show "ramp_safe S t (bind_prog (if read_set (h_trx h') \<noteq> [] then bind_prog (get_all h') (\<lambda>(h, ret). Return (h, rets @ [ret]))
                 else Return (h', rets)) (\<lambda>(h, rets).
      Return (h\<lparr>h_cp := ConnectionPool_clear_access_coms (h_cp h)\<rparr>, rets))) (thread_ok S (past @ [trx])) v"
    proof (rule ramp.safe_bind[OF _ _ v])
      fix y u
      assume "thread_ok S (past @ [trx]) y u"
      then have "thread_ok S (past @ [trx]) ((fst y)\<lparr>h_cp := ConnectionPool_clear_access_coms (h_cp (fst y))\<rparr>, snd y) u"
        by (simp add: thread_ok_def)
      then show "ramp_safe S t (case y of (h, rets) \<Rightarrow>
          Return (h\<lparr>h_cp := ConnectionPool_clear_access_coms (h_cp h)\<rparr>, rets)) (thread_ok S (past @ [trx])) u"
        by (cases y) (auto intro: thread_ok_le)
    qed
  qed
  then show ?thesis by (simp add: ClientThread_trx_def s Let_def)
qed

lemma safe_ClientThread_run:
  assumes inv: "ramp_inv S w" and st: "thread_ok S past st w" and trxs: "trxs_ok S tod i trxs"
    and put: "\<And>i h v. handler_ok S h v \<Longrightarrow> ramp_inv S v \<Longrightarrow> rs_txn S (Timestamp_now (tod i)) = Some (h_trx h) \<Longrightarrow>
        ramp_safe S t (put_all i h) (\<lambda>h' w'. handler_ok S h' w' \<and> h_trx h' = h_trx h) v"
    and get: "\<And>i h v. handler_ok S h v \<Longrightarrow> ramp_inv S v \<Longrightarrow> smap_ok (read_set (h_trx h)) \<Longrightarrow>
        (rs_tt S = AC_RAMP_FAST \<Longrightarrow> fst ` set (read_set (h_trx h)) \<subseteq> rs_keys S) \<Longrightarrow>
        ramp_safe S t (get_all i h) (\<lambda>x w'. handler_ok S (fst x) w' \<and> h_trx (fst x) = h_trx h \<and>
          get_all_ok S (h_trx h) (snd x) w') v"
  shows "ramp_safe S t (ClientThread_run put_all get_all i trxs st) (thread_ok S (past @ trxs)) w"
  using inv st trxs
proof (induction trxs arbitrary: i st w past)
  case Nil
  then show ?case by (auto intro: thread_ok_le)
next
  case (Cons trx trxs)
  note T = trxs_ok_Cons[OF Cons.prems(3)]
  have "ramp_safe S t (ClientThread_trx (put_all i) (get_all i) trx st) (thread_ok S (past @ [trx])) w"
    by (rule safe_ClientThread_trx[OF Cons.prems(1,2)]) (use put get T in auto)
  then show ?case
    unfolding ClientThread_run.simps
  proof (rule ramp.safe_bind[OF _ _ Cons.prems(1)])
    fix y u assume "thread_ok S (past @ [trx]) y u" "ramp_inv S u"
    from Cons.IH[OF this(2,1) T(4)]
    show "ramp_safe S t (ClientThread_run put_all get_all (Suc i) trxs y) (thread_ok S (past @ trx # trxs)) u" by simp
  qed
qed

end
