(* ===== verification/Clients.thy ===== *)
theory Clients
  imports Handlers
begin

text \<open>
  The client process: \<open>TrxQueue\<close> (\<open>include/client/service/TrxQueue.h\<close>,
  \<open>src/client/service/TrxQueue.cpp\<close>), which generates the transactions of a run, and \<open>Client\<close>
  (\<open>include/client/Client.h\<close>, \<open>src/client/Client.cpp\<close>), which creates one handler and one thread for
  each worker.  The random numbers, the order of \<open>random_shuffle\<close> and the heap are arguments.
\<close>

section \<open>Test transactions\<close>

text \<open>
  One step of the loop that fills the value: \<open>snprintf(val_str + i, value_size, "%d", digit)\<close>
  writes at most \<open>value_size - 1\<close> characters and a NUL.
\<close>

definition snprintf_digit :: "nat \<Rightarrow> nat \<Rightarrow> byte list" where
  "snprintf_digit n digit =
     (if n = 0 then [] else take (n - 1) [of_char (digit_char digit)] @ [0])"

definition TrxQueue_fill_value :: "nat \<Rightarrow> (nat \<Rightarrow> nat) \<Rightarrow> nat \<Rightarrow> mem \<Rightarrow> mem" where
  "TrxQueue_fill_value value_size value_dice val_str m =
     fold (\<lambda>i m. mem_write m (val_str + i) (snprintf_digit value_size (value_dice i))) [0..<value_size] m"

definition TrxQueue_write_trx ::
    "(nat \<Rightarrow> int) \<Rightarrow> (field, val) smap \<Rightarrow> nat \<Rightarrow> nat \<Rightarrow> trx" where
  "TrxQueue_write_trx key_dice values trx_len i =
     fold (\<lambda>j trx. Transaction_add_write (to_string_int (key_dice (i * trx_len + j))) values trx)
       [0..<trx_len] Transaction_new"

definition TrxQueue_read_trx :: "(nat \<Rightarrow> int) \<Rightarrow> field list \<Rightarrow> nat \<Rightarrow> nat \<Rightarrow> trx" where
  "TrxQueue_read_trx key_dice flds trx_len i =
     fold (\<lambda>j trx. Transaction_add_read (to_string_int (key_dice (i * trx_len + j))) flds trx)
       [0..<trx_len] Transaction_new"

text \<open>
  \<open>key_dice n\<close> is the \<open>n\<close>-th draw of a key, \<open>value_dice n\<close> that of a digit, \<open>val_str\<close> the address of the
  new array; a negative array size throws.  \<open>shuffle n\<close> is the order of \<open>n\<close> transactions.
\<close>

definition TrxQueue_gen_test_trxs ::
    "config \<Rightarrow> (nat \<Rightarrow> int) \<Rightarrow> (nat \<Rightarrow> nat) \<Rightarrow> nat \<Rightarrow> (nat \<Rightarrow> nat list) \<Rightarrow> mem \<Rightarrow> trx cqueue \<Rightarrow>
     (mem \<times> trx cqueue) outcome" where
  "TrxQueue_gen_test_trxs cfg key_dice value_dice val_str shuffle m q =
     (if cfg_value_size cfg < 0 then Dies Uncaught_exception
      else
        let value_size = nat (cfg_value_size cfg);
            trx_len = nat (cfg_trx_len cfg);
            write_num = nat (cfg_write_trx_num cfg);
            m = TrxQueue_fill_value value_size value_dice val_str m;
            values = smap_put ''f'' (mem_read m val_str value_size) [];
            writes = map (TrxQueue_write_trx key_dice values trx_len) [0..<write_num];
            flds = insort_insert ''f'' [];
            reads = map (\<lambda>i. TrxQueue_read_trx key_dice flds trx_len (write_num + i))
                      [0..<nat (cfg_read_trx_num cfg)];
            trxs = in_order shuffle (writes @ reads)
        in Ret (m, fold (\<lambda>trx q. cqueue_push q trx) trxs q))"

definition TrxQueue_pop :: "trx cqueue \<Rightarrow> trx cqueue \<times> trx option" where
  "TrxQueue_pop q = cqueue_try_pop q"

section \<open>Client\<close>

text \<open>The virtual functions of the handler class that the constructor of \<open>Client\<close> picks.\<close>

fun handler_put_all ::
    "'o msgpack \<Rightarrow> nat \<times> nat \<Rightarrow> (key \<Rightarrow> nat) \<Rightarrow> config \<Rightarrow> trx_type \<Rightarrow> int \<times> int \<Rightarrow>
     (nat \<Rightarrow> nat \<Rightarrow> nat list) \<Rightarrow> handler \<Rightarrow> handler prog" where
  "handler_put_all mp junk hash cfg TWO_PHASE_LOCKING = LockBasedHandler_put_all mp junk hash cfg"
| "handler_put_all mp junk hash cfg NO_CONCURRENCY_CONTROL = NoCCHandler_put_all mp junk hash cfg"
| "handler_put_all mp junk hash cfg RAMP_FAST = RAMPFastHandler_put_all mp junk hash cfg"
| "handler_put_all mp junk hash cfg AC_RAMP_FAST = RAMPFastHandler_put_all mp junk hash cfg"

fun handler_get_all ::
    "'o msgpack \<Rightarrow> nat \<times> nat \<Rightarrow> (key \<Rightarrow> nat) \<Rightarrow> config \<Rightarrow> trx_type \<Rightarrow>
     (nat \<Rightarrow> nat \<Rightarrow> nat list) \<Rightarrow> handler \<Rightarrow> (handler \<times> (key, item) cmap) prog" where
  "handler_get_all mp junk hash cfg TWO_PHASE_LOCKING = LockBasedHandler_get_all mp junk hash cfg"
| "handler_get_all mp junk hash cfg NO_CONCURRENCY_CONTROL = NoCCHandler_get_all mp junk hash cfg"
| "handler_get_all mp junk hash cfg RAMP_FAST = RAMPFastHandler_get_all mp junk hash cfg"
| "handler_get_all mp junk hash cfg AC_RAMP_FAST = ACRAMPFastHandler_get_all mp junk hash cfg"

text \<open>
  A worker thread on the transactions that it pops.  \<open>tod j\<close> and \<open>perms j\<close> are the time of day and
  the loop orders of its \<open>j\<close>-th transaction.
\<close>

definition client_thread ::
    "'o msgpack \<Rightarrow> nat \<times> nat \<Rightarrow> (key \<Rightarrow> nat) \<Rightarrow> config \<Rightarrow> trx_type \<Rightarrow> (nat \<Rightarrow> int \<times> int) \<Rightarrow>
     (nat \<Rightarrow> nat \<Rightarrow> nat \<Rightarrow> nat list) \<Rightarrow> trx list \<Rightarrow> handler \<Rightarrow> (handler \<times> (key, item) cmap list) prog" where
  "client_thread mp junk hash cfg tt tod perms trxs h =
     ClientThread_run (\<lambda>j. handler_put_all mp junk hash cfg tt (tod j) (perms j))
       (\<lambda>j. handler_get_all mp junk hash cfg tt (perms j)) 0 trxs (h, [])"

record client =
  cl_trx_queue :: "trx cqueue"
  cl_handlers :: "handler list"

definition Client_new ::
    "config \<Rightarrow> (nat \<Rightarrow> int) \<Rightarrow> (nat \<Rightarrow> nat) \<Rightarrow> nat \<Rightarrow> (nat \<Rightarrow> nat list) \<Rightarrow> mem \<Rightarrow> (mem \<times> client) outcome" where
  "Client_new cfg key_dice value_dice val_str shuffle m =
     bind_outcome (TrxQueue_gen_test_trxs cfg key_dice value_dice val_str shuffle m []) (\<lambda>(m, q).
       Ret (m, \<lparr>cl_trx_queue = q,
                cl_handlers = map (\<lambda>_. TrxHandler_new) [0..<nat (cfg_worker_num cfg)]\<rparr>))"

text \<open>\<open>start_all\<close> connects every handler before it starts the threads; \<open>check_finish\<close> joins them first.\<close>

definition Client_connect_handlers ::
    "(socket_class \<Rightarrow> host_and_port \<Rightarrow> 'w \<Rightarrow> ('w \<times> nat) outcome) \<Rightarrow> config \<Rightarrow> 'w \<times> client \<Rightarrow> ('w \<times> client) outcome" where
  "Client_connect_handlers connect cfg st =
     (let (w, c) = st in
      bind_outcome (fold_outcome (\<lambda>h (w, hs).
          bind_outcome (ConnectionPool_connect_all connect cfg (w, h_cp h)) (\<lambda>(w, cp).
            Ret (w, hs @ [h\<lparr>h_cp := cp\<rparr>]))) (cl_handlers c) (w, []))
        (\<lambda>(w, hs). Ret (w, c\<lparr>cl_handlers := hs\<rparr>)))"

definition Client_close_handlers ::
    "(nat \<Rightarrow> 'w \<Rightarrow> 'w outcome) \<Rightarrow> (nat \<Rightarrow> 'w \<Rightarrow> 'w outcome) \<Rightarrow> (handler \<Rightarrow> host_and_port list) \<Rightarrow>
     client \<Rightarrow> 'w \<Rightarrow> 'w outcome" where
  "Client_close_handlers send_close destroy buckets c w =
     fold_outcome (\<lambda>h. ConnectionPool_close_all send_close destroy (buckets h) (h_cp h)) (cl_handlers c) w"

section \<open>The generated transactions\<close>

text \<open>Every generated transaction is well formed and is either a write or a read transaction.\<close>

lemma write_trx_step:
  assumes "Transaction_ok t \<and> read_set t = []"
  shows "Transaction_ok (Transaction_add_write k vs t) \<and> read_set (Transaction_add_write k vs t) = []"
  using assms Transaction_add_write_ok by (auto simp: Transaction_add_write_def)

lemma read_trx_step:
  assumes "Transaction_ok t \<and> write_set t = []"
  shows "Transaction_ok (Transaction_add_read k fs t) \<and> write_set (Transaction_add_read k fs t) = []"
  using assms Transaction_add_read_ok by (auto simp: Transaction_add_read_def)

lemma fold_invariant_simple: "P s \<Longrightarrow> (\<And>x s. P s \<Longrightarrow> P (f x s)) \<Longrightarrow> P (fold f xs s)"
  by (induction xs arbitrary: s) auto

lemma TrxQueue_write_trx_ok:
  "Transaction_ok (TrxQueue_write_trx d vs n i) \<and> read_set (TrxQueue_write_trx d vs n i) = []"
  unfolding TrxQueue_write_trx_def
  by (rule fold_invariant_simple[where P = "\<lambda>t. Transaction_ok t \<and> read_set t = []"])
    (use write_trx_step in \<open>auto simp: Transaction_new_def\<close>, simp add: Transaction_ok_def)

lemma TrxQueue_read_trx_ok:
  "Transaction_ok (TrxQueue_read_trx d fs n i) \<and> write_set (TrxQueue_read_trx d fs n i) = []"
  unfolding TrxQueue_read_trx_def
  by (rule fold_invariant_simple[where P = "\<lambda>t. Transaction_ok t \<and> write_set t = []"])
    (use read_trx_step in \<open>auto simp: Transaction_new_def\<close>, simp add: Transaction_ok_def)

lemma fold_push: "fold (\<lambda>x q. cqueue_push q x) xs q = q @ xs"
  by (induction xs arbitrary: q) (auto simp: cqueue_push_def)

lemma length_in_order: "order_ok perm \<Longrightarrow> length (in_order perm xs) = length xs"
  by (metis card_lessThan distinct_card in_order_def length_map order_ok_def)

lemma gen_test_trxs_Ret:
  assumes "TrxQueue_gen_test_trxs cfg kd vd a sh m [] = Ret (m', q)" and "order_ok sh"
  shows "length q = nat (cfg_write_trx_num cfg) + nat (cfg_read_trx_num cfg)"
    and "trx \<in> set q \<Longrightarrow> Transaction_ok trx \<and> (read_set trx = [] \<or> write_set trx = [])"
  using assms TrxQueue_write_trx_ok TrxQueue_read_trx_ok
  by (auto simp: TrxQueue_gen_test_trxs_def Let_def fold_push length_in_order split: if_splits)

text \<open>What the loop leaves in memory: the digits, and a NUL one past the end of the array.\<close>

lemma snprintf_digit_long: "2 \<le> n \<Longrightarrow> snprintf_digit n d = [of_char (digit_char d), 0]"
  by (cases n) (auto simp: snprintf_digit_def take_Cons')

lemma fill_value_upto:
  assumes "2 \<le> n"
  shows "fold (\<lambda>i m. mem_write m (a + i) (snprintf_digit n (d i))) [0..<Suc k] m (a + Suc k) = 0 \<and>
    (\<forall>i \<le> k. fold (\<lambda>i m. mem_write m (a + i) (snprintf_digit n (d i))) [0..<Suc k] m (a + i) =
       of_char (digit_char (d i)))"
proof -
  have w: "mem_write m q (snprintf_digit n e) = m(q := of_char (digit_char e), Suc q := 0)" for m q e
    using assms(1) by (auto simp: snprintf_digit_long mem_write_def fun_eq_iff nth_Cons split: nat.splits)
  show ?thesis
  proof (induction k)
    case 0
    then show ?case by (simp add: w)
  next
    case (Suc k)
    then show ?case by (simp add: w le_Suc_eq)
  qed
qed

lemma TrxQueue_fill_value_overrun:
  assumes "2 \<le> n"
  shows "TrxQueue_fill_value n d a m (a + n) = 0"
    and "mem_read (TrxQueue_fill_value n d a m) a n = map (\<lambda>i. of_char (digit_char (d i))) [0..<n]"
proof -
  obtain k where k: "n = Suc k" using assms by (cases n) auto
  note F = fill_value_upto[OF assms, where a = a and k = k and d = d and m = m]
  show "TrxQueue_fill_value n d a m (a + n) = 0"
    using F by (simp add: TrxQueue_fill_value_def k del: upt.simps)
  show "mem_read (TrxQueue_fill_value n d a m) a n = map (\<lambda>i. of_char (digit_char (d i))) [0..<n]"
    by (rule nth_equalityI)
      (use F in \<open>simp_all add: TrxQueue_fill_value_def k mem_read_nth del: upt.simps\<close>)
qed

text \<open>Connecting the handlers gives each of them a connected pool.\<close>

lemma Client_connect_handlers_connected:
  assumes "Client_connect_handlers connect cfg (w, c) = Ret (w', c')" and "cfg_server_list cfg \<noteq> []"
  shows "\<forall>h \<in> set (cl_handlers c'). pool_connected cfg (h_cp h)"
proof -
  obtain hs where f: "fold_outcome (\<lambda>h (w, hs).
          bind_outcome (ConnectionPool_connect_all connect cfg (w, h_cp h)) (\<lambda>(w, cp).
            Ret (w, hs @ [h\<lparr>h_cp := cp\<rparr>]))) (cl_handlers c) (w, []) = Ret (w', hs)"
    and c': "cl_handlers c' = hs"
    using assms(1) by (auto simp: Client_connect_handlers_def bind_outcome_Ret_iff)
  have "\<forall>h \<in> set (snd (w', hs)). pool_connected cfg (h_cp h)"
    using f
  proof (rule fold_outcome_invariant[where P = "\<lambda>st. \<forall>h \<in> set (snd st). pool_connected cfg (h_cp h)"])
    fix h st st'
    assume st: "\<forall>h \<in> set (snd st). pool_connected cfg (h_cp h)"
      and step: "(case st of (w, hs) \<Rightarrow> bind_outcome (ConnectionPool_connect_all connect cfg (w, h_cp h)) (\<lambda>(w, cp).
            Ret (w, hs @ [h\<lparr>h_cp := cp\<rparr>]))) = Ret st'"
    obtain v gs where s: "st = (v, gs)" by (cases st)
    with step obtain u cp where "ConnectionPool_connect_all connect cfg (v, h_cp h) = Ret (u, cp)"
      and st': "st' = (u, gs @ [h\<lparr>h_cp := cp\<rparr>])" by (auto simp: bind_outcome_Ret_iff)
    from connect_all_connected[OF this(1) assms(2)] show "\<forall>h \<in> set (snd st'). pool_connected cfg (h_cp h)"
      using st by (simp add: st' s)
  qed simp
  then show ?thesis by (simp add: c')
qed

end
