(* ===== verification/Samples.thy ===== *)
theory Samples
  imports Clients Cluster
begin

text \<open>
  Concrete instances for the parameters of the model.  \<open>sample_mp\<close> is a small self-delimiting
  serialisation that satisfies the contract asked of MessagePack: a list is a sequence of
  marked elements and an end mark, a number is the list of its decimal digits.
\<close>

section \<open>Self-delimiting lists\<close>

definition enc_list :: "('a \<Rightarrow> byte list) \<Rightarrow> 'a list \<Rightarrow> byte list" where
  "enc_list enc xs = concat (map (\<lambda>x. 1 # enc x) xs) @ [0]"

fun dec_list :: "nat \<Rightarrow> (byte list \<Rightarrow> ('a \<times> byte list) option) \<Rightarrow> byte list \<Rightarrow> ('a list \<times> byte list) option" where
  "dec_list n dec [] = None"
| "dec_list 0 dec (b # bs) = (if b = 0 then Some ([], bs) else None)"
| "dec_list (Suc n) dec (b # bs) =
     (if b = 0 then Some ([], bs)
      else case dec bs of None \<Rightarrow> None
        | Some (x, bs') \<Rightarrow>
            (case dec_list n dec bs' of None \<Rightarrow> None | Some (xs, r) \<Rightarrow> Some (x # xs, r)))"

definition codec :: "('a \<Rightarrow> byte list) \<Rightarrow> (byte list \<Rightarrow> ('a \<times> byte list) option) \<Rightarrow> bool" where
  "codec enc dec \<longleftrightarrow> (\<forall>x rest. dec (enc x @ rest) = Some (x, rest))"

lemma codecD: "codec enc dec \<Longrightarrow> dec (enc x @ rest) = Some (x, rest)"
  by (simp add: codec_def)

lemma dec_enc_list:
  assumes "codec enc dec" and "length xs \<le> n"
  shows "dec_list n dec (enc_list enc xs @ rest) = Some (xs, rest)"
  using assms(2)
proof (induction xs arbitrary: n)
  case Nil
  then show ?case by (cases n) (simp_all add: enc_list_def)
next
  case (Cons x xs)
  then obtain m where "n = Suc m" "length xs \<le> m" by (cases n) auto
  then show ?case using Cons.IH[of m] codecD[OF assms(1)] by (simp add: enc_list_def)
qed

text \<open>The number of bytes left bounds the number of elements.\<close>

definition dec_all :: "(byte list \<Rightarrow> ('a \<times> byte list) option) \<Rightarrow> byte list \<Rightarrow> ('a list \<times> byte list) option" where
  "dec_all dec bs = dec_list (length bs) dec bs"

lemma length_enc_list: "length xs \<le> length (enc_list enc xs)"
  by (induction xs) (auto simp: enc_list_def)

lemma codec_list: "codec enc dec \<Longrightarrow> codec (enc_list enc) (dec_all dec)"
  unfolding codec_def[of "enc_list enc"] dec_all_def
  by (intro allI dec_enc_list) (simp_all add: trans_le_add1 length_enc_list)

definition dec_pair ::
    "(byte list \<Rightarrow> ('a \<times> byte list) option) \<Rightarrow> (byte list \<Rightarrow> ('b \<times> byte list) option) \<Rightarrow>
     byte list \<Rightarrow> (('a \<times> 'b) \<times> byte list) option" where
  "dec_pair da db bs = (case da bs of None \<Rightarrow> None
     | Some (a, bs) \<Rightarrow> (case db bs of None \<Rightarrow> None | Some (b, bs) \<Rightarrow> Some ((a, b), bs)))"

definition enc_pair :: "('a \<Rightarrow> byte list) \<Rightarrow> ('b \<Rightarrow> byte list) \<Rightarrow> 'a \<times> 'b \<Rightarrow> byte list" where
  "enc_pair ea eb p = ea (fst p) @ eb (snd p)"

lemma codec_pair: "codec ea da \<Longrightarrow> codec eb db \<Longrightarrow> codec (enc_pair ea eb) (dec_pair da db)"
  by (auto simp: codec_def enc_pair_def dec_pair_def)

definition dec_map :: "('a \<Rightarrow> 'b) \<Rightarrow> (byte list \<Rightarrow> ('a \<times> byte list) option) \<Rightarrow> byte list \<Rightarrow> ('b \<times> byte list) option" where
  "dec_map g dec bs = (case dec bs of None \<Rightarrow> None | Some (a, r) \<Rightarrow> Some (g a, r))"

lemma codec_map: "codec enc dec \<Longrightarrow> (\<And>x. g (f x) = x) \<Longrightarrow> codec (\<lambda>x. enc (f x)) (dec_map g dec)"
  by (auto simp: codec_def dec_map_def)

section \<open>The arguments of messages\<close>

definition enc_byte :: "byte \<Rightarrow> byte list" where "enc_byte b = [b]"
definition dec_byte :: "byte list \<Rightarrow> (byte \<times> byte list) option" where
  "dec_byte bs = (case bs of [] \<Rightarrow> None | b # bs \<Rightarrow> Some (b, bs))"

definition enc_string :: "string \<Rightarrow> byte list" where
  "enc_string = enc_list (\<lambda>c. enc_byte (word_of_nat (of_char c)))"
definition dec_string :: "byte list \<Rightarrow> (string \<times> byte list) option" where
  "dec_string = dec_all (dec_map (\<lambda>b. char_of (unat b)) dec_byte)"

definition enc_int :: "int \<Rightarrow> byte list" where "enc_int i = enc_string (to_string_int i)"
definition dec_integer :: "byte list \<Rightarrow> (int \<times> byte list) option" where
  "dec_integer = dec_map dec_int dec_string"

definition enc_ts :: "timestamp \<Rightarrow> byte list" where
  "enc_ts t = enc_pair enc_int enc_int (ts_sec t, ts_usec t)"
definition dec_ts :: "byte list \<Rightarrow> (timestamp \<times> byte list) option" where
  "dec_ts = dec_map (\<lambda>(s, u). Timestamp s u) (dec_pair dec_integer dec_integer)"

definition enc_item :: "item \<Rightarrow> byte list" where
  "enc_item it = enc_pair enc_string (enc_pair (enc_list (enc_pair enc_string (enc_list enc_byte)))
     (enc_pair enc_ts (enc_list enc_string)))
     (item_key it, item_values it, item_ts it, item_trx_keys it)"
definition dec_item :: "byte list \<Rightarrow> (item \<times> byte list) option" where
  "dec_item = dec_map (\<lambda>(k, vs, ts, ks). Item_full k vs ts ks)
     (dec_pair dec_string (dec_pair (dec_all (dec_pair dec_string (dec_all dec_byte)))
       (dec_pair dec_ts (dec_all dec_string))))"

definition enc_rka :: "rka \<Rightarrow> byte list" where
  "enc_rka r = enc_pair enc_int enc_int (int (rka_rkey r), int (rka_addr r))"
definition dec_rka :: "byte list \<Rightarrow> (rka \<times> byte list) option" where
  "dec_rka = dec_map (\<lambda>(k, a). RemoteKeyAndAddr (nat k) (nat a)) (dec_pair dec_integer dec_integer)"

lemma codec_byte: "codec enc_byte dec_byte"
  by (simp add: codec_def enc_byte_def dec_byte_def)

lemma codec_string: "codec enc_string dec_string"
proof -
  have "char_of (unat (word_of_nat (of_char c) :: byte)) = c" for c :: char
    by (simp add: unat_of_nat)
  then show ?thesis
    unfolding enc_string_def dec_string_def by (intro codec_list codec_map codec_byte)
qed

lemma codec_int: "codec enc_int dec_integer"
proof -
  have "codec (\<lambda>i. enc_string (to_string_int i)) (dec_map dec_int dec_string)"
    by (rule codec_map[OF codec_string]) simp
  moreover have "enc_int = (\<lambda>i. enc_string (to_string_int i))" by (simp add: enc_int_def fun_eq_iff)
  ultimately show ?thesis by (simp add: dec_integer_def)
qed

lemma codec_ts: "codec enc_ts dec_ts"
proof -
  have "codec (\<lambda>t. enc_pair enc_int enc_int (ts_sec t, ts_usec t)) dec_ts"
    unfolding dec_ts_def by (rule codec_map[OF codec_pair[OF codec_int codec_int]]) simp
  moreover have "enc_ts = (\<lambda>t. enc_pair enc_int enc_int (ts_sec t, ts_usec t))" by (simp add: enc_ts_def fun_eq_iff)
  ultimately show ?thesis by simp
qed

lemma codec_item: "codec enc_item dec_item"
proof -
  have "codec (\<lambda>it. enc_pair enc_string (enc_pair (enc_list (enc_pair enc_string (enc_list enc_byte)))
     (enc_pair enc_ts (enc_list enc_string)))
     (item_key it, item_values it, item_ts it, item_trx_keys it)) dec_item"
    unfolding dec_item_def
    by (rule codec_map, intro codec_pair codec_list codec_string codec_byte codec_ts) (simp add: Item_full_def)
  moreover have "enc_item = (\<lambda>it. enc_pair enc_string (enc_pair (enc_list (enc_pair enc_string (enc_list enc_byte)))
     (enc_pair enc_ts (enc_list enc_string)))
     (item_key it, item_values it, item_ts it, item_trx_keys it))" by (simp add: enc_item_def fun_eq_iff)
  ultimately show ?thesis by simp
qed

lemma codec_rka: "codec enc_rka dec_rka"
proof -
  have "codec (\<lambda>r. enc_pair enc_int enc_int (int (rka_rkey r), int (rka_addr r))) dec_rka"
    unfolding dec_rka_def
    by (rule codec_map[OF codec_pair[OF codec_int codec_int]]) (simp add: RemoteKeyAndAddr_def)
  moreover have "enc_rka = (\<lambda>r. enc_pair enc_int enc_int (int (rka_rkey r), int (rka_addr r)))"
    by (simp add: enc_rka_def fun_eq_iff)
  ultimately show ?thesis by simp
qed

fun enc_arg :: "arg \<Rightarrow> byte list" where
  "enc_arg (Key_arg k) = 0 # enc_string k"
| "enc_arg (Ts_arg t) = 1 # enc_ts t"
| "enc_arg (Item_arg i) = 2 # enc_item i"
| "enc_arg (Rka_arg r) = 3 # enc_rka r"

definition dec_arg :: "byte list \<Rightarrow> (arg \<times> byte list) option" where
  "dec_arg bs = (case bs of [] \<Rightarrow> None
     | b # bs \<Rightarrow>
        (if b = 0 then dec_map Key_arg dec_string bs
         else if b = 1 then dec_map Ts_arg dec_ts bs
         else if b = 2 then dec_map Item_arg dec_item bs
         else if b = 3 then dec_map Rka_arg dec_rka bs
         else None))"

lemma codec_arg: "codec enc_arg dec_arg"
  unfolding codec_def
proof (intro allI)
  fix x rest
  show "dec_arg (enc_arg x @ rest) = Some (x, rest)"
    by (cases x) (simp_all add: dec_arg_def dec_map_def codecD[OF codec_string] codecD[OF codec_ts]
        codecD[OF codec_item] codecD[OF codec_rka])
qed

definition sample_mp :: "arg msgpack" where
  "sample_mp = \<lparr>mp_pack = enc_arg,
     mp_next = (\<lambda>bs. case dec_arg bs of None \<Rightarrow> Next_incomplete | Some (x, r) \<Rightarrow> Next_object x r),
     mp_nil = Key_arg [],
     mp_convert = (\<lambda>x dst. if same_kind x dst then (x, True) else (dst, False))\<rparr>"

lemma sample_mp_ok [simp]: "msgpack_ok sample_mp"
  by (auto simp: msgpack_ok_def sample_mp_def codecD[OF codec_arg])

section \<open>A small cluster\<close>

definition sample_host :: host_and_port where "sample_host = HostAndPort ''node1'' ''50000''"

definition sample_cfg :: config where
  "sample_cfg = \<lparr>cfg_com_type = TCP, cfg_trx_type = RAMP_FAST, cfg_data_num = 2, cfg_worker_num = 1,
     cfg_trx_len = 1, cfg_write_trx_num = 1, cfg_read_trx_num = 1, cfg_value_size = 2,
     cfg_server_list = [sample_host], cfg_max_key_num = 0, cfg_cache_addr = 0, cfg_cache_size = 0,
     cfg_cache_rkey = 0\<rparr>"

definition sample_hash :: "key \<Rightarrow> nat" where "sample_hash k = length k"

text \<open>Handler \<open>i\<close> uses connection \<open>i\<close>; there is one server.\<close>

definition sample_handler :: "nat \<Rightarrow> handler" where
  "sample_handler i = TrxHandler_new\<lparr>h_cp := \<lparr>connections = [sample_host \<mapsto> i], access_coms = []\<rparr>\<rparr>"

definition sample_write :: trx where
  "sample_write = Transaction_add_write ''2'' [(''f'', [7])]
     (Transaction_add_write ''1'' [(''f'', [5])] Transaction_new)"

definition sample_read :: trx where
  "sample_read = Transaction_add_read ''1'' [''f''] (Transaction_add_read ''2'' [''f''] Transaction_new)"

definition sample_server :: server where
  "sample_server = (case Server_new (Some 0) (\<lambda>_. 0) of Ret s \<Rightarrow> s)"

definition sample_cluster :: "trx_type \<Rightarrow> cluster" where
  "sample_cluster tt = \<lparr>cl_servers = (\<lambda>_. sample_server), cl_conns = (\<lambda>c. Server_new_executor tt 7 c)\<rparr>"

lemma sample_server_new: "Server_new (Some 0) (\<lambda>_. 0) = Ret sample_server"
  by (simp add: sample_server_def Server_new_def Table_new_def CommittedItems_new_def Buffer_clear_def)

lemma sample_write_eq:
  "sample_write = \<lparr>access_keys = [''1'', ''2''], read_set = [],
     write_set = [(''1'', [(''f'', [5])]), (''2'', [(''f'', [7])])]\<rparr>"
  by (simp add: sample_write_def Transaction_add_write_def Transaction_new_def insort_insert_key_def)

lemma sample_read_eq:
  "sample_read = \<lparr>access_keys = [''1'', ''2''], read_set = [(''1'', [''f'']), (''2'', [''f''])], write_set = []\<rparr>"
  by (simp add: sample_read_def Transaction_add_read_def Transaction_new_def insort_insert_key_def)

lemma sample_trx_ok [simp]: "Transaction_ok sample_write" "Transaction_ok sample_read"
  unfolding sample_write_def sample_read_def
  by (intro Transaction_add_write_ok Transaction_add_read_ok Transaction_new_ok)+

end
