(* ===== verification/Ramp_Theorems.thy ===== *)
theory Ramp_Theorems
  imports Ramp_Clients Samples
begin

text \<open>
  The RAMP-Fast protocols from end to end: fresh servers, connected handlers, any number of client
  threads with any interleaving of their messages.
\<close>

section \<open>Start states\<close>

definition fresh_cluster :: "cluster \<Rightarrow> bool" where
  "fresh_cluster w \<longleftrightarrow> (\<forall>s. \<exists>a m. Server_new a m = Ret (cl_servers w s)) \<and>
     (\<forall>c. ex_unpk (cl_conns w c) = [] \<and> ex_access_keys (cl_conns w c) = [])"

text \<open>A handler that has connected to the servers of the configuration and has not done anything yet.\<close>

definition fresh_handler :: "'o ramp \<Rightarrow> handler \<Rightarrow> bool" where
  "fresh_handler S h \<longleftrightarrow> h_unpk h = (\<lambda>_. []) \<and> h_addr_cache h = Map.empty \<and>
     pool_connected (rs_cfg S) (h_cp h) \<and> (\<forall>k. rs_home S (key_com S h k) = key_server S k)"

lemma Server_new_Ret:
  assumes "Server_new a m = Ret s"
  shows "tbl_items (srv_table s) = Map.empty" and "tbl_latest (srv_table s) = Map.empty"
    and "CommittedItems_new a m = Ret (tbl_committed (srv_table s))" and "srv_locks s = LockManager_new" and "Table_new a m = Ret (srv_table s)"
  using assms by (auto simp: Server_new_def Table_new_def bind_outcome_Ret_iff)

lemma fresh_latest:
  assumes "fresh_cluster w"
  shows "items_at (cl_table w s) ts = []" and "latest_of (cl_table w s) k = Timestamp_default"
proof -
  obtain a m where "Server_new a m = Ret (cl_servers w s)" using assms unfolding fresh_cluster_def by blast
  from Server_new_Ret[OF this] show "items_at (cl_table w s) ts = []" "latest_of (cl_table w s) k = Timestamp_default"
    by (simp_all add: cl_table_def items_at_def latest_of_def)
qed

lemma ramp_inv_fresh:
  assumes S: "setting_ok S" and w: "fresh_cluster w"
  shows "ramp_inv S w"
proof -
  have "table_inv S w s (cl_table w s)" for s
  proof -
    obtain a m where "Server_new a m = Ret (cl_servers w s)" using w unfolding fresh_cluster_def by blast
    from Server_new_Ret(3)[OF this] have ci: "CommittedItems_new a m = Ret (tbl_committed (cl_table w s))"
      by (simp add: cl_table_def)
    have "cache_inv (rs_mp S) (cached_ok S w) (tbl_committed (cl_table w s))"
      using CommittedItems_new_inv[OF ci] by blast
    moreover have "cache_room (rs_keys S) (tbl_committed (cl_table w s))" if "rs_room S"
      using CommittedItems_new_room[OF ci] S that by (auto simp: setting_ok_def)
    ultimately show ?thesis using fresh_latest[OF w] by (simp add: table_inv_def)
  qed
  then show ?thesis using S w by (simp add: ramp_inv_def fresh_cluster_def)
qed

abbreviation ramp_steps :: "'o ramp \<Rightarrow> cluster \<times> (nat \<Rightarrow> 'a prog) \<Rightarrow> cluster \<times> (nat \<Rightarrow> 'a prog) \<Rightarrow> bool" where
  "ramp_steps S \<equiv> (system_step (ramp_serve S) (cluster_peek (rs_home S)))\<^sup>*\<^sup>*"

abbreviation ramp_thread ::
    "'o ramp \<Rightarrow> (nat \<Rightarrow> int \<times> int) \<Rightarrow> (nat \<Rightarrow> nat \<Rightarrow> nat \<Rightarrow> nat list) \<Rightarrow> trx list \<Rightarrow> handler \<Rightarrow>
     (handler \<times> (key, item) cmap list) prog" where
  "ramp_thread S \<equiv> client_thread (rs_mp S) (rs_junk S) (rs_hash S) (rs_cfg S) (rs_tt S)"

lemma safe_ramp_thread:
  assumes inv: "ramp_inv S w" and h: "handler_ok S h w" and trxs: "trxs_ok S tod 0 trxs"
    and perms: "\<And>j n. order_ok (perms j n)" and t: "t \<Longrightarrow> rs_room S \<and> rs_tt S = RAMP_FAST"
  shows "ramp_safe S t (ramp_thread S tod perms trxs h) (thread_ok S trxs) w"
proof -
  have "ramp_safe S t (ramp_thread S tod perms trxs h) (thread_ok S ([] @ trxs)) w"
    unfolding client_thread_def
  proof (rule safe_ClientThread_run[OF inv _ trxs])
    show "thread_ok S [] (h, []) w" using h by (simp add: thread_ok_def answers_atomic_def)
    have S: "rs_tt S = RAMP_FAST \<or> rs_tt S = AC_RAMP_FAST" by (rule setting_tt[OF ramp_setting[OF inv]])
    fix i h' v
    assume h': "handler_ok S h' v" and v: "ramp_inv S v"
    show "ramp_safe S t (handler_put_all (rs_mp S) (rs_junk S) (rs_hash S) (rs_cfg S) (rs_tt S) (tod i) (perms i) h')
        (\<lambda>h'' w'. handler_ok S h'' w' \<and> h_trx h'' = h_trx h') v"
      if "rs_txn S (Timestamp_now (tod i)) = Some (h_trx h')"
    proof -
      have "handler_put_all (rs_mp S) (rs_junk S) (rs_hash S) (rs_cfg S) (rs_tt S) =
          RAMPFastHandler_put_all (rs_mp S) (rs_junk S) (rs_hash S) (rs_cfg S)" using S by auto
      moreover have "ramp_safe S t (RAMPFastHandler_put_all (rs_mp S) (rs_junk S) (rs_hash S) (rs_cfg S) (tod i) (perms i) h')
          (\<lambda>h'' w'. handler_ok S h'' w' \<and> h_trx h'' = h_trx h') v"
        by (rule ramp.safe_mono[OF safe_put_all[OF v h' _ perms that] _ v]) (use t in auto)
      ultimately show ?thesis by simp
    qed
    show "ramp_safe S t (handler_get_all (rs_mp S) (rs_junk S) (rs_hash S) (rs_cfg S) (rs_tt S) (perms i) h')
        (\<lambda>x w'. handler_ok S (fst x) w' \<and> h_trx (fst x) = h_trx h' \<and> get_all_ok S (h_trx h') (snd x) w') v"
      if reads: "smap_ok (read_set (h_trx h'))"
        and keys: "rs_tt S = AC_RAMP_FAST \<Longrightarrow> fst ` set (read_set (h_trx h')) \<subseteq> rs_keys S"
      using S
    proof
      assume "rs_tt S = RAMP_FAST"
      then show ?thesis using safe_RAMP_get_all[OF v h' _ perms reads, of t] t by simp
    next
      assume tt: "rs_tt S = AC_RAMP_FAST"
      then have "t = False" using t by auto
      then show ?thesis using safe_AC_get_all[OF v h' tt perms reads keys[OF tt]] tt by simp
    qed
  qed
  then show ?thesis by simp
qed

lemma fresh_handler_ok: "fresh_handler S h \<Longrightarrow> handler_ok S h w"
  by (simp add: fresh_handler_def handler_ok_def)

text \<open>All threads of a run are safe from the start.\<close>

lemma ramp_system_ok:
  assumes "setting_ok S" and "fresh_cluster w0" and "\<And>i. fresh_handler S (h i)"
    and "\<And>i. trxs_ok S (tod i) 0 (trxs i)" and "\<And>i j n. order_ok (perms i j n)"
    and "t \<Longrightarrow> rs_room S \<and> rs_tt S = RAMP_FAST"
    and "ramp_steps S (w0, \<lambda>i. ramp_thread S (tod i) (perms i) (trxs i) (h i)) (w, ps)"
  shows "interference.system_ok (ramp_inv S) ramp_le (ramp_serve S) (cluster_peek (rs_home S)) (ramp_request S)
    t (\<lambda>i. thread_ok S (trxs i)) (w, ps)"
proof (rule ramp.system_ok_reach[OF assms(7)])
  have inv: "ramp_inv S w0" by (rule ramp_inv_fresh[OF assms(1,2)])
  have "ramp_safe S t (ramp_thread S (tod i) (perms i) (trxs i) (h i)) (thread_ok S (trxs i)) w0" for i
    by (rule safe_ramp_thread[OF inv fresh_handler_ok[OF assms(3)] assms(4,5,6)])
  then show "interference.system_ok (ramp_inv S) ramp_le (ramp_serve S) (cluster_peek (rs_home S)) (ramp_request S)
      t (\<lambda>i. thread_ok S (trxs i)) (w0, \<lambda>i. ramp_thread S (tod i) (perms i) (trxs i) (h i))"
    using inv by (simp add: ramp.system_ok_def)
qed

section \<open>The sample run\<close>

definition sample_ramp :: "trx_type \<Rightarrow> arg ramp" where
  "sample_ramp tt = \<lparr>rs_mp = sample_mp, rs_junk = (0, 0), rs_tt = tt, rs_hash = sample_hash, rs_cfg = sample_cfg,
     rs_home = (\<lambda>_. 0), rs_txn = [Timestamp 1 0 \<mapsto> sample_write], rs_keys = {''1'', ''2''}, rs_room = True\<rparr>"

text \<open>Thread 0 writes both keys, thread 1 reads both, the others do nothing.\<close>

definition sample_trxs :: "nat \<Rightarrow> trx list" where
  "sample_trxs i = (if i = 0 then [sample_write] else if i = 1 then [sample_read] else [])"

lemma sample_sizes:
  "Entry_need sample_mp (trx_item sample_write (Timestamp 1 0) ''1'' [(''f'', [5])]) \<le> ENTRY_SIZE"
  "Entry_need sample_mp (trx_item sample_write (Timestamp 1 0) ''2'' [(''f'', [7])]) \<le> ENTRY_SIZE"
  "Entry_need sample_mp (Item_of_key ''1'') \<le> ENTRY_SIZE" "Entry_need sample_mp (Item_of_key ''2'') \<le> ENTRY_SIZE"
  by (simp_all add: Entry_need_def sample_mp_def trx_item_def sample_write_eq enc_item_def enc_pair_def
      enc_list_def enc_string_def enc_byte_def enc_ts_def enc_int_def to_string_int_def dec_digits.simps[of 0] dec_digits.simps[of "Suc 0"]
      ENTRY_SIZE_def Timestamp_default_def)

lemma sample_setting_ok:
  assumes "tt = RAMP_FAST \<or> tt = AC_RAMP_FAST"
  shows "setting_ok (sample_ramp tt)"
proof -
  have "card {''1'', ''2''} \<le> ENTRY_NUM" by (simp add: ENTRY_NUM_def)
  moreover have "Timestamp_default < Timestamp 1 0" by (simp add: Timestamp_default_def)
  moreover have "set (write_set sample_write) = {(''1'', [(''f'', [5])]), (''2'', [(''f'', [7])])}"
    "read_set sample_write = []" by (simp_all add: sample_write_eq)
  ultimately show ?thesis
    using assms sample_sizes unfolding setting_ok_def sample_ramp_def by simp
qed

lemma sample_fresh_cluster: "fresh_cluster (sample_cluster tt)"
  using sample_server_new
  by (cases tt) (auto simp: fresh_cluster_def sample_cluster_def TrxExecutor_def LockBasedExecutor_def
      NoCCExecutor_def RAMPFastExecutor_def ACRAMPFastExecutor_def)

lemma sample_fresh_handler: "fresh_handler (sample_ramp tt) (sample_handler i)"
  by (simp add: fresh_handler_def sample_handler_def TrxHandler_new_def sample_ramp_def sample_cfg_def
      pool_connected_def key_server_def)

lemma sample_trxs_ok: "trxs_ok (sample_ramp tt) (\<lambda>_. (1, 0)) 0 (sample_trxs i)"
  by (auto simp: trxs_ok_def sample_trxs_def sample_ramp_def Timestamp_now_def Timestamp_of_timeval_def
      sample_write_eq sample_read_eq smap_ok_def)

section \<open>Read atomicity\<close>


text \<open>Thread \<open>i\<close> of the sample.\<close>

definition sample_tod :: "nat \<Rightarrow> nat \<Rightarrow> int \<times> int" where "sample_tod i j = (1, 0)"
definition sample_perms :: "nat \<Rightarrow> nat \<Rightarrow> nat \<Rightarrow> nat \<Rightarrow> nat list" where "sample_perms i j l n = [0..<n]"

lemma sample_args:
  "trxs_ok (sample_ramp tt) (sample_tod i) 0 (sample_trxs i)" "order_ok (sample_perms i j l)"
  using sample_trxs_ok[of tt i] by (simp_all add: sample_tod_def[abs_def] sample_perms_def[abs_def])

abbreviation sample_threads :: "trx_type \<Rightarrow> nat \<Rightarrow> (handler \<times> (key, item) cmap list) prog" where
  "sample_threads tt \<equiv> (\<lambda>i. ramp_thread (sample_ramp tt) (sample_tod i) (sample_perms i)
     (sample_trxs i) (sample_handler i))"



text \<open>C6: With RAMP-Fast over messages, if the keys in use fit the cache, no thread is ever stuck: from
  every reachable state every thread can run to its end, with all its requests answered by the
  servers, no crash and no endless loop.\<close>

theorem ramp_threads_finish:
  assumes "setting_ok S" and "rs_room S" and "rs_tt S = RAMP_FAST"
    and "fresh_cluster w0" and "\<forall>i. fresh_handler S (h i)"
    and "\<forall>i. trxs_ok S (tod i) 0 (trxs i)" and "\<forall>i j n. order_ok (perms i j n)"
    and "ramp_steps S (w0, \<lambda>i. ramp_thread S (tod i) (perms i) (trxs i) (h i)) (w, ps)"
  shows "\<exists>w' h' rets. ramp_steps S (w, ps) (w', ps(i := Return (h', rets))) \<and> answers_atomic S (trxs i) rets w'"
proof -
  have "interference.system_ok (ramp_inv S) ramp_le (ramp_serve S) (cluster_peek (rs_home S)) (ramp_request S)
      True (\<lambda>i. thread_ok S (trxs i)) (w, ps)"
    using assms(2,3,5-8) by (intro ramp_system_ok[OF assms(1,4)]) auto
  from ramp.system_ok_finish[OF this, of i] obtain w' x where
    "ramp_steps S (w, ps) (w', ps(i := Return x))" "thread_ok S (trxs i) x w'" by blast
  then show ?thesis
    by (intro exI[of _ w'] exI[of _ "fst x"] exI[of _ "snd x"]) (simp add: thread_ok_def)
qed

theorem ramp_threads_finish_witness:
  "\<exists>w' h' rets. ramp_steps (sample_ramp RAMP_FAST) (sample_cluster RAMP_FAST, sample_threads RAMP_FAST)
     (w', (sample_threads RAMP_FAST)(0 := Return (h', rets))) \<and> answers_atomic (sample_ramp RAMP_FAST) [sample_write] rets w'"
proof -
  have "\<exists>w' h' rets. ramp_steps (sample_ramp RAMP_FAST) (sample_cluster RAMP_FAST, sample_threads RAMP_FAST)
     (w', (sample_threads RAMP_FAST)(0 := Return (h', rets))) \<and>
     answers_atomic (sample_ramp RAMP_FAST) (sample_trxs 0) rets w'"
  proof (rule ramp_threads_finish[OF sample_setting_ok _ _ sample_fresh_cluster])
    show "ramp_steps (sample_ramp RAMP_FAST) (sample_cluster RAMP_FAST, sample_threads RAMP_FAST)
        (sample_cluster RAMP_FAST, sample_threads RAMP_FAST)" by (rule rtranclp.rtrancl_refl)
    show "rs_room (sample_ramp RAMP_FAST)" "rs_tt (sample_ramp RAMP_FAST) = RAMP_FAST" by (simp_all add: sample_ramp_def)
  qed (simp_all add: sample_fresh_handler sample_args)
  then show ?thesis by (simp add: sample_trxs_def)
qed

section \<open>Commits do not reach readers\<close>

text \<open>A cluster after any requests at all.\<close>

inductive served ::
    "'o msgpack \<Rightarrow> nat \<times> nat \<Rightarrow> trx_type \<Rightarrow> (nat \<Rightarrow> nat) \<Rightarrow> cluster \<Rightarrow> cluster \<Rightarrow> bool"
  for mp junk tt home where
  served_start: "served mp junk tt home w w"
| served_step: "served mp junk tt home w w1 \<Longrightarrow> cluster_serve mp junk tt home c m w1 = Ret (w2, r) \<Longrightarrow>
    served mp junk tt home w w2"

lemma iter_latest:
  assumes "tt \<noteq> TWO_PHASE_LOCKING" and "executor_iter mp junk tt m (s, ex) = Ret ((s', ex'), out, g)"
  shows "latest_of (srv_table s') = latest_of (srv_table s)"
proof -
  have p: "latest_of t' = latest_of t" if "Table_prepare it t = Ret t'" for it t t'
    by (simp add: latest_of_def fun_eq_iff Table_prepare_Ret(2)[OF that])
  have c: "latest_of t' = latest_of t" if "Table_commit mp junk ts t = Ret t'" for ts t t'
    by (rule Table_commit_Ret(2)[OF that])
  have a: "latest_of (t\<lparr>tbl_committed := ci\<rparr>) = latest_of t" for t ci by (simp add: latest_of_def fun_eq_iff)
  have g: "latest_of (fst (Table_get_latest_item k t)) = latest_of t" for k t by simp
  show ?thesis
    using assms
    by (cases tt)
      (auto simp: run_iter_defs Let_def case_prod_beta' answered_Ret bind_outcome_Ret_iff
        RAMPFastExecutor_prepare_def RAMPFastExecutor_commit_def RAMPFastExecutor_get_def
        NoCCExecutor_prepare_def NoCCExecutor_commit_def NoCCExecutor_get_def
        ACRAMPFastExecutor_get_item_and_addr_def a split: if_splits dest: p c)
qed

lemma served_latest:
  assumes "served mp junk tt home w w'" and "tt \<noteq> TWO_PHASE_LOCKING"
  shows "latest_of (cl_table w' s) = latest_of (cl_table w s)"
  using assms
proof (induction rule: served.induct)
  case (served_step w w1 c m w2 r)
  from served_step.hyps(2) show ?case
  proof (rule cluster_serve_Ret)
    fix srv ex out g
    assume "executor_iter mp junk tt m (cl_servers w1 (home c), cl_conns w1 c) = Ret ((srv, ex), r # out, g)"
      and w2: "cl_servers w2 = (cl_servers w1)(home c := srv)"
    from iter_latest[OF served_step.prems this(1)] show ?case
      using served_step.IH[OF served_step.prems] by (cases "s = home c") (simp_all add: cl_table_def w2)
  qed
qed simp

text \<open>C13: \<open>Table::commit\<close> never makes a version visible.  Whatever requests fresh servers of the
  three modes without locks have answered, committed transactions included, a read that does not
  name a version answers the item stored under the zero timestamp, which no client ever writes.\<close>

theorem commits_stay_invisible:
  assumes "fresh_cluster w0" and "served mp junk tt home w0 w" and "tt \<noteq> TWO_PHASE_LOCKING"
  shows "snd (Table_get_latest_item k (cl_table w s)) = Table_get_item_by_ver k Timestamp_default (cl_table w s)"
  by (simp add: served_latest[OF assms(2,3)] fresh_latest(2)[OF assms(1)])

text \<open>The sample: an item that a client has prepared.\<close>

definition sample_item :: item where
  "sample_item = trx_item sample_write (Timestamp 1 0) ''1'' [(''f'', [5])]"

lemma sample_item_genuine: "genuine (sample_ramp tt) sample_item"
  by (auto simp: genuine_def sample_item_def trx_item_def sample_ramp_def sample_write_eq)

lemma sample_prepare:
  "\<exists>w r. cluster_serve sample_mp (0, 0) RAMP_FAST (\<lambda>_. 0) 0 (sent_msg sample_mp (0, 0) PREPARE [Item_arg sample_item])
       (sample_cluster RAMP_FAST) = Ret (w, r) \<and> sample_item \<in> set (items_at (cl_table w 0) (Timestamp 1 0))"
proof -
  let ?S = "sample_ramp RAMP_FAST" and ?m = "sent_msg sample_mp (0, 0) PREPARE [Item_arg sample_item]"
  have inv: "ramp_inv ?S (sample_cluster RAMP_FAST)" by (rule ramp_inv_fresh[OF sample_setting_ok sample_fresh_cluster]) simp
  have home: "key_server ?S (item_key sample_item) = rs_home ?S 0"
    by (simp add: key_server_def sample_ramp_def sample_cfg_def)
  have sel: "rs_mp ?S = sample_mp" "rs_junk ?S = (0, 0)" "rs_tt ?S = RAMP_FAST" "rs_home ?S = (\<lambda>_. 0)" "rs_room ?S"
    by (simp_all add: sample_ramp_def)
  have "ramp_request ?S 0 ?m (sample_cluster RAMP_FAST)"
    unfolding ramp_request_def using sample_item_genuine home sel by auto
  then have "returns (ramp_serve ?S 0 ?m (sample_cluster RAMP_FAST))"
    by (rule ramp_serve_returns[OF inv]) (rule sel)
  then obtain w r where ret: "ramp_serve ?S 0 ?m (sample_cluster RAMP_FAST) = Ret (w, r)" by (auto simp: returns_def)
  have ret': "ramp_serve ?S 0 (sent_msg (rs_mp ?S) (rs_junk ?S) PREPARE [Item_arg sample_item]) (sample_cluster RAMP_FAST) = Ret (w, r)"
    using ret by (simp add: sel)
  have ts: "item_ts sample_item = Timestamp 1 0" by (simp add: sample_item_def trx_item_def)
  from ret' have "sample_item \<in> set (items_at (cl_table w 0) (Timestamp 1 0))"
  proof (rule serve_handler[OF RAMP_iter_sent(1)[OF setting_mp ramp_unpk[OF inv, of 0]], rotated 2])
    fix srv assume h: "RAMPFastExecutor_prepare (rs_mp ?S) (rs_junk ?S) sample_item
        (cl_servers (sample_cluster RAMP_FAST) (rs_home ?S 0)) = Ret (srv, r)"
      and w: "cl_servers w = (cl_servers (sample_cluster RAMP_FAST))(rs_home ?S 0 := srv)"
    obtain t where t: "Table_prepare sample_item (cl_table (sample_cluster RAMP_FAST) 0) = Ret t" "srv_table srv = t"
      using h by (auto simp: RAMPFastExecutor_prepare_def bind_outcome_Ret_iff cl_table_def sel)
    show ?thesis using Table_prepare_Ret(1)[OF t(1), of "Timestamp 1 0"] t(2) by (simp add: cl_table_def w sel ts)
  qed (use sample_setting_ok[of RAMP_FAST] sel in auto)
  then show ?thesis using ret sel by auto
qed

theorem commits_stay_invisible_witness:
  "\<exists>w. served sample_mp (0, 0) RAMP_FAST (\<lambda>_. 0) (sample_cluster RAMP_FAST) w \<and>
     sample_item \<in> set (items_at (cl_table w 0) (Timestamp 1 0)) \<and>
     snd (Table_get_latest_item ''1'' (cl_table w 0)) = Table_get_item_by_ver ''1'' Timestamp_default (cl_table w 0)"
proof -
  obtain w r where ret: "cluster_serve sample_mp (0, 0) RAMP_FAST (\<lambda>_. 0) 0
      (sent_msg sample_mp (0, 0) PREPARE [Item_arg sample_item]) (sample_cluster RAMP_FAST) = Ret (w, r)"
    and it: "sample_item \<in> set (items_at (cl_table w 0) (Timestamp 1 0))" using sample_prepare by blast
  have srv: "served sample_mp (0, 0) RAMP_FAST (\<lambda>_. 0) (sample_cluster RAMP_FAST) w"
    by (rule served_step[OF served_start ret])
  have "snd (Table_get_latest_item ''1'' (cl_table w 0)) = Table_get_item_by_ver ''1'' Timestamp_default (cl_table w 0)"
    by (rule commits_stay_invisible[OF sample_fresh_cluster srv]) simp
  then show ?thesis using srv it by blast
qed

end
