(* ===== verification/Rely_Programs.thy ===== *)
theory Rely_Programs
  imports Programs "HOL-Library.Multiset"
begin

text \<open>
  A second logic for interleaved programs, for protocols in which what a thread may rely on depends
  on the thread: \<open>rely i w w'\<close> says how far the others may take the world while thread \<open>i\<close> waits, and
  the messages a thread may send are its own.  Requests may stay unanswered here, as those do that
  wait for a lock; that no set of threads waits for ever is proved from the invariant.  And every run
  of finitely many programs is finite, whatever the other side answers.
\<close>

section \<open>Thread by thread\<close>

locale thread_interference =
  fixes inv :: "'w \<Rightarrow> bool"
    and rely :: "nat \<Rightarrow> 'w \<Rightarrow> 'w \<Rightarrow> bool"
    and serve :: "nat \<Rightarrow> message \<Rightarrow> 'w \<Rightarrow> ('w \<times> message) outcome"
    and peek :: "nat \<Rightarrow> rka \<Rightarrow> 'w \<Rightarrow> byte list"
    and allowed :: "nat \<Rightarrow> nat \<Rightarrow> message \<Rightarrow> 'w \<Rightarrow> bool"
  assumes rely_refl: "rely i w w"
    and rely_trans: "rely i u v \<Longrightarrow> rely i v w \<Longrightarrow> rely i u w"
    and serve_inv: "inv w \<Longrightarrow> allowed i c m w \<Longrightarrow> serve c m w = Ret (w', r) \<Longrightarrow> inv w'"
    and serve_rely: "inv w \<Longrightarrow> allowed i c m w \<Longrightarrow> serve c m w = Ret (w', r) \<Longrightarrow> j \<noteq> i \<Longrightarrow> rely j w w'"
begin

text \<open>
  \<open>safe i p Q w\<close>: whatever the others do from \<open>w\<close> on, \<open>p\<close> as thread \<open>i\<close> only sends allowed messages,
  never crashes or loops, and establishes \<open>Q\<close> when it returns.
\<close>

primrec safe :: "nat \<Rightarrow> 'a prog \<Rightarrow> ('a \<Rightarrow> 'w \<Rightarrow> bool) \<Rightarrow> 'w \<Rightarrow> bool" where
  "safe i (Return x) Q w = (\<forall>w'. rely i w w' \<longrightarrow> inv w' \<longrightarrow> Q x w')"
| "safe i (Crash e) Q w = False"
| "safe i Hang Q w = False"
| "safe i (Request c m k) Q w =
     (\<forall>w'. rely i w w' \<longrightarrow> inv w' \<longrightarrow> allowed i c m w' \<and>
        (\<forall>w'' r. serve c m w' = Ret (w'', r) \<longrightarrow> safe i (k r) Q w''))"
| "safe i (Remote_read c a k) Q w =
     (\<forall>w'. rely i w w' \<longrightarrow> inv w' \<longrightarrow> safe i (k (peek c a w')) Q w')"

lemma safe_rely: "safe i p Q w \<Longrightarrow> rely i w w' \<Longrightarrow> safe i p Q w'"
  by (cases p) (auto intro: rely_trans)

lemma safe_ReturnI: "(\<And>w'. rely i w w' \<Longrightarrow> inv w' \<Longrightarrow> Q x w') \<Longrightarrow> safe i (Return x) Q w"
  by simp

lemma safe_RequestI:
  assumes "\<And>w'. rely i w w' \<Longrightarrow> inv w' \<Longrightarrow> allowed i c m w'"
    and "\<And>w' w'' r. rely i w w' \<Longrightarrow> inv w' \<Longrightarrow> allowed i c m w' \<Longrightarrow> serve c m w' = Ret (w'', r) \<Longrightarrow> inv w'' \<Longrightarrow>
        safe i (k r) Q w''"
  shows "safe i (Request c m k) Q w"
  unfolding safe.simps using assms serve_inv by blast

lemma safe_RequestD:
  assumes "safe i (Request c m k) Q w" and "rely i w w'" and "inv w'"
  shows "allowed i c m w'" and "serve c m w' = Ret (w'', r) \<Longrightarrow> safe i (k r) Q w''"
  using assms by (cases r; simp)+

lemma safe_bind:
  assumes "safe i p R w" and "\<And>x w'. R x w' \<Longrightarrow> inv w' \<Longrightarrow> safe i (f x) Q w'" and "inv w"
  shows "safe i (bind_prog p f) Q w"
  using assms
proof (induction p arbitrary: w)
  case (Return x)
  then show ?case using rely_refl[of i w] by simp
next
  case (Request c m k)
  show ?case
    unfolding bind_prog.simps
  proof (rule safe_RequestI)
    fix w' assume w': "rely i w w'" "inv w'"
    show "allowed i c m w'" by (rule safe_RequestD(1)[OF Request.prems(1) w'])
    fix w'' r assume s: "serve c m w' = Ret (w'', r)" and inv: "inv w''"
    have "safe i (k r) R w''" by (rule safe_RequestD(2)[OF Request.prems(1) w' s])
    then show "safe i (bind_prog (k r) f) Q w''"
      by (intro Request.IH) (use Request.prems(2) inv in auto)
  qed
next
  case (Remote_read c a k)
  then show ?case by simp
qed auto

lemma safe_mono:
  assumes "safe i p Q w" and "\<And>x w'. Q x w' \<Longrightarrow> inv w' \<Longrightarrow> R x w'"
  shows "safe i p R w"
  using assms(1)
proof (induction p arbitrary: w)
  case (Request c m k)
  show ?case
    by (rule safe_RequestI) (blast intro: Request.IH dest: safe_RequestD[OF Request.prems])+
qed (use assms(2) in auto)

text \<open>The rule for loops: what holds of the part of the list that has been visited.\<close>

lemma safe_for_each:
  assumes "J [] s w" and "inv w"
    and step: "\<And>ds x rest s w. xs = ds @ x # rest \<Longrightarrow> J ds s w \<Longrightarrow> inv w \<Longrightarrow> safe i (f x s) (J (ds @ [x])) w"
    and stable: "\<And>s w w'. J xs s w \<Longrightarrow> rely i w w' \<Longrightarrow> inv w' \<Longrightarrow> J xs s w'"
  shows "safe i (for_each_prog f xs s) (J xs) w"
proof -
  have "safe i (for_each_prog f ys s) (J xs) w" if "xs = ds @ ys" "J ds s w" "inv w" for ds ys s w
    using that
  proof (induction ys arbitrary: ds s w)
    case Nil
    then have "J xs s w" by simp
    then show ?case using stable by simp
  next
    case (Cons y ys)
    show ?case
      unfolding for_each_prog.simps
    proof (rule safe_bind[OF step[OF Cons.prems] _ Cons.prems(3)])
      show "safe i (for_each_prog f ys z) (J xs) v" if "J (ds @ [y]) z v" "inv v" for z v
        using Cons.IH[of "ds @ [y]" z v] Cons.prems(1) that by simp
    qed
  qed
  from this[of "[]" xs s w] assms(1,2) show ?thesis by simp
qed

text \<open>
  Soundness: if every thread is safe, every reachable state satisfies the invariant and every
  thread that has returned satisfies its postcondition.
\<close>

definition system_ok :: "(nat \<Rightarrow> 'a \<Rightarrow> 'w \<Rightarrow> bool) \<Rightarrow> 'w \<times> (nat \<Rightarrow> 'a prog) \<Rightarrow> bool" where
  "system_ok Q st \<longleftrightarrow> inv (fst st) \<and> (\<forall>i. safe i (snd st i) (Q i) (fst st))"

lemma safe_step:
  assumes "prog_step serve peek (w, p) (w', p')" and "safe i p Q w" and "inv w"
  shows "inv w' \<and> (\<forall>j. j \<noteq> i \<longrightarrow> rely j w w') \<and> safe i p' Q w'"
  using assms(1)
proof cases
  case (step_request c m r k)
  note D = safe_RequestD[OF assms(2)[unfolded step_request] rely_refl assms(3)]
  show ?thesis
    using D(2)[OF step_request(3)] serve_inv[OF assms(3) D(1) step_request(3)]
      serve_rely[OF assms(3) D(1) step_request(3)] step_request(2) by simp
next
  case (step_read c a k)
  then show ?thesis using assms(2,3) rely_refl by auto
qed

lemma system_ok_step:
  assumes "system_ok Q st" and "system_step serve peek st st'"
  shows "system_ok Q st'"
proof -
  obtain w ps w' i p where st: "st = (w, ps)" "st' = (w', ps(i := p))"
    and step: "prog_step serve peek (w, ps i) (w', p)"
    using assms(2) by (cases rule: system_step.cases) auto
  have "inv w' \<and> (\<forall>j. j \<noteq> i \<longrightarrow> rely j w w') \<and> safe i p (Q i) w'"
    using assms(1) by (intro safe_step[OF step]) (auto simp: system_ok_def st)
  then show ?thesis
    using assms(1) by (auto simp: system_ok_def st intro: safe_rely)
qed

lemma system_ok_reach:
  assumes "(system_step serve peek)\<^sup>*\<^sup>* st st'" and "system_ok Q st"
  shows "system_ok Q st'"
  using assms by (induction rule: rtranclp_induct) (auto intro: system_ok_step)

lemma system_ok_Return:
  assumes "system_ok Q (w, ps)" and "ps i = Return x"
  shows "Q i x w"
  using assms rely_refl[of i w] unfolding system_ok_def by (metis fst_conv safe.simps(1) snd_conv)

text \<open>A thread that has not returned can step, or it waits for the answer to an allowed request.\<close>

lemma system_ok_waits:
  assumes "system_ok Q (w, ps)" and "\<nexists>x. ps i = Return x" and "\<nexists>st. prog_step serve peek (w, ps i) st"
  obtains c m k where "ps i = Request c m k" and "allowed i c m w" and "\<not> returns (serve c m w)"
proof -
  have s: "safe i (ps i) (Q i) w" "inv w" using assms(1) by (auto simp: system_ok_def)
  show thesis
  proof (cases "ps i")
    case (Request c m k)
    have "allowed i c m w" by (rule safe_RequestD(1)[OF s(1)[unfolded Request] rely_refl s(2)])
    moreover have "\<not> returns (serve c m w)"
      using assms(3) step_request[of serve c m w] unfolding Request returns_def by force
    ultimately show ?thesis using that Request by blast
  next
    case (Remote_read c a k)
    then show ?thesis using assms(3) step_read[of serve peek w c a k] by auto
  qed (use assms(2) s in auto)
qed

end

section \<open>Runs are finite\<close>

text \<open>
  A program goes on with one of its immediate parts.  Only finitely many programs of a system are
  not done, and each step replaces one of them by one of its parts.
\<close>

inductive part_of :: "'a prog \<Rightarrow> 'a prog \<Rightarrow> bool" where
  part_of_request: "part_of (k r) (Request c m k)"
| part_of_read: "part_of (k bs) (Remote_read c a k)"

inductive_cases part_ofE:
  "part_of p (Return x)" "part_of p (Crash e)" "part_of p Hang" "part_of p (Request c m k)"
  "part_of p (Remote_read c a k)"

lemma wfp_part_of: "wfp part_of"
proof (rule accp_wfpI, rule allI)
  show "Wellfounded.accp part_of p" for p :: "'a prog"
  proof (induction p)
    case (Request c m k)
    show ?case by (rule accp.accI, erule part_ofE(4)) (simp add: Request.IH)
  next
    case (Remote_read c a k)
    show ?case by (rule accp.accI, erule part_ofE(5)) (simp add: Remote_read.IH)
  qed (rule accp.accI, erule part_ofE(1-3))+
qed

lemma prog_step_part: "prog_step serve peek (w, p) (w', p') \<Longrightarrow> part_of p' p"
  by (cases rule: prog_step.cases) (auto intro: part_of.intros)

definition done_from :: "nat \<Rightarrow> (nat \<Rightarrow> 'a prog) \<Rightarrow> bool" where
  "done_from n ps \<longleftrightarrow> (\<forall>i \<ge> n. \<exists>x. ps i = Return x)"

lemma system_step_done_from:
  assumes "system_step serve peek (w, ps) (w', ps')" and "done_from n ps"
  shows "done_from n ps' \<and>
    (image_mset ps' (mset_set {..<n}), image_mset ps (mset_set {..<n})) \<in> mult {(p, q). part_of p q}"
proof -
  obtain i p where i: "ps' = ps(i := p)" "prog_step serve peek (w, ps i) (w', p)"
    using assms(1) by (auto elim: system_stepE)
  have "i < n"
  proof (rule ccontr)
    assume "\<not> i < n"
    then obtain x where "ps i = Return x" using assms(2) unfolding done_from_def by (metis not_less)
    then show False using i(2) by (auto elim: prog_step_ReturnE)
  qed
  have fin: "finite ({..<n} - {i})" by simp
  have split: "mset_set {..<n} = add_mset i (mset_set ({..<n} - {i}))"
    using \<open>i < n\<close> by (simp add: mset_set.remove)
  have rest: "image_mset (ps(i := p)) (mset_set ({..<n} - {i})) = image_mset ps (mset_set ({..<n} - {i}))"
    by (rule image_mset_cong) simp
  have "(image_mset ps (mset_set ({..<n} - {i})) + {#p#},
      image_mset ps (mset_set ({..<n} - {i})) + {#ps i#}) \<in> mult {(p, q). part_of p q}"
    by (rule one_step_implies_mult) (use prog_step_part[OF i(2)] in auto)
  then show ?thesis
    using assms(2) \<open>i < n\<close> by (auto simp: split rest i(1) done_from_def)
qed

lemma no_endless_run:
  assumes "done_from n (snd (f 0))" and "\<And>j. system_step serve peek (f j) (f (Suc j))"
  shows False
proof -
  have step: "system_step serve peek (fst (f j), snd (f j)) (fst (f (Suc j)), snd (f (Suc j)))" for j
    using assms(2)[of j] by simp
  have "done_from n (snd (f j))" for j
    by (induction j) (use assms(1) system_step_done_from[OF step] in auto)
  then have "(image_mset (snd (f (Suc j))) (mset_set {..<n}), image_mset (snd (f j)) (mset_set {..<n}))
      \<in> mult {(p, q). part_of p q}" for j
    using system_step_done_from[OF step] by blast
  moreover have "wf (mult {(p, q). part_of p q})"
    using wfp_part_of by (intro wf_mult) (simp add: wfp_def)
  ultimately show False unfolding wf_iff_no_infinite_down_chain by fast
qed

text \<open>A run of the system that cannot go on from any reachable state but a finished one finishes.\<close>

lemma some_run_finishes:
  fixes st :: "'w \<times> (nat \<Rightarrow> 'a prog)"
  assumes "done_from n (snd st)"
    and "\<And>st'. (system_step serve peek)\<^sup>*\<^sup>* st st' \<Longrightarrow> \<not> done_from 0 (snd st') \<Longrightarrow> \<exists>st''. system_step serve peek st' st''"
  shows "\<exists>st'. (system_step serve peek)\<^sup>*\<^sup>* st st' \<and> done_from 0 (snd st')"
proof (rule ccontr)
  assume no: "\<not> ?thesis"
  define next_st where "next_st = (\<lambda>s :: 'w \<times> (nat \<Rightarrow> 'a prog). SOME s'. system_step serve peek s s')"
  define f where "f = (\<lambda>j. (next_st ^^ j) st)"
  have reach: "(system_step serve peek)\<^sup>*\<^sup>* st (f j) \<and> system_step serve peek (f j) (f (Suc j))" for j
  proof (induction j)
    case 0
    have "\<exists>s. system_step serve peek st s" using assms(2)[of st] no by blast
    then show ?case by (simp add: f_def next_st_def someI_ex)
  next
    case (Suc j)
    then have r: "(system_step serve peek)\<^sup>*\<^sup>* st (f (Suc j))" by auto
    then have "\<exists>s. system_step serve peek (f (Suc j)) s" using assms(2) no by blast
    then show ?case using r by (simp add: f_def next_st_def someI_ex)
  qed
  show False by (rule no_endless_run[where f = f and n = n, OF _ reach[THEN conjunct2]]) (simp add: f_def assms(1))
qed

end
