(* ===== verification/Lock_Cluster.thy ===== *)
theory Lock_Cluster
  imports Ramp_Cluster Rely_Programs
begin

text \<open>
  What the servers of a cluster keep true while clients run two-phase locking on it: the state of a
  lock tells who holds it, and a key that is not locked for writing shows a version that was written
  completely.  The run is described by the same setting as in \<open>Ramp_Cluster\<close>; \<open>own c\<close> is the
  thread that uses connection \<open>c\<close>.
\<close>

section \<open>What can be seen of a cluster\<close>

definition held :: "cluster \<Rightarrow> nat \<Rightarrow> key set" where
  "held w c = set (ex_access_keys (cl_conns w c))"

definition write_locked :: "'o ramp \<Rightarrow> cluster \<Rightarrow> key \<Rightarrow> bool" where
  "write_locked S w k = lm_writer (srv_locks (cl_servers w (key_server S k))) k"

definition read_locks :: "'o ramp \<Rightarrow> cluster \<Rightarrow> key \<Rightarrow> nat" where
  "read_locks S w k = lm_readers (srv_locks (cl_servers w (key_server S k))) k"

definition version :: "'o ramp \<Rightarrow> cluster \<Rightarrow> key \<Rightarrow> timestamp" where
  "version S w k = latest_of (cl_table w (key_server S k)) k"

definition shown :: "'o ramp \<Rightarrow> cluster \<Rightarrow> key \<Rightarrow> item" where
  "shown S w k = visible (cl_table w (key_server S k)) k"

definition writes_of :: "'o ramp \<Rightarrow> timestamp \<Rightarrow> key set" where
  "writes_of S ts = (case rs_txn S ts of None \<Rightarrow> {} | Some trx \<Rightarrow> fst ` set (write_set trx))"

text \<open>The item is one that the transaction of its timestamp puts.\<close>

definition written :: "'o ramp \<Rightarrow> item \<Rightarrow> bool" where
  "written S it \<longleftrightarrow> (\<exists>trx vals. rs_txn S (item_ts it) = Some trx \<and> (item_key it, vals) \<in> set (write_set trx) \<and>
     it = Item_versioned (item_key it) vals (item_ts it))"

section \<open>The invariant\<close>

definition lock_setting_ok :: "'o ramp \<Rightarrow> bool" where
  "lock_setting_ok S \<longleftrightarrow> msgpack_ok (rs_mp S) \<and> rs_tt S = TWO_PHASE_LOCKING \<and>
     (\<forall>ts trx. rs_txn S ts = Some trx \<longrightarrow> Timestamp_default < ts \<and> smap_ok (write_set trx) \<and>
        fst ` set (write_set trx) \<subseteq> rs_keys S) \<and>
     finite (rs_keys S) \<and> card (rs_keys S) \<le> ENTRY_NUM"

definition put_table_ok :: "'o ramp \<Rightarrow> nat \<Rightarrow> table \<Rightarrow> bool" where
  "put_table_ok S s t \<longleftrightarrow> put_inv t \<and> cache_room (rs_keys S) (tbl_committed t) \<and>
     (\<forall>ts it. it \<in> set (items_at t ts) \<longrightarrow> written S it \<and> key_server S (item_key it) = s)"

definition store_inv :: "'o ramp \<Rightarrow> cluster \<Rightarrow> bool" where
  "store_inv S w \<longleftrightarrow> lock_setting_ok S \<and> (\<forall>s. put_table_ok S s (cl_table w s)) \<and>
     (\<forall>c. ex_unpk (cl_conns w c) = [] \<and> distinct (ex_access_keys (cl_conns w c)) \<and>
        (\<forall>k \<in> held w c. key_server S k = rs_home S c))"

text \<open>
  \<open>locks_agree\<close>: a write lock has one holder and excludes readers, otherwise the lock counts its
  holders.  \<open>complete\<close>: every key the transaction writes has a version at least as new.
\<close>

definition locks_agree :: "(nat \<Rightarrow> key set) \<Rightarrow> (key \<Rightarrow> bool) \<Rightarrow> (key \<Rightarrow> nat) \<Rightarrow> bool" where
  "locks_agree H wr rd \<longleftrightarrow> (\<forall>k. if wr k then rd k = 0 \<and> (\<exists>c. {c. k \<in> H c} = {c})
     else finite {c. k \<in> H c} \<and> card {c. k \<in> H c} = rd k)"

definition complete :: "'o ramp \<Rightarrow> (key \<Rightarrow> timestamp) \<Rightarrow> timestamp \<Rightarrow> bool" where
  "complete S ver ts \<longleftrightarrow> (\<forall>k \<in> writes_of S ts. ts \<le> ver k)"

definition lock_inv :: "'o ramp \<Rightarrow> cluster \<Rightarrow> bool" where
  "lock_inv S w \<longleftrightarrow> store_inv S w \<and> locks_agree (held w) (write_locked S w) (read_locks S w) \<and>
     (\<forall>k. \<not> write_locked S w k \<longrightarrow> complete S (version S w) (version S w k))"

text \<open>
  What a thread relies on: nobody else uses its connections, versions only grow, and what it has
  locked stays as it is.
\<close>

definition lock_rely :: "'o ramp \<Rightarrow> (nat \<Rightarrow> nat) \<Rightarrow> nat \<Rightarrow> cluster \<Rightarrow> cluster \<Rightarrow> bool" where
  "lock_rely S own i w w' \<longleftrightarrow> (\<forall>c. own c = i \<longrightarrow> cl_conns w' c = cl_conns w c) \<and>
     (\<forall>k. version S w k \<le> version S w' k) \<and>
     (\<forall>c k. own c = i \<longrightarrow> k \<in> held w c \<longrightarrow> shown S w' k = shown S w k \<and> version S w' k = version S w k \<and>
        write_locked S w' k = write_locked S w k)"

text \<open>
  The requests a thread may send: puts and gets of keys above all the keys it has locked, and the
  release of a connection all of whose keys show complete versions.
\<close>

definition above_held :: "(nat \<Rightarrow> nat) \<Rightarrow> nat \<Rightarrow> cluster \<Rightarrow> key \<Rightarrow> bool" where
  "above_held own i w k \<longleftrightarrow> (\<forall>c j. own c = i \<longrightarrow> j \<in> held w c \<longrightarrow> j < k)"

definition lock_request :: "'o ramp \<Rightarrow> (nat \<Rightarrow> nat) \<Rightarrow> nat \<Rightarrow> nat \<Rightarrow> message \<Rightarrow> cluster \<Rightarrow> bool" where
  "lock_request S own i c msg w \<longleftrightarrow> own c = i \<and>
     ((\<exists>it. msg = sent_msg (rs_mp S) (rs_junk S) PUT [Item_arg it] \<and> written S it \<and>
         key_server S (item_key it) = rs_home S c \<and> above_held own i w (item_key it)) \<or>
      (\<exists>k. msg = sent_msg (rs_mp S) (rs_junk S) GET [Key_arg k] \<and> key_server S k = rs_home S c \<and>
         above_held own i w k) \<or>
      (msg = sent_msg (rs_mp S) (rs_junk S) RELEASE_LOCKS [] \<and>
         (\<forall>k \<in> held w c. complete S (version S w) (version S w k))))"

section \<open>Locks and holders\<close>

lemma locks_agree_unlocked:
  assumes "locks_agree H wr rd" and "\<not> wr k" and "rd k = 0"
  shows "k \<notin> H c"
proof -
  have "finite {c. k \<in> H c} \<and> card {c. k \<in> H c} = 0" using assms unfolding locks_agree_def by metis
  then have "{c. k \<in> H c} = {}" using card_0_eq by metis
  then show ?thesis by blast
qed

lemma locks_agree_writer: "locks_agree H wr rd \<Longrightarrow> wr k \<Longrightarrow> k \<in> H c \<Longrightarrow> {c. k \<in> H c} = {c}"
  unfolding locks_agree_def by (metis mem_Collect_eq singletonD)

lemma locks_agree_held: "locks_agree H wr rd \<Longrightarrow> k \<in> H c \<Longrightarrow> wr k \<or> rd k \<noteq> 0"
  using locks_agree_unlocked by metis

lemma locks_agree_holder: "locks_agree H wr rd \<Longrightarrow> wr k \<or> rd k \<noteq> 0 \<Longrightarrow> \<exists>c. k \<in> H c"
  unfolding locks_agree_def
  by (metis (no_types, lifting) card.empty empty_Collect_eq mem_Collect_eq singletonI)

lemma locks_agree_write:
  assumes "locks_agree H wr rd" and "\<not> wr k" and "rd k = 0"
  shows "locks_agree (H(c := insert k (H c))) (wr(k := True)) rd"
proof -
  have "{d. k \<in> (H(c := insert k (H c))) d} = {c}" using locks_agree_unlocked[OF assms] by auto
  moreover have "{d. j \<in> (H(c := insert k (H c))) d} = {d. j \<in> H d}" if "j \<noteq> k" for j using that by auto
  ultimately show ?thesis using assms unfolding locks_agree_def by auto
qed

lemma locks_agree_read:
  assumes "locks_agree H wr rd" and "\<not> wr k" and "k \<notin> H c"
  shows "locks_agree (H(c := insert k (H c))) wr (rd(k := rd k + 1))"
proof -
  have "{d. k \<in> (H(c := insert k (H c))) d} = insert c {d. k \<in> H d}" by auto
  moreover have "{d. j \<in> (H(c := insert k (H c))) d} = {d. j \<in> H d}" if "j \<noteq> k" for j using that by auto
  ultimately show ?thesis using assms unfolding locks_agree_def by auto
qed

lemma locks_agree_release:
  assumes agree: "locks_agree H wr rd"
    and wr': "\<And>k. wr' k = (if k \<in> H c then False else wr k)"
    and rd': "\<And>k. rd' k = (if k \<in> H c \<and> \<not> wr k then rd k - 1 else rd k)"
  shows "locks_agree (H(c := {})) wr' rd'"
  unfolding locks_agree_def
proof (intro allI)
  fix k
  have set: "{d. k \<in> (H(c := {})) d} = {d. k \<in> H d} - {c}" by auto
  show "if wr' k then rd' k = 0 \<and> (\<exists>d. {d. k \<in> (H(c := {})) d} = {d})
      else finite {d. k \<in> (H(c := {})) d} \<and> card {d. k \<in> (H(c := {})) d} = rd' k"
  proof (cases "k \<in> H c")
    case True
    then show ?thesis
      using agree locks_agree_writer[OF agree _ True] unfolding set wr' rd' locks_agree_def
      by (auto simp: card_Diff_singleton dest: spec[of _ k])
  next
    case False
    then have "{d. k \<in> H d} - {c} = {d. k \<in> H d}" by auto
    then show ?thesis using agree False unfolding set wr' rd' locks_agree_def by simp
  qed
qed

lemma complete_mono: "complete S ver ts \<Longrightarrow> (\<And>k. ver k \<le> ver' k) \<Longrightarrow> complete S ver' ts"
  unfolding complete_def by (meson order_trans)

section \<open>One served request\<close>

lemma store_unpk: "store_inv S w \<Longrightarrow> ex_unpk (cl_conns w c) = []"
  and store_setting: "store_inv S w \<Longrightarrow> lock_setting_ok S"
  and store_table: "store_inv S w \<Longrightarrow> put_table_ok S s (cl_table w s)"
  by (simp_all add: store_inv_def)

lemma lock_setting_mp: "lock_setting_ok S \<Longrightarrow> msgpack_ok (rs_mp S)"
  and lock_setting_tt: "lock_setting_ok S \<Longrightarrow> rs_tt S = TWO_PHASE_LOCKING"
  by (simp_all add: lock_setting_ok_def)

lemma written_fits:
  assumes "lock_setting_ok S" and "written S it"
  shows "Timestamp_default < item_ts it" and "item_key it \<in> rs_keys S" and "item_key it \<in> writes_of S (item_ts it)"
proof -
  obtain trx vals where t: "rs_txn S (item_ts it) = Some trx" "(item_key it, vals) \<in> set (write_set trx)"
    using assms(2) unfolding written_def by blast
  then have "item_key it \<in> fst ` set (write_set trx)" by force
  then show "Timestamp_default < item_ts it" "item_key it \<in> rs_keys S" "item_key it \<in> writes_of S (item_ts it)"
    using assms(1) t unfolding lock_setting_ok_def writes_of_def by auto
qed

text \<open>What an operation does to its server and its connection determines what can be seen afterwards.\<close>

lemma served_views:
  assumes "cl_servers w' = (cl_servers w)(s := srv)" and "cl_conns w' = (cl_conns w)(c := ex)"
  shows "held w' = (held w)(c := set (ex_access_keys ex))"
    and "cl_table w' j = (if j = s then srv_table srv else cl_table w j)"
    and "write_locked S w' k = (if key_server S k = s then lm_writer (srv_locks srv) k else write_locked S w k)"
    and "read_locks S w' k = (if key_server S k = s then lm_readers (srv_locks srv) k else read_locks S w k)"
    and "version S w' k = (if key_server S k = s then latest_of (srv_table srv) k else version S w k)"
    and "shown S w' k = (if key_server S k = s then visible (srv_table srv) k else shown S w k)"
  by (auto simp: held_def fun_eq_iff cl_table_def write_locked_def read_locks_def version_def shown_def assms)

lemma home_views:
  assumes "key_server S k = s"
  shows "write_locked S w k = lm_writer (srv_locks (cl_servers w s)) k"
    and "read_locks S w k = lm_readers (srv_locks (cl_servers w s)) k"
    and "version S w k = latest_of (srv_table (cl_servers w s)) k"
    and "shown S w k = visible (srv_table (cl_servers w s)) k"
  using assms by (auto simp: write_locked_def read_locks_def version_def shown_def cl_table_def)

lemma served_store_inv:
  assumes inv: "store_inv S w" and w': "cl_servers w' = (cl_servers w)(rs_home S c := srv)" "cl_conns w' = (cl_conns w)(c := ex)"
    and t: "put_table_ok S (rs_home S c) (srv_table srv)"
    and ex: "ex_unpk ex = []" "distinct (ex_access_keys ex)" "\<And>k. k \<in> set (ex_access_keys ex) \<Longrightarrow> key_server S k = rs_home S c"
  shows "store_inv S w'"
  using inv t ex unfolding store_inv_def served_views(1,2)[OF w'] w' by auto

lemma put_table:
  assumes t: "put_table_ok S s t" and S: "lock_setting_ok S" and it: "written S it" "key_server S (item_key it) = s"
    and put: "Table_put it t = Ret t'"
  shows "put_table_ok S s t'"
proof -
  note fits = written_fits[OF S it(1)]
  obtain t1 where t1: "Table_prepare it t = Ret t1" and t': "t' = Table_commit_key (item_key it) (item_ts it) t1"
    using put by (auto simp: Table_put_def bind_outcome_Ret_iff)
  have "cache_room (rs_keys S) (tbl_committed t1)"
    using CommittedItems_invalidate_room[of "rs_keys S" "tbl_committed t" "item_key it"] t fits(2) Table_prepare_Ret(3)[OF t1]
    by (auto simp: put_table_ok_def)
  moreover have "put_inv t'" using Table_put_inv[OF _ put fits(1)] t by (simp add: put_table_ok_def)
  ultimately show ?thesis
    using t it by (auto simp: put_table_ok_def t' Table_put_Ret(1)[OF put, unfolded t'] split: if_splits)
qed

lemma put_table_returns:
  assumes "put_table_ok S s t" and "lock_setting_ok S" and "written S it"
  shows "\<exists>t'. Table_put it t = Ret t'"
  using Table_prepare_returns[of "rs_keys S" t it] assms(1) written_fits(2)[OF assms(2,3)]
  by (auto simp: put_table_ok_def Table_put_def returns_def)

lemma get_table: "put_table_ok S s t \<Longrightarrow> put_table_ok S s (fst (Table_get k t))"
proof -
  assume t: "put_table_ok S s t"
  have "items_at (fst (Table_get k t)) = items_at t" by (simp add: items_at_def[abs_def] Table_get_def)
  then show ?thesis using t by (simp add: put_table_ok_def put_inv_def Table_get_def)
qed

lemma get_table_views:
  "latest_of (fst (Table_get k t)) = latest_of t" "visible (fst (Table_get k t)) = visible t" "snd (Table_get k t) = visible t k"
  by (simp_all add: visible_def[abs_def] Table_get_def Table_get_item_by_ver_def fun_eq_iff)

lemma lock_serve:
  assumes "store_inv S w"
  shows "ramp_serve S c (sent_msg (rs_mp S) (rs_junk S) PUT [Item_arg it]) w =
      bind_outcome (LockBasedExecutor_put (rs_mp S) (rs_junk S) it (cl_servers w (rs_home S c), cl_conns w c))
        (\<lambda>((s, ex), out, _). Ret (w\<lparr>cl_servers := (cl_servers w)(rs_home S c := s), cl_conns := (cl_conns w)(c := ex)\<rparr>, hd out))"
    and "ramp_serve S c (sent_msg (rs_mp S) (rs_junk S) GET [Key_arg k]) w =
      bind_outcome (LockBasedExecutor_get (rs_mp S) (rs_junk S) k (cl_servers w (rs_home S c), cl_conns w c))
        (\<lambda>((s, ex), out, _). Ret (w\<lparr>cl_servers := (cl_servers w)(rs_home S c := s), cl_conns := (cl_conns w)(c := ex)\<rparr>, hd out))"
    and "ramp_serve S c (sent_msg (rs_mp S) (rs_junk S) RELEASE_LOCKS []) w =
      bind_outcome (LockBasedExecutor_release_locks (rs_mp S) (rs_junk S) (cl_servers w (rs_home S c), cl_conns w c))
        (\<lambda>((s, ex), out, _). Ret (w\<lparr>cl_servers := (cl_servers w)(rs_home S c := s), cl_conns := (cl_conns w)(c := ex)\<rparr>, hd out))"
  using LockBased_iter_sent[OF lock_setting_mp[OF store_setting[OF assms]] store_unpk[OF assms, of c]]
  by (auto simp: cluster_serve_def lock_setting_tt[OF store_setting[OF assms]] LockBasedExecutor_put_def
      LockBasedExecutor_get_def LockBasedExecutor_release_locks_def bind_outcome_assoc Let_def case_prod_beta')

lemma serve_put:
  assumes inv: "store_inv S w" and it: "written S it" and home: "key_server S (item_key it) = rs_home S c"
    and ret: "ramp_serve S c (sent_msg (rs_mp S) (rs_junk S) PUT [Item_arg it]) w = Ret (w', r)"
  defines "k \<equiv> item_key it"
  shows "r = sent_msg (rs_mp S) (rs_junk S) DONE []" and "store_inv S w'"
    and "\<not> write_locked S w k" and "read_locks S w k = 0"
    and "held w' = (held w)(c := insert k (held w c))" and "\<And>d. d \<noteq> c \<Longrightarrow> cl_conns w' d = cl_conns w d"
    and "write_locked S w' = (write_locked S w)(k := True)" and "read_locks S w' = read_locks S w"
    and "version S w' = (version S w)(k := max (version S w k) (item_ts it))"
    and "shown S w' = (shown S w)(k := if version S w k < item_ts it then it else shown S w k)"
proof -
  let ?s = "cl_servers w (rs_home S c)" and ?ex = "cl_conns w c"
  from ret[unfolded lock_serve(1)[OF inv]] obtain lm t where lm: "LockManager_write_lock (item_key it) (srv_locks ?s) = Ret lm"
    and t: "Table_put it (srv_table ?s) = Ret t" and r: "r = sent_msg (rs_mp S) (rs_junk S) DONE []"
    and w': "cl_servers w' = (cl_servers w)(rs_home S c := ?s\<lparr>srv_table := t, srv_locks := lm\<rparr>)"
      "cl_conns w' = (cl_conns w)(c := ?ex\<lparr>ex_access_keys := insort_insert (item_key it) (ex_access_keys ?ex)\<rparr>)"
    by (auto simp: LockBasedExecutor_put_def bind_outcome_Ret_iff)
  note S = store_setting[OF inv] and V = served_views[OF w']
  have tab: "put_table_ok S (rs_home S c) (srv_table ?s)" using store_table[OF inv, of "rs_home S c"] by (simp add: cl_table_def)
  have free: "\<not> lm_writer (srv_locks ?s) k \<and> lm_readers (srv_locks ?s) k = 0"
    using lm.write_lock_iff[of k "srv_locks ?s"] lm by (simp add: k_def)
  note L = lm.write_lock_state[OF lm, folded k_def] and P = Table_put_Ret(2)[OF t, folded k_def]
    and Vis = Table_put_visible[OF _ t written_fits(1)[OF S it], folded k_def]
  have pinv: "put_inv (srv_table ?s)" using tab by (simp add: put_table_ok_def)
  show "r = sent_msg (rs_mp S) (rs_junk S) DONE []" by (rule r)
  show "store_inv S w'"
    by (rule served_store_inv[OF inv w']) (use put_table[OF tab S it home t] inv home in
        \<open>auto simp: store_inv_def held_def distinct_insort_insert set_insort_insert\<close>)
  show "\<not> write_locked S w k" "read_locks S w k = 0" using free home by (simp_all add: write_locked_def read_locks_def k_def)
  show "held w' = (held w)(c := insert k (held w c))" by (simp add: V(1) held_def set_insort_insert k_def)
  show "\<And>d. d \<noteq> c \<Longrightarrow> cl_conns w' d = cl_conns w d" by (simp add: w')
  note old = home_views[where S = S and w = w and s = "rs_home S c"]
  have home: "key_server S k = rs_home S c" using home by (simp add: k_def)
  show "write_locked S w' = (write_locked S w)(k := True)" by (rule ext) (use home L in \<open>simp add: V(3) old(1)\<close>)
  show "read_locks S w' = read_locks S w" by (rule ext) (use home L in \<open>simp add: V(4) old(2)\<close>)
  show "version S w' = (version S w)(k := max (version S w k) (item_ts it))"
    by (rule ext) (use home P in \<open>simp add: V(5) old(3)\<close>)
  show "shown S w' = (shown S w)(k := if version S w k < item_ts it then it else shown S w k)"
    by (rule ext) (use home Vis[OF pinv] in \<open>simp add: V(6) old(3,4)\<close>)
qed

lemma serve_get_locked:
  assumes inv: "store_inv S w" and home: "key_server S k = rs_home S c"
    and ret: "ramp_serve S c (sent_msg (rs_mp S) (rs_junk S) GET [Key_arg k]) w = Ret (w', r)"
  shows "r = sent_msg (rs_mp S) (rs_junk S) RESULT [Item_arg (shown S w k)]" and "store_inv S w'"
    and "\<not> write_locked S w k"
    and "held w' = (held w)(c := insert k (held w c))" and "\<And>d. d \<noteq> c \<Longrightarrow> cl_conns w' d = cl_conns w d"
    and "write_locked S w' = write_locked S w" and "read_locks S w' = (read_locks S w)(k := read_locks S w k + 1)"
    and "version S w' = version S w" and "shown S w' = shown S w"
proof -
  let ?s = "cl_servers w (rs_home S c)" and ?ex = "cl_conns w c" and ?t = "fst (Table_get k (srv_table (cl_servers w (rs_home S c))))"
  from ret[unfolded lock_serve(2)[OF inv]] obtain lm where lm: "LockManager_read_lock k (srv_locks ?s) = Ret lm"
    and r: "r = sent_msg (rs_mp S) (rs_junk S) RESULT [Item_arg (snd (Table_get k (srv_table ?s)))]"
    and w': "cl_servers w' = (cl_servers w)(rs_home S c := ?s\<lparr>srv_table := ?t, srv_locks := lm\<rparr>)"
      "cl_conns w' = (cl_conns w)(c := ?ex\<lparr>ex_access_keys := insort_insert k (ex_access_keys ?ex)\<rparr>)"
    by (auto simp: LockBasedExecutor_get_def bind_outcome_Ret_iff case_prod_beta' Let_def)
  note V = served_views[OF w'] and old = home_views[where S = S and w = w and s = "rs_home S c"]
    and L = lm.read_lock_state[OF lm]
  have tab: "put_table_ok S (rs_home S c) (srv_table ?s)" using store_table[OF inv, of "rs_home S c"] by (simp add: cl_table_def)
  show "r = sent_msg (rs_mp S) (rs_junk S) RESULT [Item_arg (shown S w k)]"
    using r home by (simp add: get_table_views old)
  show "store_inv S w'"
    by (rule served_store_inv[OF inv w']) (use get_table[OF tab] inv home in
        \<open>auto simp: store_inv_def held_def distinct_insort_insert set_insort_insert\<close>)
  show "\<not> write_locked S w k" using lm.read_lock_iff[of k "srv_locks ?s"] lm home by (simp add: old)
  show "held w' = (held w)(c := insert k (held w c))" by (simp add: V(1) held_def set_insort_insert)
  show "\<And>d. d \<noteq> c \<Longrightarrow> cl_conns w' d = cl_conns w d" by (simp add: w')
  show "write_locked S w' = write_locked S w" by (rule ext) (use L in \<open>simp add: V(3) old(1)\<close>)
  show "read_locks S w' = (read_locks S w)(k := read_locks S w k + 1)" by (rule ext) (use home L in \<open>simp add: V(4) old(2)\<close>)
  show "version S w' = version S w" by (rule ext) (simp add: V(5) old(3) get_table_views)
  show "shown S w' = shown S w" by (rule ext) (simp add: V(6) old(4) get_table_views)
qed

text \<open>A release answers whenever the locks agree with their holders.\<close>

lemma held_locks:
  assumes "store_inv S w" and "locks_agree (held w) (write_locked S w) (read_locks S w)" and "k \<in> set (ex_access_keys (cl_conns w c))"
  shows "key_server S k = rs_home S c"
    and "lm_writer (srv_locks (cl_servers w (rs_home S c))) k \<or> lm_readers (srv_locks (cl_servers w (rs_home S c))) k \<noteq> 0"
proof -
  have k: "k \<in> held w c" using assms(3) by (simp add: held_def)
  then show home: "key_server S k = rs_home S c" using assms(1) by (simp add: store_inv_def)
  show "lm_writer (srv_locks (cl_servers w (rs_home S c))) k \<or> lm_readers (srv_locks (cl_servers w (rs_home S c))) k \<noteq> 0"
    using locks_agree_held[OF assms(2) k] by (simp add: home_views[OF home])
qed

lemma release_works:
  assumes inv: "store_inv S w" and agree: "locks_agree (held w) (write_locked S w) (read_locks S w)"
  obtains lm where "LockManager_unlock_all (ex_access_keys (cl_conns w c)) (srv_locks (cl_servers w (rs_home S c))) = Ret lm"
    and "lm.released (held w c) (srv_locks (cl_servers w (rs_home S c))) lm"
  using lm.unlock_list[of "ex_access_keys (cl_conns w c)" "srv_locks (cl_servers w (rs_home S c))"]
    held_locks(2)[OF inv agree] inv that
  by (auto simp: LockManager_unlock_all_def held_def store_inv_def)

lemma serve_release:
  assumes inv: "store_inv S w" and agree: "locks_agree (held w) (write_locked S w) (read_locks S w)"
    and ret: "ramp_serve S c (sent_msg (rs_mp S) (rs_junk S) RELEASE_LOCKS []) w = Ret (w', r)"
  shows "r = sent_msg (rs_mp S) (rs_junk S) DONE []" and "store_inv S w'"
    and "held w' = (held w)(c := {})" and "\<And>d. d \<noteq> c \<Longrightarrow> cl_conns w' d = cl_conns w d"
    and "write_locked S w' k = (if k \<in> held w c then False else write_locked S w k)"
    and "read_locks S w' k = (if k \<in> held w c \<and> \<not> write_locked S w k then read_locks S w k - 1 else read_locks S w k)"
    and "version S w' = version S w" and "shown S w' = shown S w"
proof -
  let ?s = "cl_servers w (rs_home S c)" and ?ex = "cl_conns w c"
  obtain lm where lm: "LockManager_unlock_all (ex_access_keys ?ex) (srv_locks ?s) = Ret lm" "lm.released (held w c) (srv_locks ?s) lm"
    by (rule release_works[OF inv agree])
  from ret[unfolded lock_serve(3)[OF inv]] lm(1)
  have r: "r = sent_msg (rs_mp S) (rs_junk S) DONE []"
    and w': "cl_servers w' = (cl_servers w)(rs_home S c := ?s\<lparr>srv_locks := lm\<rparr>)"
      "cl_conns w' = (cl_conns w)(c := ?ex\<lparr>ex_access_keys := []\<rparr>)"
    by (auto simp: LockBasedExecutor_release_locks_def bind_outcome_Ret_iff)
  note V = served_views[OF w'] and old = home_views[where S = S and w = w and s = "rs_home S c"]
  have tab: "put_table_ok S (rs_home S c) (srv_table ?s)" using store_table[OF inv, of "rs_home S c"] by (simp add: cl_table_def)
  show "r = sent_msg (rs_mp S) (rs_junk S) DONE []" by (rule r)
  show "store_inv S w'" by (rule served_store_inv[OF inv w']) (use tab inv in \<open>auto simp: store_inv_def\<close>)
  show "held w' = (held w)(c := {})" by (simp add: V(1))
  show "\<And>d. d \<noteq> c \<Longrightarrow> cl_conns w' d = cl_conns w d" by (simp add: w')
  have away: "key_server S k = rs_home S c" if "k \<in> held w c" for k using inv that by (simp add: store_inv_def)
  show "write_locked S w' k = (if k \<in> held w c then False else write_locked S w k)"
    "read_locks S w' k = (if k \<in> held w c \<and> \<not> write_locked S w k then read_locks S w k - 1 else read_locks S w k)"
    using lm(2) away[of k] by (auto simp: V(3,4) old(1,2) lm.released_def)
  show "version S w' = version S w" by (rule ext) (simp add: V(5) old(3))
  show "shown S w' = shown S w" by (rule ext) (simp add: V(6) old(4))
qed

section \<open>Requests keep the invariant\<close>

lemma lock_storeD: "lock_inv S w \<Longrightarrow> store_inv S w"
  and lock_agreeD: "lock_inv S w \<Longrightarrow> locks_agree (held w) (write_locked S w) (read_locks S w)"
  and lock_completeD: "lock_inv S w \<Longrightarrow> \<not> write_locked S w k \<Longrightarrow> complete S (version S w) (version S w k)"
  by (simp_all add: lock_inv_def)

lemma lock_requestE:
  assumes "lock_request S own i c m w"
  obtains (put) it where "own c = i" "m = sent_msg (rs_mp S) (rs_junk S) PUT [Item_arg it]" "written S it"
      "key_server S (item_key it) = rs_home S c" "above_held own i w (item_key it)"
  | (get) k where "own c = i" "m = sent_msg (rs_mp S) (rs_junk S) GET [Key_arg k]" "key_server S k = rs_home S c"
      "above_held own i w k"
  | (release) "own c = i" "m = sent_msg (rs_mp S) (rs_junk S) RELEASE_LOCKS []"
      "\<forall>k \<in> held w c. complete S (version S w) (version S w k)"
  using assms unfolding lock_request_def by blast

lemma lock_serve_inv:
  assumes inv: "lock_inv S w" and req: "lock_request S own i c m w" and ret: "ramp_serve S c m w = Ret (w', r)"
  shows "lock_inv S w'"
  using req
proof (cases rule: lock_requestE)
  case (put it)
  note P = serve_put[OF lock_storeD[OF inv] put(3,4) ret[unfolded put(2)]]
  have "complete S (version S w') (version S w' k)" if "\<not> write_locked S w' k" for k
    using that lock_completeD[OF inv, of k] by (auto simp: P(7,9) intro: complete_mono)
  then show ?thesis
    using locks_agree_write[OF lock_agreeD[OF inv] P(3,4), of c] P(2) by (simp add: lock_inv_def P(5,7,8))
next
  case (get k)
  note G = serve_get_locked[OF lock_storeD[OF inv] get(3) ret[unfolded get(2)]]
  have "k \<notin> held w c" using get(1,4) unfolding above_held_def by blast
  then show ?thesis
    using locks_agree_read[OF lock_agreeD[OF inv] G(3), of c] inv G(2) by (simp add: lock_inv_def G(4,6-8))
next
  case release
  note R = serve_release[OF lock_storeD[OF inv] lock_agreeD[OF inv] ret[unfolded release(2)]]
  have "complete S (version S w') (version S w' k)" if "\<not> write_locked S w' k" for k
    using that lock_completeD[OF inv, of k] release(3) by (auto simp: R(5,7) split: if_splits)
  moreover have "locks_agree ((held w)(c := {})) (write_locked S w') (read_locks S w')"
    by (rule locks_agree_release[OF lock_agreeD[OF inv] R(5,6)])
  ultimately show ?thesis using R(2) by (simp add: lock_inv_def R(3))
qed

lemma lock_serve_rely:
  assumes inv: "lock_inv S w" and req: "lock_request S own i c m w" and ret: "ramp_serve S c m w = Ret (w', r)"
    and j: "j \<noteq> i"
  shows "lock_rely S own j w w'"
  using req
proof (cases rule: lock_requestE)
  case (put it)
  note P = serve_put[OF lock_storeD[OF inv] put(3,4) ret[unfolded put(2)]]
  have free: "item_key it \<notin> held w d" for d by (rule locks_agree_unlocked[OF lock_agreeD[OF inv] P(3,4)])
  have mine: "d \<noteq> c" if "own d = j" for d using that put(1) j by auto
  show ?thesis unfolding lock_rely_def
    using P(6)[OF mine] free by (auto simp: P(7,9,10))
next
  case (get k)
  note G = serve_get_locked[OF lock_storeD[OF inv] get(3) ret[unfolded get(2)]]
  have mine: "d \<noteq> c" if "own d = j" for d using that get(1) j by auto
  show ?thesis unfolding lock_rely_def using G(5)[OF mine] by (simp add: G(6,8,9))
next
  case release
  note R = serve_release[OF lock_storeD[OF inv] lock_agreeD[OF inv] ret[unfolded release(2)]]
  have mine: "d \<noteq> c" if "own d = j" for d using that release(1) j by auto
  have "write_locked S w' k = write_locked S w k" if d: "own d = j" "k \<in> held w d" for d k
    using R(5)[of k] locks_agree_writer[OF lock_agreeD[OF inv] _ d(2)] mine[OF d(1)] by auto
  then show ?thesis unfolding lock_rely_def using R(4)[OF mine] by (simp add: R(7,8))
qed

lemma lock_rely_refl: "lock_rely S own i w w"
  by (simp add: lock_rely_def)

lemma lock_rely_held: "lock_rely S own i w w' \<Longrightarrow> own c = i \<Longrightarrow> held w' c = held w c"
  by (simp add: lock_rely_def held_def)

lemma lock_rely_trans:
  assumes "lock_rely S own i u v" and "lock_rely S own i v w"
  shows "lock_rely S own i u w"
  unfolding lock_rely_def
proof (intro conjI allI impI)
  fix c k assume c: "own c = i" "k \<in> held u c"
  then have "k \<in> held v c" using lock_rely_held[OF assms(1)] by simp
  then show "shown S w k = shown S u k" "version S w k = version S u k" "write_locked S w k = write_locked S u k"
    using assms c unfolding lock_rely_def by metis+
qed (use assms in \<open>auto simp: lock_rely_def intro: order_trans\<close>)

interpretation locking: thread_interference "lock_inv S" "lock_rely S own" "ramp_serve S" "cluster_peek (rs_home S)"
  "lock_request S own" for S own
  by unfold_locales
    (blast intro: lock_rely_refl lock_rely_trans lock_serve_inv lock_serve_rely)+

abbreviation lock_safe :: "'o ramp \<Rightarrow> (nat \<Rightarrow> nat) \<Rightarrow> nat \<Rightarrow> 'a prog \<Rightarrow> ('a \<Rightarrow> cluster \<Rightarrow> bool) \<Rightarrow> cluster \<Rightarrow> bool" where
  "lock_safe S own \<equiv> thread_interference.safe (lock_inv S) (lock_rely S own) (ramp_serve S) (cluster_peek (rs_home S))
     (lock_request S own)"

abbreviation lock_system_ok ::
    "'o ramp \<Rightarrow> (nat \<Rightarrow> nat) \<Rightarrow> (nat \<Rightarrow> 'a \<Rightarrow> cluster \<Rightarrow> bool) \<Rightarrow> cluster \<times> (nat \<Rightarrow> 'a prog) \<Rightarrow> bool" where
  "lock_system_ok S own \<equiv> thread_interference.system_ok (lock_inv S) (lock_rely S own) (ramp_serve S)
     (cluster_peek (rs_home S)) (lock_request S own)"

section \<open>Who waits for whom\<close>

lemma lock_request_waits:
  assumes inv: "lock_inv S w" and req: "lock_request S own i c m w" and waits: "\<not> returns (ramp_serve S c m w)"
  shows "\<exists>k d. above_held own i w k \<and> k \<in> held w d \<and> own d \<noteq> i"
  using req
proof (cases rule: lock_requestE)
  case (put it)
  obtain t where "Table_put it (srv_table (cl_servers w (rs_home S c))) = Ret t"
    using put_table_returns[OF store_table[OF lock_storeD[OF inv]] store_setting[OF lock_storeD[OF inv]] put(3)]
    by (auto simp: cl_table_def)
  then have "\<not> returns (LockManager_write_lock (item_key it) (srv_locks (cl_servers w (rs_home S c))))"
    using waits unfolding put(2) lock_serve(1)[OF lock_storeD[OF inv]]
    by (cases "LockManager_write_lock (item_key it) (srv_locks (cl_servers w (rs_home S c)))")
      (simp_all add: LockBasedExecutor_put_def)
  then have "write_locked S w (item_key it) \<or> read_locks S w (item_key it) \<noteq> 0"
    by (simp add: lm.write_lock_iff home_views[OF put(4)])
  with locks_agree_holder[OF lock_agreeD[OF inv]] obtain d where "item_key it \<in> held w d" by blast
  then show ?thesis using put(5) unfolding above_held_def by blast
next
  case (get k)
  have "\<not> returns (LockManager_read_lock k (srv_locks (cl_servers w (rs_home S c))))"
    using waits unfolding get(2) lock_serve(2)[OF lock_storeD[OF inv]]
    by (cases "LockManager_read_lock k (srv_locks (cl_servers w (rs_home S c)))")
      (simp_all add: LockBasedExecutor_get_def case_prod_beta' Let_def)
  then have "write_locked S w k" by (simp add: lm.read_lock_iff home_views[OF get(3)])
  with locks_agree_holder[OF lock_agreeD[OF inv]] obtain d where "k \<in> held w d" by blast
  then show ?thesis using get(4) unfolding above_held_def by blast
next
  case release
  have False
    by (rule release_works[OF lock_storeD[OF inv] lock_agreeD[OF inv], of c])
      (use waits in \<open>simp add: release(2) lock_serve(3)[OF lock_storeD[OF inv]] LockBasedExecutor_release_locks_def\<close>)
  then show ?thesis ..
qed

text \<open>
  Finitely many threads that lock in the order of the keys never wait in a circle: of those that
  wait, the one that asks for the largest key waits for a thread that can go on.
\<close>

lemma locking_progress:
  assumes ok: "lock_system_ok S own Q (w, ps)" and fin: "done_from n ps"
    and idle: "\<And>i x. Q i x w \<Longrightarrow> \<forall>c. own c = i \<longrightarrow> held w c = {}" and busy: "\<not> done_from 0 ps"
  shows "\<exists>st. system_step (ramp_serve S) (cluster_peek (rs_home S)) (w, ps) st"
proof (rule ccontr)
  assume stuck: "\<not> ?thesis"
  let ?U = "{i. \<nexists>x. ps i = Return x}"
  have U: "finite ?U" "?U \<noteq> {}"
    using fin busy by (auto simp: done_from_def intro!: finite_subset[of _ "{..<n}"] intro: leI)
  have no_step: "\<nexists>st. prog_step (ramp_serve S) (cluster_peek (rs_home S)) (w, ps i) st" for i
    using stuck system_stepI[of "ramp_serve S" "cluster_peek (rs_home S)" w ps i] by auto
  have inv: "lock_inv S w" using ok by (simp add: locking.system_ok_def)
  have "\<forall>i \<in> ?U. \<exists>k. above_held own i w k \<and> (\<exists>d. k \<in> held w d \<and> own d \<noteq> i)"
  proof
    fix i assume "i \<in> ?U"
    then have "\<nexists>x. ps i = Return x" by simp
    from locking.system_ok_waits[OF ok this no_step] obtain c m kk where
      "lock_request S own i c m w" "\<not> returns (ramp_serve S c m w)" by blast
    from lock_request_waits[OF inv this] show "\<exists>k. above_held own i w k \<and> (\<exists>d. k \<in> held w d \<and> own d \<noteq> i)" by blast
  qed
  then obtain \<kappa> where \<kappa>: "\<And>i. i \<in> ?U \<Longrightarrow> above_held own i w (\<kappa> i) \<and> (\<exists>d. \<kappa> i \<in> held w d \<and> own d \<noteq> i)"
    unfolding Ball_def by metis
  obtain i where i: "i \<in> ?U" "\<forall>j \<in> ?U. \<kappa> j \<le> \<kappa> i"
  proof -
    have "Max (\<kappa> ` ?U) \<in> \<kappa> ` ?U" using U by (intro Max_in) auto
    then obtain i where "i \<in> ?U" "\<kappa> i = Max (\<kappa> ` ?U)" by (metis (no_types, lifting) imageE)
    then show ?thesis using that[of i] U(1) by (simp add: Max_ge)
  qed
  obtain d where d: "\<kappa> i \<in> held w d" using \<kappa>[OF i(1)] by blast
  have "own d \<in> ?U"
  proof
    show "\<nexists>x. ps (own d) = Return x"
    proof
      assume "\<exists>x. ps (own d) = Return x"
      then obtain x where "ps (own d) = Return x" by blast
      from idle[OF locking.system_ok_Return[OF ok this]] show False using d by blast
    qed
  qed
  then have "\<kappa> i < \<kappa> (own d)" using \<kappa>[of "own d"] d unfolding above_held_def by blast
  then show False using i(2) \<open>own d \<in> ?U\<close> by (meson leD)
qed

end
