(* ===== verification/Lock_Clients.thy ===== *)
theory Lock_Clients
  imports Lock_Cluster Ramp_Clients
begin

text \<open>
  The two-phase locking handlers on such a cluster.  \<open>put_all\<close> and \<open>get_all\<close> visit their keys in
  order, so a thread only ever asks for a key above those it holds; both give back everything before
  they return; and what \<open>get_all\<close> has read is what the servers show at one moment, the one when it
  holds all its locks.
\<close>

definition lock_handler :: "'o ramp \<Rightarrow> (nat \<Rightarrow> nat) \<Rightarrow> nat \<Rightarrow> handler \<Rightarrow> bool" where
  "lock_handler S own i h \<longleftrightarrow> h_unpk h = (\<lambda>_. []) \<and> pool_connected (rs_cfg S) (h_cp h) \<and>
     (\<forall>k. rs_home S (key_com S h k) = key_server S k \<and> own (key_com S h k) = i) \<and>
     (\<forall>c \<in> set (access_coms (h_cp h)). own c = i)"

definition idle :: "(nat \<Rightarrow> nat) \<Rightarrow> nat \<Rightarrow> cluster \<Rightarrow> bool" where
  "idle own i w \<longleftrightarrow> (\<forall>c. own c = i \<longrightarrow> held w c = {})"

text \<open>The thread holds exactly the keys \<open>ks\<close>, each on its connection, and has noted these connections.\<close>

definition holding :: "'o ramp \<Rightarrow> (nat \<Rightarrow> nat) \<Rightarrow> nat \<Rightarrow> key list \<Rightarrow> handler \<Rightarrow> cluster \<Rightarrow> bool" where
  "holding S own i ks h w \<longleftrightarrow> lock_handler S own i h \<and> (\<forall>c. own c = i \<longrightarrow> held w c \<subseteq> set ks) \<and>
     (\<forall>k \<in> set ks. k \<in> held w (key_com S h k)) \<and>
     (\<forall>c. own c = i \<longrightarrow> held w c \<noteq> {} \<longrightarrow> c \<in> set (access_coms (h_cp h)))"

text \<open>
  What a read transaction answers: for each of its keys nothing or an item that a transaction put,
  and no item is older than a transaction that wrote its key and of which another key was read.
\<close>

definition lock_answer :: "'o ramp \<Rightarrow> trx \<Rightarrow> (key, item) cmap \<Rightarrow> bool" where
  "lock_answer S trx ret \<longleftrightarrow> dom ret = fst ` set (read_set trx) \<and>
     (\<forall>k it. ret k = Some it \<longrightarrow> it = Item_default \<or> item_key it = k \<and> written S it) \<and>
     (\<forall>j k it it'. ret j = Some it \<longrightarrow> ret k = Some it' \<longrightarrow> k \<in> writes_of S (item_ts it) \<longrightarrow> item_ts it \<le> item_ts it')"

lemma lock_handler_touched [simp]: "lock_handler S own i h \<Longrightarrow> lock_handler S own i (touched S k h)"
  by (auto simp: lock_handler_def touched_def)

lemma touched_coms [simp]: "set (access_coms (h_cp (touched S k h))) = insert (key_com S h k) (set (access_coms (h_cp h)))"
  by (auto simp: touched_def)

lemma lock_cp_get:
  "lock_handler S own i h \<Longrightarrow> cp_get (rs_hash S) (rs_cfg S) k h = Return (touched S k h, key_com S h k)"
  by (simp add: lock_handler_def cp_get_def ConnectionPool_get_connected touched_def)

lemma lock_handler_trx [simp]: "lock_handler S own i (h\<lparr>h_trx := trx\<rparr>) = lock_handler S own i h"
  by (simp add: lock_handler_def)

lemma lock_handler_clear [simp]:
  "lock_handler S own i h \<Longrightarrow> lock_handler S own i (h\<lparr>h_cp := ConnectionPool_clear_access_coms (h_cp h)\<rparr>)"
  by (simp add: lock_handler_def ConnectionPool_clear_access_coms_def)

lemma idle_rely: "idle own i w \<Longrightarrow> lock_rely S own i w w' \<Longrightarrow> idle own i w'"
  by (simp add: idle_def lock_rely_held)

lemma idle_holding: "idle own i w \<Longrightarrow> lock_handler S own i h \<Longrightarrow> holding S own i [] h w"
  by (simp add: idle_def holding_def)

lemma holding_rely: "holding S own i ks h w \<Longrightarrow> lock_rely S own i w w' \<Longrightarrow> holding S own i ks h w'"
  unfolding holding_def lock_handler_def by (simp add: lock_rely_held)

lemma holding_owned: "holding S own i ks h w \<Longrightarrow> k \<in> set ks \<Longrightarrow> own (key_com S h k) = i \<and> k \<in> held w (key_com S h k)"
  by (simp add: holding_def lock_handler_def)

lemma holding_keeps:
  assumes "holding S own i ks h w" and "lock_rely S own i w w'" and "k \<in> set ks"
  shows "shown S w' k = shown S w k" and "version S w' k = version S w k" and "write_locked S w' k = write_locked S w k"
  using assms(2) holding_owned[OF assms(1,3)] unfolding lock_rely_def by metis+

text \<open>Locking one more key.\<close>

lemma holding_snoc:
  assumes "holding S own i ks h w" and "held w' = (held w)(key_com S h k := insert k (held w (key_com S h k)))"
  shows "holding S own i (ks @ [k]) (touched S k h) w'"
  using assms unfolding holding_def by (auto split: if_splits)

lemma holding_above:
  assumes "holding S own i ks h w" and "sorted_wrt (<) (ks @ k # rest)"
  shows "above_held own i w k"
proof -
  have "\<forall>j \<in> set ks. j < k" using assms(2) by (simp add: sorted_wrt_append)
  then show ?thesis using assms(1) unfolding holding_def above_held_def by blast
qed

lemma rely_version: "lock_rely S own i w w' \<Longrightarrow> version S w k \<le> version S w' k"
  by (simp add: lock_rely_def)

section \<open>One exchange\<close>

lemma lock_exchange:
  assumes inv: "lock_inv S w" and h: "lock_handler S own i h"
    and req: "\<And>w'. lock_rely S own i w w' \<Longrightarrow> lock_inv S w' \<Longrightarrow>
        lock_request S own i com (sent_msg (rs_mp S) (rs_junk S) msg_type args) w'"
    and answer: "\<And>w' w'' r. lock_rely S own i w w' \<Longrightarrow> lock_inv S w' \<Longrightarrow>
        ramp_serve S com (sent_msg (rs_mp S) (rs_junk S) msg_type args) w' = Ret (w'', r) \<Longrightarrow>
        \<exists>t' vals. r = sent_msg (rs_mp S) (rs_junk S) t' vals \<and> list_all2 same_kind vals dsts \<and> R vals w''"
    and cont: "\<And>w' vals. lock_inv S w' \<Longrightarrow> R vals w' \<Longrightarrow> lock_safe S own i (f (h, vals)) Q w'"
  shows "lock_safe S own i (bind_prog (com_exchange (rs_mp S) (rs_junk S) com msg_type args dsts h) f) Q w"
  unfolding bind_exchange
proof (rule locking.safe_RequestI)
  fix w' assume w': "lock_rely S own i w w'" "lock_inv S w'"
  show "lock_request S own i com (sent_msg (rs_mp S) (rs_junk S) msg_type args) w'" by (rule req[OF w'])
  fix w'' reply
  assume s: "ramp_serve S com (sent_msg (rs_mp S) (rs_junk S) msg_type args) w' = Ret (w'', reply)" and inv': "lock_inv S w''"
  obtain t' vals where reply: "reply = sent_msg (rs_mp S) (rs_junk S) t' vals"
    and kinds: "list_all2 same_kind vals dsts" and R: "R vals w''"
    using answer[OF w' s] by blast
  have u: "h_unpk h = (\<lambda>_. [])" using h by (simp add: lock_handler_def)
  show "lock_safe S own i (let (vals, unpk) = Communicator_recv_body (rs_mp S) (h_unpk h com) (snd reply) dsts
      in f (h\<lparr>h_unpk := (h_unpk h)(com := unpk)\<rparr>, vals)) Q w''"
    unfolding reply recv_answer[OF lock_setting_mp[OF store_setting[OF lock_storeD[OF inv]]] u kinds]
    by (rule cont[OF inv' R])
qed

section \<open>Giving the locks back\<close>

lemma safe_release_all:
  assumes inv: "lock_inv S w" and perm: "order_ok perm" and hold: "holding S own i ks h w"
    and complete: "\<And>k. k \<in> set ks \<Longrightarrow> complete S (version S w) (version S w k)"
  shows "lock_safe S own i (TrxHandler_send_to_all (rs_mp S) (rs_junk S) perm RELEASE_LOCKS [] h)
    (\<lambda>h' w'. lock_handler S own i h' \<and> h_trx h' = h_trx h \<and> idle own i w') w"
proof -
  let ?coms = "in_order perm (access_coms (h_cp h))"
  let ?J = "\<lambda>ds h' w'. lock_handler S own i h' \<and> h_trx h' = h_trx h \<and>
    (\<forall>c. own c = i \<longrightarrow> held w' c \<noteq> {} \<longrightarrow> c \<in> set ?coms - set ds) \<and>
    (\<forall>c k. own c = i \<longrightarrow> k \<in> held w' c \<longrightarrow> complete S (version S w') (version S w' k))"
  have stable: "?J ds h' v'" if J: "?J ds h' v" and rely: "lock_rely S own i v v'" for ds h' v v'
  proof -
    have "complete S (version S v') (version S v' k)" if c: "own c = i" "k \<in> held v' c" for c k
    proof -
      have k: "k \<in> held v c" using lock_rely_held[OF rely c(1)] c(2) by simp
      then have "version S v' k = version S v k" using rely c(1) unfolding lock_rely_def by blast
      then show ?thesis using J c(1) k complete_mono rely_version[OF rely] by metis
    qed
    then show ?thesis using J lock_rely_held[OF rely] by auto
  qed
  have "lock_safe S own i (for_each_prog (\<lambda>com h. bind_prog (com_exchange (rs_mp S) (rs_junk S) com RELEASE_LOCKS [] [] h)
      (\<lambda>(h, _). Return h)) ?coms h) (?J ?coms) w"
  proof (rule locking.safe_for_each[where J = ?J, OF _ inv])
    show "?J [] h w" using hold complete perm unfolding holding_def by (auto dest: subsetD)
    show "?J ?coms h' v'" if "?J ?coms h' v" "lock_rely S own i v v'" for h' v v' by (rule stable[OF that])
    fix ds com rest h' v
    assume split: "?coms = ds @ com # rest" and J: "?J ds h' v" and v: "lock_inv S v"
    have com: "own com = i"
    proof -
      have "com \<in> set ?coms" by (simp add: split)
      then show ?thesis using hold perm by (simp add: holding_def lock_handler_def)
    qed
    show "lock_safe S own i (bind_prog (com_exchange (rs_mp S) (rs_junk S) com RELEASE_LOCKS [] [] h') (\<lambda>(h, _). Return h))
        (?J (ds @ [com])) v"
    proof (rule lock_exchange[where R = "\<lambda>vals. ?J (ds @ [com]) h'", OF v])
      show "lock_handler S own i h'" using J by blast
      fix v' assume rely: "lock_rely S own i v v'" and v': "lock_inv S v'"
      show "lock_request S own i com (sent_msg (rs_mp S) (rs_junk S) RELEASE_LOCKS []) v'"
        using stable[OF J rely] com unfolding lock_request_def by blast
      fix v'' r
      assume s: "ramp_serve S com (sent_msg (rs_mp S) (rs_junk S) RELEASE_LOCKS []) v' = Ret (v'', r)"
      note R = serve_release[OF lock_storeD[OF v'] lock_agreeD[OF v'] s]
      have "?J (ds @ [com]) h' v''" using stable[OF J rely] by (auto simp: R(3,7) split: if_splits)
      then show "\<exists>t' vals. r = sent_msg (rs_mp S) (rs_junk S) t' vals \<and> list_all2 same_kind vals [] \<and>
          ?J (ds @ [com]) h' v''" using R(1) by blast
    next
      fix v' vals assume "?J (ds @ [com]) h' v'"
      then show "lock_safe S own i (case (h', vals) of (h, _) \<Rightarrow> Return h) (?J (ds @ [com])) v'"
        by (simp only: prod.case) (rule locking.safe_ReturnI, rule stable)
    qed
  qed
  then show ?thesis
    unfolding TrxHandler_send_to_all_def parallel_for_each_def
    by (rule locking.safe_mono) (auto simp: idle_def)
qed

section \<open>Write transactions\<close>

text \<open>A key that the transaction has put shows its version or one that is complete.\<close>

definition put_done :: "'o ramp \<Rightarrow> timestamp \<Rightarrow> cluster \<Rightarrow> key \<Rightarrow> bool" where
  "put_done S ts w k \<longleftrightarrow> ts \<le> version S w k \<and> (version S w k = ts \<or> complete S (version S w) (version S w k))"

lemma put_done_step:
  assumes "put_done S ts w k" and "\<And>j. version S w j \<le> version S w' j" and "version S w' k = version S w k"
  shows "put_done S ts w' k"
  using assms complete_mono[of S "version S w" "version S w k" "version S w'"] unfolding put_done_def by auto

lemma safe_lock_put:
  assumes inv: "lock_inv S w" and hold: "holding S own i ks h w" and put: "\<forall>j \<in> set ks. put_done S ts w j"
    and trx: "rs_txn S ts = Some (h_trx h)" and k: "(k, vals) \<in> set (write_set (h_trx h))" and sorted: "sorted_wrt (<) (ks @ k # rest)"
  shows "lock_safe S own i (bind_prog (cp_get (rs_hash S) (rs_cfg S) k h) (\<lambda>(h, com).
      bind_prog (com_exchange (rs_mp S) (rs_junk S) com PUT [Item_arg (Item_versioned k vals ts)] [] h) (\<lambda>(h, _). Return h)))
    (\<lambda>h' w'. holding S own i (ks @ [k]) h' w' \<and> h_trx h' = h_trx h \<and> (\<forall>j \<in> set (ks @ [k]). put_done S ts w' j)) w"
proof -
  let ?it = "Item_versioned k vals ts" and ?h = "touched S k h"
  let ?P = "\<lambda>w'. holding S own i (ks @ [k]) ?h w' \<and> (\<forall>j \<in> set (ks @ [k]). put_done S ts w' j)"
  have h: "lock_handler S own i h" using hold by (simp add: holding_def)
  have it: "written S ?it" using trx k by (auto simp: written_def)
  have home: "key_server S (item_key ?it) = rs_home S (key_com S h k)" using h by (simp add: lock_handler_def)
  have own: "own (key_com S h k) = i" using h by (simp add: lock_handler_def)
  have above: "above_held own i v k" if "lock_rely S own i w v" for v
    by (rule holding_above[OF holding_rely[OF hold that] sorted])
  have new: "k \<notin> set ks" using sorted by (auto simp: sorted_wrt_append)
  have stable: "?P v'" if P: "?P v" and rely: "lock_rely S own i v v'" for v v'
  proof -
    have "put_done S ts v' j" if "j \<in> set (ks @ [k])" for j
      using P that by (intro put_done_step[of S ts v j v'] rely_version[OF rely] holding_keeps(2)[OF _ rely that]) auto
    then show ?thesis using P holding_rely[OF _ rely] by blast
  qed
  have "lock_safe S own i (bind_prog (com_exchange (rs_mp S) (rs_junk S) (key_com S h k) PUT [Item_arg ?it] [] ?h) (\<lambda>(h, _). Return h))
      (\<lambda>h' w'. holding S own i (ks @ [k]) h' w' \<and> h_trx h' = h_trx h \<and> (\<forall>j \<in> set (ks @ [k]). put_done S ts w' j)) w"
  proof (rule lock_exchange[where R = "\<lambda>_. ?P", OF inv lock_handler_touched[OF h]])
    fix v assume rely: "lock_rely S own i w v" and v: "lock_inv S v"
    show "lock_request S own i (key_com S h k) (sent_msg (rs_mp S) (rs_junk S) PUT [Item_arg ?it]) v"
      using it home own above[OF rely] unfolding lock_request_def by (metis Item_sel(9))
    fix v' r
    assume s: "ramp_serve S (key_com S h k) (sent_msg (rs_mp S) (rs_junk S) PUT [Item_arg ?it]) v = Ret (v', r)"
    note P = serve_put[OF lock_storeD[OF v] it home s, simplified]
    have grow: "version S v j \<le> version S v' j" for j by (simp add: P(9))
    have "put_done S ts v j" if "j \<in> set ks" for j
      using put that by (intro put_done_step[of S ts w j v] rely_version[OF rely] holding_keeps(2)[OF hold rely that]) auto
    then have old: "put_done S ts v' j" if "j \<in> set ks" for j
      using that new by (intro put_done_step[of S ts v j v'] grow) (auto simp: P(9))
    have "version S v' k = max (version S v k) ts" by (simp add: P(9))
    then have "put_done S ts v' k"
      using complete_mono[OF lock_completeD[OF v P(3)] grow]
      by (cases "version S v k \<le> ts") (simp_all add: put_done_def max_def)
    then have "?P v'" using old holding_snoc[OF holding_rely[OF hold rely] P(5)] by simp
    then show "\<exists>t' vals. r = sent_msg (rs_mp S) (rs_junk S) t' vals \<and> list_all2 same_kind vals [] \<and> ?P v'"
      using P(1) by blast
  next
    fix v vals assume "lock_inv S v" "?P v"
    then show "lock_safe S own i (case (?h, vals) of (h, _) \<Rightarrow> Return h)
      (\<lambda>h' w'. holding S own i (ks @ [k]) h' w' \<and> h_trx h' = h_trx h \<and> (\<forall>j \<in> set (ks @ [k]). put_done S ts w' j)) v"
      by (simp only: prod.case) (rule locking.safe_ReturnI, use stable touched_simps(1) in blast)
  qed
  then show ?thesis by (simp add: lock_cp_get[OF h])
qed

lemma safe_lock_put_all:
  assumes inv: "lock_inv S w" and h: "lock_handler S own i h" and idle: "idle own i w"
    and perms: "\<And>j. order_ok (perms j)" and trx: "rs_txn S (Timestamp_now tod) = Some (h_trx h)"
  shows "lock_safe S own i (LockBasedHandler_put_all (rs_mp S) (rs_junk S) (rs_hash S) (rs_cfg S) tod perms h)
    (\<lambda>h' w'. lock_handler S own i h' \<and> h_trx h' = h_trx h \<and> idle own i w') w"
proof -
  let ?ts = "Timestamp_now tod" and ?ws = "write_set (h_trx h)"
  let ?body = "\<lambda>w h. let k = fst w in bind_prog (cp_get (rs_hash S) (rs_cfg S) k h) (\<lambda>(h, com).
      bind_prog (com_exchange (rs_mp S) (rs_junk S) com PUT [Item_arg (Item_versioned k (snd w) ?ts)] [] h) (\<lambda>(h, _). Return h))"
  let ?J = "\<lambda>ds h' w'. holding S own i (map fst ds) h' w' \<and> h_trx h' = h_trx h \<and> (\<forall>j \<in> set (map fst ds). put_done S ?ts w' j)"
  have sorted: "sorted_wrt (<) (map fst ?ws)" and keys: "writes_of S ?ts = fst ` set ?ws"
    using store_setting[OF lock_storeD[OF inv]] trx by (auto simp: lock_setting_ok_def smap_ok_def writes_of_def)
  have put: "lock_safe S own i (for_each_prog ?body ?ws h) (?J ?ws) w"
  proof (rule locking.safe_for_each[where J = ?J, OF _ inv])
    show "?J [] h w" using idle_holding[OF idle h] by simp
    fix ds x rest h' v
    assume split: "?ws = ds @ x # rest" and J: "?J ds h' v" and v: "lock_inv S v"
    have x: "(fst x, snd x) \<in> set (write_set (h_trx h'))" using split J by simp
    have s: "sorted_wrt (<) (map fst ds @ fst x # map fst rest)" using sorted by (simp add: split)
    show "lock_safe S own i (?body x h') (?J (ds @ [x])) v"
      using safe_lock_put[OF v _ _ _ x s, of own i ?ts] J trx by (simp add: Let_def)
  next
    fix h' v v' assume J: "?J ?ws h' v" and rely: "lock_rely S own i v v'"
    have "put_done S ?ts v' j" if "j \<in> set (map fst ?ws)" for j
      using J that by (intro put_done_step[of S ?ts v j v'] rely_version[OF rely] holding_keeps(2)[OF _ rely that]) auto
    then show "?J ?ws h' v'" using J holding_rely[OF _ rely] by blast
  qed
  show ?thesis
    unfolding LockBasedHandler_put_all_def Let_def
  proof (rule locking.safe_bind[OF put[unfolded Let_def] _ inv])
    fix h' v assume J: "?J ?ws h' v" and v: "lock_inv S v"
    have fin: "complete S (version S v) ?ts" using J keys by (simp add: complete_def put_done_def)
    then have "complete S (version S v) (version S v k)" if "k \<in> set (map fst ?ws)" for k
      using J that unfolding put_done_def by metis
    moreover have "holding S own i (map fst ?ws) h' v" "h_trx h' = h_trx h" using J by simp_all
    ultimately show "lock_safe S own i (TrxHandler_send_to_all (rs_mp S) (rs_junk S) (perms 0) RELEASE_LOCKS [] h')
        (\<lambda>h' w'. lock_handler S own i h' \<and> h_trx h' = h_trx h \<and> idle own i w') v"
      using safe_release_all[OF v perms[of 0], of own i "map fst ?ws" h'] by simp
  qed
qed

section \<open>Read transactions\<close>

text \<open>What has been read is shown, and stays so while the lock is held.\<close>

definition reading :: "'o ramp \<Rightarrow> (nat \<Rightarrow> nat) \<Rightarrow> nat \<Rightarrow> key list \<Rightarrow> handler \<times> (key, item) cmap \<Rightarrow> cluster \<Rightarrow> bool" where
  "reading S own i ks st w \<longleftrightarrow> holding S own i ks (fst st) w \<and> dom (snd st) = set ks \<and>
     (\<forall>k \<in> set ks. snd st k = Some (shown S w k) \<and> \<not> write_locked S w k)"

lemma reading_rely: "reading S own i ks st w \<Longrightarrow> lock_rely S own i w w' \<Longrightarrow> reading S own i ks st w'"
  unfolding reading_def using holding_rely holding_keeps by metis

lemma safe_lock_get:
  assumes inv: "lock_inv S w" and rd: "reading S own i ks (h, ret) w" and sorted: "sorted_wrt (<) (ks @ k # rest)"
  shows "lock_safe S own i (bind_prog (cp_get (rs_hash S) (rs_cfg S) k h) (\<lambda>(h, com).
      get_into (rs_mp S) (rs_junk S) com GET [Key_arg k] k (h, ret)))
    (\<lambda>st w'. reading S own i (ks @ [k]) st w' \<and> h_trx (fst st) = h_trx h) w"
proof -
  let ?h = "touched S k h"
  have hold: "holding S own i ks h w" using rd by (simp add: reading_def)
  then have h: "lock_handler S own i h" by (simp add: holding_def)
  have home: "key_server S k = rs_home S (key_com S h k)" and own: "own (key_com S h k) = i"
    using h by (simp_all add: lock_handler_def)
  have new: "k \<notin> set ks" using sorted by (auto simp: sorted_wrt_append)
  have "lock_safe S own i (get_into (rs_mp S) (rs_junk S) (key_com S h k) GET [Key_arg k] k (?h, ret))
    (\<lambda>st w'. reading S own i (ks @ [k]) st w' \<and> h_trx (fst st) = h_trx h) w"
    unfolding get_into_eq
  proof (rule lock_exchange[where R = "\<lambda>vals v. \<exists>it. vals = [Item_arg it] \<and> reading S own i (ks @ [k]) (?h, ret(k \<mapsto> it)) v",
        OF inv lock_handler_touched[OF h]])
    fix v assume rely: "lock_rely S own i w v" and v: "lock_inv S v"
    show "lock_request S own i (key_com S h k) (sent_msg (rs_mp S) (rs_junk S) GET [Key_arg k]) v"
      using home own holding_above[OF holding_rely[OF hold rely] sorted] unfolding lock_request_def by blast
    fix v' r
    assume s: "ramp_serve S (key_com S h k) (sent_msg (rs_mp S) (rs_junk S) GET [Key_arg k]) v = Ret (v', r)"
    note G = serve_get_locked[OF lock_storeD[OF v] home s]
    have "reading S own i (ks @ [k]) (?h, ret(k \<mapsto> shown S v k)) v'"
      using reading_rely[OF rd rely] holding_snoc[OF holding_rely[OF hold rely] G(4)] new G(3)
      by (auto simp: reading_def G(6,9))
    then show "\<exists>t' vals. r = sent_msg (rs_mp S) (rs_junk S) t' vals \<and>
        list_all2 same_kind vals [Item_arg (snd (cmap_index ret k Item_default))] \<and>
        (\<exists>it. vals = [Item_arg it] \<and> reading S own i (ks @ [k]) (?h, ret(k \<mapsto> it)) v')"
      using G(1) by (intro exI[of _ RESULT] exI[of _ "[Item_arg (shown S v k)]"]) auto
  next
    fix v vals assume "\<exists>it. vals = [Item_arg it] \<and> reading S own i (ks @ [k]) (?h, ret(k \<mapsto> it)) v"
    then obtain it where vals: "vals = [Item_arg it]" and R: "reading S own i (ks @ [k]) (?h, ret(k \<mapsto> it)) v" by blast
    show "lock_safe S own i (case (?h, vals) of (h, vals) \<Rightarrow>
        Return (h, (fst (cmap_index ret k Item_default))(k \<mapsto> arg_item (vals ! 0))))
        (\<lambda>st w'. reading S own i (ks @ [k]) st w' \<and> h_trx (fst st) = h_trx h) v"
      using reading_rely[OF R] by (simp add: vals)
  qed
  then show ?thesis by (simp add: lock_cp_get[OF h])
qed

lemma shown_item:
  assumes "store_inv S w"
  shows "shown S w k = Item_default \<or> item_key (shown S w k) = k \<and> written S (shown S w k)"
    and "item_ts (shown S w k) = version S w k"
proof -
  have t: "put_table_ok S (key_server S k) (cl_table w (key_server S k))" by (rule store_table[OF assms])
  then show "shown S w k = Item_default \<or> item_key (shown S w k) = k \<and> written S (shown S w k)"
    using get_by_ver_cases[of k "latest_of (cl_table w (key_server S k)) k" "cl_table w (key_server S k)"]
    unfolding shown_def visible_eq put_table_ok_def by blast
  show "item_ts (shown S w k) = version S w k"
    using t put_inv_visible_ts unfolding shown_def version_def put_table_ok_def by blast
qed

text \<open>At the moment at which all keys are locked, the items read are an answer.\<close>

lemma reading_answer:
  assumes inv: "lock_inv S w" and rd: "reading S own i (map fst (read_set trx)) st w"
  shows "lock_answer S trx (snd st)"
proof -
  have ret: "it = shown S w k \<and> \<not> write_locked S w k" if "snd st k = Some it" for k it
  proof -
    have "k \<in> dom (snd st)" using that by blast
    then show ?thesis using rd that by (auto simp: reading_def)
  qed
  note shown = shown_item[OF lock_storeD[OF inv]]
  have "item_ts it \<le> item_ts it'" if "snd st j = Some it" "snd st k = Some it'" "k \<in> writes_of S (item_ts it)" for j k it it'
    using lock_completeD[OF inv, of j] ret[OF that(1)] ret[OF that(2)] that(3) shown(2) by (auto simp: complete_def)
  moreover have "dom (snd st) = fst ` set (read_set trx)" using rd by (simp add: reading_def)
  moreover have "it = Item_default \<or> item_key it = k \<and> written S it" if "snd st k = Some it" for k it
    using ret[OF that] shown(1)[of k] by simp
  ultimately show ?thesis unfolding lock_answer_def by blast
qed

lemma safe_lock_get_all:
  assumes inv: "lock_inv S w" and h: "lock_handler S own i h" and idle: "idle own i w"
    and perms: "\<And>j. order_ok (perms j)" and reads: "smap_ok (read_set (h_trx h))"
  shows "lock_safe S own i (LockBasedHandler_get_all (rs_mp S) (rs_junk S) (rs_hash S) (rs_cfg S) perms h)
    (\<lambda>st w'. lock_handler S own i (fst st) \<and> h_trx (fst st) = h_trx h \<and> idle own i w' \<and> lock_answer S (h_trx h) (snd st)) w"
proof -
  let ?ks = "map fst (read_set (h_trx h))"
  let ?body = "\<lambda>k (h, ret). bind_prog (cp_get (rs_hash S) (rs_cfg S) k h) (\<lambda>(h, com).
      get_into (rs_mp S) (rs_junk S) com GET [Key_arg k] k (h, ret))"
  let ?J = "\<lambda>ks st w'. reading S own i ks st w' \<and> h_trx (fst st) = h_trx h"
  have get: "lock_safe S own i (for_each_prog ?body ?ks (h, Map.empty)) (?J ?ks) w"
  proof (rule locking.safe_for_each[where J = ?J, OF _ inv])
    show "?J [] (h, Map.empty) w" using idle_holding[OF idle h] by (simp add: reading_def)
    fix ks k rest st v
    assume split: "?ks = ks @ k # rest" and J: "?J ks st v" and v: "lock_inv S v"
    have "sorted_wrt (<) (ks @ k # rest)" using reads by (simp add: smap_ok_def flip: split)
    then show "lock_safe S own i (?body k st) (?J (ks @ [k])) v"
      using safe_lock_get[OF v, of own i ks "fst st" "snd st" k rest] J by (simp add: case_prod_beta')
  qed (use reading_rely in blast)
  show ?thesis
    unfolding LockBasedHandler_get_all_def
  proof (rule locking.safe_bind[OF get _ inv])
    fix st v assume J: "?J ?ks st v" and v: "lock_inv S v"
    have ans: "lock_answer S (h_trx h) (snd st)" by (rule reading_answer[OF v]) (use J in blast)
    have hold: "holding S own i ?ks (fst st) v" and "\<forall>k \<in> set ?ks. \<not> write_locked S v k" using J by (auto simp: reading_def)
    then have "complete S (version S v) (version S v k)" if "k \<in> set ?ks" for k using lock_completeD[OF v] that by blast
    from safe_release_all[OF v perms[of 0] hold this]
    have "lock_safe S own i (bind_prog (TrxHandler_send_to_all (rs_mp S) (rs_junk S) (perms 0) RELEASE_LOCKS [] (fst st))
        (\<lambda>h. Return (h, snd st)))
        (\<lambda>st w'. lock_handler S own i (fst st) \<and> h_trx (fst st) = h_trx h \<and> idle own i w' \<and> lock_answer S (h_trx h) (snd st)) v"
      by (rule locking.safe_bind[OF _ _ v]) (use J ans idle_rely in auto)
    then show "lock_safe S own i (case st of (h, ret) \<Rightarrow>
        bind_prog (TrxHandler_send_to_all (rs_mp S) (rs_junk S) (perms 0) RELEASE_LOCKS [] h) (\<lambda>h. Return (h, ret)))
        (\<lambda>st w'. lock_handler S own i (fst st) \<and> h_trx (fst st) = h_trx h \<and> idle own i w' \<and> lock_answer S (h_trx h) (snd st)) v"
      by (simp add: case_prod_beta')
  qed
qed

section \<open>Client threads\<close>

definition lock_thread_ok :: "'o ramp \<Rightarrow> (nat \<Rightarrow> nat) \<Rightarrow> nat \<Rightarrow> trx list \<Rightarrow> handler \<times> (key, item) cmap list \<Rightarrow> cluster \<Rightarrow> bool" where
  "lock_thread_ok S own i trxs st w \<longleftrightarrow> lock_handler S own i (fst st) \<and> idle own i w \<and>
     list_all2 (lock_answer S) (filter (\<lambda>trx. read_set trx \<noteq> []) trxs) (snd st)"

lemma lock_thread_ok_rely: "lock_thread_ok S own i trxs st w \<Longrightarrow> lock_rely S own i w w' \<Longrightarrow> lock_thread_ok S own i trxs st w'"
  by (auto simp: lock_thread_ok_def intro: idle_rely)

lemma safe_lock_trx:
  assumes inv: "lock_inv S w" and st: "lock_thread_ok S own i past st w" and perms: "\<And>j. order_ok (perms j)"
    and trx: "write_set trx \<noteq> [] \<Longrightarrow> rs_txn S (Timestamp_now tod) = Some trx" and reads: "smap_ok (read_set trx)"
  shows "lock_safe S own i (ClientThread_trx (LockBasedHandler_put_all (rs_mp S) (rs_junk S) (rs_hash S) (rs_cfg S) tod perms)
      (LockBasedHandler_get_all (rs_mp S) (rs_junk S) (rs_hash S) (rs_cfg S) perms) trx st)
    (lock_thread_ok S own i (past @ [trx])) w"
proof -
  let ?put = "LockBasedHandler_put_all (rs_mp S) (rs_junk S) (rs_hash S) (rs_cfg S) tod perms"
  let ?get = "LockBasedHandler_get_all (rs_mp S) (rs_junk S) (rs_hash S) (rs_cfg S) perms"
  let ?h = "fst st\<lparr>h_trx := trx\<rparr>" and ?A = "list_all2 (lock_answer S)" and ?F = "filter (\<lambda>trx. read_set trx \<noteq> [])"
  let ?P = "\<lambda>h w. lock_handler S own i h \<and> h_trx h = trx \<and> idle own i w"
  have h: "lock_handler S own i ?h" and idle: "idle own i w" and rets: "?A (?F past) (snd st)"
    using st by (auto simp: lock_thread_ok_def)
  have 1: "lock_safe S own i (if write_set (h_trx ?h) \<noteq> [] then ?put ?h else Return ?h) ?P w"
    using safe_lock_put_all[OF inv h idle perms, of tod] trx idle h idle_rely by auto
  have 2: "lock_safe S own i (if read_set (h_trx h) \<noteq> [] then bind_prog (?get h) (\<lambda>(h, ret). Return (h, snd st @ [ret]))
      else Return (h, snd st)) (lock_thread_ok S own i (past @ [trx])) v" if P: "?P h v" and v: "lock_inv S v" for h v
  proof (cases "read_set trx = []")
    case True
    then show ?thesis using P rets idle_rely by (auto simp: lock_thread_ok_def)
  next
    case False
    have "lock_safe S own i (bind_prog (?get h) (\<lambda>(h, ret). Return (h, snd st @ [ret]))) (lock_thread_ok S own i (past @ [trx])) v"
      by (rule locking.safe_bind[OF safe_lock_get_all[OF v _ _ perms] _ v])
        (use P reads rets False idle_rely in \<open>auto simp: lock_thread_ok_def list_all2_appendI case_prod_beta'\<close>)
    then show ?thesis using P False by simp
  qed
  have 3: "lock_safe S own i (case y of (h, rets) \<Rightarrow> Return (h\<lparr>h_cp := ConnectionPool_clear_access_coms (h_cp h)\<rparr>, rets))
      (lock_thread_ok S own i (past @ [trx])) v" if "lock_thread_ok S own i (past @ [trx]) y v" for y v
    using that idle_rely by (cases y) (auto simp: lock_thread_ok_def)
  show ?thesis
    unfolding ClientThread_trx_def case_prod_beta' Let_def
    by (rule locking.safe_bind[OF 1 locking.safe_bind[OF 2[unfolded case_prod_beta'] 3[unfolded case_prod_beta']] inv])
qed

lemma safe_lock_thread:
  assumes inv: "lock_inv S w" and st: "lock_thread_ok S own i past st w" and trxs: "trxs_ok S tod j trxs"
    and perms: "\<And>j l. order_ok (perms j l)"
  shows "lock_safe S own i (ClientThread_run
      (\<lambda>j. LockBasedHandler_put_all (rs_mp S) (rs_junk S) (rs_hash S) (rs_cfg S) (tod j) (perms j))
      (\<lambda>j. LockBasedHandler_get_all (rs_mp S) (rs_junk S) (rs_hash S) (rs_cfg S) (perms j)) j trxs st)
    (lock_thread_ok S own i (past @ trxs)) w"
  using inv st trxs
proof (induction trxs arbitrary: j st w past)
  case Nil
  then show ?case using lock_thread_ok_rely[of S own i past st w] by simp
next
  case (Cons trx trxs)
  note T = trxs_ok_Cons[OF Cons.prems(3)]
  show ?case
    unfolding ClientThread_run.simps
  proof (rule locking.safe_bind[OF safe_lock_trx[OF Cons.prems(1,2) perms T(1,2)] _ Cons.prems(1)])
    fix y u assume y: "lock_thread_ok S own i (past @ [trx]) y u" and u: "lock_inv S u"
    from Cons.IH[OF u y T(4)]
    show "lock_safe S own i (ClientThread_run
      (\<lambda>j. LockBasedHandler_put_all (rs_mp S) (rs_junk S) (rs_hash S) (rs_cfg S) (tod j) (perms j))
      (\<lambda>j. LockBasedHandler_get_all (rs_mp S) (rs_junk S) (rs_hash S) (rs_cfg S) (perms j)) (Suc j) trxs y)
      (lock_thread_ok S own i (past @ trx # trxs)) u" by simp
  qed
qed

end
