(* ===== verification/Store_Theorems.thy ===== *)
theory Store_Theorems
  imports Ramp_Theorems
begin

text \<open>
  What a single server and its building blocks promise: the register that \<open>put\<close> and \<open>get\<close>
  implement, the cache of committed items and its remote readers, buffers and messages.
\<close>

section \<open>Puts implement a last-writer-wins register\<close>

text \<open>The abstract register: a key holds the item with the largest timestamp put so far.\<close>

definition register_put :: "item \<Rightarrow> (key \<Rightarrow> item) \<Rightarrow> key \<Rightarrow> item" where
  "register_put it reg =
     (if item_ts (reg (item_key it)) < item_ts it then reg(item_key it := it) else reg)"

lemma Table_put_register:
  assumes "put_inv t" and "Table_put it t = Ret t'" and "Timestamp_default < item_ts it"
  shows "put_inv t' \<and> visible t' = register_put it (visible t)"
  using Table_put_inv[OF assms] Table_put_visible[OF assms] put_inv_visible_ts[OF assms(1)]
  by (simp add: register_put_def fun_eq_iff)

lemma fold_put_register:
  assumes "put_inv t" and "fold_outcome Table_put its t = Ret t'" and "\<forall>it \<in> set its. Timestamp_default < item_ts it"
  shows "visible t' = fold register_put its (visible t)"
  using assms
proof (induction its arbitrary: t)
  case (Cons it its)
  obtain t1 where t1: "Table_put it t = Ret t1" "fold_outcome Table_put its t1 = Ret t'"
    using Cons.prems(2) by (auto simp: bind_outcome_Ret_iff)
  have "put_inv t1 \<and> visible t1 = register_put it (visible t)"
    using Cons.prems by (intro Table_put_register[OF _ t1(1)]) auto
  then show ?case using Cons.IH[OF _ t1(2)] Cons.prems(3) by simp
qed simp

lemma Table_new_Ret:
  assumes "Table_new a m = Ret t"
  shows "items_at t ts = []" and "latest_of t k = Timestamp_default" and "put_inv t" and "visible t k = Item_default"
proof -
  show its: "items_at t ts = []" for ts using assms by (auto simp: Table_new_def items_at_def bind_outcome_Ret_iff)
  show "latest_of t k = Timestamp_default" using assms by (auto simp: Table_new_def latest_of_def bind_outcome_Ret_iff)
  then have l: "latest_of t k = Timestamp_default" for k
    using assms by (auto simp: Table_new_def latest_of_def bind_outcome_Ret_iff)
  show "put_inv t" by (simp add: put_inv_def its l)
  show "visible t k = Item_default" by (simp add: visible_eq get_item_by_ver_items_at its)
qed

text \<open>C11: Driven by puts alone, as the locking mode drives it, a table is a last-writer-wins register: after
  any sequence of puts a get answers, for each key, the first put item with the largest timestamp,
  and an empty item if the key was never put.\<close>

theorem puts_are_a_register:
  assumes "Table_new a m = Ret t0" and "fold_outcome Table_put its t0 = Ret t"
    and "\<forall>it \<in> set its. Timestamp_default < item_ts it"
  shows "snd (Table_get k t) = fold register_put its (\<lambda>_. Item_default) k"
proof -
  have "visible t0 = (\<lambda>_. Item_default)" using Table_new_Ret(4)[OF assms(1)] by (simp add: fun_eq_iff)
  then show ?thesis
    using fold_put_register[OF Table_new_Ret(3)[OF assms(1)] assms(2,3)] by (simp add: visible_def[symmetric])
qed

definition sample_puts :: "item list" where
  "sample_puts = [Item_versioned ''1'' [] (Timestamp 2 0), Item_versioned ''1'' [] (Timestamp 1 0)]"

lemma Table_prepare_new_key:
  assumes "ci_entries (tbl_committed t) (item_key it) = None" and "ci_unused (tbl_committed t) = a # u"
  shows "\<exists>t'. Table_prepare it t = Ret t' \<and> tbl_committed t' = (tbl_committed t)\<lparr>ci_unused := u,
    ci_entries := (ci_entries (tbl_committed t))(item_key it \<mapsto> Some a)\<rparr>"
  using assms
  by (cases "tbl_items t (item_ts it)")
    (simp_all add: Table_prepare_def CommittedItems_invalidate_def cmap_index_def cmap_assign_def cqueue_try_pop_def)

lemma Table_put_new_key:
  assumes "ci_entries (tbl_committed t) (item_key it) = None" and "ci_unused (tbl_committed t) = a # u"
  shows "\<exists>t'. Table_put it t = Ret t' \<and> ci_entries (tbl_committed t') (item_key it) = Some (Some a)"
  using Table_prepare_new_key[OF assms] by (auto simp: Table_put_def)

lemma Table_put_old_key:
  assumes "ci_entries (tbl_committed t) (item_key it) = Some (Some a)"
  shows "\<exists>t'. Table_put it t = Ret t' \<and> ci_entries (tbl_committed t') (item_key it) = Some (Some a)"
  using assms
  by (auto simp: Table_put_def Table_prepare_def CommittedItems_invalidate_def cmap_index_def cmap_assign_def
      Entry_invalidate_eq split: option.splits)

theorem puts_are_a_register_witness:
  "\<exists>t. fold_outcome Table_put sample_puts (srv_table sample_server) = Ret t \<and>
     snd (Table_get ''1'' t) = Item_versioned ''1'' [] (Timestamp 2 0)"
proof -
  let ?t0 = "srv_table sample_server"
  have new: "Table_new (Some 0) (\<lambda>_. 0) = Ret ?t0"
    by (rule Server_new_Ret(5)[OF sample_server_new])
  have ci: "CommittedItems_new (Some 0) (\<lambda>_. 0) = Ret (tbl_committed ?t0)"
    by (rule Server_new_Ret(3)[OF sample_server_new])
  from CommittedItems_new_inv[OF ci] have e: "ci_entries (tbl_committed ?t0) = Map.empty"
    "length (ci_unused (tbl_committed ?t0)) = ENTRY_NUM" by blast+
  then obtain b u where u: "ci_unused (tbl_committed ?t0) = b # u"
    by (cases "ci_unused (tbl_committed ?t0)") (simp_all add: ENTRY_NUM_def)
  obtain t1 where t1: "Table_put (Item_versioned ''1'' [] (Timestamp 2 0)) ?t0 = Ret t1"
    "ci_entries (tbl_committed t1) ''1'' = Some (Some b)"
    using Table_put_new_key[OF _ u, of "Item_versioned ''1'' [] (Timestamp 2 0)"] e(1) by auto
  obtain t where t: "Table_put (Item_versioned ''1'' [] (Timestamp 1 0)) t1 = Ret t"
    using Table_put_old_key[of t1 "Item_versioned ''1'' [] (Timestamp 1 0)"] t1(2) by auto
  have f: "fold_outcome Table_put sample_puts ?t0 = Ret t" by (simp add: sample_puts_def t1 t)
  have "snd (Table_get ''1'' t) = fold register_put sample_puts (\<lambda>_. Item_default) ''1''"
    by (rule puts_are_a_register[OF new f]) (simp add: sample_puts_def Timestamp_default_def)
  moreover have "fold register_put sample_puts (\<lambda>_. Item_default) ''1'' = Item_versioned ''1'' [] (Timestamp 2 0)"
    by (simp add: sample_puts_def register_put_def Timestamp_default_def)
  ultimately show ?thesis using f by auto
qed

section \<open>The cache and its limits\<close>

text \<open>C38: Once all entries of the cache are in use, the first prepare of a further key leaves a null pointer
  behind, and the next operation on that key, a prepare, a put or a lookup of its address, follows it:
  the server is gone.\<close>

theorem cache_exhaustion_crashes:
  assumes "ci_unused (tbl_committed t) = []" and "ci_entries (tbl_committed t) (item_key it) = None"
    and "item_key it' = item_key it"
  shows "\<exists>t'. Table_prepare it t = Ret t' \<and> Table_prepare it' t' = Dies Null_pointer \<and>
    Table_put it' t' = Dies Null_pointer \<and>
    CommittedItems_get_item_addr mp junk (item_key it) (tbl_committed t') = Dies Null_pointer"
  using assms
  by (auto simp: Table_put_def Table_prepare_def CommittedItems_invalidate_def cmap_index_def cmap_assign_def
      cqueue_try_pop_def CommittedItems_get_item_addr_def split: option.splits)

definition full_table :: table where
  "full_table = (srv_table sample_server)\<lparr>tbl_committed := (tbl_committed (srv_table sample_server))\<lparr>ci_unused := []\<rparr>\<rparr>"

theorem cache_exhaustion_crashes_witness:
  "\<exists>t'. Table_prepare sample_item full_table = Ret t' \<and> Table_prepare sample_item t' = Dies Null_pointer \<and>
     Table_put sample_item t' = Dies Null_pointer \<and>
     CommittedItems_get_item_addr sample_mp (0, 0) (item_key sample_item) (tbl_committed t') = Dies Null_pointer"
proof (rule cache_exhaustion_crashes)
  have "CommittedItems_new (Some 0) (\<lambda>_. 0) = Ret (tbl_committed (srv_table sample_server))"
    by (rule Server_new_Ret(3)[OF sample_server_new])
  from CommittedItems_new_inv[OF this] have "ci_entries (tbl_committed (srv_table sample_server)) = Map.empty" by blast
  then show "ci_entries (tbl_committed full_table) (item_key sample_item) = None" by (simp add: full_table_def)
qed (simp_all add: full_table_def)

text \<open>C39: An item whose packed form does not fit an entry takes the server down when it is committed, in every
  mode that commits, although no reader ever sees it.\<close>

theorem oversized_commit_exits:
  assumes "tbl_items t ts = Some [it]" and "latest_of t (item_key it) < ts"
    and "ci_entries (tbl_committed t) (item_key it) = Some (Some a)"
    and "ENTRY_SIZE < Entry_need mp it" and "length (mp_pack mp (Item_arg it)) < 2 ^ 63"
  shows "Table_commit mp junk ts t = Dies Exit_failure"
  using assms(2) Entry_update_dies[OF assms(4,5), of junk a "ci_mem (tbl_committed t)"]
  by (auto simp: Table_commit_def assms(1,3) Table_commit_item_def cmap_index_def latest_of_def
      CommittedItems_update_def split: option.splits)

definition big_item :: item where
  "big_item = Item_versioned ''1'' [(''f'', replicate 1300 0)] (Timestamp 1 0)"

definition big_table :: table where
  "big_table = (srv_table sample_server)\<lparr>tbl_items := [Timestamp 1 0 \<mapsto> [big_item]],
     tbl_committed := (tbl_committed (srv_table sample_server))\<lparr>ci_entries := [''1'' \<mapsto> Some 0]\<rparr>\<rparr>"

lemma length_enc_bytes: "length (enc_list enc_byte bs) = 2 * length bs + 1"
  by (induction bs) (auto simp: enc_list_def enc_byte_def)

lemma length_enc_string: "length (enc_string s) = 2 * length s + 1"
  by (induction s) (auto simp: enc_string_def enc_list_def enc_byte_def)

lemma big_item_length: "length (mp_pack sample_mp (Item_arg big_item)) = 2617"
  by (simp add: big_item_def sample_mp_def enc_item_def enc_pair_def enc_list_def[of "enc_pair _ _"]
      length_enc_string enc_list_def[of enc_string] length_enc_bytes
      enc_ts_def enc_int_def to_string_int_def dec_digits.simps[of 0] dec_digits.simps[of "Suc 0"])

theorem oversized_commit_exits_witness:
  "Table_commit sample_mp (0, 0) (Timestamp 1 0) big_table = Dies Exit_failure"
proof (rule oversized_commit_exits)
  show "ENTRY_SIZE < Entry_need sample_mp big_item" "length (mp_pack sample_mp (Item_arg big_item)) < 2 ^ 63"
    using big_item_length by (simp_all add: Entry_need_def ENTRY_SIZE_def)
  show "tbl_items big_table (Timestamp 1 0) = Some [big_item]" by (simp add: big_table_def)
  have "tbl_latest (srv_table sample_server) = Map.empty" by (rule Server_new_Ret(2)[OF sample_server_new])
  then show "latest_of big_table (item_key big_item) < Timestamp 1 0"
    by (simp add: big_table_def latest_of_def Timestamp_default_def)
  show "ci_entries (tbl_committed big_table) (item_key big_item) = Some (Some 0)"
    by (simp add: big_table_def big_item_def)
qed

end
