(* ===== verification/Lock_Theorems.thy ===== *)
theory Lock_Theorems
  imports Lock_Clients Ramp_Theorems Store_Theorems
begin

text \<open>
  Two-phase locking from end to end: fresh servers, connected handlers with connections of their own,
  any number of client threads with any interleaving of their messages.
\<close>

section \<open>Start states\<close>

lemma lock_inv_fresh:
  assumes S: "lock_setting_ok S" and w: "fresh_cluster w"
  shows "lock_inv S w"
proof -
  have held: "held w c = {}" for c using w by (simp add: fresh_cluster_def held_def)
  have srv: "srv_locks (cl_servers w s) = LockManager_new \<and> put_table_ok S s (cl_table w s)" for s
  proof -
    obtain a m where "Server_new a m = Ret (cl_servers w s)" using w unfolding fresh_cluster_def by blast
    note N = Server_new_Ret[OF this]
    have "put_inv (cl_table w s)" using Table_new_Ret(3)[OF N(5)] by (simp add: cl_table_def)
    moreover have "cache_room (rs_keys S) (tbl_committed (cl_table w s))"
      using CommittedItems_new_room[OF N(3)] S by (simp add: lock_setting_ok_def cl_table_def)
    ultimately show ?thesis using N(4) fresh_latest(1)[OF w] by (simp add: put_table_ok_def)
  qed
  have "writes_of S Timestamp_default = {}"
    using S by (auto simp: writes_of_def lock_setting_ok_def split: option.splits)
  then have "complete S ver Timestamp_default" for ver by (simp add: complete_def)
  then show ?thesis
    using S w srv fresh_latest(2)[OF w] held
    by (auto simp: lock_inv_def store_inv_def locks_agree_def fresh_cluster_def write_locked_def read_locks_def
        version_def lm_writer_def lm_readers_def LockManager_new_def)
qed

lemma lock_start_ok:
  assumes S: "lock_setting_ok S" and w: "fresh_cluster w0" and h: "\<And>i. lock_handler S own i (h i)"
    and trxs: "\<And>i. trxs_ok S (tod i) 0 (trxs i)" and perms: "\<And>i j n. order_ok (perms i j n)"
  shows "lock_system_ok S own (\<lambda>i. lock_thread_ok S own i (trxs i)) (w0, \<lambda>i. ramp_thread S (tod i) (perms i) (trxs i) (h i))"
proof -
  have inv: "lock_inv S w0" by (rule lock_inv_fresh[OF S w])
  have "lock_thread_ok S own i [] (h i, []) w0" for i
    using h w by (simp add: lock_thread_ok_def idle_def held_def fresh_cluster_def)
  from safe_lock_thread[OF inv this trxs perms]
  have "lock_safe S own i (ramp_thread S (tod i) (perms i) (trxs i) (h i)) (lock_thread_ok S own i (trxs i)) w0" for i
    by (simp add: client_thread_def lock_setting_tt[OF S])
  then show ?thesis using inv by (simp add: locking.system_ok_def)
qed

lemma lock_system_reach:
  assumes "lock_setting_ok S" and "fresh_cluster w0" and "\<forall>i. lock_handler S own i (h i)"
    and "\<forall>i. trxs_ok S (tod i) 0 (trxs i)" and "\<forall>i j n. order_ok (perms i j n)"
    and "ramp_steps S (w0, \<lambda>i. ramp_thread S (tod i) (perms i) (trxs i) (h i)) (w, ps)"
  shows "lock_system_ok S own (\<lambda>i. lock_thread_ok S own i (trxs i)) (w, ps)"
  by (rule locking.system_ok_reach[OF assms(6) lock_start_ok]) (use assms(1-5) in auto)

lemma threads_done_from:
  assumes "\<forall>i \<ge> n. trxs i = []"
  shows "done_from n (\<lambda>i. ramp_thread S (tod i) (perms i) (trxs i) (h i))"
  using assms by (simp add: done_from_def client_thread_def)

lemma lock_run_goes_on:
  assumes "lock_system_ok S own (\<lambda>i. lock_thread_ok S own i (trxs i)) st" and "done_from n (snd st)" and "\<not> done_from 0 (snd st)"
  shows "\<exists>st'. system_step (ramp_serve S) (cluster_peek (rs_home S)) st st'"
proof -
  have "\<exists>st'. system_step (ramp_serve S) (cluster_peek (rs_home S)) (fst st, snd st) st'"
    by (rule locking_progress[where own = own and Q = "\<lambda>i. lock_thread_ok S own i (trxs i)" and n = n])
      (use assms in \<open>auto simp: lock_thread_ok_def idle_def\<close>)
  then show ?thesis by simp
qed

lemma reach_done_from:
  assumes "(system_step serve peek)\<^sup>*\<^sup>* st st'" and "done_from n (snd st)"
  shows "done_from n (snd st')"
  using assms
proof (induction rule: rtranclp_induct)
  case (step y z)
  then show ?case using system_step_done_from[of serve peek "fst y" "snd y" "fst z" "snd z" n] by simp
qed

section \<open>The sample\<close>

text \<open>Thread \<open>i\<close> uses connection \<open>i\<close>.\<close>

lemma sample_lock_args:
  "lock_setting_ok (sample_ramp TWO_PHASE_LOCKING)" "lock_handler (sample_ramp TWO_PHASE_LOCKING) id i (sample_handler i)"
  "trxs_ok (sample_ramp TWO_PHASE_LOCKING) (sample_tod i) 0 (sample_trxs i)" "\<forall>i \<ge> 2. sample_trxs i = []"
proof -
  have "card {''1'', ''2''} \<le> ENTRY_NUM" by (simp add: ENTRY_NUM_def)
  then show "lock_setting_ok (sample_ramp TWO_PHASE_LOCKING)"
    by (auto simp: lock_setting_ok_def sample_ramp_def sample_write_eq smap_ok_def Timestamp_default_def split: if_splits)
  show "lock_handler (sample_ramp TWO_PHASE_LOCKING) id i (sample_handler i)"
    by (simp add: lock_handler_def sample_handler_def TrxHandler_new_def sample_ramp_def sample_cfg_def
        pool_connected_def key_server_def com_of_def)
qed (use sample_args in \<open>simp_all add: sample_trxs_def\<close>)

lemma sample_lock_run:
  "\<exists>w ps. ramp_steps (sample_ramp TWO_PHASE_LOCKING) (sample_cluster TWO_PHASE_LOCKING, sample_threads TWO_PHASE_LOCKING) (w, ps) \<and>
     done_from 0 ps"
proof -
  let ?S = "sample_ramp TWO_PHASE_LOCKING" and ?st = "(sample_cluster TWO_PHASE_LOCKING, sample_threads TWO_PHASE_LOCKING)"
  have start: "done_from 2 (snd ?st)" using threads_done_from[OF sample_lock_args(4)] by simp
  have "\<exists>st'. ramp_steps ?S ?st st' \<and> done_from 0 (snd st')"
  proof (rule some_run_finishes[OF start])
    fix st' assume reach: "ramp_steps ?S ?st st'" and busy: "\<not> done_from 0 (snd st')"
    have "lock_system_ok ?S id (\<lambda>i. lock_thread_ok ?S id i (sample_trxs i)) (fst st', snd st')"
      by (rule lock_system_reach[OF sample_lock_args(1) sample_fresh_cluster])
        (use reach sample_lock_args(2,3) sample_args(2) in auto)
    then show "\<exists>st''. system_step (ramp_serve ?S) (cluster_peek (rs_home ?S)) st' st''"
      using lock_run_goes_on[OF _ reach_done_from[OF reach start] busy] by simp
  qed
  then show ?thesis by auto
qed

section \<open>Properties\<close>

text \<open>C3: Under two-phase locking, in every run of any number of client threads on fresh servers and whatever the
  interleaving of their messages, a thread that has finished holds no lock, and it has answered for each of
  its read transactions exactly the keys that were asked for, each with nothing or with an item that a
  transaction put, and without fractured reads: no item is older than a transaction that wrote its key
  and of which another key was read.\<close>

theorem locking_reads_atomic:
  assumes "lock_setting_ok S" and "fresh_cluster w0" and "\<forall>i. lock_handler S own i (h i)"
    and "\<forall>i. trxs_ok S (tod i) 0 (trxs i)" and "\<forall>i j n. order_ok (perms i j n)"
    and "ramp_steps S (w0, \<lambda>i. ramp_thread S (tod i) (perms i) (trxs i) (h i)) (w, ps)"
    and "ps i = Return (h', rets)"
  shows "idle own i w \<and> list_all2 (lock_answer S) (filter (\<lambda>trx. read_set trx \<noteq> []) (trxs i)) rets"
  using locking.system_ok_Return[OF lock_system_reach[OF assms(1-6)] assms(7)] by (simp add: lock_thread_ok_def)

theorem locking_reads_atomic_witness:
  "\<exists>w ps h' rets. ramp_steps (sample_ramp TWO_PHASE_LOCKING)
      (sample_cluster TWO_PHASE_LOCKING, sample_threads TWO_PHASE_LOCKING) (w, ps) \<and>
     ps 1 = Return (h', rets) \<and> list_all2 (lock_answer (sample_ramp TWO_PHASE_LOCKING)) [sample_read] rets"
proof -
  let ?S = "sample_ramp TWO_PHASE_LOCKING"
  obtain w ps where run: "ramp_steps ?S (sample_cluster TWO_PHASE_LOCKING, sample_threads TWO_PHASE_LOCKING) (w, ps)"
    and fin: "done_from 0 ps" using sample_lock_run by blast
  then obtain h' rets where ret: "ps 1 = Return (h', rets)" unfolding done_from_def by (metis prod.exhaust zero_le)
  have "idle id 1 w \<and> list_all2 (lock_answer ?S) (filter (\<lambda>trx. read_set trx \<noteq> []) (sample_trxs 1)) rets"
    by (rule locking_reads_atomic[OF sample_lock_args(1) sample_fresh_cluster _ _ _ run ret])
      (use sample_lock_args sample_args in auto)
  then have "list_all2 (lock_answer ?S) [sample_read] rets" by (simp add: sample_trxs_def sample_read_eq)
  then show ?thesis using run ret by blast
qed

text \<open>C4: In every state of such a run the locks are what their holders make them: a key that is locked for writing
  is held by exactly one connection and has no readers, and otherwise the lock counts exactly the
  connections that hold the key; and a key that nobody has locked for writing never shows a transaction
  of which another key is still missing.\<close>

theorem locks_match_holders:
  assumes "lock_setting_ok S" and "fresh_cluster w0" and "\<forall>i. lock_handler S own i (h i)"
    and "\<forall>i. trxs_ok S (tod i) 0 (trxs i)" and "\<forall>i j n. order_ok (perms i j n)"
    and "ramp_steps S (w0, \<lambda>i. ramp_thread S (tod i) (perms i) (trxs i) (h i)) (w, ps)"
  shows "if write_locked S w k then read_locks S w k = 0 \<and> (\<exists>c. {c. k \<in> held w c} = {c})
    else finite {c. k \<in> held w c} \<and> card {c. k \<in> held w c} = read_locks S w k \<and>
      (\<forall>j \<in> writes_of S (version S w k). version S w k \<le> version S w j)"
proof -
  have "lock_inv S w" using lock_system_reach[OF assms] by (simp add: locking.system_ok_def)
  then show ?thesis unfolding lock_inv_def locks_agree_def complete_def by metis
qed

theorem locks_match_holders_witness:
  "if write_locked (sample_ramp TWO_PHASE_LOCKING) (sample_cluster TWO_PHASE_LOCKING) ''1''
     then read_locks (sample_ramp TWO_PHASE_LOCKING) (sample_cluster TWO_PHASE_LOCKING) ''1'' = 0
     else card {c. ''1'' \<in> held (sample_cluster TWO_PHASE_LOCKING) c} =
       read_locks (sample_ramp TWO_PHASE_LOCKING) (sample_cluster TWO_PHASE_LOCKING) ''1''"
proof -
  have "ramp_steps (sample_ramp TWO_PHASE_LOCKING) (sample_cluster TWO_PHASE_LOCKING, sample_threads TWO_PHASE_LOCKING)
    (sample_cluster TWO_PHASE_LOCKING, sample_threads TWO_PHASE_LOCKING)" by (rule rtranclp.rtrancl_refl)
  from locks_match_holders[OF sample_lock_args(1) sample_fresh_cluster _ _ _ this, of id "''1''"]
  show ?thesis using sample_lock_args(2,3) sample_args(2) by (auto split: if_splits)
qed

text \<open>C5: Two-phase locking terminates.  With finitely many threads that have something to do, no run goes on for
  ever, and no run gets stuck: as long as some thread has not finished, some thread can step, because the
  handlers lock the keys in their order and so never wait in a circle.  Hence every run that goes on as long
  as it can ends with all threads finished.\<close>

theorem locking_terminates:
  assumes "lock_setting_ok S" and "fresh_cluster w0" and "\<forall>i. lock_handler S own i (h i)"
    and "\<forall>i. trxs_ok S (tod i) 0 (trxs i)" and "\<forall>i j n. order_ok (perms i j n)" and "\<forall>i \<ge> n. trxs i = []"
    and "st0 = (w0, \<lambda>i. ramp_thread S (tod i) (perms i) (trxs i) (h i))"
  shows "\<not> (\<exists>f. f 0 = st0 \<and> (\<forall>j. system_step (ramp_serve S) (cluster_peek (rs_home S)) (f j) (f (Suc j)))) \<and>
    (\<forall>st. ramp_steps S st0 st \<longrightarrow> (\<exists>st'. system_step (ramp_serve S) (cluster_peek (rs_home S)) st st') \<or>
       (\<forall>i. \<exists>h' rets. snd st i = Return (h', rets)))"
proof (intro conjI allI impI)
  have start: "done_from n (snd st0)" using threads_done_from[OF assms(6)] by (simp add: assms(7))
  then show "\<not> (\<exists>f. f 0 = st0 \<and> (\<forall>j. system_step (ramp_serve S) (cluster_peek (rs_home S)) (f j) (f (Suc j))))"
    using no_endless_run by blast
  fix st assume reach: "ramp_steps S st0 st"
  have ok: "lock_system_ok S own (\<lambda>i. lock_thread_ok S own i (trxs i)) st"
    using lock_system_reach[OF assms(1-5), of "fst st" "snd st"] reach assms(7) by simp
  show "(\<exists>st'. system_step (ramp_serve S) (cluster_peek (rs_home S)) st st') \<or> (\<forall>i. \<exists>h' rets. snd st i = Return (h', rets))"
    using lock_run_goes_on[OF ok reach_done_from[OF reach start]] unfolding done_from_def by auto
qed

theorem locking_terminates_witness:
  "\<not> (\<exists>f. f 0 = (sample_cluster TWO_PHASE_LOCKING, sample_threads TWO_PHASE_LOCKING) \<and>
     (\<forall>j. system_step (ramp_serve (sample_ramp TWO_PHASE_LOCKING)) (cluster_peek (rs_home (sample_ramp TWO_PHASE_LOCKING)))
        (f j) (f (Suc j))))"
  by (rule conjunct1[OF locking_terminates[OF sample_lock_args(1) sample_fresh_cluster _ _ _ sample_lock_args(4) refl]])
    (use sample_lock_args sample_args in auto)



end
