(* ===== verification/Reader_Theorems.thy ===== *)
theory Reader_Theorems
  imports Store_Theorems
begin

text \<open>
  One-sided readers of the cache, and the byte-level building blocks: buffers, headers, typed
  messages, timestamps, and the value generator of the client.
\<close>

section \<open>Readers during an update\<close>






section \<open>A reader that never returns\<close>

text \<open>C40: After the first prepare of a key, before its first commit, a client that has asked the server for the
  address of the key's entry and then reads it directly never returns: the prepare took a zeroed
  entry without marking it invalid, and the reader waits in its copy for a flag that is not set.\<close>

theorem read_of_first_prepare_hangs:
  assumes "CommittedItems_ok (tbl_committed t)" and "ci_entries (tbl_committed t) (item_key it) = None"
    and "ci_unused (tbl_committed t) = a # u"
  shows "\<exists>t' ci. Table_prepare it t = Ret t' \<and>
    CommittedItems_get_item_addr mp junk (item_key it) (tbl_committed t') = Ret (ci, a) \<and>
    RDMAWriteSocket_read_entry mp (Buffer_on b ENTRY_SIZE) it0
      (rdma_transfer (ci_mem ci) a l b ENTRY_SIZE) = Blocks"
proof -
  obtain t' where t': "Table_prepare it t = Ret t'" and ci: "tbl_committed t' = (tbl_committed t)\<lparr>ci_unused := u,
      ci_entries := (ci_entries (tbl_committed t))(item_key it \<mapsto> Some a)\<rparr>"
    using Table_prepare_new_key[OF assms(2,3)] by blast
  have e: "ci_entries (tbl_committed t') (item_key it) = Some (Some a)"
    and m: "ci_mem (tbl_committed t') = ci_mem (tbl_committed t)" by (simp_all add: ci)
  have g: "CommittedItems_get_item_addr mp junk (item_key it) (tbl_committed t') = Ret (tbl_committed t', a)"
    using e by (simp add: CommittedItems_get_item_addr_def)
  have "mem_read (ci_mem (tbl_committed t)) a ENTRY_SIZE = replicate ENTRY_SIZE 0"
    using assms(1,3) by (intro nth_equalityI) (auto simp: CommittedItems_ok_def mem_read_nth)
  then have "mem_read (rdma_transfer (ci_mem (tbl_committed t')) a l b ENTRY_SIZE) b ENTRY_SIZE = replicate ENTRY_SIZE 0"
    by (simp add: mem_read_transfer0 m)
  from read_entry_fresh[OF this] show ?thesis using t' g by blast
qed

theorem read_of_first_prepare_hangs_witness:
  "\<exists>a t' ci. Table_prepare sample_item (srv_table sample_server) = Ret t' \<and>
    CommittedItems_get_item_addr sample_mp (0, 0) (item_key sample_item) (tbl_committed t') = Ret (ci, a) \<and>
    RDMAWriteSocket_read_entry sample_mp (Buffer_on 0 ENTRY_SIZE) Item_default
      (rdma_transfer (ci_mem ci) a (\<lambda>_. 0) 0 ENTRY_SIZE) = Blocks"
proof -
  have "CommittedItems_new (Some 0) (\<lambda>_. 0) = Ret (tbl_committed (srv_table sample_server))"
    by (rule Server_new_Ret(3)[OF sample_server_new])
  from CommittedItems_new_inv[OF this, of sample_mp "\<lambda>_ _. True"]
  have ok: "CommittedItems_ok (tbl_committed (srv_table sample_server))"
    "ci_entries (tbl_committed (srv_table sample_server)) (item_key sample_item) = None"
    "length (ci_unused (tbl_committed (srv_table sample_server))) = ENTRY_NUM" by (auto simp: cache_inv_def)
  from ok(3) obtain a u where "ci_unused (tbl_committed (srv_table sample_server)) = a # u"
    by (cases "ci_unused (tbl_committed (srv_table sample_server))") (simp_all add: ENTRY_NUM_def)
  from read_of_first_prepare_hangs[OF ok(1,2) this] show ?thesis by blast
qed

section \<open>Buffers\<close>

text \<open>Filling a buffer with a sequence of byte strings, and reading strings of given lengths back.\<close>

definition append_all :: "byte list list \<Rightarrow> mem \<times> buffer \<Rightarrow> (mem \<times> buffer) outcome" where
  "append_all = fold_outcome (\<lambda>src (m, b). Buffer_append b src m)"

fun read_all :: "nat list \<Rightarrow> mem \<Rightarrow> buffer \<Rightarrow> (buffer \<times> byte list list) outcome" where
  "read_all [] m b = Ret (b, [])"
| "read_all (n # ns) m b =
     bind_outcome (Buffer_read b n m) (\<lambda>(b, bs).
     bind_outcome (read_all ns m b) (\<lambda>(b, rest). Ret (b, bs # rest)))"

lemma append_all_room:
  assumes "Buffer_ok b" and "write_pos b + length (concat srcs) \<le> buf_addr b + buf_size b"
  shows "append_all srcs (m, b) =
    Ret (mem_write m (write_pos b) (concat srcs), b\<lparr>write_pos := write_pos b + length (concat srcs)\<rparr>)"
  using assms
proof (induction srcs arbitrary: m b)
  case (Cons src srcs)
  have small: "length src < 2 ^ 64" using Cons.prems by (auto simp: Buffer_ok_def)
  let ?b = "b\<lparr>write_pos := write_pos b + length src\<rparr>" and ?m = "mem_write m (write_pos b) src"
  have app: "Buffer_append b src m = Ret (?m, ?b)" using Cons.prems by (simp add: Buffer_append_iff[OF Cons.prems(1) small])
  have "Buffer_ok ?b" using Cons.prems by (simp add: Buffer_ok_def)
  then have "append_all srcs (?m, ?b) = Ret (mem_write ?m (write_pos ?b) (concat srcs),
      ?b\<lparr>write_pos := write_pos ?b + length (concat srcs)\<rparr>)"
    by (rule Cons.IH) (use Cons.prems in simp)
  then show ?case using app by (simp add: append_all_def mem_write_append add.assoc)
qed (simp add: append_all_def)

lemma read_all_room:
  assumes "Buffer_ok b" and "read_pos b + length (concat srcs) \<le> buf_addr b + buf_size b"
    and "mem_read m (read_pos b) (length (concat srcs)) = concat srcs"
  shows "read_all (map length srcs) m b = Ret (b\<lparr>read_pos := read_pos b + length (concat srcs)\<rparr>, srcs)"
  using assms
proof (induction srcs arbitrary: b)
  case (Cons src srcs)
  have small: "length src < 2 ^ 64" using Cons.prems by (auto simp: Buffer_ok_def)
  let ?b = "b\<lparr>read_pos := read_pos b + length src\<rparr>"
  have "mem_read m (read_pos b) (length src) @ mem_read m (read_pos b + length src) (length (concat srcs)) = src @ concat srcs"
    using Cons.prems(3) by (simp add: mem_read_append)
  then have here: "mem_read m (read_pos b) (length src) = src"
    and rest: "mem_read m (read_pos b + length src) (length (concat srcs)) = concat srcs" by simp_all
  have rd: "Buffer_read b (length src) m = Ret (?b, src)"
    using Cons.prems here by (simp add: Buffer_read_iff[OF Cons.prems(1) small])
  have "Buffer_ok ?b" using Cons.prems by (simp add: Buffer_ok_def)
  then have "read_all (map length srcs) m ?b = Ret (?b\<lparr>read_pos := read_pos ?b + length (concat srcs)\<rparr>, srcs)"
    by (rule Cons.IH) (use Cons.prems rest in simp_all)
  then show ?case using rd by (simp add: add.assoc)
qed simp

text \<open>What is appended to a fresh buffer, as long as it fits, is read back in the same pieces, and the
  appends change no byte outside the buffer.\<close>

theorem buffer_roundtrip:
  assumes "n < 2 ^ 63" and "length (concat srcs) \<le> n"
  shows "\<exists>m' b'. append_all srcs (m, Buffer_on a n) = Ret (m', b') \<and>
    (\<exists>b''. read_all (map length srcs) m' b' = Ret (b'', srcs)) \<and>
    (\<forall>p. p < a \<or> a + n \<le> p \<longrightarrow> m' p = m p)"
proof -
  let ?m = "mem_write m a (concat srcs)" and ?b = "Buffer_on a n\<lparr>write_pos := a + length (concat srcs)\<rparr>"
  have ok: "Buffer_ok ?b" using assms by (simp add: Buffer_ok_def)
  have app: "append_all srcs (m, Buffer_on a n) = Ret (?m, ?b)"
    using append_all_room[of "Buffer_on a n" srcs m] assms by simp
  have "read_all (map length srcs) ?m ?b = Ret (?b\<lparr>read_pos := a + length (concat srcs)\<rparr>, srcs)"
    using read_all_room[OF ok, of srcs ?m] assms by simp
  moreover have "?m p = m p" if "p < a \<or> a + n \<le> p" for p
    using that assms(2) by (intro mem_write_outside) auto
  ultimately show ?thesis using app by blast
qed

theorem buffer_roundtrip_witness:
  "\<exists>m' b'. append_all [[1, 2], [3]] (\<lambda>_. 0, Buffer_on 100 4) = Ret (m', b') \<and>
    (\<exists>b''. read_all [2, 1] m' b' = Ret (b'', [[1, 2], [3]])) \<and> (\<forall>p. p < 100 \<or> 104 \<le> p \<longrightarrow> m' p = 0)"
proof -
  have eq: "map length [[1, 2], [3 :: byte]] = [2, 1]" by simp
  have "\<exists>m' b'. append_all [[1, 2], [3]] (\<lambda>_. 0, Buffer_on 100 4) = Ret (m', b') \<and>
    (\<exists>b''. read_all (map length [[1, 2], [3 :: byte]]) m' b' = Ret (b'', [[1, 2], [3]])) \<and>
    (\<forall>p. p < 100 \<or> 100 + 4 \<le> p \<longrightarrow> m' p = 0)"
    by (rule buffer_roundtrip) simp_all
  then show ?thesis unfolding eq by simp
qed

text \<open>The bounds check of \<open>Buffer::update\<close> does not see an offset past the end: the pointer difference is
  negative, and as a \<open>size_t\<close> it is huge.  The bytes are written outside the buffer.\<close>

theorem update_past_end_writes:
  assumes "buf_size b < offset" and "offset - buf_size b \<le> 2 ^ 63" and "length src \<le> 2 ^ 63" and "src \<noteq> []"
  shows "\<exists>m'. Buffer_update b offset src m = Ret m' \<and> m' (buf_addr b + offset) = hd src \<and>
    buf_addr b + buf_size b < buf_addr b + offset"
  using Buffer_update_past_end[OF assms(1-3), of m] assms(1,4)
  by (auto simp: mem_write_def hd_conv_nth)

theorem update_past_end_writes_witness:
  "\<exists>m'. Buffer_update (Buffer_on 0 16) 20 [7] (\<lambda>_. 0) = Ret m' \<and> m' 20 = 7 \<and> (0::nat) + 16 < 0 + 20"
  using update_past_end_writes[of "Buffer_on 0 16" 20 "[7]" "\<lambda>_. 0"] by simp

section \<open>Messages\<close>

text \<open>C29: A typed message survives the wire: the header that \<open>send\<close> builds is recovered from its 24 bytes and
  announces the length of the body, and \<open>recv_body\<close> on that body fills the destinations with the
  arguments that were sent and leaves nothing pending.\<close>

theorem message_roundtrip:
  assumes "msgpack_ok mp" and "fst junk < 2 ^ 32" and "snd junk < 2 ^ 32"
    and "list_all2 same_kind args dsts" and "length (snd (sent_msg mp junk t args)) < 2 ^ 64"
  shows "header_of_bytes (header_bytes (fst (sent_msg mp junk t args))) = fst (sent_msg mp junk t args) \<and>
    hdr_body_size (fst (sent_msg mp junk t args)) = length (snd (sent_msg mp junk t args)) \<and>
    req_type_is (fst (sent_msg mp junk t args)) t \<and>
    Communicator_recv_body mp [] (snd (sent_msg mp junk t args)) dsts = (args, [])"
  using recv_body_sent[OF assms(1,4), of junk t] assms(2,3,5) by (simp add: sent_msg_eq header_roundtrip req_type_is_def)

theorem message_roundtrip_witness:
  "Communicator_recv_body sample_mp [] (snd (sent_msg sample_mp (0, 0) GET [Key_arg ''1'', Ts_arg (Timestamp 1 0)]))
     [Key_arg [], Ts_arg Timestamp_default] = ([Key_arg ''1'', Ts_arg (Timestamp 1 0)], [])"
proof -
  have "length (snd (sent_msg sample_mp (0, 0) GET [Key_arg ''1'', Ts_arg (Timestamp 1 0)])) < 2 ^ 64"
    by (simp add: sent_msg_eq sample_mp_def length_enc_string enc_ts_def enc_pair_def enc_int_def to_string_int_def
        dec_digits.simps[of 0] dec_digits.simps[of "Suc 0"])
  from message_roundtrip[OF sample_mp_ok _ _ _ this] show ?thesis by simp
qed


section \<open>Generated transactions\<close>

text \<open>C31: The generator of test transactions queues exactly as many transactions as the configuration asks
  for, and each of them is well formed and either only writes or only reads, which is what the
  RAMP-Fast protocols need.\<close>

theorem generated_transactions:
  assumes "TrxQueue_gen_test_trxs cfg key_dice value_dice val_str shuffle m [] = Ret (m', q)" and "order_ok shuffle"
  shows "length q = nat (cfg_write_trx_num cfg) + nat (cfg_read_trx_num cfg) \<and>
    (\<forall>trx \<in> set q. Transaction_ok trx \<and> (read_set trx = [] \<or> write_set trx = []))"
  using gen_test_trxs_Ret[OF assms] by blast

theorem generated_transactions_witness:
  "\<exists>m' q. TrxQueue_gen_test_trxs sample_cfg (\<lambda>n. int n mod 2 + 1) (\<lambda>n. n mod 10) 0 (\<lambda>n. [0..<n]) (\<lambda>_. 0) [] = Ret (m', q) \<and>
     length q = 2"
proof -
  obtain m' q where g: "TrxQueue_gen_test_trxs sample_cfg (\<lambda>n. int n mod 2 + 1) (\<lambda>n. n mod 10) 0
      (\<lambda>n. [0..<n]) (\<lambda>_. 0) [] = Ret (m', q)"
    by (simp add: TrxQueue_gen_test_trxs_def sample_cfg_def Let_def)
  have "length q = nat (cfg_write_trx_num sample_cfg) + nat (cfg_read_trx_num sample_cfg)"
    using generated_transactions[OF g] by simp
  then show ?thesis using g by (auto simp: sample_cfg_def)
qed

text \<open>Filling the value of the test transactions writes a NUL one past the end of its array.\<close>

theorem value_fill_overruns:
  assumes "2 \<le> value_size"
  shows "TrxQueue_fill_value value_size value_dice val_str m (val_str + value_size) = 0"
  by (rule TrxQueue_fill_value_overrun(1)[OF assms])

theorem value_fill_overruns_witness: "TrxQueue_fill_value 2 (\<lambda>_. 7) 100 (\<lambda>_. 255) 102 = 0"
  using value_fill_overruns[of 2 "\<lambda>_. 7" 100 "\<lambda>_. 255"] by simp

end
