(* ===== verification/Channels.thy ===== *)
theory Channels
  imports Messages
begin

text \<open>
  What the layers above rely on in a \<open>Communicator\<close> (\<open>include/common/net/Communicator.h\<close>): one
  direction of a connection is a queue of messages.  Each socket class provides it with its own
  limit on the messages that may be under way.  The exchange of a request for an answer, which the
  client programs of \<open>Programs\<close> take as one step, is derived from it.
\<close>

locale message_channel =
  fixes send :: "message \<Rightarrow> 'w \<Rightarrow> 'w outcome"
    and recv :: "'w \<Rightarrow> ('w \<times> message) outcome"
    and pending :: "'w \<Rightarrow> message list"
    and ok :: "'w \<Rightarrow> bool"
    and fits :: "message \<Rightarrow> bool"
    and may_send :: "nat \<Rightarrow> bool"
  assumes send_works:
      "ok w \<Longrightarrow> fits m \<Longrightarrow> may_send (length (pending w)) \<Longrightarrow>
       \<exists>w'. send m w = Ret w' \<and> ok w' \<and> pending w' = pending w @ [m]"
    and recv_works:
      "ok w \<Longrightarrow> pending w = m # ms \<Longrightarrow> \<exists>w'. recv w = Ret (w', m) \<and> ok w' \<and> pending w' = ms"
    and recv_empty: "ok w \<Longrightarrow> pending w = [] \<Longrightarrow> recv w = Blocks"
    and may_send_0: "may_send 0"
begin

fun recv_n :: "nat \<Rightarrow> 'w \<Rightarrow> ('w \<times> message list) outcome" where
  "recv_n 0 w = Ret (w, [])"
| "recv_n (Suc n) w =
     bind_outcome (recv w) (\<lambda>(w, m). bind_outcome (recv_n n w) (\<lambda>(w, ms). Ret (w, m # ms)))"

lemma send_all:
  assumes "ok w" and "\<forall>m \<in> set ms. fits m"
    and "\<forall>i < length ms. may_send (length (pending w) + i)"
  shows "\<exists>w'. fold_outcome send ms w = Ret w' \<and> ok w' \<and> pending w' = pending w @ ms"
  using assms
proof (induction ms arbitrary: w)
  case (Cons m ms)
  have "may_send (length (pending w))" using Cons.prems(3)[rule_format, of 0] by simp
  then obtain w1 where w1: "send m w = Ret w1" "ok w1" "pending w1 = pending w @ [m]"
    using send_works[OF Cons.prems(1), of m] Cons.prems(2) by auto
  have "\<forall>i < length ms. may_send (length (pending w1) + i)"
    using Cons.prems(3)[rule_format, of "Suc _"] by (simp add: w1)
  with Cons.IH[OF w1(2)] Cons.prems(2) obtain w' where
    "fold_outcome send ms w1 = Ret w'" "ok w'" "pending w' = pending w1 @ ms" by auto
  then show ?case by (simp add: w1)
qed simp

lemma recv_all:
  "ok w \<Longrightarrow> pending w = ms @ rest \<Longrightarrow>
   \<exists>w'. recv_n (length ms) w = Ret (w', ms) \<and> ok w' \<and> pending w' = rest"
proof (induction ms arbitrary: w)
  case (Cons m ms)
  obtain w1 where w1: "recv w = Ret (w1, m)" "ok w1" "pending w1 = ms @ rest"
    using recv_works[OF Cons.prems(1)] Cons.prems(2) by auto
  from Cons.IH[OF w1(2,3)] show ?case by (auto simp: w1)
qed simp

text \<open>Messages arrive in the order they were sent, unchanged, each once.\<close>

lemma fifo:
  assumes "ok w" and "pending w = []" and "\<forall>m \<in> set ms. fits m" and "\<forall>i < length ms. may_send i"
  shows "\<exists>w1 w2. fold_outcome send ms w = Ret w1 \<and> recv_n (length ms) w1 = Ret (w2, ms) \<and>
    ok w2 \<and> pending w2 = []"
proof -
  obtain w1 where w1: "fold_outcome send ms w = Ret w1" "ok w1" "pending w1 = ms"
    using send_all[OF assms(1,3)] assms(2,4) by auto
  from recv_all[OF w1(2), of ms "[]"] w1 show ?thesis by auto
qed

text \<open>
  \<open>com->send(...); com->recv(...)\<close> against a server that answers every message: the two directions
  of a connection are two channels.
\<close>

definition exchange :: "(message \<Rightarrow> message) \<Rightarrow> message \<Rightarrow> 'w \<times> 'w \<Rightarrow> (('w \<times> 'w) \<times> message) outcome" where
  "exchange answer m st =
     (let (there, back) = st in
      bind_outcome (send m there) (\<lambda>there.
      bind_outcome (recv there) (\<lambda>(there, m').
      bind_outcome (send (answer m') back) (\<lambda>back.
      bind_outcome (recv back) (\<lambda>(back, r). Ret ((there, back), r))))))"

definition idle :: "'w \<times> 'w \<Rightarrow> bool" where
  "idle st \<longleftrightarrow> ok (fst st) \<and> ok (snd st) \<and> pending (fst st) = [] \<and> pending (snd st) = []"

lemma exchange_answers:
  assumes "idle st" and "fits m" and "fits (answer m)"
  shows "\<exists>st'. exchange answer m st = Ret (st', answer m) \<and> idle st'"
proof -
  obtain q r where st: "st = (q, r)" by (cases st)
  have i: "ok q" "ok r" "pending q = []" "pending r = []" using assms(1) by (auto simp: idle_def st)
  obtain t1 where t1: "send m q = Ret t1" "ok t1" "pending t1 = [m]"
    using send_works[OF i(1) assms(2)] may_send_0 i(3) by auto
  obtain t2 where t2: "recv t1 = Ret (t2, m)" "ok t2" "pending t2 = []" using recv_works[OF t1(2,3)] by auto
  obtain b1 where b1: "send (answer m) r = Ret b1" "ok b1" "pending b1 = [answer m]"
    using send_works[OF i(2) assms(3)] may_send_0 i(4) by auto
  obtain b2 where b2: "recv b1 = Ret (b2, answer m)" "ok b2" "pending b2 = []" using recv_works[OF b1(2,3)] by auto
  show ?thesis using t1 t2 b1 b2 by (simp add: exchange_def st idle_def)
qed

text \<open>Any number of exchanges one after the other, as a transaction makes them.\<close>

lemma exchanges_answer:
  assumes "idle st" and "\<forall>m \<in> set ms. fits m \<and> fits (answer m)"
  shows "\<exists>st'. fold_outcome (\<lambda>m (st, rs). bind_outcome (exchange answer m st) (\<lambda>(st, r). Ret (st, rs @ [r]))) ms (st, rs) =
      Ret (st', rs @ map answer ms) \<and> idle st'"
  using assms
proof (induction ms arbitrary: st rs)
  case (Cons m ms)
  obtain st1 where st1: "exchange answer m st = Ret (st1, answer m)" "idle st1"
    using exchange_answers[OF Cons.prems(1), of m answer] Cons.prems(2) by auto
  from Cons.IH[OF st1(2), of "rs @ [answer m]"] Cons.prems(2) show ?case by (auto simp: st1(1))
qed simp

end

end
