(* ===== verification/Tcp_Sockets.thy ===== *)
theory Tcp_Sockets
  imports Channels Buffers
begin

text \<open>
  \<open>TCPSocket\<close> (\<open>include/common/net/TCPSocket.h\<close>, \<open>src/common/net/TCPSocket.cpp\<close>): messages over a
  byte stream.  What \<open>read\<close> and \<open>write\<close> answer is an argument: \<open>None\<close> is a call that does not
  return, a negative number is a failure, and any other number is how many bytes were moved, which
  may be fewer than asked for.  The code looks at the sign only.
\<close>

definition PACKET_SIZE :: nat where "PACKET_SIZE = 2560"

record tcp_socket =
  tcp_sock :: int
  tcp_msg_buf :: buffer

definition TCPSocket_new :: "int \<Rightarrow> nat option \<Rightarrow> mem \<Rightarrow> (mem \<times> tcp_socket) outcome" where
  "TCPSocket_new sock memalign m =
     bind_outcome (Buffer_allocate memalign PACKET_SIZE m) (\<lambda>(m, b).
       Ret (m, \<lparr>tcp_sock = sock, tcp_msg_buf = b\<rparr>))"

text \<open>\<open>out\<close> is what the peer can read; \<open>inp\<close> is what has arrived from the peer.\<close>

definition TCPSocket_send :: "int option \<Rightarrow> byte list \<Rightarrow> byte list \<Rightarrow> byte list outcome" where
  "TCPSocket_send answer buf out =
     (case answer of
        None \<Rightarrow> Blocks
      | Some r \<Rightarrow> if r < 0 then Dies Exit_failure else Ret (out @ take (nat r) buf))"

definition TCPSocket_recv :: "int option \<Rightarrow> nat \<Rightarrow> byte list \<Rightarrow> (byte list \<times> byte list) outcome" where
  "TCPSocket_recv answer count inp =
     (case answer of
        None \<Rightarrow> Blocks
      | Some r \<Rightarrow>
          if r < 0 then Dies Exit_failure
          else Ret (take (min (nat r) count) inp, drop (min (nat r) count) inp))"

definition TCPSocket_send_msg :: "int option \<times> int option \<Rightarrow> message \<Rightarrow> byte list \<Rightarrow> byte list outcome" where
  "TCPSocket_send_msg answers msg out =
     (let (header, body) = msg in
      bind_outcome (TCPSocket_send (fst answers) (header_bytes header) out)
        (TCPSocket_send (snd answers) (take (hdr_body_size header) body)))"

text \<open>\<open>hdr\<close> is the object representation of the header that the caller has declared.\<close>

definition TCPSocket_recv_header :: "int option \<Rightarrow> byte list \<Rightarrow> byte list \<Rightarrow> (byte list \<times> byte list) outcome" where
  "TCPSocket_recv_header answer hdr inp =
     bind_outcome (TCPSocket_recv answer sizeof_MessageHeader inp) (\<lambda>(got, inp).
       Ret (got @ drop (length got) hdr, inp))"

text \<open>The result is the address of the body.  The size is not compared with that of the buffer.\<close>

definition TCPSocket_get_body ::
    "int option \<Rightarrow> nat \<Rightarrow> tcp_socket \<Rightarrow> mem \<times> byte list \<Rightarrow> ((mem \<times> byte list) \<times> nat) outcome" where
  "TCPSocket_get_body answer body_size s st =
     (let (m, inp) = st in
      bind_outcome (TCPSocket_recv answer body_size inp) (\<lambda>(got, inp).
        Ret ((mem_write m (buf_addr (tcp_msg_buf s)) got, inp), buf_addr (tcp_msg_buf s))))"

definition TCPSocket_clear_msg_buf :: "tcp_socket \<times> mem \<Rightarrow> tcp_socket \<times> mem" where
  "TCPSocket_clear_msg_buf st =
     (let (s, m) = st; (m, b) = Buffer_clear (tcp_msg_buf s) m in (s\<lparr>tcp_msg_buf := b\<rparr>, m))"

definition TCPSocket_send_close ::
    "'o msgpack \<Rightarrow> nat \<times> nat \<Rightarrow> int option \<times> int option \<Rightarrow> byte list \<Rightarrow> byte list outcome" where
  "TCPSocket_send_close mp junk answers out = TCPSocket_send_msg answers (sent_msg mp junk CLOSE []) out"

text \<open>
  \<open>Communicator::recv\<close> up to the unpacking, on this class: the header, the body copied from where
  \<open>get_body\<close> points, and the buffer cleared.
\<close>

definition TCPSocket_recv_msg ::
    "int option \<times> int option \<Rightarrow> byte list \<Rightarrow> (tcp_socket \<times> mem) \<times> byte list \<Rightarrow>
     (((tcp_socket \<times> mem) \<times> byte list) \<times> message) outcome" where
  "TCPSocket_recv_msg answers hdr st =
     (let ((s, m), inp) = st in
      bind_outcome (TCPSocket_recv_header (fst answers) hdr inp) (\<lambda>(hdr, inp).
      let header = header_of_bytes hdr in
      bind_outcome (TCPSocket_get_body (snd answers) (hdr_body_size header) s (m, inp)) (\<lambda>((m, inp), p).
        let body = mem_read m p (hdr_body_size header)
        in Ret ((TCPSocket_clear_msg_buf (s, m), inp), (header, body)))))"

section \<open>Complete transfers\<close>

text \<open>
  A stream on which every call moves all the bytes it is asked for.  \<open>hdr\<close> is what the header
  object of the receiver happens to contain.
\<close>

definition tcp_send :: "message \<Rightarrow> (tcp_socket \<times> mem) \<times> byte list \<Rightarrow> ((tcp_socket \<times> mem) \<times> byte list) outcome" where
  "tcp_send msg w =
     bind_outcome (TCPSocket_send_msg (Some 24, Some (int (hdr_body_size (fst msg)))) msg (snd w))
       (\<lambda>out. Ret (fst w, out))"

definition tcp_recv :: "byte list \<Rightarrow> (tcp_socket \<times> mem) \<times> byte list \<Rightarrow> (((tcp_socket \<times> mem) \<times> byte list) \<times> message) outcome" where
  "tcp_recv hdr w =
     TCPSocket_recv_msg
       (if snd w = [] then None else Some 24, Some (int (hdr_body_size (header_of_bytes (take 24 (snd w)))))) hdr w"

definition tcp_fits :: "message \<Rightarrow> bool" where
  "tcp_fits msg \<longleftrightarrow> header_ok (fst msg) \<and> hdr_body_size (fst msg) = length (snd msg) \<and> length (snd msg) \<le> PACKET_SIZE"

definition tcp_bytes :: "message \<Rightarrow> byte list" where
  "tcp_bytes msg = header_bytes (fst msg) @ snd msg"

text \<open>The messages that a stream of bytes stands for.\<close>

function tcp_pending_bytes :: "byte list \<Rightarrow> message list" where
  "tcp_pending_bytes bs =
     (if length bs < 24 then []
      else let header = header_of_bytes (take 24 bs); rest = drop 24 bs
        in (header, take (hdr_body_size header) rest) # tcp_pending_bytes (drop (hdr_body_size header) rest))"
  by pat_completeness auto
termination by (relation "measure length") auto

declare tcp_pending_bytes.simps [simp del]

definition tcp_pending :: "(tcp_socket \<times> mem) \<times> byte list \<Rightarrow> message list" where
  "tcp_pending w = tcp_pending_bytes (snd w)"

definition tcp_ok :: "(tcp_socket \<times> mem) \<times> byte list \<Rightarrow> bool" where
  "tcp_ok w \<longleftrightarrow> (\<exists>ms. (\<forall>m \<in> set ms. tcp_fits m) \<and> snd w = concat (map tcp_bytes ms))"

lemma tcp_pending_Cons:
  assumes "tcp_fits m"
  shows "tcp_pending_bytes (tcp_bytes m @ bs) = m # tcp_pending_bytes bs"
proof -
  have "header_of_bytes (header_bytes (fst m)) = fst m" "hdr_body_size (fst m) = length (snd m)"
    using assms by (simp_all add: tcp_fits_def header_roundtrip)
  then show ?thesis
    by (subst tcp_pending_bytes.simps) (simp add: tcp_bytes_def Let_def)
qed

lemma tcp_pending_concat:
  assumes "\<forall>m \<in> set ms. tcp_fits m"
  shows "tcp_pending_bytes (concat (map tcp_bytes ms)) = ms"
  using assms
proof (induction ms)
  case Nil
  then show ?case by (simp add: tcp_pending_bytes.simps[of "[]"])
next
  case (Cons m ms)
  then show ?case using tcp_pending_Cons[of m "concat (map tcp_bytes ms)"] by simp
qed

lemma tcp_send_fits:
  assumes "tcp_fits m"
  shows "tcp_send m w = Ret (fst w, snd w @ tcp_bytes m)"
  using assms by (cases m) (simp add: tcp_send_def TCPSocket_send_msg_def TCPSocket_send_def tcp_fits_def tcp_bytes_def)

lemma tcp_recv_fits:
  assumes "tcp_fits m" and "snd w = tcp_bytes m @ bs"
  shows "tcp_recv hdr w = Ret ((TCPSocket_clear_msg_buf (fst (fst w),
      mem_write (snd (fst w)) (buf_addr (tcp_msg_buf (fst (fst w)))) (snd m)), bs), m)"
proof -
  obtain s mm inp where w: "w = ((s, mm), inp)" by (metis surj_pair)
  obtain h b where m: "m = (h, b)" by (cases m)
  have h: "header_of_bytes (header_bytes h) = h" "hdr_body_size h = length b"
    using assms(1) by (auto simp: tcp_fits_def m header_roundtrip)
  have inp: "inp = header_bytes h @ b @ bs" using assms(2) by (simp add: w m tcp_bytes_def)
  have "0 < length inp" by (simp add: inp)
  then have ne: "inp \<noteq> []" by simp
  have t: "take 24 inp = header_bytes h" "drop 24 inp = b @ bs" "take (min 24 24) inp = header_bytes h"
    by (simp_all add: inp)
  have rh: "TCPSocket_recv_header (Some 24) hdr inp = Ret (header_bytes h @ drop 24 hdr, b @ bs)"
    by (simp add: TCPSocket_recv_header_def TCPSocket_recv_def sizeof_simps t)
  have "header_of_bytes (header_bytes h @ xs) = h" for xs by (simp add: header_of_bytes_append h)
  then show ?thesis
    by (simp add: tcp_recv_def w m ne t h TCPSocket_recv_msg_def rh TCPSocket_recv_def
        TCPSocket_get_body_def Let_def mem_simps)
qed

interpretation tcp: message_channel tcp_send "tcp_recv hdr" tcp_pending tcp_ok tcp_fits "\<lambda>_. True"
  for hdr
proof unfold_locales
  fix w m
  assume ok: "tcp_ok w" and m: "tcp_fits m"
  then obtain ms where ms: "\<forall>m \<in> set ms. tcp_fits m" "snd w = concat (map tcp_bytes ms)" by (auto simp: tcp_ok_def)
  have ms': "\<forall>m \<in> set (ms @ [m]). tcp_fits m" using ms(1) m by simp
  have eq: "snd w @ tcp_bytes m = concat (map tcp_bytes (ms @ [m]))" by (simp add: ms(2))
  show "\<exists>w'. tcp_send m w = Ret w' \<and> tcp_ok w' \<and> tcp_pending w' = tcp_pending w @ [m]"
    using tcp_pending_concat[OF ms'] tcp_pending_concat[OF ms(1)] ms' eq
    by (auto simp: tcp_send_fits[OF m] tcp_pending_def tcp_ok_def ms(2) simp del: map_append intro!: exI[of _ "ms @ [m]"])
next
  fix w m rest
  assume ok: "tcp_ok w" and p: "tcp_pending w = m # rest"
  then obtain ms where ms: "\<forall>m \<in> set ms. tcp_fits m" "snd w = concat (map tcp_bytes ms)" by (auto simp: tcp_ok_def)
  then have "ms = m # rest" using p tcp_pending_concat[OF ms(1)] by (simp add: tcp_pending_def)
  then have w: "snd w = tcp_bytes m @ concat (map tcp_bytes rest)" and f: "tcp_fits m" "\<forall>m \<in> set rest. tcp_fits m"
    using ms by auto
  show "\<exists>w'. tcp_recv hdr w = Ret (w', m) \<and> tcp_ok w' \<and> tcp_pending w' = rest"
    using tcp_pending_concat[OF f(2)] f(2) by (auto simp: tcp_recv_fits[OF f(1) w] tcp_ok_def tcp_pending_def)
next
  fix w assume ok: "tcp_ok w" and p: "tcp_pending w = []"
  then obtain ms where ms: "\<forall>m \<in> set ms. tcp_fits m" "snd w = concat (map tcp_bytes ms)" by (auto simp: tcp_ok_def)
  then have "ms = []" using p tcp_pending_concat[OF ms(1)] by (simp add: tcp_pending_def)
  then have "snd w = []" using ms by simp
  then show "tcp_recv hdr w = Blocks"
    by (cases w) (auto simp: tcp_recv_def TCPSocket_recv_msg_def TCPSocket_recv_header_def TCPSocket_recv_def)
qed simp

section \<open>Transfers that are not complete\<close>

text \<open>A read that is cut short leaves the tail of the header object as it was, and the stream out of step.\<close>

lemma recv_header_short:
  assumes "length hdr = 24" and "n < 24"
  shows "TCPSocket_recv_header (Some (int n)) hdr (header_bytes h @ rest) =
    Ret (take n (header_bytes h) @ drop n hdr, drop n (header_bytes h) @ rest)"
  using assms by (simp add: TCPSocket_recv_header_def TCPSocket_recv_def sizeof_simps)

end
