(* ===== verification/Verbs.thy ===== *)
theory Verbs
  imports Channels Buffers Tcp_Sockets
begin

text \<open>
  Queue pairs as the code uses them (\<open>rdma_verbs.h\<close>): posted work requests, completions waiting to
  be polled, and the device's answers.  Then \<open>SendRecvSocket\<close>
  (\<open>include/common/net/SendRecvSocket.h\<close>, \<open>src/common/net/SendRecvSocket.cpp\<close>): ten send buffers
  and ten receive buffers carved out of one registered region.

  A work request names local memory by address and size; its context is that address, so a
  completion gives the buffer back.  \<open>qp_post_rc\<close> is what posting answers, \<open>qp_poll_rc\<close> is negative
  when polling fails.  Requests complete in the order they were posted.
\<close>

definition PACKET_WINDOW_SIZE :: nat where "PACKET_WINDOW_SIZE = 10"

lemmas packet_consts = PACKET_SIZE_def PACKET_WINDOW_SIZE_def

section \<open>Queue pairs\<close>

datatype work_request =
    Wr_send nat nat
  | Wr_write nat nat rka
  | Wr_write_imm nat nat rka
  | Wr_read nat nat rka

fun wr_context :: "work_request \<Rightarrow> nat" where
  "wr_context (Wr_send a n) = a"
| "wr_context (Wr_write a n r) = a"
| "wr_context (Wr_write_imm a n r) = a"
| "wr_context (Wr_read a n r) = a"

record qp =
  qp_sends :: "work_request list"
  qp_send_cq :: "nat list"
  qp_recvs :: "(nat \<times> nat) list"
  qp_recv_cq :: "(nat \<times> nat) list"
  qp_post_rc :: int
  qp_poll_rc :: int

definition qp_new :: qp where
  "qp_new = \<lparr>qp_sends = [], qp_send_cq = [], qp_recvs = [], qp_recv_cq = [], qp_post_rc = 0, qp_poll_rc = 0\<rparr>"

text \<open>\<open>boost::circular_buffer::push_back\<close>: at capacity the oldest element is overwritten.\<close>

definition circular_push_back :: "nat \<Rightarrow> 'a list \<Rightarrow> 'a \<Rightarrow> 'a list" where
  "circular_push_back cap xs x =
     (if cap = 0 then xs else if length xs < cap then xs @ [x] else tl xs @ [x])"

section \<open>SendRecvSocket\<close>

record sendrecv_socket =
  so_mem :: mem
  so_msg_buf :: buffer
  so_qp :: qp
  so_verbs_buf :: buffer
  so_send_bufs :: "buffer list"

definition SendRecvSocket_post_send :: "buffer \<Rightarrow> 'a sendrecv_socket_scheme \<Rightarrow> 'a sendrecv_socket_scheme outcome" where
  "SendRecvSocket_post_send b s =
     (if qp_post_rc (so_qp s) < 0 then Dies Exit_failure
      else Ret (s\<lparr>so_qp := (so_qp s)\<lparr>qp_sends := qp_sends (so_qp s) @ [Wr_send (buf_addr b) (buf_size b)]\<rparr>\<rparr>))"

definition SendRecvSocket_post_recv :: "buffer \<Rightarrow> 'a sendrecv_socket_scheme \<Rightarrow> 'a sendrecv_socket_scheme outcome" where
  "SendRecvSocket_post_recv b s =
     (if qp_post_rc (so_qp s) < 0 then Dies Exit_failure
      else Ret (s\<lparr>so_qp := (so_qp s)\<lparr>qp_recvs := qp_recvs (so_qp s) @ [(buf_addr b, buf_size b)]\<rparr>\<rparr>))"

text \<open>
  The polling loops end when a completion is there; with none they spin until the device delivers
  one.  The result is the completions polled, at most \<open>num_entries\<close>.  Their status is not looked at.
\<close>

definition SendRecvSocket_poll_send_cq ::
    "nat \<Rightarrow> 'a sendrecv_socket_scheme \<Rightarrow> ('a sendrecv_socket_scheme \<times> nat list) outcome" where
  "SendRecvSocket_poll_send_cq num_entries s =
     (let cq = qp_send_cq (so_qp s) in
      if qp_poll_rc (so_qp s) < 0 then Dies Exit_failure
      else if take num_entries cq = [] then Blocks
      else Ret (s\<lparr>so_qp := (so_qp s)\<lparr>qp_send_cq := drop num_entries cq\<rparr>\<rparr>, take num_entries cq))"

definition SendRecvSocket_poll_recv_cq ::
    "nat \<Rightarrow> 'a sendrecv_socket_scheme \<Rightarrow> ('a sendrecv_socket_scheme \<times> (nat \<times> nat) list) outcome" where
  "SendRecvSocket_poll_recv_cq num_entries s =
     (let cq = qp_recv_cq (so_qp s) in
      if qp_poll_rc (so_qp s) < 0 then Dies Exit_failure
      else if take num_entries cq = [] then Blocks
      else Ret (s\<lparr>so_qp := (so_qp s)\<lparr>qp_recv_cq := drop num_entries cq\<rparr>\<rparr>, take num_entries cq))"

text \<open>One poll without the loop, as \<open>send_close\<close> makes it.\<close>

definition ibv_poll_send_cq ::
    "nat \<Rightarrow> 'a sendrecv_socket_scheme \<Rightarrow> ('a sendrecv_socket_scheme \<times> nat list) outcome" where
  "ibv_poll_send_cq num_entries s =
     (let cq = qp_send_cq (so_qp s) in
      if qp_poll_rc (so_qp s) < 0 then Dies Exit_failure
      else Ret (s\<lparr>so_qp := (so_qp s)\<lparr>qp_send_cq := drop num_entries cq\<rparr>\<rparr>, take num_entries cq))"

definition clear_buf :: "buffer \<Rightarrow> 'a sendrecv_socket_scheme \<Rightarrow> 'a sendrecv_socket_scheme \<times> buffer" where
  "clear_buf b s = (let (m, b) = Buffer_clear b (so_mem s) in (s\<lparr>so_mem := m\<rparr>, b))"

definition SendRecvSocket_get_send_buf ::
    "'a sendrecv_socket_scheme \<Rightarrow> ('a sendrecv_socket_scheme \<times> buffer) outcome" where
  "SendRecvSocket_get_send_buf s =
     (case so_send_bufs s of
        [] \<Rightarrow>
          bind_outcome (SendRecvSocket_poll_send_cq PACKET_WINDOW_SIZE s) (\<lambda>(s, wc).
            let s = s\<lparr>so_send_bufs := fold (\<lambda>wr_id bs. circular_push_back PACKET_WINDOW_SIZE bs (Buffer_on wr_id PACKET_SIZE))
                        (tl wc) (so_send_bufs s)\<rparr>
            in Ret (clear_buf (Buffer_on (hd wc) PACKET_SIZE) s))
      | b # bs \<Rightarrow> Ret (clear_buf b (s\<lparr>so_send_bufs := bs\<rparr>)))"

definition SendRecvSocket_get_recv_buf ::
    "'a sendrecv_socket_scheme \<Rightarrow> ('a sendrecv_socket_scheme \<times> buffer) outcome" where
  "SendRecvSocket_get_recv_buf s =
     bind_outcome (SendRecvSocket_poll_recv_cq 1 s) (\<lambda>(s, wc).
       Ret (s, Buffer_on (fst (hd wc)) (snd (hd wc))))"

text \<open>
  \<open>reg_ok\<close>: \<open>rdma_reg_msgs\<close> gave a memory region.
\<close>

definition SendRecvSocket_setup_verbs_buf ::
    "nat option \<Rightarrow> bool \<Rightarrow> 'a sendrecv_socket_scheme \<Rightarrow> 'a sendrecv_socket_scheme outcome" where
  "SendRecvSocket_setup_verbs_buf memalign reg_ok s =
     bind_outcome (Buffer_allocate memalign (PACKET_SIZE * PACKET_WINDOW_SIZE * 2) (so_mem s)) (\<lambda>(m, b).
       let s = s\<lparr>so_mem := m, so_verbs_buf := b\<rparr>;
           send_buf_begin = buf_addr b + PACKET_SIZE * PACKET_WINDOW_SIZE
       in if \<not> reg_ok then Dies Exit_failure
          else fold_outcome (\<lambda>i s.
                 bind_outcome (SendRecvSocket_post_recv (Buffer_on (buf_addr b + i * PACKET_SIZE) PACKET_SIZE) s) (\<lambda>s.
                   Ret (s\<lparr>so_send_bufs := circular_push_back PACKET_WINDOW_SIZE (so_send_bufs s)
                            (Buffer_on (send_buf_begin + i * PACKET_SIZE) PACKET_SIZE)\<rparr>)))
               [0..<PACKET_WINDOW_SIZE] s)"

definition SendRecvSocket_new ::
    "nat option \<Rightarrow> bool \<Rightarrow> nat \<Rightarrow> qp \<Rightarrow> mem \<Rightarrow> sendrecv_socket outcome" where
  "SendRecvSocket_new memalign reg_ok junk q m =
     SendRecvSocket_setup_verbs_buf memalign reg_ok
       \<lparr>so_mem = m, so_msg_buf = Buffer_null junk, so_qp = q, so_verbs_buf = Buffer_null junk, so_send_bufs = []\<rparr>"

text \<open>\<open>append(header).append(body, body_size)\<close> on a buffer of the socket.\<close>

definition append_bytes ::
    "byte list \<Rightarrow> 'a sendrecv_socket_scheme \<times> buffer \<Rightarrow> ('a sendrecv_socket_scheme \<times> buffer) outcome" where
  "append_bytes src st =
     (let (s, b) = st in
      bind_outcome (Buffer_append b src (so_mem s)) (\<lambda>(m, b). Ret (s\<lparr>so_mem := m\<rparr>, b)))"

definition SendRecvSocket_send_msg :: "message \<Rightarrow> 'a sendrecv_socket_scheme \<Rightarrow> 'a sendrecv_socket_scheme outcome" where
  "SendRecvSocket_send_msg msg s =
     (let (header, body) = msg in
      bind_outcome (SendRecvSocket_get_send_buf s) (\<lambda>st.
      bind_outcome (append_bytes (header_bytes header) st) (\<lambda>st.
      bind_outcome (append_bytes (take (hdr_body_size header) body) st) (\<lambda>(s, send_buf).
        SendRecvSocket_post_send send_buf s))))"

definition SendRecvSocket_recv_header ::
    "'a sendrecv_socket_scheme \<Rightarrow> ('a sendrecv_socket_scheme \<times> message_header) outcome" where
  "SendRecvSocket_recv_header s =
     bind_outcome (SendRecvSocket_get_recv_buf s) (\<lambda>(s, b).
     bind_outcome (Buffer_read b sizeof_MessageHeader (so_mem s)) (\<lambda>(b, hdr).
       Ret (s\<lparr>so_msg_buf := b\<rparr>, header_of_bytes hdr)))"

definition SendRecvSocket_get_body :: "nat \<Rightarrow> 'a sendrecv_socket_scheme \<Rightarrow> nat" where
  "SendRecvSocket_get_body body_size s = buf_addr (so_msg_buf s) + sizeof_MessageHeader"

definition SendRecvSocket_clear_msg_buf :: "'a sendrecv_socket_scheme \<Rightarrow> 'a sendrecv_socket_scheme outcome" where
  "SendRecvSocket_clear_msg_buf s = SendRecvSocket_post_recv (so_msg_buf s) s"

text \<open>\<open>Communicator::recv\<close> up to the unpacking, on this class.\<close>

definition SendRecvSocket_recv_msg ::
    "'a sendrecv_socket_scheme \<Rightarrow> ('a sendrecv_socket_scheme \<times> message) outcome" where
  "SendRecvSocket_recv_msg s =
     bind_outcome (SendRecvSocket_recv_header s) (\<lambda>(s, header).
     let body = mem_read (so_mem s) (SendRecvSocket_get_body (hdr_body_size header) s) (hdr_body_size header)
     in bind_outcome (SendRecvSocket_clear_msg_buf s) (\<lambda>s. Ret (s, (header, body))))"

text \<open>The completions of the first poll are thrown away; the second waits for one more.\<close>

definition SendRecvSocket_send_close :: "nat \<times> nat \<Rightarrow> 'a sendrecv_socket_scheme \<Rightarrow> 'a sendrecv_socket_scheme outcome" where
  "SendRecvSocket_send_close junk s =
     bind_outcome (SendRecvSocket_get_send_buf s) (\<lambda>(s, send_buf).
     bind_outcome (ibv_poll_send_cq PACKET_WINDOW_SIZE s) (\<lambda>(s, _).
     bind_outcome (append_bytes (header_bytes (MessageHeader junk CLOSE 0)) (s, send_buf)) (\<lambda>(s, send_buf).
       SendRecvSocket_post_send send_buf s)))"

definition SendRecvSocket_send_close_wait :: "'a sendrecv_socket_scheme \<Rightarrow> 'a sendrecv_socket_scheme outcome" where
  "SendRecvSocket_send_close_wait s =
     bind_outcome (SendRecvSocket_poll_send_cq 1 s) (\<lambda>(s, _). Ret s)"

section \<open>The device\<close>

text \<open>
  The oldest request of one side takes effect at the other side.  A send needs a posted receive
  that is large enough; a write goes to the address it names; a write with immediate does both.
  Without a receive the device retries, so nothing happens.
\<close>

definition complete_send :: "'a sendrecv_socket_scheme \<Rightarrow> 'a sendrecv_socket_scheme" where
  "complete_send s =
     s\<lparr>so_qp := (so_qp s)\<lparr>qp_sends := tl (qp_sends (so_qp s)),
        qp_send_cq := qp_send_cq (so_qp s) @ [wr_context (hd (qp_sends (so_qp s)))]\<rparr>\<rparr>"

definition complete_recv :: "nat \<Rightarrow> 'b sendrecv_socket_scheme \<Rightarrow> 'b sendrecv_socket_scheme" where
  "complete_recv n s =
     s\<lparr>so_qp := (so_qp s)\<lparr>qp_recvs := tl (qp_recvs (so_qp s)),
        qp_recv_cq := qp_recv_cq (so_qp s) @ [(fst (hd (qp_recvs (so_qp s))), n)]\<rparr>\<rparr>"

definition deliver ::
    "'a sendrecv_socket_scheme \<times> 'b sendrecv_socket_scheme \<Rightarrow> 'a sendrecv_socket_scheme \<times> 'b sendrecv_socket_scheme" where
  "deliver st =
     (let (s, t) = st in
      case qp_sends (so_qp s) of
        [] \<Rightarrow> st
      | Wr_send a n # _ \<Rightarrow>
          (case qp_recvs (so_qp t) of
             [] \<Rightarrow> st
           | (b, k) # _ \<Rightarrow>
               if k < n then st
               else (complete_send s, complete_recv n (t\<lparr>so_mem := mem_write (so_mem t) b (mem_read (so_mem s) a n)\<rparr>)))
      | Wr_write a n r # _ \<Rightarrow>
          (complete_send s, t\<lparr>so_mem := mem_write (so_mem t) (rka_addr r) (mem_read (so_mem s) a n)\<rparr>)
      | Wr_write_imm a n r # _ \<Rightarrow>
          (case qp_recvs (so_qp t) of
             [] \<Rightarrow> st
           | _ # _ \<Rightarrow>
               (complete_send s, complete_recv n (t\<lparr>so_mem := mem_write (so_mem t) (rka_addr r) (mem_read (so_mem s) a n)\<rparr>)))
      | Wr_read a n r # _ \<Rightarrow>
          (complete_send (s\<lparr>so_mem := mem_write (so_mem s) a (mem_read (so_mem t) (rka_addr r) n)\<rparr>), t))"

end
