(* ===== verification/Windows.thy ===== *)
theory Windows
  imports Verbs "HOL-Library.Multiset"
begin

text \<open>
  The send and receive windows of \<open>SendRecvSocket\<close>: every one of the twenty buffers of a socket is at
  each moment in exactly one place (free, posted, completed, or held by a running operation), so no
  buffer is filled while the device still transmits it, and no window overflows.  On top of it two
  connected sockets are a channel of up to ten messages.
\<close>

definition send_slots :: "'a sendrecv_socket_scheme \<Rightarrow> nat list" where
  "send_slots s = map (\<lambda>i. buf_addr (so_verbs_buf s) + PACKET_SIZE * PACKET_WINDOW_SIZE + i * PACKET_SIZE) [0..<PACKET_WINDOW_SIZE]"

definition recv_slots :: "'a sendrecv_socket_scheme \<Rightarrow> nat list" where
  "recv_slots s = map (\<lambda>i. buf_addr (so_verbs_buf s) + i * PACKET_SIZE) [0..<PACKET_WINDOW_SIZE]"

definition send_part :: "'a sendrecv_socket_scheme \<Rightarrow> nat list \<Rightarrow> bool" where
  "send_part s held \<longleftrightarrow>
     mset (map buf_addr (so_send_bufs s)) + mset (map wr_context (qp_sends (so_qp s))) + mset (qp_send_cq (so_qp s)) + mset held =
       mset (send_slots s) \<and>
     (\<forall>b \<in> set (so_send_bufs s). buf_size b = PACKET_SIZE)"

definition recv_part :: "'a sendrecv_socket_scheme \<Rightarrow> nat list \<Rightarrow> bool" where
  "recv_part s held \<longleftrightarrow>
     mset (map fst (qp_recvs (so_qp s))) + mset (map fst (qp_recv_cq (so_qp s))) + mset held = mset (recv_slots s) \<and>
     (\<forall>r \<in> set (qp_recvs (so_qp s)). snd r = PACKET_SIZE) \<and> (\<forall>r \<in> set (qp_recv_cq (so_qp s)). snd r = PACKET_SIZE)"

definition window_inv :: "'a sendrecv_socket_scheme \<Rightarrow> bool" where
  "window_inv s \<longleftrightarrow> send_part s [] \<and> recv_part s [] \<and>
     (\<forall>w \<in> set (qp_sends (so_qp s)). w = Wr_send (wr_context w) PACKET_SIZE)"

lemma packets_apart:
  assumes "a \<in> set (map (\<lambda>i. base + i * PACKET_SIZE) [0..<n])" and "b \<in> set (map (\<lambda>i. base + i * PACKET_SIZE) [0..<n])" and "a \<noteq> b"
  shows "a + PACKET_SIZE \<le> b \<or> b + PACKET_SIZE \<le> a"
proof -
  obtain i j where ij: "a = base + i * PACKET_SIZE" "b = base + j * PACKET_SIZE" using assms(1,2) by auto
  then have "i \<noteq> j" using assms(3) by auto
  then have "Suc i \<le> j \<or> Suc j \<le> i" by auto
  then have "Suc i * PACKET_SIZE \<le> j * PACKET_SIZE \<or> Suc j * PACKET_SIZE \<le> i * PACKET_SIZE"
    by (meson mult_le_mono1)
  then show ?thesis by (auto simp: ij)
qed

lemma send_slots_apart:
  "a \<in> set (send_slots s) \<Longrightarrow> b \<in> set (send_slots s) \<Longrightarrow> a \<noteq> b \<Longrightarrow> a + PACKET_SIZE \<le> b \<or> b + PACKET_SIZE \<le> a"
  unfolding send_slots_def by (rule packets_apart)

lemma distinct_slots: "distinct (send_slots s)" "distinct (recv_slots s)"
  by (auto simp: send_slots_def recv_slots_def distinct_map inj_on_def PACKET_SIZE_def)

lemma length_slots [simp]: "length (send_slots s) = PACKET_WINDOW_SIZE" "length (recv_slots s) = PACKET_WINDOW_SIZE"
  by (simp_all add: send_slots_def recv_slots_def)

text \<open>All places together hold ten distinct buffers.\<close>

lemma send_part_places:
  assumes "send_part s held"
  shows "length (so_send_bufs s) + length (qp_sends (so_qp s)) + length (qp_send_cq (so_qp s)) + length held = PACKET_WINDOW_SIZE"
    and "distinct (map buf_addr (so_send_bufs s) @ map wr_context (qp_sends (so_qp s)) @ qp_send_cq (so_qp s) @ held)"
    and "set (map buf_addr (so_send_bufs s) @ map wr_context (qp_sends (so_qp s)) @ qp_send_cq (so_qp s) @ held) = set (send_slots s)"
proof -
  let ?xs = "map buf_addr (so_send_bufs s) @ map wr_context (qp_sends (so_qp s)) @ qp_send_cq (so_qp s) @ held"
  have eq: "mset ?xs = mset (send_slots s)" using assms by (simp add: send_part_def add.assoc)
  show "length (so_send_bufs s) + length (qp_sends (so_qp s)) + length (qp_send_cq (so_qp s)) + length held = PACKET_WINDOW_SIZE"
    using mset_eq_length[OF eq] by simp
  show "distinct ?xs" using distinct_slots(1) mset_eq_imp_distinct_iff[OF eq] by blast
  show "set ?xs = set (send_slots s)" by (rule mset_eq_setD[OF eq])
qed

lemma recv_part_places:
  assumes "recv_part s held"
  shows "length (qp_recvs (so_qp s)) + length (qp_recv_cq (so_qp s)) + length held = PACKET_WINDOW_SIZE"
    and "distinct (map fst (qp_recvs (so_qp s)) @ map fst (qp_recv_cq (so_qp s)) @ held)"
    and "set (map fst (qp_recvs (so_qp s)) @ map fst (qp_recv_cq (so_qp s)) @ held) = set (recv_slots s)"
proof -
  let ?xs = "map fst (qp_recvs (so_qp s)) @ map fst (qp_recv_cq (so_qp s)) @ held"
  have eq: "mset ?xs = mset (recv_slots s)" using assms by (simp add: recv_part_def add.assoc)
  show "length (qp_recvs (so_qp s)) + length (qp_recv_cq (so_qp s)) + length held = PACKET_WINDOW_SIZE"
    using mset_eq_length[OF eq] by simp
  show "distinct ?xs" using distinct_slots(2) mset_eq_imp_distinct_iff[OF eq] by blast
  show "set ?xs = set (recv_slots s)" by (rule mset_eq_setD[OF eq])
qed

section \<open>Sending\<close>

lemma fold_push_back:
  "length bs + length xs \<le> cap \<Longrightarrow> fold (\<lambda>x bs. circular_push_back cap bs (f x)) xs bs = bs @ map f xs"
  by (induction xs arbitrary: bs) (auto simp: circular_push_back_def)

text \<open>What \<open>get_send_buf\<close> hands out is in no other place, and is cleared.\<close>

lemma get_send_buf_Ret:
  assumes inv: "send_part s []" and ret: "SendRecvSocket_get_send_buf s = Ret (s', b)"
  shows "b = Buffer_on (buf_addr b) PACKET_SIZE" and "send_part s' [buf_addr b]"
    and "so_mem s' = mem_write (so_mem s) (buf_addr b) (replicate PACKET_SIZE 0)"
    and "so_verbs_buf s' = so_verbs_buf s" and "qp_sends (so_qp s') = qp_sends (so_qp s)"
    and "qp_recvs (so_qp s') = qp_recvs (so_qp s)" and "qp_recv_cq (so_qp s') = qp_recv_cq (so_qp s)"
    and "qp_post_rc (so_qp s') = qp_post_rc (so_qp s)" and "qp_poll_rc (so_qp s') = qp_poll_rc (so_qp s)"
    and "so_msg_buf s' = so_msg_buf s"
proof -
  have "b = Buffer_on (buf_addr b) PACKET_SIZE \<and> send_part s' [buf_addr b] \<and>
     so_mem s' = mem_write (so_mem s) (buf_addr b) (replicate PACKET_SIZE 0) \<and>
     so_verbs_buf s' = so_verbs_buf s \<and> qp_sends (so_qp s') = qp_sends (so_qp s) \<and>
     qp_recvs (so_qp s') = qp_recvs (so_qp s) \<and> qp_recv_cq (so_qp s') = qp_recv_cq (so_qp s) \<and>
     qp_post_rc (so_qp s') = qp_post_rc (so_qp s) \<and> qp_poll_rc (so_qp s') = qp_poll_rc (so_qp s) \<and>
     so_msg_buf s' = so_msg_buf s"
  proof (cases "so_send_bufs s")
    case Nil
    let ?cq = "qp_send_cq (so_qp s)"
    have len: "length ?cq \<le> PACKET_WINDOW_SIZE" using send_part_places(1)[OF inv] by simp
    obtain c cs where cq: "?cq = c # cs"
      using ret Nil by (cases ?cq) (auto simp: SendRecvSocket_get_send_buf_def SendRecvSocket_poll_send_cq_def split: if_splits)
    have "take PACKET_WINDOW_SIZE ?cq = c # cs" "drop PACKET_WINDOW_SIZE ?cq = []" using len cq by simp_all
    moreover have "\<not> qp_poll_rc (so_qp s) < 0"
      using ret Nil by (auto simp: SendRecvSocket_get_send_buf_def SendRecvSocket_poll_send_cq_def split: if_splits)
    moreover have "fold (\<lambda>wr_id bs. circular_push_back PACKET_WINDOW_SIZE bs (Buffer_on wr_id PACKET_SIZE)) cs [] =
        map (\<lambda>a. Buffer_on a PACKET_SIZE) cs"
      using len cq by (subst fold_push_back) auto
    ultimately have eq: "(s', b) = clear_buf (Buffer_on c PACKET_SIZE)
        (s\<lparr>so_qp := (so_qp s)\<lparr>qp_send_cq := []\<rparr>, so_send_bufs := map (\<lambda>a. Buffer_on a PACKET_SIZE) cs\<rparr>)"
      using ret Nil cq by (simp add: SendRecvSocket_get_send_buf_def SendRecvSocket_poll_send_cq_def Let_def)
    show ?thesis
      using eq inv Nil cq
      by (simp add: clear_buf_def Buffer_clear_def send_part_def Buffer_on_def comp_def send_slots_def ac_simps)
  next
    case (Cons b0 bs)
    have "(s', b) = clear_buf b0 (s\<lparr>so_send_bufs := bs\<rparr>)" using ret Cons by (simp add: SendRecvSocket_get_send_buf_def)
    then show ?thesis
      using inv Cons by (simp add: clear_buf_def Buffer_clear_def send_part_def Buffer_on_def send_slots_def)
  qed
  then show "b = Buffer_on (buf_addr b) PACKET_SIZE" "send_part s' [buf_addr b]"
    "so_mem s' = mem_write (so_mem s) (buf_addr b) (replicate PACKET_SIZE 0)"
    "so_verbs_buf s' = so_verbs_buf s" "qp_sends (so_qp s') = qp_sends (so_qp s)"
    "qp_recvs (so_qp s') = qp_recvs (so_qp s)" "qp_recv_cq (so_qp s') = qp_recv_cq (so_qp s)"
    "qp_post_rc (so_qp s') = qp_post_rc (so_qp s)" "qp_poll_rc (so_qp s') = qp_poll_rc (so_qp s)"
    "so_msg_buf s' = so_msg_buf s"
    by auto
qed

text \<open>It does not wait while fewer than ten sends are under way.\<close>

lemma get_send_buf_returns:
  assumes "send_part s []" and "length (qp_sends (so_qp s)) < PACKET_WINDOW_SIZE" and "0 \<le> qp_poll_rc (so_qp s)"
  shows "\<exists>s' b. SendRecvSocket_get_send_buf s = Ret (s', b)"
proof (cases "so_send_bufs s")
  case Nil
  then have "qp_send_cq (so_qp s) \<noteq> []" using send_part_places(1)[OF assms(1)] assms(2) by auto
  then show ?thesis
    using Nil assms(3)
    by (simp add: SendRecvSocket_get_send_buf_def SendRecvSocket_poll_send_cq_def PACKET_WINDOW_SIZE_def clear_buf_def case_prod_beta' Let_def)
qed (simp add: SendRecvSocket_get_send_buf_def clear_buf_def case_prod_beta')

text \<open>Filling a fresh buffer of the socket writes its bytes over the zeros.\<close>

definition packet :: "byte list list \<Rightarrow> byte list" where
  "packet srcs = concat srcs @ replicate (PACKET_SIZE - length (concat srcs)) 0"

lemma append_bytes_room:
  assumes "Buffer_ok b" and "write_pos b + length src \<le> buf_addr b + buf_size b"
  shows "append_bytes src (s, b) =
    Ret (s\<lparr>so_mem := mem_write (so_mem s) (write_pos b) src\<rparr>, b\<lparr>write_pos := write_pos b + length src\<rparr>)"
proof -
  have "length src < 2 ^ 64" using assms by (auto simp: Buffer_ok_def)
  from Buffer_append_iff[OF assms(1) this] assms(2) show ?thesis by (simp add: append_bytes_def)
qed

lemma append_bytes_all:
  assumes "Buffer_ok b" and "write_pos b + length (concat srcs) \<le> buf_addr b + buf_size b"
  shows "fold_outcome append_bytes srcs (s, b) =
    Ret (s\<lparr>so_mem := mem_write (so_mem s) (write_pos b) (concat srcs)\<rparr>, b\<lparr>write_pos := write_pos b + length (concat srcs)\<rparr>)"
  using assms
proof (induction srcs arbitrary: s b)
  case (Cons src srcs)
  have "append_bytes src (s, b) =
      Ret (s\<lparr>so_mem := mem_write (so_mem s) (write_pos b) src\<rparr>, b\<lparr>write_pos := write_pos b + length src\<rparr>)"
    using Cons.prems by (intro append_bytes_room) auto
  moreover have "Buffer_ok (b\<lparr>write_pos := write_pos b + length src\<rparr>)" using Cons.prems by (simp add: Buffer_ok_def)
  ultimately show ?case
    using Cons.IH[of "b\<lparr>write_pos := write_pos b + length src\<rparr>"] Cons.prems(2)
    by (simp add: add.assoc mem_write_append)
qed simp

lemma mem_write_packet:
  assumes "length (concat srcs) \<le> PACKET_SIZE"
  shows "mem_write (mem_write m a (replicate PACKET_SIZE 0)) a (concat srcs) = mem_write m a (packet srcs)"
  using assms by (auto simp: fun_eq_iff mem_write_def packet_def nth_append)

lemma append_packet:
  assumes "length (concat srcs) \<le> PACKET_SIZE" and "so_mem s = mem_write m a (replicate PACKET_SIZE 0)"
  shows "fold_outcome append_bytes srcs (s, Buffer_on a PACKET_SIZE) =
    Ret (s\<lparr>so_mem := mem_write m a (packet srcs)\<rparr>, Buffer_on a PACKET_SIZE\<lparr>write_pos := a + length (concat srcs)\<rparr>)"
proof -
  have "Buffer_ok (Buffer_on a PACKET_SIZE)" by (simp add: PACKET_SIZE_def)
  from append_bytes_all[OF this, of srcs s] show ?thesis
    using assms(1) mem_write_packet[OF assms(1), of m a] by (simp add: assms(2))
qed

lemma length_packet [simp]: "length (concat srcs) \<le> PACKET_SIZE \<Longrightarrow> length (packet srcs) = PACKET_SIZE"
  by (simp add: packet_def)

lemma SendRecvSocket_send_msg_eq:
  "SendRecvSocket_send_msg (h, body) s =
     bind_outcome (SendRecvSocket_get_send_buf s) (\<lambda>st.
     bind_outcome (fold_outcome append_bytes [header_bytes h, take (hdr_body_size h) body] st) (\<lambda>(s, b).
       SendRecvSocket_post_send b s))"
  by (simp add: SendRecvSocket_send_msg_def bind_outcome_assoc del: bind_outcome_simps) (simp add: bind_outcome_def cong: outcome.case_cong)

lemma append_bytes_keeps:
  assumes "append_bytes src (s, b) = Ret (s', b')"
  shows "\<exists>m. s' = s\<lparr>so_mem := m\<rparr>" and "buf_addr b' = buf_addr b" and "buf_size b' = buf_size b"
  using assms by (auto simp: append_bytes_def bind_outcome_Ret_iff Buffer_append_def split: if_splits)

lemma parts_mem [simp]:
  "send_part (s\<lparr>so_mem := m\<rparr>) held = send_part s held" "recv_part (s\<lparr>so_mem := m\<rparr>) held = recv_part s held"
  by (simp_all add: send_part_def recv_part_def send_slots_def recv_slots_def)

lemma window_inv_mem [simp]: "window_inv (s\<lparr>so_mem := m\<rparr>) = window_inv s"
  by (simp add: window_inv_def)

lemma post_send_window:
  assumes "send_part s [buf_addr b]" and "recv_part s []" and "buf_size b = PACKET_SIZE"
    and "\<forall>w \<in> set (qp_sends (so_qp s)). w = Wr_send (wr_context w) PACKET_SIZE"
    and "SendRecvSocket_post_send b s = Ret s'"
  shows "window_inv s'"
  using assms
  by (auto simp: SendRecvSocket_post_send_def window_inv_def send_part_def recv_part_def send_slots_def recv_slots_def
      ac_simps split: if_splits)

lemma send_msg_window:
  assumes inv: "window_inv s" and ret: "SendRecvSocket_send_msg msg s = Ret s'"
  shows "window_inv s'"
proof -
  obtain h body where msg: "msg = (h, body)" by (cases msg)
  obtain s1 b1 s2 b2 s3 b3 where 1: "SendRecvSocket_get_send_buf s = Ret (s1, b1)"
    and 2: "append_bytes (header_bytes h) (s1, b1) = Ret (s2, b2)"
    and 3: "append_bytes (take (hdr_body_size h) body) (s2, b2) = Ret (s3, b3)"
    and 4: "SendRecvSocket_post_send b3 s3 = Ret s'"
    using ret by (auto simp: SendRecvSocket_send_msg_def msg bind_outcome_Ret_iff)
  have "send_part s []" using inv by (simp add: window_inv_def)
  note G = get_send_buf_Ret[OF this 1]
  obtain m2 m3 where s2: "s2 = s1\<lparr>so_mem := m2\<rparr>" and s3: "s3 = s2\<lparr>so_mem := m3\<rparr>"
    using append_bytes_keeps(1)[OF 2] append_bytes_keeps(1)[OF 3] by blast
  have addr: "buf_addr b3 = buf_addr b1" "buf_size b3 = PACKET_SIZE"
    using append_bytes_keeps(2,3)[OF 2] append_bytes_keeps(2,3)[OF 3] arg_cong[OF G(1), where f = buf_size] by simp_all
  show ?thesis
  proof (rule post_send_window[OF _ _ addr(2) _ 4])
    show "send_part s3 [buf_addr b3]" using G(2) by (simp add: s2 s3 addr)
    show "recv_part s3 []" using inv G(4,6,7) by (simp add: s2 s3 window_inv_def recv_part_def recv_slots_def)
    show "\<forall>w \<in> set (qp_sends (so_qp s3)). w = Wr_send (wr_context w) PACKET_SIZE"
      using inv G(5) by (simp add: s2 s3 window_inv_def)
  qed
qed

section \<open>Receiving\<close>

lemma recv_msg_eq:
  assumes "0 \<le> qp_poll_rc (so_qp s)" and "0 \<le> qp_post_rc (so_qp s)" and "qp_recv_cq (so_qp s) = (a, PACKET_SIZE) # cq"
  shows "\<exists>b. SendRecvSocket_recv_msg s =
    Ret (s\<lparr>so_msg_buf := b, so_qp := (so_qp s)\<lparr>qp_recv_cq := cq, qp_recvs := qp_recvs (so_qp s) @ [(a, PACKET_SIZE)]\<rparr>\<rparr>,
      (header_of_bytes (mem_read (so_mem s) a 24),
       mem_read (so_mem s) (a + 24) (hdr_body_size (header_of_bytes (mem_read (so_mem s) a 24)))))"
proof -
  have g: "SendRecvSocket_get_recv_buf s = Ret (s\<lparr>so_qp := (so_qp s)\<lparr>qp_recv_cq := cq\<rparr>\<rparr>, Buffer_on a PACKET_SIZE)"
    using assms by (simp add: SendRecvSocket_get_recv_buf_def SendRecvSocket_poll_recv_cq_def)
  have r: "Buffer_read (Buffer_on a PACKET_SIZE) 24 m = Ret (Buffer_on a PACKET_SIZE\<lparr>read_pos := a + 24\<rparr>, mem_read m a 24)" for m
    by (subst Buffer_read_iff) (simp_all add: PACKET_SIZE_def)
  show ?thesis
    using assms(2)
    by (intro exI[of _ "Buffer_on a PACKET_SIZE\<lparr>read_pos := a + 24\<rparr>"])
      (simp add: SendRecvSocket_recv_msg_def SendRecvSocket_recv_header_def g r sizeof_simps SendRecvSocket_get_body_def
        SendRecvSocket_clear_msg_buf_def SendRecvSocket_post_recv_def Let_def)
qed

lemma recv_msg_RetD:
  assumes "SendRecvSocket_recv_msg s = Ret (s', m)" and "recv_part s []"
  obtains a cq where "qp_recv_cq (so_qp s) = (a, PACKET_SIZE) # cq" "0 \<le> qp_poll_rc (so_qp s)" "0 \<le> qp_post_rc (so_qp s)"
proof -
  from assms(1) obtain s1 h s2 where 1: "SendRecvSocket_recv_header s = Ret (s1, h)"
    and 2: "SendRecvSocket_clear_msg_buf s1 = Ret s2"
    by (auto simp: SendRecvSocket_recv_msg_def bind_outcome_Ret_iff Let_def)
  then obtain a n cq where "qp_recv_cq (so_qp s) = (a, n) # cq" "0 \<le> qp_poll_rc (so_qp s)"
    "qp_post_rc (so_qp s1) = qp_post_rc (so_qp s)"
    by (cases "qp_recv_cq (so_qp s)")
      (auto simp: SendRecvSocket_recv_header_def SendRecvSocket_get_recv_buf_def SendRecvSocket_poll_recv_cq_def
        bind_outcome_Ret_iff Let_def split: if_splits)
  moreover have "0 \<le> qp_post_rc (so_qp s1)"
    using 2 by (auto simp: SendRecvSocket_clear_msg_buf_def SendRecvSocket_post_recv_def split: if_splits)
  ultimately show thesis using that assms(2) by (auto simp: recv_part_def)
qed

lemma recv_window:
  assumes "window_inv s" and "qp_recv_cq (so_qp s) = (a, n) # cq"
    and "s' = s\<lparr>so_msg_buf := b, so_qp := (so_qp s)\<lparr>qp_recv_cq := cq, qp_recvs := qp_recvs (so_qp s) @ [(a, n)]\<rparr>\<rparr>"
  shows "window_inv s'"
  using assms by (auto simp: window_inv_def send_part_def recv_part_def send_slots_def recv_slots_def ac_simps)

lemma recv_msg_window:
  assumes inv: "window_inv s" and ret: "SendRecvSocket_recv_msg s = Ret (s', m)"
  shows "window_inv s'"
proof -
  have "recv_part s []" using inv by (simp add: window_inv_def)
  from recv_msg_RetD[OF ret this] obtain a cq where cq: "qp_recv_cq (so_qp s) = (a, PACKET_SIZE) # cq"
    "0 \<le> qp_poll_rc (so_qp s)" "0 \<le> qp_post_rc (so_qp s)" .
  from recv_msg_eq[OF cq(2,3,1)] ret show ?thesis by (auto intro: recv_window[OF inv cq(1)])
qed

section \<open>The device\<close>

lemma deliver_send:
  assumes "qp_sends (so_qp s) = Wr_send a n # ws" and "qp_recvs (so_qp t) = (b, k) # rs" and "n \<le> k"
  shows "deliver (s, t) = (s\<lparr>so_qp := (so_qp s)\<lparr>qp_sends := ws, qp_send_cq := qp_send_cq (so_qp s) @ [a]\<rparr>\<rparr>,
    t\<lparr>so_mem := mem_write (so_mem t) b (mem_read (so_mem s) a n),
      so_qp := (so_qp t)\<lparr>qp_recvs := rs, qp_recv_cq := qp_recv_cq (so_qp t) @ [(b, n)]\<rparr>\<rparr>)"
  using assms by (simp add: deliver_def complete_send_def complete_recv_def)

lemma deliver_window:
  assumes s: "window_inv s" and t: "window_inv t" and st: "deliver (s, t) = (s', t')"
  shows "window_inv s' \<and> window_inv t'"
proof (cases "deliver (s, t) = (s, t)")
  case True
  then show ?thesis using s t st by simp
next
  case False
  then obtain w ws where w: "qp_sends (so_qp s) = w # ws" by (cases "qp_sends (so_qp s)") (auto simp: deliver_def)
  define a where "a = wr_context w"
  have ww: "w = Wr_send a PACKET_SIZE" using s by (simp add: window_inv_def w a_def)
  obtain b k rs where r: "qp_recvs (so_qp t) = (b, k) # rs"
    using False by (cases "qp_recvs (so_qp t)") (auto simp: deliver_def w ww)
  have k: "k = PACKET_SIZE" using t by (simp add: window_inv_def recv_part_def r)
  from deliver_send[of s a PACKET_SIZE ws t b k rs] st w ww r k
  have "s' = s\<lparr>so_qp := (so_qp s)\<lparr>qp_sends := ws, qp_send_cq := qp_send_cq (so_qp s) @ [a]\<rparr>\<rparr>"
    "t' = t\<lparr>so_mem := mem_write (so_mem t) b (mem_read (so_mem s) a PACKET_SIZE),
      so_qp := (so_qp t)\<lparr>qp_recvs := rs, qp_recv_cq := qp_recv_cq (so_qp t) @ [(b, PACKET_SIZE)]\<rparr>\<rparr>" by auto
  then show ?thesis
    using s t by (auto simp: window_inv_def send_part_def recv_part_def send_slots_def recv_slots_def w ww r k ac_simps)
qed

section \<open>A fresh socket\<close>

lemma setup_loop:
  assumes "0 \<le> qp_post_rc (so_qp s)" and "n \<le> PACKET_WINDOW_SIZE" and "so_send_bufs s = []"
  shows "fold_outcome (\<lambda>i s.
      bind_outcome (SendRecvSocket_post_recv (Buffer_on (a + i * PACKET_SIZE) PACKET_SIZE) s) (\<lambda>s.
        Ret (s\<lparr>so_send_bufs := circular_push_back PACKET_WINDOW_SIZE (so_send_bufs s)
                 (Buffer_on (a' + i * PACKET_SIZE) PACKET_SIZE)\<rparr>))) [0..<n] s =
    Ret (s\<lparr>so_qp := (so_qp s)\<lparr>qp_recvs := qp_recvs (so_qp s) @ map (\<lambda>i. (a + i * PACKET_SIZE, PACKET_SIZE)) [0..<n]\<rparr>,
      so_send_bufs := map (\<lambda>i. Buffer_on (a' + i * PACKET_SIZE) PACKET_SIZE) [0..<n]\<rparr>)"
  using assms(2)
proof (induction n)
  case 0
  then show ?case using assms(3) by simp
next
  case (Suc n)
  then have "n \<le> PACKET_WINDOW_SIZE" by simp
  from Suc.IH[OF this] Suc.prems assms(1) show ?case
    by (simp add: fold_outcome_append SendRecvSocket_post_recv_def circular_push_back_def)
qed

lemma SendRecvSocket_new_eq:
  assumes "0 \<le> qp_post_rc q" and "qp_recvs q = []"
  shows "SendRecvSocket_new (Some a) True junk q m =
    Ret \<lparr>so_mem = mem_write m a (replicate (PACKET_SIZE * PACKET_WINDOW_SIZE * 2) 0), so_msg_buf = Buffer_null junk,
      so_qp = q\<lparr>qp_recvs := map (\<lambda>i. (a + i * PACKET_SIZE, PACKET_SIZE)) [0..<PACKET_WINDOW_SIZE]\<rparr>,
      so_verbs_buf = Buffer_on a (PACKET_SIZE * PACKET_WINDOW_SIZE * 2),
      so_send_bufs = map (\<lambda>i. Buffer_on (a + PACKET_SIZE * PACKET_WINDOW_SIZE + i * PACKET_SIZE) PACKET_SIZE) [0..<PACKET_WINDOW_SIZE]\<rparr>"
  unfolding SendRecvSocket_new_def SendRecvSocket_setup_verbs_buf_def Buffer_allocate_def Let_def option.case
    bind_outcome_simps case_prod_conv not_True_eq_False if_False Buffer_on_sel
  by (subst setup_loop) (use assms in simp_all)

lemma SendRecvSocket_new_Ret:
  assumes "SendRecvSocket_new (Some a) True junk q m = Ret s" and "0 \<le> qp_post_rc q"
    and "qp_sends q = []" and "qp_send_cq q = []" and "qp_recvs q = []" and "qp_recv_cq q = []"
  shows "window_inv s" and "qp_sends (so_qp s) = []" and "qp_recv_cq (so_qp s) = []"
    and "qp_post_rc (so_qp s) = qp_post_rc q" and "qp_poll_rc (so_qp s) = qp_poll_rc q"
  using assms(1) SendRecvSocket_new_eq[OF assms(2,5), of a junk m] assms(3,4,6)
  by (auto simp: window_inv_def send_part_def recv_part_def send_slots_def recv_slots_def multiset.map_comp comp_def)

end
