(* ===== verification/Sendrecv_Channel.thy ===== *)
theory Sendrecv_Channel
  imports Windows
begin

text \<open>
  Two connected \<open>SendRecvSocket\<close>s, the sender's half of one and the receiver's half of the other, are
  a message channel with room for ten messages.
\<close>

definition packet_msg :: "byte list \<Rightarrow> message" where
  "packet_msg bs = (let h = header_of_bytes (take 24 bs) in (h, take (hdr_body_size h) (drop 24 bs)))"

definition sr_fits :: "message \<Rightarrow> bool" where
  "sr_fits msg \<longleftrightarrow> header_ok (fst msg) \<and> hdr_body_size (fst msg) = length (snd msg) \<and> 24 + length (snd msg) \<le> PACKET_SIZE"

definition qp_works :: "'a sendrecv_socket_scheme \<Rightarrow> bool" where
  "qp_works s \<longleftrightarrow> 0 \<le> qp_post_rc (so_qp s) \<and> 0 \<le> qp_poll_rc (so_qp s)"

text \<open>The packets under way, oldest first: those that have arrived, then those still queued.\<close>

definition sr_packets :: "sendrecv_socket \<times> sendrecv_socket \<Rightarrow> byte list list" where
  "sr_packets st =
     map (\<lambda>r. mem_read (so_mem (snd st)) (fst r) PACKET_SIZE) (qp_recv_cq (so_qp (snd st))) @
     map (\<lambda>w. mem_read (so_mem (fst st)) (wr_context w) PACKET_SIZE) (qp_sends (so_qp (fst st)))"

definition sr_pending :: "sendrecv_socket \<times> sendrecv_socket \<Rightarrow> message list" where
  "sr_pending st = map packet_msg (sr_packets st)"

definition sr_ok :: "sendrecv_socket \<times> sendrecv_socket \<Rightarrow> bool" where
  "sr_ok st \<longleftrightarrow> window_inv (fst st) \<and> window_inv (snd st) \<and> qp_works (fst st) \<and> qp_works (snd st) \<and>
     (\<forall>m \<in> set (sr_pending st). sr_fits m)"

definition sr_send :: "message \<Rightarrow> sendrecv_socket \<times> sendrecv_socket \<Rightarrow> (sendrecv_socket \<times> sendrecv_socket) outcome" where
  "sr_send msg st = bind_outcome (SendRecvSocket_send_msg msg (fst st)) (\<lambda>s. Ret (s, snd st))"

text \<open>A receiver that finds nothing waits for the device to deliver the next packet, if there is one.\<close>

definition sr_recv :: "sendrecv_socket \<times> sendrecv_socket \<Rightarrow> ((sendrecv_socket \<times> sendrecv_socket) \<times> message) outcome" where
  "sr_recv st =
     (let st = (if qp_recv_cq (so_qp (snd st)) = [] then deliver st else st)
      in bind_outcome (SendRecvSocket_recv_msg (snd st)) (\<lambda>(t, msg). Ret ((fst st, t), msg)))"

lemma packet_msg_packet:
  assumes "sr_fits (h, body)"
  shows "packet_msg (packet [header_bytes h, body]) = (h, body)"
  using assms by (simp add: packet_msg_def packet_def sr_fits_def header_roundtrip Let_def)

lemma packet_msg_read:
  assumes "sr_fits (packet_msg (mem_read m a PACKET_SIZE))"
  shows "packet_msg (mem_read m a PACKET_SIZE) =
    (header_of_bytes (mem_read m a 24), mem_read m (a + 24) (hdr_body_size (header_of_bytes (mem_read m a 24))))"
proof -
  have t: "take 24 (mem_read m a PACKET_SIZE) = mem_read m a 24" by (rule mem_read_take) (simp add: PACKET_SIZE_def)
  have "mem_read m a PACKET_SIZE = mem_read m a 24 @ mem_read m (a + 24) 2536"
    using mem_read_append[of m a 24 2536] by (simp add: PACKET_SIZE_def)
  then have d: "drop 24 (mem_read m a PACKET_SIZE) = mem_read m (a + 24) 2536" by simp
  let ?n = "hdr_body_size (header_of_bytes (mem_read m a 24))"
  have "?n = min 2536 ?n" using assms by (simp add: sr_fits_def packet_msg_def t d Let_def)
  then have "?n \<le> 2536" by linarith
  then show ?thesis by (simp add: packet_msg_def t d Let_def mem_read_take)
qed

text \<open>Sending appends one packet and leaves the others alone.\<close>

lemma sr_send_works:
  assumes inv: "window_inv s" and works: "qp_works s" and fits: "sr_fits (h, body)"
    and room: "length (qp_sends (so_qp s)) < PACKET_WINDOW_SIZE"
  obtains s' a where "SendRecvSocket_send_msg (h, body) s = Ret s'" and "window_inv s'" and "qp_works s'"
    and "qp_sends (so_qp s') = qp_sends (so_qp s) @ [Wr_send a PACKET_SIZE]"
    and "mem_read (so_mem s') a PACKET_SIZE = packet [header_bytes h, body]"
    and "\<And>w. w \<in> set (qp_sends (so_qp s)) \<Longrightarrow>
      mem_read (so_mem s') (wr_context w) PACKET_SIZE = mem_read (so_mem s) (wr_context w) PACKET_SIZE"
proof -
  have p: "send_part s []" and rc: "0 \<le> qp_post_rc (so_qp s)" "0 \<le> qp_poll_rc (so_qp s)"
    using inv works by (simp_all add: window_inv_def qp_works_def)
  obtain s1 b where g: "SendRecvSocket_get_send_buf s = Ret (s1, b)" using get_send_buf_returns[OF p room rc(2)] by blast
  note G = get_send_buf_Ret[OF p g]
  define a where "a = buf_addr b"
  have b: "b = Buffer_on a PACKET_SIZE" using G(1) by (simp add: a_def)
  let ?srcs = "[header_bytes h, body]"
  have len: "length (concat ?srcs) \<le> PACKET_SIZE" and body: "take (hdr_body_size h) body = body"
    using fits by (simp_all add: sr_fits_def)
  have plen: "length (packet ?srcs) = PACKET_SIZE" by (rule length_packet[OF len])
  define s2 where "s2 = s1\<lparr>so_mem := mem_write (so_mem s) a (packet ?srcs)\<rparr>"
  define s' where "s' = s2\<lparr>so_qp := (so_qp s2)\<lparr>qp_sends := qp_sends (so_qp s2) @ [Wr_send a PACKET_SIZE]\<rparr>\<rparr>"
  have "fold_outcome append_bytes ?srcs (s1, b) = Ret (s2, Buffer_on a PACKET_SIZE\<lparr>write_pos := a + length (concat ?srcs)\<rparr>)"
    unfolding b s2_def by (rule append_packet[OF len]) (simp add: G(3) a_def)
  then have send: "SendRecvSocket_send_msg (h, body) s = Ret s'"
    using rc(1) by (simp add: SendRecvSocket_send_msg_eq body g SendRecvSocket_post_send_def s2_def s'_def G(8)
        del: fold_outcome.simps)
  have sends: "qp_sends (so_qp s') = qp_sends (so_qp s) @ [Wr_send a PACKET_SIZE]" by (simp add: s'_def s2_def G(5))
  have mem: "so_mem s' = mem_write (so_mem s) a (packet ?srcs)" by (simp add: s'_def s2_def)
  have other: "mem_read (so_mem s') (wr_context w) PACKET_SIZE = mem_read (so_mem s) (wr_context w) PACKET_SIZE"
    if w: "w \<in> set (qp_sends (so_qp s))" for w
  proof -
    note places = send_part_places[OF G(2)]
    have "wr_context w \<in> set (send_slots s1)" "a \<in> set (send_slots s1)" using places(3) w by (auto simp: G(5) a_def)
    moreover have "wr_context w \<noteq> a"
    proof
      assume "wr_context w = a"
      then have "a \<in> wr_context ` set (qp_sends (so_qp s))" using w by auto
      then show False using places(2) by (simp add: G(5) a_def)
    qed
    ultimately have "wr_context w + PACKET_SIZE \<le> a \<or> a + PACKET_SIZE \<le> wr_context w" by (rule send_slots_apart)
    then show ?thesis unfolding mem by (intro mem_read_write_disjoint) (simp add: plen)
  qed
  show thesis
  proof (rule that[OF send _ _ sends _ other])
    show "window_inv s'" by (rule send_msg_window[OF inv send])
    show "qp_works s'" using works by (simp add: s'_def s2_def qp_works_def G(8,9))
    show "mem_read (so_mem s') a PACKET_SIZE = packet ?srcs" unfolding mem by (rule mem_read_write_same_len) (simp add: plen)
  qed
qed

lemma sr_recv_arrived:
  assumes ok: "sr_ok (s, t)" and cq: "qp_recv_cq (so_qp t) = (a, PACKET_SIZE) # cq" and p: "sr_pending (s, t) = m # ms"
  shows "\<exists>t'. SendRecvSocket_recv_msg t = Ret (t', m) \<and> sr_ok (s, t') \<and> sr_pending (s, t') = ms"
proof -
  have rc: "0 \<le> qp_poll_rc (so_qp t)" "0 \<le> qp_post_rc (so_qp t)" using ok by (simp_all add: sr_ok_def qp_works_def)
  obtain b where r: "SendRecvSocket_recv_msg t =
      Ret (t\<lparr>so_msg_buf := b, so_qp := (so_qp t)\<lparr>qp_recv_cq := cq, qp_recvs := qp_recvs (so_qp t) @ [(a, PACKET_SIZE)]\<rparr>\<rparr>,
        (header_of_bytes (mem_read (so_mem t) a 24),
         mem_read (so_mem t) (a + 24) (hdr_body_size (header_of_bytes (mem_read (so_mem t) a 24)))))"
    using recv_msg_eq[OF rc cq] by blast
  let ?t = "t\<lparr>so_msg_buf := b, so_qp := (so_qp t)\<lparr>qp_recv_cq := cq, qp_recvs := qp_recvs (so_qp t) @ [(a, PACKET_SIZE)]\<rparr>\<rparr>"
  have m: "m = packet_msg (mem_read (so_mem t) a PACKET_SIZE)" and ms: "ms = sr_pending (s, ?t)"
    using p by (simp_all add: sr_pending_def sr_packets_def cq)
  have "sr_fits m" using ok p by (simp add: sr_ok_def)
  from packet_msg_read[OF this[unfolded m]] have "m = (header_of_bytes (mem_read (so_mem t) a 24),
         mem_read (so_mem t) (a + 24) (hdr_body_size (header_of_bytes (mem_read (so_mem t) a 24))))" by (simp add: m)
  then have ret: "SendRecvSocket_recv_msg t = Ret (?t, m)" using r by simp
  moreover have "window_inv ?t" using recv_msg_window[OF _ ret] ok by (simp add: sr_ok_def)
  moreover have "\<forall>m \<in> set (sr_pending (s, ?t)). sr_fits m" using ok p ms by (simp add: sr_ok_def)
  ultimately show ?thesis using ok ms by (intro exI[of _ ?t]) (simp add: sr_ok_def qp_works_def)
qed

lemma sr_deliver:
  assumes ok: "sr_ok (s, t)" and cq: "qp_recv_cq (so_qp t) = []" and p: "sr_pending (s, t) = m # ms"
  shows "\<exists>s' t' b. deliver (s, t) = (s', t') \<and> sr_ok (s', t') \<and> sr_pending (s', t') = m # ms \<and>
    qp_recv_cq (so_qp t') = [(b, PACKET_SIZE)]"
proof -
  have inv: "window_inv s" "window_inv t" using ok by (simp_all add: sr_ok_def)
  obtain w ws where w: "qp_sends (so_qp s) = w # ws"
    using p cq by (cases "qp_sends (so_qp s)") (auto simp: sr_pending_def sr_packets_def)
  define a where "a = wr_context w"
  have ww: "w = Wr_send a PACKET_SIZE" using inv(1) by (simp add: window_inv_def w a_def)
  have rp: "recv_part t []" using inv(2) by (simp add: window_inv_def)
  have "length (qp_recvs (so_qp t)) = PACKET_WINDOW_SIZE" using recv_part_places(1)[OF rp] cq by simp
  then obtain b k rs where r: "qp_recvs (so_qp t) = (b, k) # rs"
    by (cases "qp_recvs (so_qp t)") (auto simp: PACKET_WINDOW_SIZE_def)
  have k: "k = PACKET_SIZE" using rp by (simp add: recv_part_def r)
  let ?s = "s\<lparr>so_qp := (so_qp s)\<lparr>qp_sends := ws, qp_send_cq := qp_send_cq (so_qp s) @ [a]\<rparr>\<rparr>"
  let ?t = "t\<lparr>so_mem := mem_write (so_mem t) b (mem_read (so_mem s) a PACKET_SIZE),
      so_qp := (so_qp t)\<lparr>qp_recvs := rs, qp_recv_cq := [(b, PACKET_SIZE)]\<rparr>\<rparr>"
  have d: "deliver (s, t) = (?s, ?t)" using deliver_send[of s a PACKET_SIZE ws t b k rs] w ww r k cq by simp
  have "window_inv ?s \<and> window_inv ?t" by (rule deliver_window[OF inv d])
  moreover have "sr_pending (?s, ?t) = m # ms"
    using p by (simp add: sr_pending_def sr_packets_def cq w ww mem_simps)
  ultimately show ?thesis using ok d p by (intro exI[of _ ?s] exI[of _ ?t] exI[of _ b]) (simp add: sr_ok_def qp_works_def)
qed

interpretation sr: message_channel sr_send sr_recv sr_pending sr_ok sr_fits "\<lambda>n. n < PACKET_WINDOW_SIZE"
proof unfold_locales
  fix w m
  assume ok: "sr_ok w" and m: "sr_fits m" and n: "length (sr_pending w) < PACKET_WINDOW_SIZE"
  obtain s t where w: "w = (s, t)" by (cases w)
  obtain h body where hb: "m = (h, body)" by (cases m)
  have inv: "window_inv s" "qp_works s" using ok by (simp_all add: sr_ok_def w)
  have "length (qp_sends (so_qp s)) < PACKET_WINDOW_SIZE" using n by (simp add: w sr_pending_def sr_packets_def)
  from sr_send_works[OF inv m[unfolded hb] this] obtain s' a where
    s': "SendRecvSocket_send_msg (h, body) s = Ret s'" "window_inv s'" "qp_works s'"
      "qp_sends (so_qp s') = qp_sends (so_qp s) @ [Wr_send a PACKET_SIZE]"
      "mem_read (so_mem s') a PACKET_SIZE = packet [header_bytes h, body]"
    and same: "\<And>w. w \<in> set (qp_sends (so_qp s)) \<Longrightarrow>
      mem_read (so_mem s') (wr_context w) PACKET_SIZE = mem_read (so_mem s) (wr_context w) PACKET_SIZE" by blast
  have "map (\<lambda>w. mem_read (so_mem s') (wr_context w) PACKET_SIZE) (qp_sends (so_qp s)) =
      map (\<lambda>w. mem_read (so_mem s) (wr_context w) PACKET_SIZE) (qp_sends (so_qp s))"
    by (rule map_cong[OF refl]) (rule same)
  then have "sr_pending (s', t) = sr_pending (s, t) @ [m]"
    using packet_msg_packet[OF m[unfolded hb]] s'(4,5)
    by (simp add: sr_pending_def sr_packets_def hb)
  then show "\<exists>w'. sr_send m w = Ret w' \<and> sr_ok w' \<and> sr_pending w' = sr_pending w @ [m]"
    using ok m s' by (intro exI[of _ "(s', t)"]) (simp add: sr_send_def w hb sr_ok_def)
next
  fix w m ms
  assume ok: "sr_ok w" and p: "sr_pending w = m # ms"
  obtain s t where w: "w = (s, t)" by (cases w)
  show "\<exists>w'. sr_recv w = Ret (w', m) \<and> sr_ok w' \<and> sr_pending w' = ms"
  proof (cases "qp_recv_cq (so_qp t)")
    case Nil
    from sr_deliver[OF ok[unfolded w] Nil p[unfolded w]] obtain s' t' b where
      d: "deliver (s, t) = (s', t')" "sr_ok (s', t')" "sr_pending (s', t') = m # ms" "qp_recv_cq (so_qp t') = [(b, PACKET_SIZE)]"
      by blast
    from sr_recv_arrived[OF d(2,4,3)] obtain t'' where
      "SendRecvSocket_recv_msg t' = Ret (t'', m)" "sr_ok (s', t'')" "sr_pending (s', t'') = ms" by blast
    then show ?thesis using d(1) Nil by (intro exI[of _ "(s', t'')"]) (simp add: sr_recv_def w)
  next
    case (Cons r cq)
    have "window_inv t" using ok by (simp add: sr_ok_def w)
    then obtain a where "r = (a, PACKET_SIZE)" by (cases r) (simp add: window_inv_def recv_part_def Cons)
    with Cons have cq: "qp_recv_cq (so_qp t) = (a, PACKET_SIZE) # cq" by simp
    from sr_recv_arrived[OF ok[unfolded w] this p[unfolded w]] obtain t' where
      "SendRecvSocket_recv_msg t = Ret (t', m)" "sr_ok (s, t')" "sr_pending (s, t') = ms" by blast
    then show ?thesis using cq by (intro exI[of _ "(s, t')"]) (simp add: sr_recv_def w)
  qed
next
  fix w assume ok: "sr_ok w" and p: "sr_pending w = []"
  obtain s t where w: "w = (s, t)" by (cases w)
  have e: "qp_recv_cq (so_qp t) = []" "qp_sends (so_qp s) = []" using p by (simp_all add: w sr_pending_def sr_packets_def)
  then have "deliver (s, t) = (s, t)" by (simp add: deliver_def)
  moreover have "\<not> qp_poll_rc (so_qp t) < 0" using ok by (simp add: w sr_ok_def qp_works_def)
  ultimately show "sr_recv w = Blocks"
    using e(1) by (simp add: sr_recv_def w SendRecvSocket_recv_msg_def SendRecvSocket_recv_header_def
        SendRecvSocket_get_recv_buf_def SendRecvSocket_poll_recv_cq_def)
qed (simp add: PACKET_WINDOW_SIZE_def)

end
