(* ===== verification/Rdma_Sockets.thy ===== *)
theory Rdma_Sockets
  imports Sendrecv_Channel
begin

text \<open>
  \<open>RDMAWriteSocket\<close> and \<open>RDMAWriteImmSocket\<close> (\<open>include/common/net/RDMAWriteSocket.h\<close>,
  \<open>src/common/net/RDMAWriteSocket.cpp\<close>, \<open>include/common/net/RDMAWriteImmSocket.h\<close>,
  \<open>src/common/net/RDMAWriteImmSocket.cpp\<close>): a message is written into one buffer of the peer.  The
  first class learns of it by polling two flags in that buffer, the second by the completion of a
  receive.  The records extend that of \<open>SendRecvSocket\<close> as the classes do.
\<close>

record rdma_write_socket = sendrecv_socket +
  rw_read_mr :: "nat option"
  rw_write_buf :: buffer
  rw_write_mr :: nat
  rw_rka :: rka

definition sizeof_rka :: nat where "sizeof_rka = 16"

text \<open>\<open>RemoteKeyAndAddr\<close> as \<open>append\<close> copies it: a 4-byte key, 4 bytes of padding, an 8-byte address.\<close>

definition rka_bytes :: "nat \<Rightarrow> rka \<Rightarrow> byte list" where
  "rka_bytes junk r = le_bytes 4 (rka_rkey r) @ le_bytes 4 junk @ le_bytes 8 (rka_addr r)"

definition rka_of_bytes :: "byte list \<Rightarrow> rka" where
  "rka_of_bytes bs = RemoteKeyAndAddr (le_val (take 4 bs)) (le_val (take 8 (drop 8 bs)))"

section \<open>Setting up\<close>

text \<open>\<open>reg\<close> is the key of the region that \<open>rdma_reg_write\<close> or \<open>rdma_reg_read\<close> gave, if it gave one.\<close>

definition RDMAWriteSocket_setup_write_buf ::
    "nat option \<Rightarrow> nat option \<Rightarrow> rdma_write_socket \<Rightarrow> rdma_write_socket outcome" where
  "RDMAWriteSocket_setup_write_buf memalign reg s =
     bind_outcome (Buffer_allocate memalign PACKET_SIZE (so_mem s)) (\<lambda>(m, b).
       case reg of
         None \<Rightarrow> Dies Exit_failure
       | Some rkey \<Rightarrow> Ret (s\<lparr>so_mem := m, rw_write_buf := b, rw_write_mr := rkey\<rparr>))"

definition RDMAWriteSocket_setup_read_buf :: "nat option \<Rightarrow> rdma_write_socket \<Rightarrow> rdma_write_socket outcome" where
  "RDMAWriteSocket_setup_read_buf reg s =
     (case reg of None \<Rightarrow> Dies Exit_failure | Some rkey \<Rightarrow> Ret (s\<lparr>rw_read_mr := Some rkey\<rparr>))"

text \<open>
  The constructor up to the send of its own key and address, and the rest, which waits for the
  peer's.
\<close>

definition RDMAWriteSocket_new ::
    "nat option \<Rightarrow> bool \<Rightarrow> nat option \<Rightarrow> nat option \<Rightarrow> nat \<Rightarrow> qp \<Rightarrow> mem \<Rightarrow> rdma_write_socket outcome" where
  "RDMAWriteSocket_new memalign reg_ok memalign_write reg junk q m =
     bind_outcome (SendRecvSocket_new memalign reg_ok junk q m) (\<lambda>s.
     let s = sendrecv_socket.extend s \<lparr>rw_read_mr = None, rw_write_buf = Buffer_null junk, rw_write_mr = 0,
               rw_rka = RemoteKeyAndAddr_default\<rparr>
     in bind_outcome (RDMAWriteSocket_setup_write_buf memalign_write reg s) (\<lambda>s.
        bind_outcome (SendRecvSocket_get_send_buf s) (\<lambda>(s, send_buf).
        let rka = RemoteKeyAndAddr (rw_write_mr s) (buf_addr (rw_write_buf s))
        in bind_outcome (append_bytes (rka_bytes junk rka) (s, send_buf)) (\<lambda>(s, send_buf).
           SendRecvSocket_post_send send_buf s))))"

definition RDMAWriteSocket_new_recv :: "rdma_write_socket \<Rightarrow> rdma_write_socket outcome" where
  "RDMAWriteSocket_new_recv s =
     bind_outcome (SendRecvSocket_get_recv_buf s) (\<lambda>(s, recv_buf).
     bind_outcome (Buffer_read recv_buf sizeof_rka (so_mem s)) (\<lambda>(recv_buf, bs).
       SendRecvSocket_post_recv recv_buf (s\<lparr>rw_rka := rka_of_bytes bs\<rparr>)))"

section \<open>Messages by RDMA write\<close>

definition RDMAWriteSocket_post_write :: "buffer \<Rightarrow> rka \<Rightarrow> rdma_write_socket \<Rightarrow> rdma_write_socket outcome" where
  "RDMAWriteSocket_post_write b r s =
     (if qp_post_rc (so_qp s) < 0 then Dies Exit_failure
      else Ret (s\<lparr>so_qp := (so_qp s)\<lparr>qp_sends := qp_sends (so_qp s) @ [Wr_write (buf_addr b) (buf_size b) r]\<rparr>\<rparr>))"

definition RDMAWriteSocket_post_read :: "buffer \<Rightarrow> rka \<Rightarrow> rdma_write_socket \<Rightarrow> rdma_write_socket outcome" where
  "RDMAWriteSocket_post_read b r s =
     (if qp_post_rc (so_qp s) < 0 then Dies Exit_failure
      else Ret (s\<lparr>so_qp := (so_qp s)\<lparr>qp_sends := qp_sends (so_qp s) @ [Wr_read (buf_addr b) (buf_size b) r]\<rparr>\<rparr>))"

text \<open>\<open>read\<close> up to its polling loop; the buffer that it will poll is the second result.\<close>

definition RDMAWriteSocket_read :: "rka \<Rightarrow> rdma_write_socket \<Rightarrow> (rdma_write_socket \<times> buffer) outcome" where
  "RDMAWriteSocket_read r s =
     bind_outcome (SendRecvSocket_get_send_buf s) (\<lambda>(s, read_buf).
     bind_outcome (RDMAWriteSocket_post_read read_buf r s) (\<lambda>s. Ret (s, read_buf)))"

definition append_arrived :: "message \<Rightarrow> rdma_write_socket \<times> buffer \<Rightarrow> (rdma_write_socket \<times> buffer) outcome" where
  "append_arrived msg st =
     (let (header, body) = msg; is_arrived = 0xffffffff in
      bind_outcome (append_bytes (header_bytes header) st) (\<lambda>st.
      bind_outcome (append_bytes (take (hdr_body_size header) body) st) (\<lambda>st.
        append_bytes (le_bytes 4 is_arrived) st)))"

definition RDMAWriteSocket_send_msg :: "message \<Rightarrow> rdma_write_socket \<Rightarrow> rdma_write_socket outcome" where
  "RDMAWriteSocket_send_msg msg s =
     bind_outcome (SendRecvSocket_get_send_buf s) (\<lambda>st.
     bind_outcome (append_arrived msg st) (\<lambda>(s, send_buf).
       RDMAWriteSocket_post_write send_buf (rw_rka s) s))"

text \<open>The two loops spin on memory that the device fills; with the flag zero they do not end yet.\<close>

definition RDMAWriteSocket_recv_header :: "rdma_write_socket \<Rightarrow> (rdma_write_socket \<times> message_header) outcome" where
  "RDMAWriteSocket_recv_header s =
     (if le_val (mem_read (so_mem s) (buf_addr (rw_write_buf s) + offsetof_is_arrived) 4) = 0 then Blocks
      else bind_outcome (Buffer_read (rw_write_buf s) sizeof_MessageHeader (so_mem s)) (\<lambda>(b, hdr).
        Ret (s\<lparr>rw_write_buf := b\<rparr>, header_of_bytes hdr)))"

definition RDMAWriteSocket_get_body :: "nat \<Rightarrow> rdma_write_socket \<Rightarrow> nat outcome" where
  "RDMAWriteSocket_get_body body_size s =
     (if le_val (mem_read (so_mem s) (buf_addr (rw_write_buf s) + sizeof_MessageHeader + body_size) 4) = 0 then Blocks
      else Ret (buf_addr (rw_write_buf s) + sizeof_MessageHeader))"

definition RDMAWriteSocket_clear_msg_buf :: "rdma_write_socket \<Rightarrow> rdma_write_socket" where
  "RDMAWriteSocket_clear_msg_buf s =
     (let (s, b) = clear_buf (rw_write_buf s) s in s\<lparr>rw_write_buf := b\<rparr>)"

text \<open>\<open>Communicator::recv\<close> up to the unpacking, on this class.\<close>

definition RDMAWriteSocket_recv_msg :: "rdma_write_socket \<Rightarrow> (rdma_write_socket \<times> message) outcome" where
  "RDMAWriteSocket_recv_msg s =
     bind_outcome (RDMAWriteSocket_recv_header s) (\<lambda>(s, header).
     bind_outcome (RDMAWriteSocket_get_body (hdr_body_size header) s) (\<lambda>p.
       let body = mem_read (so_mem s) p (hdr_body_size header)
       in Ret (RDMAWriteSocket_clear_msg_buf s, (header, body))))"

definition RDMAWriteSocket_send_close :: "nat \<times> nat \<Rightarrow> rdma_write_socket \<Rightarrow> rdma_write_socket outcome" where
  "RDMAWriteSocket_send_close junk s =
     bind_outcome (SendRecvSocket_get_send_buf s) (\<lambda>(s, send_buf).
     bind_outcome (ibv_poll_send_cq PACKET_WINDOW_SIZE s) (\<lambda>(s, _).
     bind_outcome (append_arrived (MessageHeader junk CLOSE 0, []) (s, send_buf)) (\<lambda>(s, send_buf).
       RDMAWriteSocket_post_write send_buf (rw_rka s) s)))"

section \<open>Messages by RDMA write with immediate\<close>

text \<open>
  The class adds a message buffer of its own, which hides the inherited one; it is kept in
  \<open>so_msg_buf\<close>, as the inherited one is not used.
\<close>

type_synonym rdma_write_imm_socket = rdma_write_socket

definition RDMAWriteImmSocket_post_write_imm :: "buffer \<Rightarrow> rka \<Rightarrow> rdma_write_imm_socket \<Rightarrow> rdma_write_imm_socket outcome" where
  "RDMAWriteImmSocket_post_write_imm b r s =
     (if qp_post_rc (so_qp s) < 0 then Dies Exit_failure
      else Ret (s\<lparr>so_qp := (so_qp s)\<lparr>qp_sends := qp_sends (so_qp s) @ [Wr_write_imm (buf_addr b) (buf_size b) r]\<rparr>\<rparr>))"

definition RDMAWriteImmSocket_send_msg :: "message \<Rightarrow> rdma_write_imm_socket \<Rightarrow> rdma_write_imm_socket outcome" where
  "RDMAWriteImmSocket_send_msg msg s =
     bind_outcome (SendRecvSocket_get_send_buf s) (\<lambda>st.
     bind_outcome (append_arrived msg st) (\<lambda>(s, send_buf).
       RDMAWriteImmSocket_post_write_imm send_buf (rw_rka s) s))"

definition RDMAWriteImmSocket_recv_header :: "rdma_write_imm_socket \<Rightarrow> (rdma_write_imm_socket \<times> message_header) outcome" where
  "RDMAWriteImmSocket_recv_header s =
     bind_outcome (SendRecvSocket_get_recv_buf s) (\<lambda>(s, msg_buf).
     bind_outcome (Buffer_read (rw_write_buf s) sizeof_MessageHeader (so_mem s)) (\<lambda>(b, hdr).
       Ret (s\<lparr>so_msg_buf := msg_buf, rw_write_buf := b\<rparr>, header_of_bytes hdr)))"

definition RDMAWriteImmSocket_get_body :: "nat \<Rightarrow> rdma_write_imm_socket \<Rightarrow> nat" where
  "RDMAWriteImmSocket_get_body body_size s = buf_addr (rw_write_buf s) + sizeof_MessageHeader"

definition RDMAWriteImmSocket_clear_msg_buf :: "rdma_write_imm_socket \<Rightarrow> rdma_write_imm_socket outcome" where
  "RDMAWriteImmSocket_clear_msg_buf s =
     (let (s, b) = clear_buf (rw_write_buf s) s
      in SendRecvSocket_post_recv (so_msg_buf s) (s\<lparr>rw_write_buf := b\<rparr>))"

definition RDMAWriteImmSocket_recv_msg :: "rdma_write_imm_socket \<Rightarrow> (rdma_write_imm_socket \<times> message) outcome" where
  "RDMAWriteImmSocket_recv_msg s =
     bind_outcome (RDMAWriteImmSocket_recv_header s) (\<lambda>(s, header).
     let body = mem_read (so_mem s) (RDMAWriteImmSocket_get_body (hdr_body_size header) s) (hdr_body_size header)
     in bind_outcome (RDMAWriteImmSocket_clear_msg_buf s) (\<lambda>s. Ret (s, (header, body))))"

definition RDMAWriteImmSocket_send_close :: "nat \<times> nat \<Rightarrow> rdma_write_imm_socket \<Rightarrow> rdma_write_imm_socket outcome" where
  "RDMAWriteImmSocket_send_close junk s =
     bind_outcome (SendRecvSocket_get_send_buf s) (\<lambda>(s, send_buf).
     bind_outcome (ibv_poll_send_cq PACKET_WINDOW_SIZE s) (\<lambda>(s, _).
     bind_outcome (append_arrived (MessageHeader junk CLOSE 0, []) (s, send_buf)) (\<lambda>(s, send_buf).
       RDMAWriteImmSocket_post_write_imm send_buf (rw_rka s) s)))"

section \<open>Arrival\<close>

text \<open>A packet with its two flags, and its first \<open>n\<close> bytes placed into a cleared buffer at \<open>a\<close>.\<close>

definition rw_packet :: "message \<Rightarrow> byte list" where
  "rw_packet msg = packet [header_bytes (fst msg), snd msg, le_bytes 4 0xffffffff]"

definition rw_fits :: "message \<Rightarrow> bool" where
  "rw_fits msg \<longleftrightarrow> header_ok (fst msg) \<and> hdr_is_arrived (fst msg) = 0xffffffff \<and>
     hdr_body_size (fst msg) = length (snd msg) \<and> 28 + length (snd msg) \<le> PACKET_SIZE"

definition arrived :: "mem \<Rightarrow> nat \<Rightarrow> nat \<Rightarrow> message \<Rightarrow> mem" where
  "arrived m a n msg = mem_write m a (take n (rw_packet msg))"

definition zeroed :: "mem \<Rightarrow> nat \<Rightarrow> bool" where
  "zeroed m a \<longleftrightarrow> (\<forall>i < PACKET_SIZE. m (a + i) = 0)"

lemma length_rw_packet: "rw_fits msg \<Longrightarrow> length (rw_packet msg) = PACKET_SIZE"
  unfolding rw_packet_def by (rule length_packet) (simp add: rw_fits_def)

lemma rw_packet_parts:
  assumes "rw_fits msg"
  shows "take 24 (rw_packet msg) = header_bytes (fst msg)"
    and "take (length (snd msg)) (drop 24 (rw_packet msg)) = snd msg"
    and "take 4 (drop (24 + length (snd msg)) (rw_packet msg)) = le_bytes 4 0xffffffff"
  using assms by (simp_all add: rw_packet_def packet_def rw_fits_def)

lemma le_bytes_ones: "le_bytes 4 0xffffffff = [255, 255, 255, 255]"
proof -
  have "le_bytes (Suc (Suc (Suc (Suc 0)))) 0xffffffff = [255, 255, 255, 255]" by simp
  moreover have "4 = Suc (Suc (Suc (Suc 0)))" by simp
  ultimately show ?thesis by (simp only:)
qed

lemma ones_nth: "j < 4 \<Longrightarrow> le_bytes 4 0xffffffff ! j = 255"
  unfolding le_bytes_ones by (cases j; simp add: nth_Cons split: nat.splits)

lemma rw_packet_nth:
  assumes "rw_fits msg"
  shows "i < 24 \<Longrightarrow> rw_packet msg ! i = header_bytes (fst msg) ! i"
    and "i < length (snd msg) \<Longrightarrow> rw_packet msg ! (24 + i) = snd msg ! i"
    and "i < 4 \<Longrightarrow> rw_packet msg ! (24 + length (snd msg) + i) = 255"
proof -
  note P = rw_packet_parts[OF assms] and L = length_rw_packet[OF assms]
  have fits: "28 + length (snd msg) \<le> PACKET_SIZE" using assms by (simp add: rw_fits_def)
  show "rw_packet msg ! i = header_bytes (fst msg) ! i" if "i < 24"
    using that by (simp flip: P(1))
  show "rw_packet msg ! (24 + i) = snd msg ! i" if "i < length (snd msg)"
    using that fits by (subst P(2)[symmetric]) (simp add: L)
  show "rw_packet msg ! (24 + length (snd msg) + i) = 255" if "i < 4"
  proof -
    have "rw_packet msg ! (24 + length (snd msg) + i) = take 4 (drop (24 + length (snd msg)) (rw_packet msg)) ! i"
      using that fits by (simp add: L)
    also have "\<dots> = 255" unfolding P(3) using that by (rule ones_nth)
    finally show ?thesis .
  qed
qed

lemma arrived_nth:
  assumes "rw_fits msg" and "zeroed m a" and "i < PACKET_SIZE"
  shows "arrived m a n msg (a + i) = (if i < n then rw_packet msg ! i else 0)"
  using assms length_rw_packet[OF assms(1)] by (auto simp: arrived_def mem_write_def zeroed_def)

lemma le_val_eq_0: "le_val bs = 0 \<longleftrightarrow> (\<forall>b \<in> set bs. b = 0)"
  by (induction bs) (auto simp: unat_eq_0)

text \<open>A flag of four bytes \<open>0xff\<close> at offset \<open>i\<close> shows as soon as its first byte is there.\<close>

lemma flag_shows:
  assumes "rw_fits msg" and "zeroed m a" and "i + 4 \<le> PACKET_SIZE" and "\<forall>j < 4. rw_packet msg ! (i + j) = 255"
  shows "le_val (mem_read (arrived m a n msg) (a + i) 4) = 0 \<longleftrightarrow> n \<le> i"
proof -
  have nth: "mem_read (arrived m a n msg) (a + i) 4 ! j = (if i + j < n then 255 else 0)" if "j < 4" for j
    using that assms(3,4) arrived_nth[OF assms(1,2), of "i + j" n] by (simp add: mem_read_nth add.assoc)
  have "(\<forall>b \<in> set (mem_read (arrived m a n msg) (a + i) 4). b = 0) \<longleftrightarrow> (\<forall>j < 4. \<not> i + j < n)"
    unfolding all_set_conv_all_nth using nth by auto
  also have "\<dots> \<longleftrightarrow> n \<le> i" by (auto dest: spec[of _ 0])
  finally show ?thesis by (simp add: le_val_eq_0)
qed

lemma header_flag:
  assumes "rw_fits msg" and "j < 4"
  shows "rw_packet msg ! (16 + j) = 255"
proof -
  have "rw_packet msg ! (16 + j) = take 4 (drop 16 (header_bytes (fst msg))) ! j"
    using rw_packet_nth(1)[OF assms(1), of "16 + j"] assms(2) by simp
  also have "\<dots> = le_bytes 4 0xffffffff ! j" using assms(1) by (simp add: header_bytes_is_arrived rw_fits_def)
  also have "\<dots> = 255" using assms(2) by (rule ones_nth)
  finally show ?thesis .
qed

end
