(* ===== verification/Rdma_Channels.thy ===== *)
theory Rdma_Channels
  imports Rdma_Sockets
begin

text \<open>
  What the receiver of an RDMA-written message sees while the message arrives, and the two RDMA
  classes as message channels with room for one message.
\<close>

section \<open>A reader of a half-arrived message\<close>

lemma mem_read_sub:
  "i + k \<le> n \<Longrightarrow> mem_read m (a + i) k = take k (drop i (mem_read m a n))"
  by (rule nth_equalityI) (auto simp: mem_read_nth add.assoc)

lemma recv_header_arrived:
  assumes fits: "rw_fits msg" and z: "zeroed m a" and s: "rw_write_buf s = Buffer_on a PACKET_SIZE" "so_mem s = arrived m a n msg"
  shows "RDMAWriteSocket_recv_header s =
      (if n \<le> 16 then Blocks
       else Ret (s\<lparr>rw_write_buf := Buffer_on a PACKET_SIZE\<lparr>read_pos := a + 24\<rparr>\<rparr>, header_of_bytes (mem_read (arrived m a n msg) a 24)))"
proof -
  have flag: "le_val (mem_read (arrived m a n msg) (a + 16) 4) = 0 \<longleftrightarrow> n \<le> 16"
    by (rule flag_shows[OF fits z]) (simp_all add: PACKET_SIZE_def header_flag[OF fits])
  have r: "Buffer_read (Buffer_on a PACKET_SIZE) 24 m' = Ret (Buffer_on a PACKET_SIZE\<lparr>read_pos := a + 24\<rparr>, mem_read m' a 24)" for m'
    by (subst Buffer_read_iff) (simp_all add: PACKET_SIZE_def)
  show ?thesis using flag by (simp add: RDMAWriteSocket_recv_header_def s sizeof_simps r)
qed

lemma header_arrived:
  assumes fits: "rw_fits msg" and z: "zeroed m a" and n: "16 < n"
  shows "hdr_req_type (header_of_bytes (mem_read (arrived m a n msg) a 24)) = hdr_req_type (fst msg)"
    and "hdr_body_size (header_of_bytes (mem_read (arrived m a n msg) a 24)) = length (snd msg)"
proof -
  have b: "mem_read (arrived m a n msg) a 24 ! i = header_bytes (fst msg) ! i" if "i < 16" for i
    using that n arrived_nth[OF fits z, of i n] rw_packet_nth(1)[OF fits, of i] by (simp add: mem_read_nth PACKET_SIZE_def)
  have t: "take 4 (mem_read (arrived m a n msg) a 24) = take 4 (header_bytes (fst msg))"
    "take 8 (drop 8 (mem_read (arrived m a n msg) a 24)) = take 8 (drop 8 (header_bytes (fst msg)))"
    by (rule nth_equalityI; simp add: b)+
  have h: "header_of_bytes (header_bytes (fst msg)) = fst msg" using fits by (simp add: rw_fits_def header_roundtrip)
  show "hdr_req_type (header_of_bytes (mem_read (arrived m a n msg) a 24)) = hdr_req_type (fst msg)"
    using arg_cong[OF h, where f = hdr_req_type] by (simp add: header_of_bytes_def t)
  show "hdr_body_size (header_of_bytes (mem_read (arrived m a n msg) a 24)) = length (snd msg)"
    using arg_cong[OF h, where f = hdr_body_size] fits by (simp add: header_of_bytes_def t rw_fits_def)
qed

lemma get_body_arrived:
  assumes fits: "rw_fits msg" and z: "zeroed m a" and s: "buf_addr (rw_write_buf s) = a" "so_mem s = arrived m a n msg"
  shows "RDMAWriteSocket_get_body (length (snd msg)) s = (if n \<le> 24 + length (snd msg) then Blocks else Ret (a + 24))"
    and "24 + length (snd msg) < n \<Longrightarrow> mem_read (arrived m a n msg) (a + 24) (length (snd msg)) = snd msg"
proof -
  have len: "28 + length (snd msg) \<le> PACKET_SIZE" using fits by (simp add: rw_fits_def)
  have flag: "le_val (mem_read (arrived m a n msg) (a + (24 + length (snd msg))) 4) = 0 \<longleftrightarrow> n \<le> 24 + length (snd msg)"
    by (rule flag_shows[OF fits z]) (use len rw_packet_nth(3)[OF fits] in auto)
  then show "RDMAWriteSocket_get_body (length (snd msg)) s = (if n \<le> 24 + length (snd msg) then Blocks else Ret (a + 24))"
    by (simp add: RDMAWriteSocket_get_body_def s sizeof_simps add.assoc)
  show "mem_read (arrived m a n msg) (a + 24) (length (snd msg)) = snd msg" if "24 + length (snd msg) < n"
  proof (rule nth_equalityI)
    fix i assume i: "i < length (mem_read (arrived m a n msg) (a + 24) (length (snd msg)))"
    then have "arrived m a n msg (a + (24 + i)) = rw_packet msg ! (24 + i)"
      using that len by (subst arrived_nth[OF fits z]) auto
    then show "mem_read (arrived m a n msg) (a + 24) (length (snd msg)) ! i = snd msg ! i"
      using i rw_packet_nth(2)[OF fits] by (simp add: mem_read_nth add.assoc)
  qed simp
qed

section \<open>A whole packet in the buffer\<close>

lemma packet_msg_rw:
  assumes "rw_fits msg"
  shows "packet_msg (rw_packet msg) = msg"
  using assms rw_packet_parts[OF assms]
  by (cases msg) (simp add: packet_msg_def rw_fits_def header_roundtrip Let_def)

lemma whole_packet:
  assumes fits: "rw_fits msg" and p: "mem_read m a PACKET_SIZE = rw_packet msg"
  shows "mem_read m a 24 = header_bytes (fst msg)" and "mem_read m (a + 24) (length (snd msg)) = snd msg"
    and "le_val (mem_read m (a + 16) 4) \<noteq> 0" and "le_val (mem_read m (a + 24 + length (snd msg)) 4) \<noteq> 0"
proof -
  have len: "28 + length (snd msg) \<le> PACKET_SIZE" using fits by (simp add: rw_fits_def)
  note P = rw_packet_parts[OF fits]
  show h: "mem_read m a 24 = header_bytes (fst msg)"
    using mem_read_sub[of 0 24 PACKET_SIZE m a] p P(1) by (simp add: PACKET_SIZE_def)
  show "mem_read m (a + 24) (length (snd msg)) = snd msg"
    using mem_read_sub[of 24 "length (snd msg)" PACKET_SIZE m a] p P(2) len by simp
  have "mem_read m (a + 16) 4 = le_bytes 4 0xffffffff"
    using mem_read_sub[of 16 4 24 m a] h fits by (simp add: header_bytes_is_arrived rw_fits_def)
  then show "le_val (mem_read m (a + 16) 4) \<noteq> 0" by simp
  have "mem_read m (a + 24 + length (snd msg)) 4 = le_bytes 4 0xffffffff"
    using mem_read_sub[of "24 + length (snd msg)" 4 PACKET_SIZE m a] p P(3) len by (simp add: add.assoc)
  then show "le_val (mem_read m (a + 24 + length (snd msg)) 4) \<noteq> 0" by simp
qed

lemma Buffer_read_header:
  "Buffer_read (Buffer_on a PACKET_SIZE) 24 m = Ret (Buffer_on a PACKET_SIZE\<lparr>read_pos := a + 24\<rparr>, mem_read m a 24)"
  by (subst Buffer_read_iff) (simp_all add: PACKET_SIZE_def)

lemma header_whole: "rw_fits msg \<Longrightarrow> header_of_bytes (header_bytes (fst msg)) = fst msg \<and> hdr_body_size (fst msg) = length (snd msg)"
  by (simp add: rw_fits_def header_roundtrip)

text \<open>The receiver's state once the message has been taken out.\<close>

definition taken :: "rdma_write_socket \<Rightarrow> rdma_write_socket" where
  "taken t = t\<lparr>so_mem := mem_write (so_mem t) (buf_addr (rw_write_buf t)) (replicate PACKET_SIZE 0)\<rparr>"

lemma rw_recv_msg_whole:
  assumes fits: "rw_fits msg" and t: "rw_write_buf t = Buffer_on a PACKET_SIZE" and p: "mem_read (so_mem t) a PACKET_SIZE = rw_packet msg"
  shows "RDMAWriteSocket_recv_msg t = Ret (taken t, msg)"
proof -
  note W = whole_packet[OF fits p] and H = header_whole[OF fits]
  have "RDMAWriteSocket_recv_header t = Ret (t\<lparr>rw_write_buf := Buffer_on a PACKET_SIZE\<lparr>read_pos := a + 24\<rparr>\<rparr>, fst msg)"
    using W(1,3) H by (simp add: RDMAWriteSocket_recv_header_def t sizeof_simps Buffer_read_header)
  moreover have "t\<lparr>rw_write_buf := Buffer_on a PACKET_SIZE\<rparr> = t" by (simp flip: t)
  ultimately show ?thesis
    using W(2,4) H t
    by (simp add: RDMAWriteSocket_recv_msg_def RDMAWriteSocket_get_body_def sizeof_simps RDMAWriteSocket_clear_msg_buf_def
        clear_buf_def Buffer_clear_def Buffer_on_def taken_def)
qed

lemma zeroed_taken: "zeroed (so_mem (taken t)) (buf_addr (rw_write_buf t))"
  by (simp add: taken_def zeroed_def mem_write_def)

lemma zeroed_flag: "zeroed m a \<Longrightarrow> le_val (mem_read m (a + 16) 4) = 0"
  by (auto simp: le_val_eq_0 zeroed_def in_set_conv_nth mem_read_nth PACKET_SIZE_def add.assoc)

section \<open>RDMA write\<close>

definition rw_flag :: "rdma_write_socket \<Rightarrow> bool" where
  "rw_flag t \<longleftrightarrow> le_val (mem_read (so_mem t) (buf_addr (rw_write_buf t) + 16) 4) \<noteq> 0"

definition sent_packets :: "rdma_write_socket \<Rightarrow> byte list list" where
  "sent_packets s = map (\<lambda>w. mem_read (so_mem s) (wr_context w) PACKET_SIZE) (qp_sends (so_qp s))"

definition rw_pending :: "rdma_write_socket \<times> rdma_write_socket \<Rightarrow> message list" where
  "rw_pending st =
     map packet_msg ((if rw_flag (snd st) then [mem_read (so_mem (snd st)) (buf_addr (rw_write_buf (snd st))) PACKET_SIZE] else []) @
       sent_packets (fst st))"

text \<open>The buffer of the receiver is clear, or it holds a packet and nothing else is under way.\<close>

definition rw_place :: "bool \<Rightarrow> rdma_write_socket \<Rightarrow> rdma_write_socket \<Rightarrow> bool" where
  "rw_place here s t \<longleftrightarrow>
     (if here then (\<exists>msg. rw_fits msg \<and> mem_read (so_mem t) (buf_addr (rw_write_buf t)) PACKET_SIZE = rw_packet msg) \<and> qp_sends (so_qp s) = []
      else zeroed (so_mem t) (buf_addr (rw_write_buf t)) \<and>
        (qp_sends (so_qp s) = [] \<or> (\<exists>msg. rw_fits msg \<and> sent_packets s = [rw_packet msg])))"

definition rw_ok :: "rdma_write_socket \<times> rdma_write_socket \<Rightarrow> bool" where
  "rw_ok st \<longleftrightarrow> (let (s, t) = st in
     send_part s [] \<and> qp_works s \<and> rw_write_buf t = Buffer_on (rka_addr (rw_rka s)) PACKET_SIZE \<and>
     (\<forall>w \<in> set (qp_sends (so_qp s)). w = Wr_write (wr_context w) PACKET_SIZE (rw_rka s)) \<and>
     rw_place (rw_flag t) s t)"

definition rw_send :: "message \<Rightarrow> rdma_write_socket \<times> rdma_write_socket \<Rightarrow> (rdma_write_socket \<times> rdma_write_socket) outcome" where
  "rw_send msg st = bind_outcome (RDMAWriteSocket_send_msg msg (fst st)) (\<lambda>s. Ret (s, snd st))"

definition rw_recv :: "rdma_write_socket \<times> rdma_write_socket \<Rightarrow> ((rdma_write_socket \<times> rdma_write_socket) \<times> message) outcome" where
  "rw_recv st =
     (let st = (if rw_flag (snd st) then st else deliver st)
      in bind_outcome (RDMAWriteSocket_recv_msg (snd st)) (\<lambda>(t, msg). Ret ((fst st, t), msg)))"

text \<open>Both classes send alike, up to the opcode.\<close>

lemma append_arrived_packet:
  assumes fits: "rw_fits msg" and s: "so_mem s = mem_write m a (replicate PACKET_SIZE 0)"
  shows "\<exists>b. append_arrived msg (s, Buffer_on a PACKET_SIZE) = Ret (s\<lparr>so_mem := mem_write m a (rw_packet msg)\<rparr>, b) \<and>
    buf_addr b = a \<and> buf_size b = PACKET_SIZE"
proof -
  obtain h body where msg: "msg = (h, body)" by (cases msg)
  let ?srcs = "[header_bytes h, body, le_bytes 4 0xffffffff]"
  have len: "length (concat ?srcs) \<le> PACKET_SIZE" and body: "take (hdr_body_size h) body = body"
    using fits by (simp_all add: rw_fits_def msg)
  have "append_arrived msg st = fold_outcome append_bytes ?srcs st" for st
    by (simp add: append_arrived_def msg body Let_def bind_outcome_def split: outcome.splits)
  then show ?thesis using append_packet[OF len s] by (simp add: rw_packet_def msg)
qed

lemma get_and_append:
  assumes p: "send_part s []" and rc: "0 \<le> qp_poll_rc (so_qp s)" and none: "qp_sends (so_qp s) = []" and fits: "rw_fits msg"
  obtains s1 b a where "bind_outcome (SendRecvSocket_get_send_buf s) (append_arrived msg) = Ret (s1, b)"
    and "buf_addr b = a" and "buf_size b = PACKET_SIZE" and "send_part s1 [a]"
    and "mem_read (so_mem s1) a PACKET_SIZE = rw_packet msg" and "qp_sends (so_qp s1) = []"
    and "qp_post_rc (so_qp s1) = qp_post_rc (so_qp s)" and "qp_poll_rc (so_qp s1) = qp_poll_rc (so_qp s)"
proof -
  obtain s0 b0 where g: "SendRecvSocket_get_send_buf s = Ret (s0, b0)"
    using get_send_buf_returns[OF p _ rc] none by (auto simp: PACKET_WINDOW_SIZE_def)
  note G = get_send_buf_Ret[OF p g]
  from append_arrived_packet[OF fits G(3)] obtain b where
    a: "append_arrived msg (s0, Buffer_on (buf_addr b0) PACKET_SIZE) =
      Ret (s0\<lparr>so_mem := mem_write (so_mem s) (buf_addr b0) (rw_packet msg)\<rparr>, b)" "buf_addr b = buf_addr b0" "buf_size b = PACKET_SIZE"
    by blast
  show thesis
    by (rule that[of "s0\<lparr>so_mem := mem_write (so_mem s) (buf_addr b0) (rw_packet msg)\<rparr>" b "buf_addr b0"])
      (use a G none in \<open>simp_all add: g mem_simps length_rw_packet[OF fits] flip: G(1)\<close>)
qed

lemma rw_rka_kept:
  assumes "bind_outcome (SendRecvSocket_get_send_buf s) (append_arrived msg) = Ret (s1, b)"
  shows "rw_rka s1 = rw_rka s"
proof -
  have k: "rw_rka s' = rw_rka s''" if "append_bytes src (s'', b'') = Ret (s', b')" for src s'' b'' s' b'
    using append_bytes_keeps(1)[OF that] by auto
  obtain s0 b0 where g: "SendRecvSocket_get_send_buf s = Ret (s0, b0)" and a: "append_arrived msg (s0, b0) = Ret (s1, b)"
    using assms by (auto simp: bind_outcome_Ret_iff)
  have "rw_rka s0 = rw_rka s"
    using g by (auto simp: SendRecvSocket_get_send_buf_def SendRecvSocket_poll_send_cq_def clear_buf_def Let_def
        bind_outcome_Ret_iff split: list.splits if_splits prod.splits)
  moreover have "rw_rka s1 = rw_rka s0"
    using a by (auto simp: append_arrived_def bind_outcome_Ret_iff Let_def split: prod.splits dest!: k)
  ultimately show ?thesis by simp
qed

interpretation rw: message_channel rw_send rw_recv rw_pending rw_ok rw_fits "\<lambda>n. n = 0"
proof unfold_locales
  fix w m
  assume ok: "rw_ok w" and fits: "rw_fits m" and n: "length (rw_pending w) = 0"
  obtain s t where w: "w = (s, t)" by (cases w)
  have O: "send_part s []" "qp_works s" "rw_write_buf t = Buffer_on (rka_addr (rw_rka s)) PACKET_SIZE"
    "rw_place (rw_flag t) s t" using ok by (simp_all add: rw_ok_def w)
  have e: "\<not> rw_flag t" "qp_sends (so_qp s) = []"
    using n by (auto simp: w rw_pending_def sent_packets_def split: if_splits)
  obtain s1 b a where g: "bind_outcome (SendRecvSocket_get_send_buf s) (append_arrived m) = Ret (s1, b)"
    and b: "buf_addr b = a" "buf_size b = PACKET_SIZE" and s1: "send_part s1 [a]" "mem_read (so_mem s1) a PACKET_SIZE = rw_packet m"
      "qp_sends (so_qp s1) = []" "qp_post_rc (so_qp s1) = qp_post_rc (so_qp s)" "qp_poll_rc (so_qp s1) = qp_poll_rc (so_qp s)"
    using get_and_append[OF O(1) _ e(2) fits] O(2) unfolding qp_works_def by blast
  define s' where "s' = s1\<lparr>so_qp := (so_qp s1)\<lparr>qp_sends := [Wr_write a PACKET_SIZE (rw_rka s)]\<rparr>\<rparr>"
  have "RDMAWriteSocket_send_msg m s =
      bind_outcome (bind_outcome (SendRecvSocket_get_send_buf s) (append_arrived m)) (\<lambda>(s, send_buf).
        RDMAWriteSocket_post_write send_buf (rw_rka s) s)"
    by (simp add: RDMAWriteSocket_send_msg_def bind_outcome_assoc)
  then have send: "RDMAWriteSocket_send_msg m s = Ret s'"
    using O(2) by (simp add: g RDMAWriteSocket_post_write_def s1 b s'_def qp_works_def rw_rka_kept[OF g])
  have pk: "sent_packets s' = [rw_packet m]" using s1(2) by (simp add: sent_packets_def s'_def)
  have "\<exists>msg. rw_fits msg \<and> sent_packets s' = [rw_packet msg]" using fits pk by blast
  then have place: "rw_place (rw_flag t) s' t" using O(4) e(1) unfolding rw_place_def by simp
  have "rw_pending (s', t) = [m]" using e(1) packet_msg_rw[OF fits] by (simp add: rw_pending_def pk)
  moreover have "rw_pending w = []" using n by simp
  moreover have "rw_ok (s', t)"
    using O(1-3) place s1
    by (auto simp: rw_ok_def s'_def qp_works_def send_part_def send_slots_def rw_rka_kept[OF g] ac_simps)
  ultimately show "\<exists>w'. rw_send m w = Ret w' \<and> rw_ok w' \<and> rw_pending w' = rw_pending w @ [m]"
    using send by (intro exI[of _ "(s', t)"]) (simp add: rw_send_def w)
next
  fix w m ms
  assume ok: "rw_ok w" and p: "rw_pending w = m # ms"
  obtain s t where w: "w = (s, t)" by (cases w)
  have O: "send_part s []" "qp_works s" "rw_write_buf t = Buffer_on (rka_addr (rw_rka s)) PACKET_SIZE"
    "\<forall>w \<in> set (qp_sends (so_qp s)). w = Wr_write (wr_context w) PACKET_SIZE (rw_rka s)"
    "rw_place (rw_flag t) s t" using ok by (simp_all add: rw_ok_def w)
  text \<open>After the device has delivered, the packet is in the buffer and nothing else is under way.\<close>
  have "\<exists>s1 t1. (if rw_flag t then (s, t) else deliver (s, t)) = (s1, t1) \<and> send_part s1 [] \<and> qp_works s1 \<and>
      rw_rka s1 = rw_rka s \<and> rw_write_buf t1 = rw_write_buf t \<and> qp_sends (so_qp s1) = [] \<and> ms = [] \<and> rw_fits m \<and>
      mem_read (so_mem t1) (buf_addr (rw_write_buf t)) PACKET_SIZE = rw_packet m"
  proof (cases "rw_flag t")
    case True
    then obtain msg where msg: "rw_fits msg" "mem_read (so_mem t) (buf_addr (rw_write_buf t)) PACKET_SIZE = rw_packet msg"
      "qp_sends (so_qp s) = []" using O(5) by (auto simp: rw_place_def)
    then have "m = msg \<and> ms = []" using p True packet_msg_rw[OF msg(1)] by (simp add: w rw_pending_def sent_packets_def)
    then show ?thesis using True msg O by auto
  next
    case False
    have ne: "qp_sends (so_qp s) \<noteq> []" using p False by (auto simp: w rw_pending_def sent_packets_def)
    then obtain msg where msg: "rw_fits msg" "sent_packets s = [rw_packet msg]" using O(5) False by (auto simp: rw_place_def)
    obtain a where sends: "qp_sends (so_qp s) = [Wr_write a PACKET_SIZE (rw_rka s)]"
      and a: "mem_read (so_mem s) a PACKET_SIZE = rw_packet msg"
      using msg(2) O(4) by (auto simp: sent_packets_def)
    have m: "m = msg \<and> ms = []" using p False msg packet_msg_rw[OF msg(1)] by (simp add: w rw_pending_def)
    show ?thesis
      using False O(1-3) sends a m msg(1)
      by (simp add: deliver_def complete_send_def mem_simps length_rw_packet send_part_def send_slots_def qp_works_def)
  qed
  then obtain s1 t1 where d: "(if rw_flag t then (s, t) else deliver (s, t)) = (s1, t1)"
    and s1: "send_part s1 []" "qp_works s1" "rw_rka s1 = rw_rka s" "rw_write_buf t1 = rw_write_buf t" "qp_sends (so_qp s1) = []"
    and m: "ms = []" "rw_fits m" "mem_read (so_mem t1) (buf_addr (rw_write_buf t)) PACKET_SIZE = rw_packet m" by blast
  have r: "RDMAWriteSocket_recv_msg t1 = Ret (taken t1, m)"
    by (rule rw_recv_msg_whole[OF m(2)]) (use s1 O(3) m(3) in simp_all)
  have z: "zeroed (so_mem (taken t1)) (buf_addr (rw_write_buf t1))" by (rule zeroed_taken)
  have tk: "rw_write_buf (taken t1) = rw_write_buf t1" by (simp add: taken_def)
  have nf: "\<not> rw_flag (taken t1)" using zeroed_flag[OF z] by (simp add: rw_flag_def tk)
  have ok': "rw_ok (s1, taken t1)" using s1 O(3) z nf by (simp add: rw_ok_def rw_place_def tk)
  have "rw_pending (s1, taken t1) = []" using nf s1(5) by (simp add: rw_pending_def sent_packets_def)
  moreover have "rw_recv w = Ret ((s1, taken t1), m)" by (simp add: rw_recv_def w d r)
  ultimately show "\<exists>w'. rw_recv w = Ret (w', m) \<and> rw_ok w' \<and> rw_pending w' = ms" using ok' m(1) by blast
next
  fix w assume ok: "rw_ok w" and p: "rw_pending w = []"
  obtain s t where w: "w = (s, t)" by (cases w)
  have e: "\<not> rw_flag t" "qp_sends (so_qp s) = []"
    using p by (auto simp: w rw_pending_def sent_packets_def split: if_splits)
  then have "deliver (s, t) = (s, t)" by (simp add: deliver_def)
  then show "rw_recv w = Blocks"
    using e(1) by (simp add: rw_recv_def w rw_flag_def RDMAWriteSocket_recv_msg_def RDMAWriteSocket_recv_header_def sizeof_simps)
qed simp

end
