(* ===== verification/Rdma_Imm_Channel.thy ===== *)
theory Rdma_Imm_Channel
  imports Rdma_Channels
begin

text \<open>
  \<open>RDMAWriteImmSocket\<close> as a message channel: the receiver waits for the completion that the immediate
  value raises, so it finds the whole packet in its buffer.
\<close>

definition imm_pending :: "rdma_write_socket \<times> rdma_write_socket \<Rightarrow> message list" where
  "imm_pending st =
     map packet_msg ((if qp_recv_cq (so_qp (snd st)) \<noteq> []
        then [mem_read (so_mem (snd st)) (buf_addr (rw_write_buf (snd st))) PACKET_SIZE] else []) @ sent_packets (fst st))"

definition imm_place :: "rdma_write_socket \<Rightarrow> rdma_write_socket \<Rightarrow> bool" where
  "imm_place s t \<longleftrightarrow>
     (case qp_recv_cq (so_qp t) of
        [] \<Rightarrow> qp_sends (so_qp s) = [] \<or> (\<exists>msg. rw_fits msg \<and> sent_packets s = [rw_packet msg])
      | r # cq \<Rightarrow> cq = [] \<and> qp_sends (so_qp s) = [] \<and>
          (\<exists>msg. rw_fits msg \<and> mem_read (so_mem t) (buf_addr (rw_write_buf t)) PACKET_SIZE = rw_packet msg))"

definition imm_ok :: "rdma_write_socket \<times> rdma_write_socket \<Rightarrow> bool" where
  "imm_ok st \<longleftrightarrow> (let (s, t) = st in
     send_part s [] \<and> recv_part t [] \<and> qp_works s \<and> qp_works t \<and>
     rw_write_buf t = Buffer_on (rka_addr (rw_rka s)) PACKET_SIZE \<and>
     (\<forall>w \<in> set (qp_sends (so_qp s)). w = Wr_write_imm (wr_context w) PACKET_SIZE (rw_rka s)) \<and> imm_place s t)"

definition imm_send :: "message \<Rightarrow> rdma_write_socket \<times> rdma_write_socket \<Rightarrow> (rdma_write_socket \<times> rdma_write_socket) outcome" where
  "imm_send msg st = bind_outcome (RDMAWriteImmSocket_send_msg msg (fst st)) (\<lambda>s. Ret (s, snd st))"

definition imm_recv :: "rdma_write_socket \<times> rdma_write_socket \<Rightarrow> ((rdma_write_socket \<times> rdma_write_socket) \<times> message) outcome" where
  "imm_recv st =
     (let st = (if qp_recv_cq (so_qp (snd st)) = [] then deliver st else st)
      in bind_outcome (RDMAWriteImmSocket_recv_msg (snd st)) (\<lambda>(t, msg). Ret ((fst st, t), msg)))"

lemma imm_recv_msg_whole:
  assumes fits: "rw_fits msg" and t: "rw_write_buf t = Buffer_on a PACKET_SIZE" and p: "mem_read (so_mem t) a PACKET_SIZE = rw_packet msg"
    and works: "qp_works t" and cq: "qp_recv_cq (so_qp t) = [(b, PACKET_SIZE)]" and rp: "recv_part t []"
  shows "\<exists>t'. RDMAWriteImmSocket_recv_msg t = Ret (t', msg) \<and> rw_write_buf t' = rw_write_buf t \<and>
    recv_part t' [] \<and> qp_works t' \<and> qp_recv_cq (so_qp t') = []"
proof -
  note W = whole_packet[OF fits p] and H = header_whole[OF fits]
  let ?t1 = "t\<lparr>so_qp := (so_qp t)\<lparr>qp_recv_cq := []\<rparr>, so_msg_buf := Buffer_on b PACKET_SIZE,
      rw_write_buf := Buffer_on a PACKET_SIZE\<lparr>read_pos := a + 24\<rparr>\<rparr>"
  let ?t2 = "?t1\<lparr>so_mem := mem_write (so_mem t) a (replicate PACKET_SIZE 0), rw_write_buf := Buffer_on a PACKET_SIZE,
      so_qp := (so_qp t)\<lparr>qp_recv_cq := [], qp_recvs := qp_recvs (so_qp t) @ [(b, PACKET_SIZE)]\<rparr>\<rparr>"
  have "RDMAWriteImmSocket_recv_header t = Ret (?t1, fst msg)"
    using W(1) H works cq
    by (simp add: RDMAWriteImmSocket_recv_header_def SendRecvSocket_get_recv_buf_def SendRecvSocket_poll_recv_cq_def
        qp_works_def t sizeof_simps Buffer_read_header Let_def)
  moreover have "RDMAWriteImmSocket_clear_msg_buf ?t1 = Ret ?t2"
    using works by (simp add: RDMAWriteImmSocket_clear_msg_buf_def clear_buf_def Buffer_clear_def Buffer_on_def
        SendRecvSocket_post_recv_def qp_works_def)
  ultimately have "RDMAWriteImmSocket_recv_msg t = Ret (?t2, msg)"
    using W(2) H by (simp add: RDMAWriteImmSocket_recv_msg_def RDMAWriteImmSocket_get_body_def sizeof_simps Let_def)
  moreover have "recv_part ?t2 []"
    using rp cq by (auto simp: recv_part_def recv_slots_def)
  moreover have "qp_works ?t2" using works by (simp add: qp_works_def)
  ultimately show ?thesis using t by (intro exI[of _ ?t2]) simp
qed

interpretation imm: message_channel imm_send imm_recv imm_pending imm_ok rw_fits "\<lambda>n. n = 0"
proof unfold_locales
  fix w m
  assume ok: "imm_ok w" and fits: "rw_fits m" and n: "length (imm_pending w) = 0"
  obtain s t where w: "w = (s, t)" by (cases w)
  have O: "send_part s []" "qp_works s" "imm_place s t" "recv_part t []" "qp_works t"
    "rw_write_buf t = Buffer_on (rka_addr (rw_rka s)) PACKET_SIZE" using ok by (simp_all add: imm_ok_def w)
  have e: "qp_recv_cq (so_qp t) = []" "qp_sends (so_qp s) = []"
    using n by (auto simp: w imm_pending_def sent_packets_def split: if_splits)
  obtain s1 b a where g: "bind_outcome (SendRecvSocket_get_send_buf s) (append_arrived m) = Ret (s1, b)"
    and b: "buf_addr b = a" "buf_size b = PACKET_SIZE" and s1: "send_part s1 [a]" "mem_read (so_mem s1) a PACKET_SIZE = rw_packet m"
      "qp_sends (so_qp s1) = []" "qp_post_rc (so_qp s1) = qp_post_rc (so_qp s)" "qp_poll_rc (so_qp s1) = qp_poll_rc (so_qp s)"
    using get_and_append[OF O(1) _ e(2) fits] O(2) unfolding qp_works_def by blast
  define s' where "s' = s1\<lparr>so_qp := (so_qp s1)\<lparr>qp_sends := [Wr_write_imm a PACKET_SIZE (rw_rka s)]\<rparr>\<rparr>"
  have "RDMAWriteImmSocket_send_msg m s =
      bind_outcome (bind_outcome (SendRecvSocket_get_send_buf s) (append_arrived m)) (\<lambda>(s, send_buf).
        RDMAWriteImmSocket_post_write_imm send_buf (rw_rka s) s)"
    by (simp add: RDMAWriteImmSocket_send_msg_def bind_outcome_assoc)
  then have send: "RDMAWriteImmSocket_send_msg m s = Ret s'"
    using O(2) by (simp add: g RDMAWriteImmSocket_post_write_imm_def s1 b s'_def qp_works_def rw_rka_kept[OF g])
  have pk: "sent_packets s' = [rw_packet m]" using s1(2) by (simp add: sent_packets_def s'_def)
  have "\<exists>msg. rw_fits msg \<and> sent_packets s' = [rw_packet msg]" using fits pk by blast
  then have place: "imm_place s' t" using e(1) unfolding imm_place_def by simp
  have "imm_pending (s', t) = [m]" using e(1) packet_msg_rw[OF fits] by (simp add: imm_pending_def pk)
  moreover have "imm_pending w = []" using n by simp
  moreover have "imm_ok (s', t)"
    using O place s1
    by (auto simp: imm_ok_def s'_def qp_works_def send_part_def send_slots_def rw_rka_kept[OF g] ac_simps)
  ultimately show "\<exists>w'. imm_send m w = Ret w' \<and> imm_ok w' \<and> imm_pending w' = imm_pending w @ [m]"
    using send by (intro exI[of _ "(s', t)"]) (simp add: imm_send_def w)
next
  fix w m ms
  assume ok: "imm_ok w" and p: "imm_pending w = m # ms"
  obtain s t where w: "w = (s, t)" by (cases w)
  have O: "send_part s []" "qp_works s" "rw_write_buf t = Buffer_on (rka_addr (rw_rka s)) PACKET_SIZE"
    "\<forall>w \<in> set (qp_sends (so_qp s)). w = Wr_write_imm (wr_context w) PACKET_SIZE (rw_rka s)"
    "imm_place s t" "recv_part t []" "qp_works t" using ok by (simp_all add: imm_ok_def w)
  have "\<exists>s1 t1 b. (if qp_recv_cq (so_qp t) = [] then deliver (s, t) else (s, t)) = (s1, t1) \<and> send_part s1 [] \<and> qp_works s1 \<and>
      rw_rka s1 = rw_rka s \<and> rw_write_buf t1 = rw_write_buf t \<and> qp_sends (so_qp s1) = [] \<and> ms = [] \<and> rw_fits m \<and>
      mem_read (so_mem t1) (buf_addr (rw_write_buf t)) PACKET_SIZE = rw_packet m \<and>
      qp_recv_cq (so_qp t1) = [(b, PACKET_SIZE)] \<and> recv_part t1 [] \<and> qp_works t1"
  proof (cases "qp_recv_cq (so_qp t)")
    case (Cons r cq)
    obtain b k where r: "r = (b, k)" by (cases r)
    obtain msg where msg: "rw_fits msg" "mem_read (so_mem t) (buf_addr (rw_write_buf t)) PACKET_SIZE = rw_packet msg"
      "qp_sends (so_qp s) = []" "cq = []" using O(5) Cons by (auto simp: imm_place_def)
    have "k = PACKET_SIZE" using O(6) Cons r by (simp add: recv_part_def)
    moreover have "m = msg \<and> ms = []" using p Cons packet_msg_rw[OF msg(1)] msg by (simp add: w imm_pending_def sent_packets_def)
    ultimately show ?thesis using Cons r msg O by auto
  next
    case Nil
    have "qp_sends (so_qp s) \<noteq> []" using p Nil by (auto simp: w imm_pending_def sent_packets_def)
    then obtain msg where msg: "rw_fits msg" "sent_packets s = [rw_packet msg]" using O(5) Nil by (auto simp: imm_place_def)
    obtain a where sends: "qp_sends (so_qp s) = [Wr_write_imm a PACKET_SIZE (rw_rka s)]"
      and a: "mem_read (so_mem s) a PACKET_SIZE = rw_packet msg"
      using msg(2) O(4) by (auto simp: sent_packets_def)
    have m: "m = msg \<and> ms = []" using p Nil msg packet_msg_rw[OF msg(1)] by (simp add: w imm_pending_def)
    have "length (qp_recvs (so_qp t)) = PACKET_WINDOW_SIZE" using recv_part_places(1)[OF O(6)] Nil by simp
    then obtain b k rs where r: "qp_recvs (so_qp t) = (b, k) # rs"
      by (cases "qp_recvs (so_qp t)") (auto simp: PACKET_WINDOW_SIZE_def)
    let ?s = "complete_send s"
    let ?t = "complete_recv PACKET_SIZE (t\<lparr>so_mem := mem_write (so_mem t) (rka_addr (rw_rka s)) (mem_read (so_mem s) a PACKET_SIZE)\<rparr>)"
    have "deliver (s, t) = (?s, ?t)" by (simp add: deliver_def sends r)
    moreover have "send_part ?s []" "qp_works ?s" "rw_rka ?s = rw_rka s" "qp_sends (so_qp ?s) = []"
      using O(1,2) sends by (simp_all add: complete_send_def send_part_def send_slots_def qp_works_def)
    moreover have "rw_write_buf ?t = rw_write_buf t" "qp_recv_cq (so_qp ?t) = [(b, PACKET_SIZE)]" "qp_works ?t"
      using Nil r O(7) by (simp_all add: complete_recv_def qp_works_def)
    moreover have "recv_part ?t []" using O(6) Nil r by (auto simp: complete_recv_def recv_part_def recv_slots_def ac_simps)
    moreover have "mem_read (so_mem ?t) (buf_addr (rw_write_buf t)) PACKET_SIZE = rw_packet msg"
      using a O(3) by (simp add: complete_recv_def mem_simps length_rw_packet[OF msg(1)])
    ultimately show ?thesis using Nil m msg(1) by (intro exI[of _ ?s] exI[of _ ?t] exI[of _ b]) simp
  qed
  then obtain s1 t1 b where d: "(if qp_recv_cq (so_qp t) = [] then deliver (s, t) else (s, t)) = (s1, t1)"
    and s1: "send_part s1 []" "qp_works s1" "rw_rka s1 = rw_rka s" "rw_write_buf t1 = rw_write_buf t" "qp_sends (so_qp s1) = []"
    and m: "ms = []" "rw_fits m" "mem_read (so_mem t1) (buf_addr (rw_write_buf t)) PACKET_SIZE = rw_packet m"
    and t1: "qp_recv_cq (so_qp t1) = [(b, PACKET_SIZE)]" "recv_part t1 []" "qp_works t1" by blast
  have buf: "rw_write_buf t1 = Buffer_on (rka_addr (rw_rka s)) PACKET_SIZE" using s1(4) O(3) by simp
  have p1: "mem_read (so_mem t1) (rka_addr (rw_rka s)) PACKET_SIZE = rw_packet m" using m(3) O(3) by simp
  from imm_recv_msg_whole[OF m(2) buf p1 t1(3,1,2)] obtain t2 where r: "RDMAWriteImmSocket_recv_msg t1 = Ret (t2, m)"
    and t2: "rw_write_buf t2 = rw_write_buf t1" "recv_part t2 []" "qp_works t2" "qp_recv_cq (so_qp t2) = []" by blast
  have "imm_ok (s1, t2)" using s1 t2 O(3) by (simp add: imm_ok_def imm_place_def)
  moreover have "imm_pending (s1, t2) = []" using t2(4) s1(5) by (simp add: imm_pending_def sent_packets_def)
  moreover have "imm_recv w = Ret ((s1, t2), m)" by (simp add: imm_recv_def w d r)
  ultimately show "\<exists>w'. imm_recv w = Ret (w', m) \<and> imm_ok w' \<and> imm_pending w' = ms" using m(1) by blast
next
  fix w assume ok: "imm_ok w" and p: "imm_pending w = []"
  obtain s t where w: "w = (s, t)" by (cases w)
  have e: "qp_recv_cq (so_qp t) = []" "qp_sends (so_qp s) = []"
    using p by (auto simp: w imm_pending_def sent_packets_def split: if_splits)
  moreover from e have "deliver (s, t) = (s, t)" by (simp add: deliver_def)
  moreover have "\<not> qp_poll_rc (so_qp t) < 0" using ok by (simp add: w imm_ok_def qp_works_def)
  ultimately show "imm_recv w = Blocks"
    by (simp add: imm_recv_def w RDMAWriteImmSocket_recv_msg_def RDMAWriteImmSocket_recv_header_def
        SendRecvSocket_get_recv_buf_def SendRecvSocket_poll_recv_cq_def)
qed simp

end
