(* ===== verification/Duplex.thy ===== *)
theory Duplex
  imports Rdma_Imm_Channel
begin

text \<open>
  Two connected sockets that take turns, as a client and its server do: the request goes one way,
  the answer the other way, on the same two sockets.  Then how two RDMA sockets get to that point:
  the exchange of keys and addresses that their constructors make.
\<close>

section \<open>Taking turns\<close>

locale duplex = message_channel send recv pending ok fits may_send
  for send :: "message \<Rightarrow> 's \<times> 's \<Rightarrow> ('s \<times> 's) outcome"
    and recv :: "'s \<times> 's \<Rightarrow> (('s \<times> 's) \<times> message) outcome"
    and pending :: "'s \<times> 's \<Rightarrow> message list" and ok :: "'s \<times> 's \<Rightarrow> bool"
    and fits :: "message \<Rightarrow> bool" and may_send :: "nat \<Rightarrow> bool" +
  fixes linked :: "'s \<Rightarrow> 's \<Rightarrow> bool"
  assumes linked_idle: "linked s t \<Longrightarrow> ok (s, t) \<and> pending (s, t) = []"
    and turned: "linked s t \<Longrightarrow> fits m \<Longrightarrow> send m (s, t) = Ret st \<Longrightarrow> recv st = Ret ((s', t'), m) \<Longrightarrow>
      ok (s', t') \<Longrightarrow> pending (s', t') = [] \<Longrightarrow> linked t' s'"
begin

definition talk :: "(message \<Rightarrow> message) \<Rightarrow> message \<Rightarrow> 's \<times> 's \<Rightarrow> (('s \<times> 's) \<times> message) outcome" where
  "talk answer m st =
     bind_outcome (send m st) (\<lambda>st.
     bind_outcome (recv st) (\<lambda>((s, t), m').
     bind_outcome (send (answer m') (t, s)) (\<lambda>st.
     bind_outcome (recv st) (\<lambda>((t, s), r). Ret ((s, t), r)))))"

lemma turn:
  assumes "linked s t" and "fits m"
  obtains st s' t' where "send m (s, t) = Ret st" and "recv st = Ret ((s', t'), m)" and "linked t' s'"
proof -
  have i: "ok (s, t)" "pending (s, t) = []" using linked_idle[OF assms(1)] by simp_all
  obtain st where st: "send m (s, t) = Ret st" "ok st" "pending st = [m]"
    using send_works[OF i(1) assms(2)] may_send_0 i(2) by auto
  obtain s' t' where r: "recv st = Ret ((s', t'), m)" "ok (s', t')" "pending (s', t') = []"
    using recv_works[OF st(2,3)] by auto
  from that[OF st(1) r(1)] turned[OF assms st(1) r] show thesis by blast
qed

lemma talk_answers:
  assumes "linked s t" and "fits m" and "fits (answer m)"
  shows "\<exists>s' t'. talk answer m (s, t) = Ret ((s', t'), answer m) \<and> linked s' t'"
proof -
  obtain st s1 t1 where 1: "send m (s, t) = Ret st" "recv st = Ret ((s1, t1), m)" "linked t1 s1"
    by (rule turn[OF assms(1,2)])
  obtain st' t2 s2 where 2: "send (answer m) (t1, s1) = Ret st'" "recv st' = Ret ((t2, s2), answer m)" "linked s2 t2"
    by (rule turn[OF 1(3) assms(3)])
  show ?thesis using 1 2 by (simp add: talk_def)
qed

fun talks :: "(message \<Rightarrow> message) \<Rightarrow> message list \<Rightarrow> 's \<times> 's \<Rightarrow> (('s \<times> 's) \<times> message list) outcome" where
  "talks answer [] st = Ret (st, [])"
| "talks answer (m # ms) st =
     bind_outcome (talk answer m st) (\<lambda>(st, r). bind_outcome (talks answer ms st) (\<lambda>(st, rs). Ret (st, r # rs)))"

lemma talks_answer:
  assumes "linked s t" and "\<forall>m \<in> set ms. fits m \<and> fits (answer m)"
  shows "\<exists>s' t'. talks answer ms (s, t) = Ret ((s', t'), map answer ms) \<and> linked s' t'"
  using assms
proof (induction ms arbitrary: s t)
  case (Cons m ms)
  obtain s1 t1 where st1: "talk answer m (s, t) = Ret ((s1, t1), answer m)" "linked s1 t1"
    using talk_answers[OF Cons.prems(1), of m answer] Cons.prems(2) by auto
  from Cons.IH[OF st1(2)] Cons.prems(2) show ?case by (auto simp: st1(1))
qed simp

end

section \<open>What the steps keep\<close>

lemma get_send_buf_recv_cq:
  assumes "SendRecvSocket_get_send_buf s = Ret (s', b)"
  shows "qp_recv_cq (so_qp s') = qp_recv_cq (so_qp s)" "qp_recvs (so_qp s') = qp_recvs (so_qp s)"
    "so_verbs_buf s' = so_verbs_buf s"
  using assms
  by (auto simp: SendRecvSocket_get_send_buf_def SendRecvSocket_poll_send_cq_def clear_buf_def Let_def
      bind_outcome_Ret_iff split: list.splits if_splits prod.splits)

lemma send_msg_recv_cq:
  assumes "SendRecvSocket_send_msg m s = Ret s'"
  shows "qp_recv_cq (so_qp s') = qp_recv_cq (so_qp s)"
proof -
  obtain h body where m: "m = (h, body)" by (cases m)
  obtain s1 b1 s2 b2 s3 b3 where 1: "SendRecvSocket_get_send_buf s = Ret (s1, b1)"
    and 2: "append_bytes (header_bytes h) (s1, b1) = Ret (s2, b2)"
    and 3: "append_bytes (take (hdr_body_size h) body) (s2, b2) = Ret (s3, b3)"
    and 4: "SendRecvSocket_post_send b3 s3 = Ret s'"
    using assms by (auto simp: m SendRecvSocket_send_msg_def bind_outcome_Ret_iff)
  show ?thesis
    using get_send_buf_recv_cq(1)[OF 1] append_bytes_keeps(1)[OF 2] append_bytes_keeps(1)[OF 3] 4
    by (auto simp: SendRecvSocket_post_send_def split: if_splits)
qed

lemma deliver_keeps:
  assumes "deliver (s, t) = (s', t')"
  shows "qp_recv_cq (so_qp s') = qp_recv_cq (so_qp s)" "qp_sends (so_qp t') = qp_sends (so_qp t)"
  using assms
  by (auto simp: deliver_def complete_send_def complete_recv_def split: list.splits work_request.splits if_splits prod.splits)

lemma recv_msg_sends:
  assumes "SendRecvSocket_recv_msg t = Ret (t', m)"
  shows "qp_sends (so_qp t') = qp_sends (so_qp t)"
  using assms
  by (auto simp: SendRecvSocket_recv_msg_def SendRecvSocket_recv_header_def SendRecvSocket_get_recv_buf_def
      SendRecvSocket_poll_recv_cq_def SendRecvSocket_clear_msg_buf_def SendRecvSocket_post_recv_def Let_def
      bind_outcome_Ret_iff split: if_splits)

section \<open>Sends and receives\<close>

definition sr_linked :: "sendrecv_socket \<Rightarrow> sendrecv_socket \<Rightarrow> bool" where
  "sr_linked s t \<longleftrightarrow> sr_ok (s, t) \<and> sr_ok (t, s) \<and> sr_pending (s, t) = [] \<and> sr_pending (t, s) = []"

lemma sr_pending_Nil: "sr_pending (s, t) = [] \<longleftrightarrow> qp_recv_cq (so_qp t) = [] \<and> qp_sends (so_qp s) = []"
  by (simp add: sr_pending_def sr_packets_def)

interpretation srd: duplex sr_send sr_recv sr_pending sr_ok sr_fits "\<lambda>n. n < PACKET_WINDOW_SIZE" sr_linked
proof unfold_locales
  fix s t m st s' t'
  assume l: "sr_linked s t" and "sr_fits m" and send: "sr_send m (s, t) = Ret st" and recv: "sr_recv st = Ret ((s', t'), m)"
    and ok: "sr_ok (s', t')" "sr_pending (s', t') = []"
  obtain s1 where s1: "SendRecvSocket_send_msg m s = Ret s1" "st = (s1, t)"
    using send by (auto simp: sr_send_def bind_outcome_Ret_iff)
  obtain s2 t2 where 2: "(if qp_recv_cq (so_qp t) = [] then deliver (s1, t) else (s1, t)) = (s2, t2)"
    by (metis surj_pair)
  have "SendRecvSocket_recv_msg t2 = Ret (t', m)" "s' = s2"
    using recv 2 by (auto simp: sr_recv_def s1(2) bind_outcome_Ret_iff)
  moreover have "qp_recv_cq (so_qp s2) = qp_recv_cq (so_qp s)" "qp_sends (so_qp t2) = qp_sends (so_qp t)"
    using 2 deliver_keeps[of s1 t s2 t2] send_msg_recv_cq[OF s1(1)] by (auto split: if_splits)
  ultimately have e: "qp_recv_cq (so_qp s') = []" "qp_sends (so_qp t') = []"
    using l recv_msg_sends[of t2 t' m] by (simp_all add: sr_linked_def sr_pending_Nil)
  then have "sr_pending (t', s') = []" by (simp add: sr_pending_Nil)
  then show "sr_linked t' s'" using ok by (simp add: sr_linked_def sr_ok_def)
qed (simp add: sr_linked_def)

text \<open>Two new sockets are linked.\<close>

lemma SendRecvSocket_new_linked:
  assumes "SendRecvSocket_new (Some a) True junk qp_new m = Ret s" and "SendRecvSocket_new (Some b) True junk' qp_new m' = Ret t"
  shows "sr_linked s t"
  using SendRecvSocket_new_Ret[OF assms(1)] SendRecvSocket_new_Ret[OF assms(2)]
  by (simp add: sr_linked_def sr_ok_def sr_pending_Nil qp_works_def qp_new_def sr_pending_def sr_packets_def)

end
