(* ===== verification/Rdma_Duplex.thy ===== *)
theory Rdma_Duplex
  imports Duplex
begin

text \<open>
  The two RDMA classes take turns, and the constructors of two connected RDMA sockets bring them to
  where they can: each learns the address of the other's write buffer.
\<close>

section \<open>What the steps keep\<close>

lemma append_arrived_keeps:
  assumes "append_arrived m (s, b) = Ret (s', b')"
  shows "\<exists>mm. s' = s\<lparr>so_mem := mm\<rparr>"
proof -
  obtain h body where m: "m = (h, body)" by (cases m)
  obtain s1 b1 s2 b2 where 1: "append_bytes (header_bytes h) (s, b) = Ret (s1, b1)"
    and 2: "append_bytes (take (hdr_body_size h) body) (s1, b1) = Ret (s2, b2)"
    and 3: "append_bytes (le_bytes 4 0xffffffff) (s2, b2) = Ret (s', b')"
    using assms by (auto simp: m append_arrived_def bind_outcome_Ret_iff Let_def)
  show ?thesis using append_bytes_keeps(1)[OF 1] append_bytes_keeps(1)[OF 2] append_bytes_keeps(1)[OF 3] by auto
qed

lemma get_send_buf_rdma:
  assumes "SendRecvSocket_get_send_buf s = Ret (s', b)"
  shows "rw_write_buf s' = rw_write_buf s" "rw_rka s' = rw_rka s" "rw_write_mr s' = rw_write_mr s"
  using assms
  by (auto simp: SendRecvSocket_get_send_buf_def SendRecvSocket_poll_send_cq_def clear_buf_def Let_def
      bind_outcome_Ret_iff split: list.splits if_splits prod.splits)

text \<open>Getting a buffer and filling it changes memory in one of the send buffers only.\<close>

lemma get_and_append_keeps:
  assumes "send_part s []" and fits: "rw_fits m"
    and "bind_outcome (SendRecvSocket_get_send_buf s) (append_arrived m) = Ret (s1, b)"
  shows "rw_write_buf s1 = rw_write_buf s" "rw_rka s1 = rw_rka s" "so_verbs_buf s1 = so_verbs_buf s"
    "qp_recvs (so_qp s1) = qp_recvs (so_qp s)" "qp_recv_cq (so_qp s1) = qp_recv_cq (so_qp s)"
    "qp_sends (so_qp s1) = qp_sends (so_qp s)"
    "\<exists>a \<in> set (send_slots s). so_mem s1 = mem_write (so_mem s) a (rw_packet m)"
proof -
  obtain s0 b0 where g: "SendRecvSocket_get_send_buf s = Ret (s0, b0)" and a: "append_arrived m (s0, b0) = Ret (s1, b)"
    using assms(3) by (auto simp: bind_outcome_Ret_iff)
  note G = get_send_buf_Ret[OF assms(1) g] and R = get_send_buf_rdma[OF g]
  obtain mm where mm: "s1 = s0\<lparr>so_mem := mm\<rparr>" using append_arrived_keeps[OF a] by blast
  from append_arrived_packet[OF fits G(3)] a G(1) have "s1 = s0\<lparr>so_mem := mem_write (so_mem s) (buf_addr b0) (rw_packet m)\<rparr>"
    by auto
  moreover have "buf_addr b0 \<in> set (send_slots s)"
    using send_part_places(3)[OF G(2)] G(4) by (auto simp: send_slots_def)
  ultimately show "\<exists>a \<in> set (send_slots s). so_mem s1 = mem_write (so_mem s) a (rw_packet m)" by (auto simp: mm)
  show "rw_write_buf s1 = rw_write_buf s" "rw_rka s1 = rw_rka s" "so_verbs_buf s1 = so_verbs_buf s"
    "qp_recvs (so_qp s1) = qp_recvs (so_qp s)" "qp_recv_cq (so_qp s1) = qp_recv_cq (so_qp s)"
    "qp_sends (so_qp s1) = qp_sends (so_qp s)"
    using G R by (simp_all add: mm)
qed

lemma rw_recv_msg_keeps:
  assumes "RDMAWriteSocket_recv_msg t = Ret (t', m)"
  shows "so_qp t' = so_qp t" "rw_rka t' = rw_rka t" "so_send_bufs t' = so_send_bufs t" "so_verbs_buf t' = so_verbs_buf t"
    "buf_addr (rw_write_buf t') = buf_addr (rw_write_buf t)"
  using assms
  by (auto simp: RDMAWriteSocket_recv_msg_def RDMAWriteSocket_recv_header_def RDMAWriteSocket_get_body_def Buffer_read_def
      RDMAWriteSocket_clear_msg_buf_def clear_buf_def Buffer_clear_def Let_def bind_outcome_Ret_iff split: if_splits)

lemma imm_recv_msg_keeps:
  assumes "RDMAWriteImmSocket_recv_msg t = Ret (t', m)"
  shows "qp_sends (so_qp t') = qp_sends (so_qp t)" "qp_send_cq (so_qp t') = qp_send_cq (so_qp t)"
    "rw_rka t' = rw_rka t" "so_send_bufs t' = so_send_bufs t" "so_verbs_buf t' = so_verbs_buf t"
  using assms
  by (auto simp: RDMAWriteImmSocket_recv_msg_def RDMAWriteImmSocket_recv_header_def Buffer_read_def
      SendRecvSocket_get_recv_buf_def SendRecvSocket_poll_recv_cq_def RDMAWriteImmSocket_clear_msg_buf_def
      SendRecvSocket_post_recv_def clear_buf_def Buffer_clear_def Let_def bind_outcome_Ret_iff split: if_splits)

section \<open>RDMA write\<close>

definition apart :: "rdma_write_socket \<Rightarrow> bool" where
  "apart s \<longleftrightarrow> (\<forall>a \<in> set (send_slots s).
     a + PACKET_SIZE \<le> buf_addr (rw_write_buf s) \<or> buf_addr (rw_write_buf s) + PACKET_SIZE \<le> a)"

definition rw_linked :: "rdma_write_socket \<Rightarrow> rdma_write_socket \<Rightarrow> bool" where
  "rw_linked s t \<longleftrightarrow> rw_ok (s, t) \<and> rw_ok (t, s) \<and> rw_pending (s, t) = [] \<and> rw_pending (t, s) = [] \<and> apart s \<and> apart t"

lemma rw_pending_Nil: "rw_pending (s, t) = [] \<longleftrightarrow> \<not> rw_flag t \<and> qp_sends (so_qp s) = []"
  by (simp add: rw_pending_def sent_packets_def)

lemma zeroed_write_apart:
  assumes "zeroed m a" and "b + length bs \<le> a \<or> a + PACKET_SIZE \<le> b"
  shows "zeroed (mem_write m b bs) a"
  using assms by (auto simp: zeroed_def mem_write_def)

lemma rw_send_msg_split:
  "RDMAWriteSocket_send_msg m s =
      bind_outcome (bind_outcome (SendRecvSocket_get_send_buf s) (append_arrived m)) (\<lambda>(s, send_buf).
        RDMAWriteSocket_post_write send_buf (rw_rka s) s)"
  by (simp add: RDMAWriteSocket_send_msg_def bind_outcome_assoc)

lemma imm_send_msg_split:
  "RDMAWriteImmSocket_send_msg m s =
      bind_outcome (bind_outcome (SendRecvSocket_get_send_buf s) (append_arrived m)) (\<lambda>(s, send_buf).
        RDMAWriteImmSocket_post_write_imm send_buf (rw_rka s) s)"
  by (simp add: RDMAWriteImmSocket_send_msg_def bind_outcome_assoc)

interpretation rwd: duplex rw_send rw_recv rw_pending rw_ok rw_fits "\<lambda>n. n = 0" rw_linked
proof unfold_locales
  fix s t m st s' t'
  assume l: "rw_linked s t" and fits: "rw_fits m" and send: "rw_send m (s, t) = Ret st" and recv: "rw_recv st = Ret ((s', t'), m)"
    and ok: "rw_ok (s', t')" "rw_pending (s', t') = []"
  note L = l[unfolded rw_linked_def rw_pending_Nil]
  have S: "send_part s []" "rw_write_buf s = Buffer_on (rka_addr (rw_rka t)) PACKET_SIZE" "zeroed (so_mem s) (buf_addr (rw_write_buf s))"
    "send_part t []" "qp_works t"
    using L by (auto simp: rw_ok_def rw_place_def)
  obtain s1 s0 b where s1: "st = (s1, t)" and g: "bind_outcome (SendRecvSocket_get_send_buf s) (append_arrived m) = Ret (s0, b)"
    and p: "RDMAWriteSocket_post_write b (rw_rka s0) s0 = Ret s1"
    using send by (auto simp: rw_send_def rw_send_msg_split bind_outcome_Ret_iff)
  note K = get_and_append_keeps[OF S(1) fits g]
  obtain a where a: "a \<in> set (send_slots s)" "so_mem s0 = mem_write (so_mem s) a (rw_packet m)" using K(7) by blast
  have q: "qp_sends (so_qp s1) = [Wr_write (buf_addr b) (buf_size b) (rw_rka s0)]" "so_mem s1 = so_mem s0"
    "rw_write_buf s1 = rw_write_buf s" "so_verbs_buf s1 = so_verbs_buf s"
    using p K L by (auto simp: RDMAWriteSocket_post_write_def split: if_splits)
  define t1 where "t1 = t\<lparr>so_mem := mem_write (so_mem t) (rka_addr (rw_rka s0)) (mem_read (so_mem s1) (buf_addr b) (buf_size b))\<rparr>"
  have "RDMAWriteSocket_recv_msg t1 = Ret (t', m)" and s': "s' = complete_send s1"
    using recv L by (auto simp: rw_recv_def s1 deliver_def q(1) t1_def bind_outcome_Ret_iff)
  note T = rw_recv_msg_keeps[OF this(1)]
  have T': "so_qp t' = so_qp t" "rw_rka t' = rw_rka t" "so_send_bufs t' = so_send_bufs t" "so_verbs_buf t' = so_verbs_buf t"
    "buf_addr (rw_write_buf t') = buf_addr (rw_write_buf t)"
    using T by (simp_all add: t1_def)
  have z: "zeroed (so_mem s') (buf_addr (rw_write_buf s'))"
    using zeroed_write_apart[OF S(3), of a "rw_packet m"] a L length_rw_packet[OF fits]
    by (auto simp: s' complete_send_def q apart_def)
  then have nf: "\<not> rw_flag s'" by (simp add: rw_flag_def zeroed_flag)
  have "rw_ok (t', s')" "rw_pending (t', s') = []"
    using S nf z T' L q
    by (simp_all add: rw_ok_def rw_place_def rw_pending_Nil send_part_def send_slots_def qp_works_def s' complete_send_def)
  moreover have "apart s'" "apart t'"
    using L T' q by (simp_all add: apart_def send_slots_def s' complete_send_def)
  ultimately show "rw_linked t' s'" using ok by (simp add: rw_linked_def)
qed (simp add: rw_linked_def)

section \<open>RDMA write with immediate\<close>

definition imm_linked :: "rdma_write_socket \<Rightarrow> rdma_write_socket \<Rightarrow> bool" where
  "imm_linked s t \<longleftrightarrow> imm_ok (s, t) \<and> imm_ok (t, s) \<and> imm_pending (s, t) = [] \<and> imm_pending (t, s) = []"

lemma imm_pending_Nil: "imm_pending (s, t) = [] \<longleftrightarrow> qp_recv_cq (so_qp t) = [] \<and> qp_sends (so_qp s) = []"
  by (simp add: imm_pending_def sent_packets_def)

interpretation immd: duplex imm_send imm_recv imm_pending imm_ok rw_fits "\<lambda>n. n = 0" imm_linked
proof unfold_locales
  fix s t m st s' t'
  assume l: "imm_linked s t" and fits: "rw_fits m" and send: "imm_send m (s, t) = Ret st" and recv: "imm_recv st = Ret ((s', t'), m)"
    and ok: "imm_ok (s', t')" "imm_pending (s', t') = []"
  note L = l[unfolded imm_linked_def imm_pending_Nil]
  have S: "send_part s []" "rw_write_buf s = Buffer_on (rka_addr (rw_rka t)) PACKET_SIZE" "send_part t []" "recv_part s []"
    using L by (auto simp: imm_ok_def)
  obtain s1 s0 b where s1: "st = (s1, t)" and g: "bind_outcome (SendRecvSocket_get_send_buf s) (append_arrived m) = Ret (s0, b)"
    and p: "RDMAWriteImmSocket_post_write_imm b (rw_rka s0) s0 = Ret s1"
    using send by (auto simp: imm_send_def imm_send_msg_split bind_outcome_Ret_iff)
  note K = get_and_append_keeps[OF S(1) fits g]
  have q: "qp_sends (so_qp s1) = [Wr_write_imm (buf_addr b) (buf_size b) (rw_rka s0)]" "rw_write_buf s1 = rw_write_buf s"
    "so_verbs_buf s1 = so_verbs_buf s" "qp_recvs (so_qp s1) = qp_recvs (so_qp s)" "qp_recv_cq (so_qp s1) = qp_recv_cq (so_qp s)"
    using p K L by (auto simp: RDMAWriteImmSocket_post_write_imm_def split: if_splits)
  obtain s2 t2 where d: "deliver (s1, t) = (s2, t2)" by (metis surj_pair)
  have r: "RDMAWriteImmSocket_recv_msg t2 = Ret (t', m)" and s': "s' = s2"
    using recv L d by (auto simp: imm_recv_def s1 bind_outcome_Ret_iff)
  note T = imm_recv_msg_keeps[OF r]
  have D: "qp_sends (so_qp t2) = qp_sends (so_qp t)" "qp_send_cq (so_qp t2) = qp_send_cq (so_qp t)" "rw_rka t2 = rw_rka t"
    "so_send_bufs t2 = so_send_bufs t" "so_verbs_buf t2 = so_verbs_buf t"
    "qp_recvs (so_qp s2) = qp_recvs (so_qp s1)" "qp_recv_cq (so_qp s2) = qp_recv_cq (so_qp s1)"
    "so_verbs_buf s2 = so_verbs_buf s1" "rw_write_buf s2 = rw_write_buf s1"
    using d by (auto simp: deliver_def q(1) complete_send_def complete_recv_def split: list.splits)
  have "qp_works s'" "qp_works t'" using ok by (simp_all add: imm_ok_def)
  then have "imm_ok (t', s')" "imm_pending (t', s') = []"
    using S L T D q
    by (simp_all add: imm_ok_def imm_place_def imm_pending_Nil send_part_def send_slots_def recv_part_def recv_slots_def s')
  then show "imm_linked t' s'" using ok by (simp add: imm_linked_def)
qed (simp add: imm_linked_def)

end
