(* ===== verification/Handshake.thy ===== *)
theory Handshake
  imports Rdma_Duplex
begin

text \<open>
  The constructors of two connected RDMA sockets.  Each sends the key and the address of its write
  buffer and then waits for the peer's; afterwards the two can take turns.
\<close>

definition rdma_handshake :: "rdma_write_socket \<times> rdma_write_socket \<Rightarrow> (rdma_write_socket \<times> rdma_write_socket) outcome" where
  "rdma_handshake st =
     (let (s, t) = deliver st; (t, s) = deliver (t, s) in
      bind_outcome (RDMAWriteSocket_new_recv s) (\<lambda>s.
      bind_outcome (RDMAWriteSocket_new_recv t) (\<lambda>t. Ret (s, t))))"

lemma rka_roundtrip:
  assumes "rka_rkey r < 2 ^ 32" and "rka_addr r < 2 ^ 64"
  shows "rka_of_bytes (rka_bytes junk r @ rest) = r"
proof -
  have "le_val (le_bytes 4 (rka_rkey r)) = rka_rkey r" "le_val (le_bytes 8 (rka_addr r)) = rka_addr r"
    using assms by simp_all
  then show ?thesis by (simp add: rka_of_bytes_def rka_bytes_def RemoteKeyAndAddr_def)
qed

text \<open>What a socket is after the first half of its constructor: \<open>r\<close> is what it sends, from \<open>x\<close>.\<close>

definition greets :: "rdma_write_socket \<Rightarrow> rka \<Rightarrow> nat \<Rightarrow> bool" where
  "greets s r x \<longleftrightarrow> send_part s [] \<and> recv_part s [] \<and> qp_works s \<and>
     qp_sends (so_qp s) = [Wr_send x PACKET_SIZE] \<and> qp_recv_cq (so_qp s) = [] \<and>
     (\<exists>junk rest. mem_read (so_mem s) x PACKET_SIZE = rka_bytes junk r @ rest) \<and>
     rw_write_buf s = Buffer_on (rka_addr r) PACKET_SIZE \<and> zeroed (so_mem s) (rka_addr r) \<and>
     (buf_addr (so_verbs_buf s) + 2 * PACKET_SIZE * PACKET_WINDOW_SIZE \<le> rka_addr r \<or>
      rka_addr r + PACKET_SIZE \<le> buf_addr (so_verbs_buf s))"

lemma RDMAWriteSocket_new_recv_eq:
  assumes "qp_works s" and "qp_recv_cq (so_qp s) = [(b, PACKET_SIZE)]"
  shows "RDMAWriteSocket_new_recv s =
    Ret (s\<lparr>so_qp := (so_qp s)\<lparr>qp_recv_cq := [], qp_recvs := qp_recvs (so_qp s) @ [(b, PACKET_SIZE)]\<rparr>,
           rw_rka := rka_of_bytes (mem_read (so_mem s) b 16)\<rparr>)"
proof -
  have "Buffer_read (Buffer_on b PACKET_SIZE) 16 m = Ret (Buffer_on b PACKET_SIZE\<lparr>read_pos := b + 16\<rparr>, mem_read m b 16)" for m
    by (subst Buffer_read_iff) (simp_all add: PACKET_SIZE_def)
  then show ?thesis
    using assms by (simp add: RDMAWriteSocket_new_recv_def SendRecvSocket_get_recv_buf_def SendRecvSocket_poll_recv_cq_def
        sizeof_rka_def SendRecvSocket_post_recv_def qp_works_def)
qed

lemma slots_in_verbs:
  "x \<in> set (send_slots s) \<Longrightarrow> buf_addr (so_verbs_buf s) + PACKET_SIZE * PACKET_WINDOW_SIZE \<le> x \<and>
     x + PACKET_SIZE \<le> buf_addr (so_verbs_buf s) + 2 * PACKET_SIZE * PACKET_WINDOW_SIZE"
  "x \<in> set (recv_slots s) \<Longrightarrow> buf_addr (so_verbs_buf s) \<le> x \<and>
     x + PACKET_SIZE \<le> buf_addr (so_verbs_buf s) + PACKET_SIZE * PACKET_WINDOW_SIZE"
  by (auto simp: send_slots_def recv_slots_def packet_consts)

text \<open>One greeting: \<open>t\<close> finds the bytes in its oldest receive buffer.\<close>

lemma greeting_delivered:
  assumes s: "qp_sends (so_qp s) = [Wr_send x PACKET_SIZE]" "mem_read (so_mem s) x PACKET_SIZE = rka_bytes junk r @ rest"
    and r: "rka_rkey r < 2 ^ 32" "rka_addr r < 2 ^ 64"
    and t: "recv_part t []" "qp_recv_cq (so_qp t) = []"
  obtains b where "b \<in> set (recv_slots t)"
    and "deliver (s, t) = (complete_send s, complete_recv PACKET_SIZE (t\<lparr>so_mem := mem_write (so_mem t) b (mem_read (so_mem s) x PACKET_SIZE)\<rparr>))"
    and "fst (hd (qp_recvs (so_qp t))) = b"
    and "rka_of_bytes (mem_read (mem_write (so_mem t) b (mem_read (so_mem s) x PACKET_SIZE)) b 16) = r"
proof -
  have "length (qp_recvs (so_qp t)) = PACKET_WINDOW_SIZE" using recv_part_places(1)[OF t(1)] t(2) by simp
  then obtain b k rs where q: "qp_recvs (so_qp t) = (b, k) # rs"
    by (cases "qp_recvs (so_qp t)") (auto simp: PACKET_WINDOW_SIZE_def)
  have k: "k = PACKET_SIZE" using t(1) q by (simp add: recv_part_def)
  have b: "b \<in> set (recv_slots t)" using recv_part_places(3)[OF t(1)] q by auto
  have "mem_read (mem_write (so_mem t) b (mem_read (so_mem s) x PACKET_SIZE)) b PACKET_SIZE = rka_bytes junk r @ rest"
    by (simp add: mem_simps s(2)[symmetric])
  then have "take 16 (rka_bytes junk r @ rest) = mem_read (mem_write (so_mem t) b (mem_read (so_mem s) x PACKET_SIZE)) b 16"
    using mem_read_sub[of 0 16 PACKET_SIZE "mem_write (so_mem t) b (mem_read (so_mem s) x PACKET_SIZE)" b]
    by (simp add: PACKET_SIZE_def)
  then have "mem_read (mem_write (so_mem t) b (mem_read (so_mem s) x PACKET_SIZE)) b 16 = rka_bytes junk r @ []"
    by (simp add: rka_bytes_def)
  then have "rka_of_bytes (mem_read (mem_write (so_mem t) b (mem_read (so_mem s) x PACKET_SIZE)) b 16) = r"
    using rka_roundtrip[OF r] by (simp only:)
  then show thesis using that[OF b] by (simp add: deliver_def s(1) q k)
qed

text \<open>A socket that has sent its greeting from \<open>x\<close> and taken the peer's, \<open>q\<close>, out of the buffer at \<open>b\<close>.\<close>

definition greeted :: "rdma_write_socket \<Rightarrow> nat \<Rightarrow> nat \<Rightarrow> byte list \<Rightarrow> rka \<Rightarrow> rdma_write_socket" where
  "greeted s x b bs q =
     s\<lparr>so_mem := mem_write (so_mem s) b bs,
       so_qp := (so_qp s)\<lparr>qp_sends := [], qp_send_cq := qp_send_cq (so_qp s) @ [x],
                          qp_recvs := tl (qp_recvs (so_qp s)) @ [(b, PACKET_SIZE)], qp_recv_cq := []\<rparr>,
       rw_rka := q\<rparr>"

lemma greeted_ready:
  assumes g: "greets s r x" and b: "b \<in> set (recv_slots s)" "fst (hd (qp_recvs (so_qp s))) = b" and len: "length bs = PACKET_SIZE"
    and f: "f = greeted s x b bs q"
  shows "send_part f []" "recv_part f []" "qp_works f" "qp_sends (so_qp f) = []" "qp_recv_cq (so_qp f) = []"
    "rw_rka f = q" "rw_write_buf f = Buffer_on (rka_addr r) PACKET_SIZE" "zeroed (so_mem f) (rka_addr r)" "\<not> rw_flag f" "apart f"
proof -
  note G = g[unfolded greets_def]
  have rp: "recv_part s []" "qp_recv_cq (so_qp s) = []" using G by simp_all
  have "length (qp_recvs (so_qp s)) = PACKET_WINDOW_SIZE" using recv_part_places(1)[OF rp(1)] rp(2) by simp
  then obtain k rs where q: "qp_recvs (so_qp s) = (b, k) # rs"
    using b(2) by (cases "qp_recvs (so_qp s)") (auto simp: PACKET_WINDOW_SIZE_def)
  show "send_part f []" using G by (auto simp: f greeted_def send_part_def send_slots_def ac_simps)
  show "recv_part f []" using rp q by (simp add: f greeted_def recv_part_def recv_slots_def ac_simps)
  show "qp_works f" using G by (simp add: f greeted_def qp_works_def)
  show "qp_sends (so_qp f) = []" "qp_recv_cq (so_qp f) = []" "rw_rka f = q" by (simp_all add: f greeted_def)
  show w: "rw_write_buf f = Buffer_on (rka_addr r) PACKET_SIZE" using G by (simp add: f greeted_def)
  have v: "so_verbs_buf f = so_verbs_buf s" by (simp add: f greeted_def)
  show z: "zeroed (so_mem f) (rka_addr r)"
    using G slots_in_verbs(2)[OF b(1)] zeroed_write_apart[of "so_mem s" "rka_addr r" b bs] len
    by (auto simp: f greeted_def packet_consts)
  then show "\<not> rw_flag f" by (simp add: rw_flag_def zeroed_flag w)
  show "apart f"
    unfolding apart_def using G slots_in_verbs(1)[of _ f] by (fastforce simp: w v)
qed

lemma handshake_links:
  assumes s: "greets s r x" and t: "greets t q y"
    and r: "rka_rkey r < 2 ^ 32" "rka_addr r < 2 ^ 64" and q: "rka_rkey q < 2 ^ 32" "rka_addr q < 2 ^ 64"
  shows "\<exists>s' t'. rdma_handshake (s, t) = Ret (s', t') \<and> rw_linked s' t' \<and> imm_linked s' t' \<and> rw_rka s' = q \<and> rw_rka t' = r"
proof -
  note S = s[unfolded greets_def] and T = t[unfolded greets_def]
  obtain junk rest where x: "mem_read (so_mem s) x PACKET_SIZE = rka_bytes junk r @ rest" using S by blast
  obtain junk' rest' where y: "mem_read (so_mem t) y PACKET_SIZE = rka_bytes junk' q @ rest'" using T by blast
  have sends: "qp_sends (so_qp s) = [Wr_send x PACKET_SIZE]" "qp_sends (so_qp t) = [Wr_send y PACKET_SIZE]"
    "recv_part t []" "qp_recv_cq (so_qp t) = []" using S T by simp_all
  define xs where "xs = mem_read (so_mem s) x PACKET_SIZE"
  define ys where "ys = mem_read (so_mem t) y PACKET_SIZE"
  obtain b where b: "b \<in> set (recv_slots t)" "fst (hd (qp_recvs (so_qp t))) = b"
    "deliver (s, t) = (complete_send s, complete_recv PACKET_SIZE (t\<lparr>so_mem := mem_write (so_mem t) b xs\<rparr>))"
    "rka_of_bytes (mem_read (mem_write (so_mem t) b xs) b 16) = r"
    using greeting_delivered[OF sends(1) x r sends(3,4)] unfolding xs_def by blast
  define t1 where "t1 = complete_recv PACKET_SIZE (t\<lparr>so_mem := mem_write (so_mem t) b xs\<rparr>)"
  define s1 where "s1 = complete_send s"
  have yslot: "y \<in> set (send_slots t)" using send_part_places(3)[of t "[]"] T sends(2) by auto
  have y1: "mem_read (so_mem t1) y PACKET_SIZE = ys"
    unfolding t1_def ys_def complete_recv_def using slots_in_verbs(1)[OF yslot] slots_in_verbs(2)[OF b(1)]
    by (simp, intro mem_read_write_disjoint) (simp add: xs_def)
  have s1: "recv_part s1 []" "qp_recv_cq (so_qp s1) = []" "recv_slots s1 = recv_slots s" "qp_recvs (so_qp s1) = qp_recvs (so_qp s)"
    "so_mem s1 = so_mem s"
    using S by (auto simp: s1_def complete_send_def recv_part_def recv_slots_def)
  have t1: "qp_sends (so_qp t1) = [Wr_send y PACKET_SIZE]" by (simp add: t1_def complete_recv_def sends)
  obtain c where c: "c \<in> set (recv_slots s)" "fst (hd (qp_recvs (so_qp s))) = c"
    "deliver (t1, s1) = (complete_send t1, complete_recv PACKET_SIZE (s1\<lparr>so_mem := mem_write (so_mem s) c ys\<rparr>))"
    "rka_of_bytes (mem_read (mem_write (so_mem s) c ys) c 16) = q"
    using greeting_delivered[OF t1 y1[unfolded ys_def y] q s1(1,2)] unfolding s1(3-5) y1 by blast
  let ?s2 = "complete_recv PACKET_SIZE (s1\<lparr>so_mem := mem_write (so_mem s) c ys\<rparr>)" and ?t2 = "complete_send t1"
  let ?s = "greeted s x c ys q" and ?t = "greeted t y b xs r"
  have works: "qp_works ?s2" "qp_works ?t2"
    using S T by (simp_all add: qp_works_def complete_recv_def complete_send_def s1_def t1_def)
  have "qp_recv_cq (so_qp ?s2) = [(c, PACKET_SIZE)]" "qp_recv_cq (so_qp ?t2) = [(b, PACKET_SIZE)]"
    using S T b(2) c(2) by (simp_all add: complete_recv_def complete_send_def s1_def t1_def)
  note new = RDMAWriteSocket_new_recv_eq[OF works(1) this(1)] RDMAWriteSocket_new_recv_eq[OF works(2) this(2)]
  have "RDMAWriteSocket_new_recv ?s2 = Ret ?s" "RDMAWriteSocket_new_recv ?t2 = Ret ?t"
    unfolding new using sends b(4) c(4) by (simp_all add: complete_recv_def complete_send_def s1_def t1_def greeted_def)
  then have h: "rdma_handshake (s, t) = Ret (?s, ?t)"
    using b(3) c(3) by (simp add: rdma_handshake_def s1_def t1_def)
  have len: "length xs = PACKET_SIZE" "length ys = PACKET_SIZE" by (simp_all add: xs_def ys_def)
  note SR = greeted_ready[OF s c(1,2) len(2) refl, of q] and TR = greeted_ready[OF t b(1,2) len(1) refl, of r]
  have "rw_linked ?s ?t" using SR TR by (simp add: rw_linked_def rw_ok_def rw_pending_Nil rw_place_def)
  moreover have "imm_linked ?s ?t" using SR TR by (simp add: imm_linked_def imm_ok_def imm_pending_Nil imm_place_def)
  ultimately show ?thesis using h SR(6) TR(6) by blast
qed

lemma rka_append:
  assumes "append_bytes (rka_bytes junk r) (s, Buffer_on x PACKET_SIZE) = Ret (s', b)"
  shows "s' = s\<lparr>so_mem := mem_write (so_mem s) x (rka_bytes junk r)\<rparr>" "buf_addr b = x" "buf_size b = PACKET_SIZE"
proof -
  have "Buffer_ok (Buffer_on x PACKET_SIZE)" by (simp add: PACKET_SIZE_def)
  moreover have "write_pos (Buffer_on x PACKET_SIZE) + length (rka_bytes junk r) \<le> buf_addr (Buffer_on x PACKET_SIZE) + buf_size (Buffer_on x PACKET_SIZE)"
    by (simp add: rka_bytes_def PACKET_SIZE_def)
  ultimately have "append_bytes (rka_bytes junk r) (s, Buffer_on x PACKET_SIZE) =
      Ret (s\<lparr>so_mem := mem_write (so_mem s) x (rka_bytes junk r)\<rparr>,
           Buffer_on x PACKET_SIZE\<lparr>write_pos := x + length (rka_bytes junk r)\<rparr>)"
    by (simp add: append_bytes_room)
  with assms show "s' = s\<lparr>so_mem := mem_write (so_mem s) x (rka_bytes junk r)\<rparr>" "buf_addr b = x" "buf_size b = PACKET_SIZE"
    by auto
qed

lemma length_rka_bytes [simp]: "length (rka_bytes junk r) = 16"
  by (simp add: rka_bytes_def)

text \<open>The first half of the constructor; \<open>w\<close> is the write buffer, which \<open>posix_memalign\<close> keeps apart from the rest.\<close>

lemma RDMAWriteSocket_new_greets:
  assumes new: "RDMAWriteSocket_new (Some a) True (Some w) (Some rkey) junk qp_new m = Ret s"
    and w: "a + 2 * PACKET_SIZE * PACKET_WINDOW_SIZE \<le> w \<or> w + PACKET_SIZE \<le> a"
  shows "\<exists>x. greets s (RemoteKeyAndAddr rkey w) x"
proof -
  obtain s0 where s0: "SendRecvSocket_new (Some a) True junk qp_new m = Ret s0"
    using new by (auto simp: RDMAWriteSocket_new_def bind_outcome_Ret_iff)
  note W = SendRecvSocket_new_Ret[OF s0]
  have qp: "0 \<le> qp_post_rc qp_new" "qp_recvs qp_new = []" by (simp_all add: qp_new_def)
  have va: "buf_addr (so_verbs_buf s0) = a" using s0 unfolding SendRecvSocket_new_eq[OF qp] by auto
  define s1 where "s1 = (sendrecv_socket.extend s0 \<lparr>rw_read_mr = None, rw_write_buf = Buffer_null junk, rw_write_mr = 0,
      rw_rka = RemoteKeyAndAddr_default\<rparr>)\<lparr>so_mem := mem_write (so_mem s0) w (replicate PACKET_SIZE 0),
      rw_write_buf := Buffer_on w PACKET_SIZE, rw_write_mr := rkey\<rparr>"
  have inv: "send_part s1 []" "recv_part s1 []" "qp_sends (so_qp s1) = []" "qp_recv_cq (so_qp s1) = []"
    "so_verbs_buf s1 = so_verbs_buf s0" "rw_write_buf s1 = Buffer_on w PACKET_SIZE" "zeroed (so_mem s1) w"
    "qp_post_rc (so_qp s1) = 0" "qp_poll_rc (so_qp s1) = 0" "rw_write_mr s1 = rkey"
    using W by (simp_all add: s1_def sendrecv_socket.defs window_inv_def send_part_def recv_part_def send_slots_def recv_slots_def
        qp_new_def zeroed_def mem_write_def)
  obtain s2 b2 s3 b3 where g: "SendRecvSocket_get_send_buf s1 = Ret (s2, b2)"
    and ap: "append_bytes (rka_bytes junk (RemoteKeyAndAddr (rw_write_mr s2) (buf_addr (rw_write_buf s2)))) (s2, b2) = Ret (s3, b3)"
    and p: "SendRecvSocket_post_send b3 s3 = Ret s"
    using new
    by (auto simp: RDMAWriteSocket_new_def s0 RDMAWriteSocket_setup_write_buf_def Buffer_allocate_def
        bind_outcome_Ret_iff s1_def Let_def sendrecv_socket.defs)
  note G = get_send_buf_Ret[OF inv(1) g] and R = get_send_buf_rdma[OF g]
  define x where "x = buf_addr b2"
  let ?r = "RemoteKeyAndAddr rkey w"
  have b2: "b2 = Buffer_on x PACKET_SIZE" using G(1) by (simp add: x_def)
  have r: "RemoteKeyAndAddr (rw_write_mr s2) (buf_addr (rw_write_buf s2)) = ?r" using R inv by simp
  note A = rka_append[OF ap[unfolded b2 r]]
  have s: "s = s3\<lparr>so_qp := (so_qp s3)\<lparr>qp_sends := [Wr_send x PACKET_SIZE]\<rparr>\<rparr>"
    using p A inv G by (simp add: SendRecvSocket_post_send_def)
  have mem: "so_mem s = mem_write (mem_write (so_mem s1) x (replicate PACKET_SIZE 0)) x (rka_bytes junk ?r)"
    using A G by (simp add: s x_def)
  have slot: "x \<in> set (send_slots s1)" using send_part_places(3)[OF G(2)] G(4) by (auto simp: send_slots_def x_def)
  have far: "x + PACKET_SIZE \<le> w \<or> w + PACKET_SIZE \<le> x"
    using slots_in_verbs(1)[OF slot] w by (auto simp: inv va packet_consts)
  have "zeroed (so_mem s) w"
    unfolding mem using far zeroed_write_apart[OF zeroed_write_apart[OF inv(7)]] by (auto simp: PACKET_SIZE_def)
  moreover have "mem_read (so_mem s) x PACKET_SIZE = rka_bytes junk ?r @ mem_read (so_mem s) (x + 16) (PACKET_SIZE - 16)"
    using mem_read_append[of "so_mem s" x 16 "PACKET_SIZE - 16"] by (simp add: mem mem_simps PACKET_SIZE_def)
  moreover have "send_part s []" "recv_part s []" "qp_works s" "qp_sends (so_qp s) = [Wr_send x PACKET_SIZE]" "qp_recv_cq (so_qp s) = []"
    "rw_write_buf s = Buffer_on w PACKET_SIZE" "so_verbs_buf s = so_verbs_buf s0"
    using A G R inv by (auto simp: s x_def send_part_def recv_part_def send_slots_def recv_slots_def qp_works_def ac_simps)
  ultimately show ?thesis
    using w va unfolding greets_def by (intro exI[of _ x]) (auto simp: RemoteKeyAndAddr_def)
qed

text \<open>The two constructors together.\<close>

lemma rdma_sockets_link:
  assumes s: "RDMAWriteSocket_new (Some a) True (Some w) (Some k) junk qp_new m = Ret s"
    and t: "RDMAWriteSocket_new (Some a') True (Some w') (Some k') junk' qp_new m' = Ret t"
    and a: "a + 2 * PACKET_SIZE * PACKET_WINDOW_SIZE \<le> w \<or> w + PACKET_SIZE \<le> a"
    and a': "a' + 2 * PACKET_SIZE * PACKET_WINDOW_SIZE \<le> w' \<or> w' + PACKET_SIZE \<le> a'"
    and r: "k < 2 ^ 32" "w < 2 ^ 64" "k' < 2 ^ 32" "w' < 2 ^ 64"
  shows "\<exists>s' t'. rdma_handshake (s, t) = Ret (s', t') \<and> rw_linked s' t' \<and> imm_linked s' t' \<and>
    rw_rka s' = RemoteKeyAndAddr k' w' \<and> rw_rka t' = RemoteKeyAndAddr k w"
proof -
  obtain x where x: "greets s (RemoteKeyAndAddr k w) x" using RDMAWriteSocket_new_greets[OF s a] by blast
  obtain y where y: "greets t (RemoteKeyAndAddr k' w') y" using RDMAWriteSocket_new_greets[OF t a'] by blast
  show ?thesis by (rule handshake_links[OF x y]) (use r in \<open>simp_all add: RemoteKeyAndAddr_def\<close>)
qed

end
