(* ===== verification/Socket_Theorems.thy ===== *)
theory Socket_Theorems
  imports Handshake
begin

text \<open>
  What the socket classes promise to the layers above, and where they do not: the windows of
  buffers, order and integrity of messages, request and answer on two sockets, and what a receiver
  does when bytes are late or missing.
\<close>

text \<open>A request that all classes can carry, and a memory of zeros, for the witnesses.\<close>

definition ping :: message where
  "ping = (MessageHeader (0, 0) GET 1, [7])"

lemma ping_fits: "rw_fits ping" "sr_fits ping" "tcp_fits ping"
  by (simp_all add: ping_def rw_fits_def sr_fits_def tcp_fits_def PACKET_SIZE_def)

lemma qp_new_simps [simp]:
  "qp_sends qp_new = []" "qp_send_cq qp_new = []" "qp_recvs qp_new = []" "qp_recv_cq qp_new = []"
  "qp_post_rc qp_new = 0" "qp_poll_rc qp_new = 0"
  by (simp_all add: qp_new_def)

lemma SendRecvSocket_new_returns: "\<exists>s. SendRecvSocket_new (Some a) True junk qp_new m = Ret s"
  using SendRecvSocket_new_eq[of qp_new a junk m] by simp

section \<open>The windows of buffers\<close>

text \<open>
  What can happen to the two ends of a connection between sends and receives of either side, with
  the device delivering in between and starting or ceasing to answer with errors.
\<close>

inductive link_step :: "sendrecv_socket \<times> sendrecv_socket \<Rightarrow> sendrecv_socket \<times> sendrecv_socket \<Rightarrow> bool" where
  sends: "SendRecvSocket_send_msg msg s = Ret s' \<Longrightarrow> link_step (s, t) (s', t)"
| receives: "SendRecvSocket_recv_msg s = Ret (s', msg) \<Longrightarrow> link_step (s, t) (s', t)"
| delivers: "deliver (s, t) = (s', t') \<Longrightarrow> link_step (s, t) (s', t')"
| device: "link_step (s, t) (s\<lparr>so_qp := (so_qp s)\<lparr>qp_post_rc := i, qp_poll_rc := j\<rparr>\<rparr>, t)"
| other: "link_step (t, s) (t', s') \<Longrightarrow> link_step (s, t) (s', t')"

inductive_cases link_stepE: "link_step st st'"

lemma link_step_window:
  assumes "link_step (s, t) (s', t')" and "window_inv s \<and> window_inv t"
  shows "window_inv s' \<and> window_inv t'"
  using assms
proof (induction "(s, t)" "(s', t')" arbitrary: s t s' t' rule: link_step.induct)
  case (sends msg s s' t)
  then show ?case using send_msg_window by blast
next
  case (receives s s' msg t)
  then show ?case using recv_msg_window by blast
next
  case (delivers s t s' t')
  then show ?case using deliver_window by blast
next
  case (device s t i j)
  then show ?case by (simp add: window_inv_def send_part_def recv_part_def send_slots_def recv_slots_def)
qed simp

lemma links_window:
  assumes "link_step\<^sup>*\<^sup>* st st'" and "window_inv (fst st) \<and> window_inv (snd st)"
  shows "window_inv (fst st') \<and> window_inv (snd st')"
  using assms
proof (induction rule: rtranclp_induct)
  case (step y z)
  then show ?case using link_step_window[of "fst y" "snd y" "fst z" "snd z"] by simp
qed simp

text \<open>C14: The windows of a connection never lose or duplicate a buffer.  However sends, receives, deliveries
  and failing polls of two connected SendRecvSockets interleave, at either end each of the ten send
  buffers is in exactly one of three places (free, posted, completed), each of the ten receive
  buffers is posted or holds a packet that waits to be read, and what is posted is whole packets.\<close>

theorem window_conserved:
  assumes "SendRecvSocket_new (Some a) True junk qp_new m = Ret s0" and "SendRecvSocket_new (Some b) True junk' qp_new m' = Ret t0"
    and "link_step\<^sup>*\<^sup>* (s0, t0) st" and "s \<in> {fst st, snd st}"
  shows "distinct (map buf_addr (so_send_bufs s) @ map wr_context (qp_sends (so_qp s)) @ qp_send_cq (so_qp s)) \<and>
    set (map buf_addr (so_send_bufs s) @ map wr_context (qp_sends (so_qp s)) @ qp_send_cq (so_qp s)) = set (send_slots s) \<and>
    distinct (map fst (qp_recvs (so_qp s)) @ map fst (qp_recv_cq (so_qp s))) \<and>
    set (map fst (qp_recvs (so_qp s)) @ map fst (qp_recv_cq (so_qp s))) = set (recv_slots s) \<and>
    card (set (send_slots s)) = PACKET_WINDOW_SIZE \<and> card (set (recv_slots s)) = PACKET_WINDOW_SIZE \<and>
    list_all (\<lambda>w. w = Wr_send (wr_context w) PACKET_SIZE) (qp_sends (so_qp s))"
proof -
  have "window_inv s0 \<and> window_inv t0"
    using SendRecvSocket_new_Ret(1)[OF assms(1)] SendRecvSocket_new_Ret(1)[OF assms(2)] by simp
  then have inv: "window_inv s" using links_window[OF assms(3)] assms(4) by auto
  then have parts: "send_part s []" "recv_part s []" by (simp_all add: window_inv_def)
  have "card (set (send_slots s)) = PACKET_WINDOW_SIZE" "card (set (recv_slots s)) = PACKET_WINDOW_SIZE"
    using distinct_slots[of s] by (simp_all add: distinct_card)
  then show ?thesis
    using send_part_places(2,3)[OF parts(1)] recv_part_places(2,3)[OF parts(2)] inv
    by (simp add: window_inv_def list_all_iff)
qed

lemma new_sockets: "\<exists>s t. SendRecvSocket_new (Some 0) True 0 qp_new (\<lambda>_. 0) = Ret s \<and>
  SendRecvSocket_new (Some 0) True 0 qp_new (\<lambda>_. 1) = Ret t"
  using SendRecvSocket_new_returns[of 0 0 "\<lambda>_. 0"] SendRecvSocket_new_returns[of 0 0 "\<lambda>_. 1"] by blast

text \<open>After one request has been sent and delivered.\<close>

theorem window_conserved_witness:
  "\<exists>s t s' t'. SendRecvSocket_new (Some 0) True 0 qp_new (\<lambda>_. 0) = Ret s \<and>
    sr_send ping (s, t) = Ret (s', t) \<and> deliver (s', t) = (complete_send s', t') \<and>
    distinct (map fst (qp_recvs (so_qp t')) @ map fst (qp_recv_cq (so_qp t')))"
proof -
  obtain s t where s: "SendRecvSocket_new (Some 0) True 0 qp_new (\<lambda>_. 0) = Ret s"
    and t: "SendRecvSocket_new (Some 0) True 0 qp_new (\<lambda>_. 1) = Ret t" using new_sockets by blast
  have l: "sr_linked s t" by (rule SendRecvSocket_new_linked[OF s t])
  then have ok: "sr_ok (s, t)" "sr_pending (s, t) = []" by (simp_all add: sr_linked_def)
  obtain st where send: "sr_send ping (s, t) = Ret st" and st: "sr_ok st" "sr_pending st = [ping]"
    using sr.send_works[OF ok(1) ping_fits(2)] ok(2) by (auto simp: PACKET_WINDOW_SIZE_def)
  obtain s' where s': "st = (s', t)" "SendRecvSocket_send_msg ping s = Ret s'"
    using send by (auto simp: sr_send_def bind_outcome_Ret_iff)
  have cq: "qp_recv_cq (so_qp t) = []" using ok(2) by (simp add: sr_pending_Nil)
  obtain s2 t' b where d: "deliver (s', t) = (s2, t')" "qp_recv_cq (so_qp t') = [(b, PACKET_SIZE)]"
    using sr_deliver[OF st(1)[unfolded s'(1)] cq st(2)[unfolded s'(1)]] by blast
  have "s2 = complete_send s'"
    using d cq by (auto simp: deliver_def split: list.splits work_request.splits if_splits prod.splits)
  have "link_step\<^sup>*\<^sup>* (s, t) (s2, t')"
    by (rule converse_rtranclp_into_rtranclp[where r = link_step and b = "(s', t)", OF _ r_into_rtranclp[where r = link_step]])
      (rule link_step.sends[OF s'(2)], rule link_step.delivers[OF d(1)])
  from window_conserved[OF s t this, of t'] have "distinct (map fst (qp_recvs (so_qp t')) @ map fst (qp_recv_cq (so_qp t')))"
    by simp
  then show ?thesis using s send d(1) \<open>s2 = complete_send s'\<close> unfolding s'(1) by blast
qed

section \<open>Order\<close>

text \<open>C16: A SendRecvSocket carries messages in order and unchanged.  Up to ten messages sent in a row on a new
  connection, before the peer reads any, are received in the order they were sent, with header and
  body intact, and then nothing is left.\<close>

theorem sendrecv_fifo:
  assumes "SendRecvSocket_new (Some a) True junk qp_new m = Ret s" and "SendRecvSocket_new (Some b) True junk' qp_new m' = Ret t"
    and "list_all sr_fits ms" and "length ms \<le> PACKET_WINDOW_SIZE"
  shows "\<exists>w w'. fold_outcome sr_send ms (s, t) = Ret w \<and> sr.recv_n (length ms) w = Ret (w', ms) \<and> sr_recv w' = Blocks"
proof -
  have ok: "sr_ok (s, t)" "sr_pending (s, t) = []"
    using SendRecvSocket_new_linked[OF assms(1,2)] by (simp_all add: sr_linked_def)
  from sr.fifo[OF ok, of ms] assms(3,4) obtain w w' where
    "fold_outcome sr_send ms (s, t) = Ret w" "sr.recv_n (length ms) w = Ret (w', ms)" "sr_ok w'" "sr_pending w' = []"
    by (auto simp: list_all_iff)
  then show ?thesis using sr.recv_empty by blast
qed

theorem sendrecv_fifo_witness:
  "\<exists>s t w w'. SendRecvSocket_new (Some 0) True 0 qp_new (\<lambda>_. 0) = Ret s \<and>
    fold_outcome sr_send [ping, (MessageHeader (0, 0) CLOSE 0, [])] (s, t) = Ret w \<and>
    sr.recv_n 2 w = Ret (w', [ping, (MessageHeader (0, 0) CLOSE 0, [])]) \<and> sr_recv w' = Blocks"
proof -
  obtain s t where s: "SendRecvSocket_new (Some 0) True 0 qp_new (\<lambda>_. 0) = Ret s"
    and t: "SendRecvSocket_new (Some 0) True 0 qp_new (\<lambda>_. 1) = Ret t" using new_sockets by blast
  let ?ms = "[ping, (MessageHeader (0, 0) CLOSE 0, [])]"
  have len: "length ?ms = 2" by simp
  have "list_all sr_fits ?ms" "length ?ms \<le> PACKET_WINDOW_SIZE"
    using ping_fits(2) by (simp_all add: sr_fits_def packet_consts)
  from sendrecv_fifo[OF s t this] show ?thesis unfolding len using s by blast
qed

section \<open>Request and answer\<close>

text \<open>C15: Two RDMA sockets that are constructed against each other can talk.  Each learns exactly the key and the
  address of the other's write buffer, and from then on every request of any sequence reaches the
  server as it was sent and brings its answer back, on the same two sockets, both with RDMA write and
  with RDMA write with immediate.\<close>

theorem rdma_requests_answered:
  assumes "RDMAWriteSocket_new (Some a) True (Some w) (Some k) junk qp_new m = Ret s"
    and "RDMAWriteSocket_new (Some a') True (Some w') (Some k') junk' qp_new m' = Ret t"
    and "a + 2 * PACKET_SIZE * PACKET_WINDOW_SIZE \<le> w \<or> w + PACKET_SIZE \<le> a"
    and "a' + 2 * PACKET_SIZE * PACKET_WINDOW_SIZE \<le> w' \<or> w' + PACKET_SIZE \<le> a'"
    and "k < 2 ^ 32" "w < 2 ^ 64" "k' < 2 ^ 32" "w' < 2 ^ 64"
    and "\<forall>r \<in> set rs. rw_fits r \<and> rw_fits (answer r)"
  shows "\<exists>s' t'. rdma_handshake (s, t) = Ret (s', t') \<and>
    rw_rka s' = RemoteKeyAndAddr k' w' \<and> rw_rka t' = RemoteKeyAndAddr k w \<and>
    (\<exists>st. rwd.talks answer rs (s', t') = Ret (st, map answer rs)) \<and>
    (\<exists>st. immd.talks answer rs (s', t') = Ret (st, map answer rs))"
proof -
  from rdma_sockets_link[OF assms(1-8)] obtain s' t' where h: "rdma_handshake (s, t) = Ret (s', t')"
    and l: "rw_linked s' t'" "imm_linked s' t'" and rka: "rw_rka s' = RemoteKeyAndAddr k' w'" "rw_rka t' = RemoteKeyAndAddr k w"
    by blast
  show ?thesis
    using h rka rwd.talks_answer[OF l(1) assms(9)] immd.talks_answer[OF l(2) assms(9)] by blast
qed

lemma RDMAWriteSocket_new_returns: "\<exists>s. RDMAWriteSocket_new (Some a) True (Some w) (Some k) junk qp_new m = Ret s"
proof -
  obtain s0 where s0: "SendRecvSocket_new (Some a) True junk qp_new m = Ret s0" using SendRecvSocket_new_returns by blast
  note W = SendRecvSocket_new_Ret[OF s0, simplified]
  define s1 where "s1 = (sendrecv_socket.extend s0 \<lparr>rw_read_mr = None, rw_write_buf = Buffer_null junk, rw_write_mr = 0,
      rw_rka = RemoteKeyAndAddr_default\<rparr>)\<lparr>so_mem := mem_write (so_mem s0) w (replicate PACKET_SIZE 0),
      rw_write_buf := Buffer_on w PACKET_SIZE, rw_write_mr := k\<rparr>"
  have "send_part s1 []" "qp_sends (so_qp s1) = []" "0 \<le> qp_poll_rc (so_qp s1)"
    using W by (simp_all add: s1_def sendrecv_socket.defs window_inv_def send_part_def send_slots_def)
  then obtain s2 b where g: "SendRecvSocket_get_send_buf s1 = Ret (s2, b)" and b: "b = Buffer_on (buf_addr b) PACKET_SIZE"
    and rc: "qp_post_rc (so_qp s2) = qp_post_rc (so_qp s1)"
    using get_send_buf_returns[of s1] get_send_buf_Ret(1,8)[of s1] by (fastforce simp: PACKET_WINDOW_SIZE_def)
  have "append_bytes (rka_bytes junk r) (s2, b) =
      Ret (s2\<lparr>so_mem := mem_write (so_mem s2) (write_pos b) (rka_bytes junk r)\<rparr>, b\<lparr>write_pos := write_pos b + 16\<rparr>)" for r
    by (subst append_bytes_room) (subst b, simp add: PACKET_SIZE_def, subst (1 2 3) b, simp add: PACKET_SIZE_def, simp)
  moreover have "qp_post_rc (so_qp s1) = 0" using W by (simp add: s1_def sendrecv_socket.defs)
  ultimately show ?thesis
    using g rc by (simp add: RDMAWriteSocket_new_def s0 RDMAWriteSocket_setup_write_buf_def Buffer_allocate_def s1_def
        Let_def sendrecv_socket.defs SendRecvSocket_post_send_def)
qed

theorem rdma_requests_answered_witness:
  "\<exists>s t s' t' st. RDMAWriteSocket_new (Some 0) True (Some 60000) (Some 1) 0 qp_new (\<lambda>_. 0) = Ret s \<and>
    RDMAWriteSocket_new (Some 0) True (Some 70000) (Some 2) 0 qp_new (\<lambda>_. 0) = Ret t \<and>
    rdma_handshake (s, t) = Ret (s', t') \<and> rw_rka s' = RemoteKeyAndAddr 2 70000 \<and>
    rwd.talks (\<lambda>_. ping) [ping, (MessageHeader (0, 0) CLOSE 0, [])] (s', t') = Ret (st, [ping, ping])"
proof -
  obtain s t where s: "RDMAWriteSocket_new (Some 0) True (Some 60000) (Some 1) 0 qp_new (\<lambda>_. 0) = Ret s"
    and t: "RDMAWriteSocket_new (Some 0) True (Some 70000) (Some 2) 0 qp_new (\<lambda>_. 0) = Ret t"
    using RDMAWriteSocket_new_returns by blast
  have "\<forall>r \<in> set [ping, (MessageHeader (0, 0) CLOSE 0, [])]. rw_fits r \<and> rw_fits ping"
    using ping_fits(1) by (simp add: rw_fits_def PACKET_SIZE_def)
  from rdma_requests_answered[OF s t _ _ _ _ _ _ this] s t show ?thesis by (simp add: packet_consts) blast
qed

section \<open>A message while it arrives\<close>



text \<open>The flag behind the body can be taken for that of the next message.  The receiver goes on at the first
  byte of the flag and clears its buffer; if the other three bytes land only then, and the next message
  has a body of the same size, the receiver takes its body as soon as its header is there: it gets
  zeros instead of the body that was sent.\<close>

theorem late_flag_gives_zeros:
  assumes "rw_fits msg" and "zeroed m a" and "len = length (snd msg)"
    and "rw_write_buf s = Buffer_on a PACKET_SIZE"
    and "so_mem s = arrived (mem_write m (a + 25 + len) [255, 255, 255]) a 24 msg"
  shows "\<exists>s'. RDMAWriteSocket_recv_msg s = Ret (s', (fst msg, replicate len 0))"
proof -
  have len: "28 + len \<le> PACKET_SIZE" and h: "hdr_body_size (fst msg) = len" "header_of_bytes (header_bytes (fst msg)) = fst msg"
    and ones: "hdr_is_arrived (fst msg) = 0xffffffff"
    using assms(1,3) by (simp_all add: rw_fits_def header_roundtrip)
  have mem: "so_mem s = mem_write (mem_write m (a + 25 + len) [255, 255, 255]) a (header_bytes (fst msg))"
    using rw_packet_parts(1)[OF assms(1)] by (simp add: assms(5) arrived_def)
  have hd: "mem_read (so_mem s) a 24 = header_bytes (fst msg)" by (simp add: mem mem_simps)
  have "mem_read (so_mem s) (a + 16) 4 = le_bytes 4 0xffffffff"
    using mem_read_sub[of 16 4 24 "so_mem s" a] hd ones by (simp add: header_bytes_is_arrived)
  then have flag1: "le_val (mem_read (so_mem s) (a + 16) 4) \<noteq> 0" by simp
  have "mem_read (so_mem s) (a + 24 + len) 4 ! 1 = 255"
    by (simp add: mem_read_nth mem mem_write_def)
  then have "255 \<in> set (mem_read (so_mem s) (a + 24 + len) 4)" by (metis length_mem_read nth_mem one_less_numeral_iff semiring_norm(76))
  then have "\<exists>b \<in> set (mem_read (so_mem s) (a + 24 + len) 4). b \<noteq> 0" by (rule bexI[rotated]) simp
  then have flag2: "le_val (mem_read (so_mem s) (a + 24 + len) 4) \<noteq> 0" by (simp add: le_val_eq_0)
  have body: "mem_read (so_mem s) (a + 24) len = replicate len 0"
  proof (rule nth_equalityI)
    fix i assume "i < length (mem_read (so_mem s) (a + 24) len)"
    then have i: "i < len" by simp
    then have "24 + i < PACKET_SIZE" using len by simp
    then have "m (a + (24 + i)) = 0" using assms(2) unfolding zeroed_def by blast
    then show "mem_read (so_mem s) (a + 24) len ! i = replicate len 0 ! i"
      using i by (simp add: mem_read_nth mem mem_write_def add.assoc)
  qed simp
  have "RDMAWriteSocket_recv_header s = Ret (s\<lparr>rw_write_buf := Buffer_on a PACKET_SIZE\<lparr>read_pos := a + 24\<rparr>\<rparr>, fst msg)"
    using flag1 by (simp add: RDMAWriteSocket_recv_header_def assms(4) sizeof_simps Buffer_read_header hd h)
  then show ?thesis
    using flag2 body by (simp add: RDMAWriteSocket_recv_msg_def RDMAWriteSocket_get_body_def sizeof_simps assms(4) h Let_def)
qed

theorem late_flag_gives_zeros_witness:
  "\<exists>s'. RDMAWriteSocket_recv_msg (undefined\<lparr>rw_write_buf := Buffer_on 0 PACKET_SIZE,
      so_mem := arrived (mem_write (\<lambda>_. 0) (0 + 25 + 1) [255, 255, 255]) 0 24 ping\<rparr>) = Ret (s', (fst ping, [0])) \<and> [0] \<noteq> snd ping"
  using late_flag_gives_zeros[OF ping_fits(1), of "\<lambda>_. 0" 0 1 "undefined\<lparr>rw_write_buf := Buffer_on 0 PACKET_SIZE,
      so_mem := arrived (mem_write (\<lambda>_. 0) (0 + 25 + 1) [255, 255, 255]) 0 24 ping\<rparr>"]
  by (simp add: ping_def zeroed_def)

section \<open>TCP\<close>

definition sample_tcp :: tcp_socket where "sample_tcp = \<lparr>tcp_sock = 3, tcp_msg_buf = Buffer_on 0 PACKET_SIZE\<rparr>"

text \<open>C17: While every call moves all the bytes that it is asked for, a TCPSocket carries any number of messages
  of bodies up to the size of its buffer in order and unchanged, and then waits.\<close>

theorem tcp_fifo:
  assumes "list_all tcp_fits ms" and "out = []"
  shows "\<exists>w w'. fold_outcome tcp_send ms ((s, m), out) = Ret w \<and> tcp.recv_n hdr (length ms) w = Ret (w', ms) \<and> tcp_recv hdr w' = Blocks"
proof -
  have "\<exists>xs. (\<forall>m \<in> set xs. tcp_fits m) \<and> ([] :: byte list) = concat (map tcp_bytes xs)" by (rule exI[of _ "[]"]) simp
  then have ok: "tcp_ok ((s, m), out)" "tcp_pending ((s, m), out) = []"
    using tcp_pending_concat[of "[]"] by (simp_all add: tcp_ok_def tcp_pending_def assms(2))
  from tcp.fifo[OF ok, of ms hdr] assms(1) obtain w w' where
    "fold_outcome tcp_send ms ((s, m), out) = Ret w" "tcp.recv_n hdr (length ms) w = Ret (w', ms)" "tcp_ok w'" "tcp_pending w' = []"
    by (auto simp: list_all_iff)
  then show ?thesis using tcp.recv_empty by blast
qed

theorem tcp_fifo_witness:
  "\<exists>w w'. fold_outcome tcp_send [ping, ping] ((sample_tcp, \<lambda>_. 0), []) = Ret w \<and> tcp.recv_n [] 2 w = Ret (w', [ping, ping])"
  using tcp_fifo[of "[ping, ping]" "[]" sample_tcp "\<lambda>_. 0" "[]"] ping_fits(3) by (auto simp: numeral_2_eq_2)

text \<open>A TCPSocket does not notice that fewer bytes came than it asked for.  When the read of a header stops
  after n bytes, the header that the caller goes by keeps the bytes that its variable held, and the
  rest of the real header is left to be read as a body; and when the peer has closed the connection, so
  that read answers 0, every receive returns a message with whatever header the variable held.\<close>

theorem tcp_short_reads_unnoticed:
  assumes "length hdr = 24" and "n < 24"
  shows "TCPSocket_recv_header (Some (int n)) hdr (header_bytes h @ rest) =
      Ret (take n (header_bytes h) @ drop n hdr, drop n (header_bytes h) @ rest) \<and>
    (\<exists>st body. TCPSocket_recv_msg (Some 0, Some 0) hdr ((s, m), []) = Ret (st, (header_of_bytes hdr, body)))"
  using recv_header_short[OF assms]
  by (simp add: TCPSocket_recv_msg_def TCPSocket_recv_header_def TCPSocket_recv_def TCPSocket_get_body_def Let_def)

theorem tcp_short_reads_unnoticed_witness:
  "\<exists>st body. TCPSocket_recv_msg (Some 0, Some 0) (header_bytes (MessageHeader (0, 0) PUT 0)) ((sample_tcp, \<lambda>_. 0), []) =
    Ret (st, (MessageHeader (0, 0) PUT 0, body))"
  using tcp_short_reads_unnoticed[of "header_bytes (MessageHeader (0, 0) PUT 0)" 8 "MessageHeader (0, 0) GET 0" "[]" sample_tcp "\<lambda>_. 0"]
  by (simp add: header_roundtrip)

text \<open>The size of a body is not checked against the buffer of a TCPSocket.  A peer that announces more than the
  2560 bytes of a packet writes all of them: every byte beyond the buffer is overwritten.\<close>

theorem tcp_body_overruns:
  assumes "TCPSocket_new sock (Some a) m = Ret (m', s)" and "n \<le> length inp" and "PACKET_SIZE \<le> i" and "i < n"
  shows "\<exists>m''. TCPSocket_get_body (Some (int n)) n s (m', inp) = Ret ((m'', drop n inp), a) \<and> m'' (a + i) = inp ! i"
  using assms
  by (auto simp: TCPSocket_new_def Buffer_allocate_def TCPSocket_get_body_def TCPSocket_recv_def mem_write_def)

theorem tcp_body_overruns_witness:
  "\<exists>m' s m''. TCPSocket_new 3 (Some 0) (\<lambda>_. 0) = Ret (m', s) \<and>
    TCPSocket_get_body (Some (int 2561)) 2561 s (m', replicate 2561 7) = Ret ((m'', []), 0) \<and> m'' 2560 = 7"
proof -
  obtain m' s where n: "TCPSocket_new 3 (Some 0) (\<lambda>_. 0) = Ret (m', s)"
    by (simp add: TCPSocket_new_def Buffer_allocate_def)
  have "replicate 2561 (7::byte) ! 2560 = 7" by (rule nth_replicate) simp
  with tcp_body_overruns[OF n, of 2561 "replicate 2561 7" 2560] n show ?thesis
    by (auto simp: PACKET_SIZE_def)
qed

end
