(* ===== verification/Setup.thy ===== *)
theory Setup
  imports Connections Verbs
begin

text \<open>
  How endpoints come to be: the static \<open>connect\<close> functions of the socket classes
  (\<open>src/common/net/TCPSocket.cpp\<close>, \<open>SendRecvSocket.cpp\<close>, \<open>RDMAWriteSocket.cpp\<close>,
  \<open>RDMAWriteImmSocket.cpp\<close>) and the constructors and \<open>accept\<close> functions of the acceptors
  (\<open>src/server/net/\<close>).  Each is a sequence of system calls that may fail; every failure releases
  something and exits the process.
\<close>

section \<open>The system calls\<close>

record qp_init_attr =
  max_send_wr :: nat
  max_recv_wr :: nat
  max_send_sge :: nat
  max_recv_sge :: nat
  max_inline_data :: nat
  sq_sig_all :: nat

datatype os_call =
    Getaddrinfo "string option" string bool
  | Socket
  | Reuseaddr
  | Nodelay
  | Connect
  | Bind
  | Listen nat
  | Accept int
  | Create_ep qp_init_attr
  | Get_request int
  | Rdma_accept

text \<open>
  \<open>os_answer t c\<close> is the number that the \<open>t\<close>-th call answers when it is \<open>c\<close>; a negative one is a
  failure.  An address list is allocated when \<open>getaddrinfo\<close> answers 0.  A call that gives a new
  endpoint (a descriptor, or an \<open>rdma_cm_id\<close>) gives one that is not open: \<open>os_next\<close>.  With every
  open endpoint goes the list of the calls that have succeeded on it.
\<close>

record os =
  os_answer :: "nat \<Rightarrow> os_call \<Rightarrow> int"
  os_time :: nat
  os_next :: nat
  os_addrinfos :: nat
  os_open :: "(int \<times> os_call list) list"

definition os_call :: "os_call \<Rightarrow> os \<Rightarrow> os \<times> int" where
  "os_call c os = (os\<lparr>os_time := os_time os + 1\<rparr>, os_answer os (os_time os) c)"

definition os_getaddrinfo :: "string option \<Rightarrow> string \<Rightarrow> bool \<Rightarrow> os \<Rightarrow> os \<times> int" where
  "os_getaddrinfo node service passive os =
     (let (os, r) = os_call (Getaddrinfo node service passive) os
      in (if r = 0 then os\<lparr>os_addrinfos := os_addrinfos os + 1\<rparr> else os, r))"

definition os_freeaddrinfo :: "os \<Rightarrow> os" where
  "os_freeaddrinfo os = os\<lparr>os_addrinfos := os_addrinfos os - 1\<rparr>"

definition os_create :: "os_call \<Rightarrow> os \<Rightarrow> os \<times> int" where
  "os_create c os =
     (let (os, r) = os_call c os
      in if r < 0 then (os, r)
         else (os\<lparr>os_next := os_next os + 1, os_open := (int (os_next os), [c]) # os_open os\<rparr>, int (os_next os)))"

definition os_on :: "int \<Rightarrow> os_call \<Rightarrow> os \<Rightarrow> os \<times> int" where
  "os_on h c os =
     (let (os, r) = os_call c os
      in (if r < 0 then os
          else os\<lparr>os_open := map (\<lambda>(g, cs). (g, if g = h then cs @ [c] else cs)) (os_open os)\<rparr>, r))"

definition os_close :: "int \<Rightarrow> os \<Rightarrow> os" where
  "os_close h os = os\<lparr>os_open := filter (\<lambda>(g, _). g \<noteq> h) (os_open os)\<rparr>"

text \<open>A function that opens an endpoint gives it (\<open>Inr\<close>) or exits, and this is what it leaves (\<open>Inl\<close>).\<close>

type_synonym endpoint = "os + os \<times> int"

section \<open>Connecting\<close>

definition TCPSocket_connect :: "host_and_port \<Rightarrow> os \<Rightarrow> endpoint" where
  "TCPSocket_connect hp os =
     (let (os, r) = os_getaddrinfo (Some (hp_hostname hp)) (hp_port_str hp) True os in
      if r \<noteq> 0 then Inl os
      else let (os, com) = os_create Socket os in
      if com < 0 then Inl (os_freeaddrinfo os)
      else let (os, r) = os_on com Nodelay os in
      if r < 0 then Inl (os_close com (os_freeaddrinfo os))
      else let (os, r) = os_on com Connect os in
      if r < 0 then Inl (os_close com (os_freeaddrinfo os))
      else Inr (os_freeaddrinfo os, com))"

definition rdma_init_attr :: qp_init_attr where
  "rdma_init_attr =
     \<lparr>max_send_wr = PACKET_WINDOW_SIZE, max_recv_wr = PACKET_WINDOW_SIZE, max_send_sge = 1,
      max_recv_sge = 1, max_inline_data = 0, sq_sig_all = 1\<rparr>"

definition SendRecvSocket_connect :: "host_and_port \<Rightarrow> os \<Rightarrow> endpoint" where
  "SendRecvSocket_connect hp os =
     (let (os, r) = os_getaddrinfo (Some (hp_hostname hp)) (hp_port_str hp) False os in
      if r < 0 then Inl os
      else let (os, client_id) = os_create (Create_ep rdma_init_attr) os in
      if client_id < 0 then Inl (os_freeaddrinfo os)
      else let (os, r) = os_on client_id Connect (os_freeaddrinfo os) in
      if r < 0 then Inl (os_close client_id os)
      else Inr (os, client_id))"

definition RDMAWriteSocket_connect :: "host_and_port \<Rightarrow> os \<Rightarrow> endpoint" where
  "RDMAWriteSocket_connect hp os =
     (let (os, r) = os_getaddrinfo (Some (hp_hostname hp)) (hp_port_str hp) False os in
      if r < 0 then Inl os
      else let (os, client_id) = os_create (Create_ep rdma_init_attr) os in
      if client_id < 0 then Inl (os_freeaddrinfo os)
      else let (os, r) = os_on client_id Connect (os_freeaddrinfo os) in
      if r < 0 then Inl (os_close client_id os)
      else Inr (os, client_id))"

definition RDMAWriteImmSocket_connect :: "host_and_port \<Rightarrow> os \<Rightarrow> endpoint" where
  "RDMAWriteImmSocket_connect hp os =
     (let (os, r) = os_getaddrinfo (Some (hp_hostname hp)) (hp_port_str hp) False os in
      if r < 0 then Inl os
      else let (os, client_id) = os_create (Create_ep rdma_init_attr) os in
      if client_id < 0 then Inl (os_freeaddrinfo os)
      else let (os, r) = os_on client_id Connect (os_freeaddrinfo os) in
      if r < 0 then Inl (os_close client_id os)
      else Inr (os, client_id))"

fun socket_connect :: "socket_class \<Rightarrow> host_and_port \<Rightarrow> os \<Rightarrow> endpoint" where
  "socket_connect TCPSocket = TCPSocket_connect"
| "socket_connect SendRecvSocket = SendRecvSocket_connect"
| "socket_connect RDMAWriteSocket = RDMAWriteSocket_connect"
| "socket_connect RDMAWriteImmSocket = RDMAWriteImmSocket_connect"

section \<open>Listening\<close>

definition LISTEN_MAX :: nat where "LISTEN_MAX = 100"

definition TCPServerSocket :: "string \<Rightarrow> os \<Rightarrow> endpoint" where
  "TCPServerSocket port_str os =
     (let (os, r) = os_getaddrinfo None port_str True os in
      if r \<noteq> 0 then Inl os
      else let (os, sock) = os_create Socket os in
      if sock < 0 then Inl (os_freeaddrinfo os)
      else let (os, r) = os_on sock Reuseaddr os in
      if r < 0 then Inl (os_close sock (os_freeaddrinfo os))
      else let (os, r) = os_on sock Nodelay os in
      if r < 0 then Inl (os_close sock (os_freeaddrinfo os))
      else let (os, r) = os_on sock Bind os in
      if r < 0 then Inl (os_close sock (os_freeaddrinfo os))
      else let (os, r) = os_on sock (Listen LISTEN_MAX) (os_freeaddrinfo os) in
      if r < 0 then Inl (os_close sock os)
      else Inr (os, sock))"

definition TCPServerSocket_accept :: "int \<Rightarrow> os \<Rightarrow> endpoint" where
  "TCPServerSocket_accept sock os =
     (let (os, com) = os_create (Accept sock) os in if com < 0 then Inl os else Inr (os, com))"

definition SendRecvServerSocket :: "string \<Rightarrow> os \<Rightarrow> endpoint" where
  "SendRecvServerSocket port_str os =
     (let (os, r) = os_getaddrinfo None port_str True os in
      if r < 0 then Inl os
      else let (os, listen_id) = os_create (Create_ep rdma_init_attr) os in
      if listen_id < 0 then Inl (os_freeaddrinfo os)
      else let (os, r) = os_on listen_id (Listen LISTEN_MAX) (os_freeaddrinfo os) in
      if r < 0 then Inl (os_close listen_id os)
      else Inr (os, listen_id))"

text \<open>When \<open>rdma_accept\<close> fails the identifier that \<open>rdma_get_request\<close> gave is not destroyed.\<close>

definition SendRecvServerSocket_accept :: "int \<Rightarrow> os \<Rightarrow> endpoint" where
  "SendRecvServerSocket_accept listen_id os =
     (let (os, client_id) = os_create (Get_request listen_id) os in
      if client_id < 0 then Inl os
      else let (os, r) = os_on client_id Rdma_accept os in
      if r < 0 then Inl os else Inr (os, client_id))"

definition RDMAWriteServerSocket :: "string \<Rightarrow> os \<Rightarrow> endpoint" where
  "RDMAWriteServerSocket port_str os =
     (let (os, r) = os_getaddrinfo None port_str True os in
      if r < 0 then Inl os
      else let (os, listen_id) = os_create (Create_ep rdma_init_attr) os in
      if listen_id < 0 then Inl (os_freeaddrinfo os)
      else let (os, r) = os_on listen_id (Listen LISTEN_MAX) (os_freeaddrinfo os) in
      if r < 0 then Inl (os_close listen_id os)
      else Inr (os, listen_id))"

definition RDMAWriteServerSocket_accept :: "int \<Rightarrow> os \<Rightarrow> endpoint" where
  "RDMAWriteServerSocket_accept listen_id os =
     (let (os, client_id) = os_create (Get_request listen_id) os in
      if client_id < 0 then Inl os
      else let (os, r) = os_on client_id Rdma_accept os in
      if r < 0 then Inl os else Inr (os, client_id))"

definition RDMAWriteImmServerSocket :: "string \<Rightarrow> os \<Rightarrow> endpoint" where
  "RDMAWriteImmServerSocket port_str os =
     (let (os, r) = os_getaddrinfo None port_str True os in
      if r < 0 then Inl os
      else let (os, listen_id) = os_create (Create_ep rdma_init_attr) os in
      if listen_id < 0 then Inl (os_freeaddrinfo os)
      else let (os, r) = os_on listen_id (Listen LISTEN_MAX) (os_freeaddrinfo os) in
      if r < 0 then Inl (os_close listen_id os)
      else Inr (os, listen_id))"

definition RDMAWriteImmServerSocket_accept :: "int \<Rightarrow> os \<Rightarrow> endpoint" where
  "RDMAWriteImmServerSocket_accept listen_id os =
     (let (os, client_id) = os_create (Get_request listen_id) os in
      if client_id < 0 then Inl os
      else let (os, r) = os_on client_id Rdma_accept os in
      if r < 0 then Inl os else Inr (os, client_id))"

text \<open>Every socket class has its acceptor.\<close>

fun acceptor_new :: "socket_class \<Rightarrow> string \<Rightarrow> os \<Rightarrow> endpoint" where
  "acceptor_new TCPSocket = TCPServerSocket"
| "acceptor_new SendRecvSocket = SendRecvServerSocket"
| "acceptor_new RDMAWriteSocket = RDMAWriteServerSocket"
| "acceptor_new RDMAWriteImmSocket = RDMAWriteImmServerSocket"

fun acceptor_accept :: "socket_class \<Rightarrow> int \<Rightarrow> os \<Rightarrow> endpoint" where
  "acceptor_accept TCPSocket = TCPServerSocket_accept"
| "acceptor_accept SendRecvSocket = SendRecvServerSocket_accept"
| "acceptor_accept RDMAWriteSocket = RDMAWriteServerSocket_accept"
| "acceptor_accept RDMAWriteImmSocket = RDMAWriteImmServerSocket_accept"

section \<open>What a setup leaves\<close>

text \<open>
  The open endpoints are distinct and older than the next one, and \<open>rdma_getaddrinfo\<close> answers 0 or
  a negative number, as its manual says.
\<close>

definition os_ok :: "os \<Rightarrow> bool" where
  "os_ok os \<longleftrightarrow> distinct (map fst (os_open os)) \<and> (\<forall>(h, cs) \<in> set (os_open os). h < int (os_next os))
     \<and> (\<forall>t node service passive. os_answer os t (Getaddrinfo node service passive) \<le> 0)"

text \<open>
  \<open>leaves os calls r\<close>: a setup that exits leaves the endpoints and the address lists as they were;
  one that succeeds adds one endpoint, on which exactly \<open>calls\<close> have succeeded, in this order.
\<close>

definition leaves :: "os \<Rightarrow> os_call list \<Rightarrow> endpoint \<Rightarrow> bool" where
  "leaves os calls r \<longleftrightarrow>
     (case r of
        Inl os' \<Rightarrow> os_open os' = os_open os \<and> os_addrinfos os' = os_addrinfos os
      | Inr (os', h) \<Rightarrow> h = int (os_next os) \<and> os_open os' = (h, calls) # os_open os \<and>
          os_addrinfos os' = os_addrinfos os \<and> os_next os' = os_next os + 1 \<and> os_answer os' = os_answer os)"

lemma others_untouched:
  assumes "os_ok os"
  shows "filter (\<lambda>(g, _). g \<noteq> int (os_next os)) (os_open os) = os_open os"
    and "map (\<lambda>(g, cs). (g, if g = int (os_next os) then cs @ xs else cs)) (os_open os) = os_open os"
proof -
  have fresh: "g \<noteq> int (os_next os)" if "(g, cs) \<in> set (os_open os)" for g cs
    using assms that by (auto simp: os_ok_def)
  show "filter (\<lambda>(g, _). g \<noteq> int (os_next os)) (os_open os) = os_open os"
    using fresh by (auto simp: filter_id_conv)
  show "map (\<lambda>(g, cs). (g, if g = int (os_next os) then cs @ xs else cs)) (os_open os) = os_open os"
    by (rule map_idI) (use fresh in auto)
qed

lemmas os_defs = os_getaddrinfo_def os_freeaddrinfo_def os_create_def os_on_def os_close_def os_call_def Let_def

fun connect_calls :: "socket_class \<Rightarrow> os_call list" where
  "connect_calls TCPSocket = [Socket, Nodelay, Connect]"
| "connect_calls _ = [Create_ep rdma_init_attr, Connect]"

fun listen_calls :: "socket_class \<Rightarrow> os_call list" where
  "listen_calls TCPSocket = [Socket, Reuseaddr, Nodelay, Bind, Listen LISTEN_MAX]"
| "listen_calls _ = [Create_ep rdma_init_attr, Listen LISTEN_MAX]"

text \<open>The classes over the verbs connect, listen and accept alike.\<close>

lemma rdma_setups_alike:
  "SendRecvSocket_connect = RDMAWriteSocket_connect"
  "RDMAWriteImmSocket_connect = RDMAWriteSocket_connect"
  "SendRecvServerSocket = RDMAWriteServerSocket"
  "RDMAWriteImmServerSocket = RDMAWriteServerSocket"
  "SendRecvServerSocket_accept = RDMAWriteServerSocket_accept"
  "RDMAWriteImmServerSocket_accept = RDMAWriteServerSocket_accept"
  by (simp_all add: fun_eq_iff SendRecvSocket_connect_def RDMAWriteSocket_connect_def
      RDMAWriteImmSocket_connect_def SendRecvServerSocket_def RDMAWriteServerSocket_def
      RDMAWriteImmServerSocket_def SendRecvServerSocket_accept_def RDMAWriteServerSocket_accept_def
      RDMAWriteImmServerSocket_accept_def)

lemma getaddrinfo_answers:
  assumes "os_ok os"
  shows "\<not> os_answer os t (Getaddrinfo n s p) < 0 \<longleftrightarrow> os_answer os t (Getaddrinfo n s p) = 0"
proof -
  have "os_answer os t (Getaddrinfo n s p) \<le> 0" using assms by (simp add: os_ok_def)
  then show ?thesis by linarith
qed

lemma socket_connect_leaves:
  assumes "os_ok os"
  shows "leaves os (connect_calls c) (socket_connect c hp os)"
  using others_untouched[OF assms] getaddrinfo_answers[OF assms]
  by (cases c) (simp_all add: rdma_setups_alike leaves_def TCPSocket_connect_def RDMAWriteSocket_connect_def os_defs)

lemma acceptor_new_leaves:
  assumes "os_ok os"
  shows "leaves os (listen_calls c) (acceptor_new c port_str os)"
  using others_untouched[OF assms] getaddrinfo_answers[OF assms]
  by (cases c) (simp_all add: rdma_setups_alike leaves_def TCPServerSocket_def RDMAWriteServerSocket_def os_defs)

text \<open>An accept that fails on a verbs class leaves the endpoint of the request open.\<close>

fun accept_calls :: "socket_class \<Rightarrow> int \<Rightarrow> os_call list" where
  "accept_calls TCPSocket l = [Accept l]"
| "accept_calls _ l = [Get_request l, Rdma_accept]"

lemma TCPServerSocket_accept_leaves:
  "leaves os (accept_calls TCPSocket l) (TCPServerSocket_accept l os)"
  by (simp add: leaves_def TCPServerSocket_accept_def os_defs)

lemma acceptor_accept_leaves:
  assumes "os_ok os"
  shows "case acceptor_accept c l os of
      Inr r \<Rightarrow> leaves os (accept_calls c l) (Inr r)
    | Inl os' \<Rightarrow> os_open os' = os_open os
        \<or> c \<noteq> TCPSocket \<and> os_open os' = (int (os_next os), [Get_request l]) # os_open os"
  using others_untouched[OF assms] TCPServerSocket_accept_leaves[of os l]
  by (cases c) (simp_all add: rdma_setups_alike leaves_def RDMAWriteServerSocket_accept_def os_defs split: sum.splits prod.splits)

lemma leaves_os_ok:
  assumes "os_ok os" and "leaves os calls (Inr (os', h))"
  shows "os_ok os'"
  using assms by (fastforce simp: os_ok_def leaves_def)

section \<open>Opening many endpoints\<close>

text \<open>
  What opening one endpoint promises, for every caller that opens several of them.
\<close>

locale opener =
  fixes open_one :: "'a \<Rightarrow> os \<Rightarrow> endpoint" and calls :: "'a \<Rightarrow> os_call list"
  assumes opens: "os_ok os \<Longrightarrow> leaves os (calls x) (open_one x os)"
begin

lemma opened:
  assumes "os_ok os" and "open_one x os = Inr (os', h)"
  shows "os_ok os'" "h = int (os_next os)" "os_open os' = (h, calls x) # os_open os"
    "os_addrinfos os' = os_addrinfos os" "os_next os' = os_next os + 1"
proof -
  have l: "leaves os (calls x) (Inr (os', h))" using opens[OF assms(1), of x] by (simp add: assms(2))
  show "os_ok os'" by (rule leaves_os_ok[OF assms(1) l])
  show "h = int (os_next os)" "os_open os' = (h, calls x) # os_open os"
    "os_addrinfos os' = os_addrinfos os" "os_next os' = os_next os + 1"
    using l by (simp_all add: leaves_def)
qed

definition open_ret :: "'a \<Rightarrow> os \<Rightarrow> (os \<times> nat) outcome" where
  "open_ret x os = (case open_one x os of Inl _ \<Rightarrow> Dies Exit_failure | Inr (os, h) \<Rightarrow> Ret (os, nat h))"

lemma open_ret_Ret:
  assumes "os_ok os" and "open_ret x os = Ret (os', n)"
  shows "os_ok os'" "n = os_next os" "os_open os' = (int n, calls x) # os_open os"
    "os_addrinfos os' = os_addrinfos os" "os_next os' = os_next os + 1"
proof -
  obtain h where o: "open_one x os = Inr (os', h)" and n: "n = nat h"
    using assms(2) by (auto simp: open_ret_def split: sum.splits)
  note opened[OF assms(1) o]
  then show "os_ok os'" "n = os_next os" "os_open os' = (int n, calls x) # os_open os"
    "os_addrinfos os' = os_addrinfos os" "os_next os' = os_next os + 1"
    by (simp_all add: n)
qed

lemma open_each:
  assumes "os_ok os"
    and "fold_outcome (\<lambda>x (os, m). bind_outcome (open_ret x os) (\<lambda>(os, n). Ret (os, f x n m))) xs (os, m) = Ret (os', m')"
  shows "os_ok os'
    \<and> os_open os' = rev (map2 (\<lambda>x n. (int n, calls x)) xs [os_next os..<os_next os + length xs]) @ os_open os
    \<and> os_addrinfos os' = os_addrinfos os
    \<and> m' = fold (\<lambda>(x, n). f x n) (zip xs [os_next os..<os_next os + length xs]) m"
  using assms
proof (induction xs arbitrary: os m)
  case (Cons x xs)
  obtain os1 n where o: "open_ret x os = Ret (os1, n)"
    and rest: "fold_outcome (\<lambda>x (os, m). bind_outcome (open_ret x os) (\<lambda>(os, n). Ret (os, f x n m))) xs (os1, f x n m) = Ret (os', m')"
    using Cons.prems(2) by (auto simp: bind_outcome_Ret_iff)
  note one = open_ret_Ret[OF Cons.prems(1) o]
  have upt: "[os_next os..<Suc (os_next os + length xs)] = os_next os # [os_next os1..<os_next os1 + length xs]"
    by (subst upt_conv_Cons) (simp_all add: one(5))
  show ?case
    using Cons.IH[OF one(1) rest] by (simp add: upt one(2,3,4) del: upt.simps)
qed simp

end

interpretation client: opener "socket_connect c" "\<lambda>_. connect_calls c" for c
  by unfold_locales (rule socket_connect_leaves)

interpretation server: opener "acceptor_new c" "\<lambda>_. listen_calls c" for c
  by unfold_locales (rule acceptor_new_leaves)

definition connect_or_exit :: "socket_class \<Rightarrow> host_and_port \<Rightarrow> os \<Rightarrow> (os \<times> nat) outcome" where
  "connect_or_exit c hp os =
     (case socket_connect c hp os of Inl _ \<Rightarrow> Dies Exit_failure | Inr (os, h) \<Rightarrow> Ret (os, nat h))"

lemma connect_or_exit_open_ret: "connect_or_exit c = client.open_ret c"
  by (simp add: fun_eq_iff connect_or_exit_def client.open_ret_def)

lemma connect_all_opens:
  assumes "os_ok os" and "ConnectionPool_connect_all connect_or_exit cfg (os, cp) = Ret (os', cp')"
  shows "os_ok os'"
    "os_open os' = rev (map (\<lambda>n. (int n, connect_calls (socket_class_of (cfg_com_type cfg))))
       [os_next os..<os_next os + length (cfg_server_list cfg)]) @ os_open os"
    "os_addrinfos os' = os_addrinfos os"
    "cp' = fold (\<lambda>(hp, n) cp. cp\<lparr>connections := cmap_assign (connections cp) hp n\<rparr>)
       (zip (cfg_server_list cfg) [os_next os..<os_next os + length (cfg_server_list cfg)]) cp"
proof -
  have map2: "map2 (\<lambda>x n. g n) xs ns = map g ns" if "length xs = length ns" for g :: "nat \<Rightarrow> int \<times> os_call list" and xs :: "host_and_port list" and ns
    using that by (induction xs ns rule: list_induct2) auto
  note e = client.open_each[OF assms(1), of _ "\<lambda>hp n cp. cp\<lparr>connections := cmap_assign (connections cp) hp n\<rparr>"]
  show "os_ok os'"
    "os_open os' = rev (map (\<lambda>n. (int n, connect_calls (socket_class_of (cfg_com_type cfg))))
       [os_next os..<os_next os + length (cfg_server_list cfg)]) @ os_open os"
    "os_addrinfos os' = os_addrinfos os"
    "cp' = fold (\<lambda>(hp, n) cp. cp\<lparr>connections := cmap_assign (connections cp) hp n\<rparr>)
       (zip (cfg_server_list cfg) [os_next os..<os_next os + length (cfg_server_list cfg)]) cp"
    using e[OF assms(2)[unfolded ConnectionPool_connect_all_def connect_or_exit_open_ret]]
    by (simp_all add: map2)
qed

end
