(* ===== verification/Cmdline.thy ===== *)
theory Cmdline
  imports Prelude
begin

text \<open>
  The option parser of the programs (\<open>include/common/util/cmdline.h\<close>, which the YCSB copy has word for
  word as \<open>include/config/cmdline.h\<close>), with its templates at the two types that options have here,
  \<open>std::string\<close> and \<open>int\<close>.  An argument of \<open>main\<close> is the list of its characters up to the NUL.
\<close>

section \<open>What may happen instead of returning\<close>

text \<open>An exception that leaves the parser, \<open>exit\<close> with what was printed before, or a null pointer.\<close>

datatype stop = Throws string | Exits int string | Null_option

section \<open>Reading values\<close>

datatype opt_value = Text string | Number int

datatype read_error = Bad_cast | Cmdline_error string

text \<open>
  \<open>>>\<close> into an \<open>int\<close>: spaces, a sign, digits.  It fails without digits or when the number does not fit.
  The second component is what is left in the stream.
\<close>

definition istream_int :: "string \<Rightarrow> int option \<times> string" where
  "istream_int s =
     (let s = skip_space s;
          neg = (s \<noteq> [] \<and> hd s = CHR ''-'');
          s = (if s \<noteq> [] \<and> (hd s = CHR ''-'' \<or> hd s = CHR ''+'') then tl s else s);
          digits = takeWhile is_digit s;
          i = (if neg then - int (dec_val digits) else int (dec_val digits))
      in (if digits = [] \<or> i < - (2 ^ 31) \<or> 2 ^ 31 \<le> i then None else Some i, dropWhile is_digit s))"

definition lexical_cast_int :: "string \<Rightarrow> read_error + int" where
  "lexical_cast_int arg =
     (case istream_int arg of
        (Some i, []) \<Rightarrow> Inr i
      | _ \<Rightarrow> Inl Bad_cast)"

text \<open>The type of an option is the one of its default value.\<close>

fun default_reader :: "opt_value \<Rightarrow> string \<Rightarrow> read_error + opt_value" where
  "default_reader (Text _) s = Inr (Text s)"
| "default_reader (Number _) s = bind_sum (lexical_cast_int s) (\<lambda>i. Inr (Number i))"

datatype reader = Default_reader | Range_reader opt_value opt_value | Oneof_reader "opt_value list"

fun value_le :: "opt_value \<Rightarrow> opt_value \<Rightarrow> bool" where
  "value_le (Text a) (Text b) \<longleftrightarrow> a \<le> b"
| "value_le (Number a) (Number b) \<longleftrightarrow> a \<le> b"
| "value_le _ _ \<longleftrightarrow> False"

definition range_reader :: "opt_value \<Rightarrow> opt_value \<Rightarrow> opt_value \<Rightarrow> string \<Rightarrow> read_error + opt_value" where
  "range_reader low high def s =
     bind_sum (default_reader def s) (\<lambda>ret.
       if value_le low ret \<and> value_le ret high then Inr ret else Inl (Cmdline_error ''range_error''))"

definition oneof_reader :: "opt_value list \<Rightarrow> opt_value \<Rightarrow> string \<Rightarrow> read_error + opt_value" where
  "oneof_reader alt def s =
     bind_sum (default_reader def s) (\<lambda>ret. if ret \<in> set alt then Inr ret else Inl (Cmdline_error []))"

fun option_read :: "reader \<Rightarrow> opt_value \<Rightarrow> string \<Rightarrow> read_error + opt_value" where
  "option_read Default_reader def s = default_reader def s"
| "option_read (Range_reader low high) def s = range_reader low high def s"
| "option_read (Oneof_reader alt) def s = oneof_reader alt def s"

text \<open>\<open>typeid(int).name()\<close> demangles to \<open>int\<close>; \<open>std::string\<close> has a specialisation.\<close>

fun readable_typename :: "opt_value \<Rightarrow> string" where
  "readable_typename (Text _) = ''string''"
| "readable_typename (Number _) = ''int''"

fun default_value :: "opt_value \<Rightarrow> string" where
  "default_value (Text s) = s"
| "default_value (Number i) = to_string_int i"

section \<open>Options\<close>

datatype option_base =
    Option_without_value (opt_name: string) (opt_short: char) (opt_desc: string) (opt_has: bool)
  | Option_with_value (opt_name: string) (opt_short: char) (opt_need: bool) (opt_desc: string)
      (opt_has: bool) (opt_def: opt_value) (opt_actual: opt_value) (opt_reader: reader)

definition full_description :: "string \<Rightarrow> bool \<Rightarrow> opt_value \<Rightarrow> string" where
  "full_description desc need def =
     desc @ '' ('' @ readable_typename def @ (if need then [] else '' [='' @ default_value def @ '']'') @ '')''"

definition option_without_value :: "string \<Rightarrow> char \<Rightarrow> string \<Rightarrow> option_base" where
  "option_without_value name short_name desc = Option_without_value name short_name desc False"

definition option_with_value_with_reader ::
    "string \<Rightarrow> char \<Rightarrow> bool \<Rightarrow> opt_value \<Rightarrow> string \<Rightarrow> reader \<Rightarrow> option_base" where
  "option_with_value_with_reader name short_name need def desc rd =
     Option_with_value name short_name need (full_description desc need def) False def def rd"

fun option_has_value :: "option_base \<Rightarrow> bool" where
  "option_has_value (Option_without_value _ _ _ _) \<longleftrightarrow> False"
| "option_has_value (Option_with_value _ _ _ _ _ _ _ _) \<longleftrightarrow> True"

text \<open>\<open>set()\<close> and \<open>set(value)\<close>: the option afterwards and whether it took the value.\<close>

fun option_set :: "option_base \<Rightarrow> option_base \<times> bool" where
  "option_set (Option_without_value name short_name desc has) = (Option_without_value name short_name desc True, True)"
| "option_set (Option_with_value name short_name need desc has def actual rd) =
     (Option_with_value name short_name need desc has def actual rd, False)"

fun option_set_value :: "string \<Rightarrow> option_base \<Rightarrow> option_base \<times> bool" where
  "option_set_value val (Option_without_value name short_name desc has) =
     (Option_without_value name short_name desc has, False)"
| "option_set_value val (Option_with_value name short_name need desc has def actual rd) =
     (case option_read rd def val of
        Inr actual \<Rightarrow> (Option_with_value name short_name need desc True def actual rd, True)
      | Inl e \<Rightarrow> (Option_with_value name short_name need desc has def actual rd, False))"

fun option_valid :: "option_base \<Rightarrow> bool" where
  "option_valid (Option_without_value _ _ _ _) \<longleftrightarrow> True"
| "option_valid (Option_with_value _ _ need _ has _ _ _) \<longleftrightarrow> \<not> (need \<and> \<not> has)"

fun option_must :: "option_base \<Rightarrow> bool" where
  "option_must (Option_without_value _ _ _ _) \<longleftrightarrow> False"
| "option_must (Option_with_value _ _ need _ _ _ _ _) \<longleftrightarrow> need"

fun short_description :: "option_base \<Rightarrow> string" where
  "short_description (Option_without_value name _ _ _) = ''--'' @ name"
| "short_description (Option_with_value name _ _ _ _ def _ _) = ''--'' @ name @ ''='' @ readable_typename def"

section \<open>The parser\<close>

text \<open>\<open>ordered\<close> holds pointers to the objects of \<open>options\<close>; here it holds their names.\<close>

record parser =
  pr_options :: "(string, option_base) smap"
  pr_ordered :: "string list"
  pr_ftr :: string
  pr_prog_name :: string
  pr_others :: "string list"
  pr_errors :: "string list"

definition parser_new :: parser where
  "parser_new = \<lparr>pr_options = [], pr_ordered = [], pr_ftr = [], pr_prog_name = [], pr_others = [], pr_errors = []\<rparr>"

definition pr_option :: "parser \<Rightarrow> string \<Rightarrow> option_base option" where
  "pr_option p = map_of (pr_options p)"

definition parser_add_option :: "string \<Rightarrow> option_base \<Rightarrow> parser \<Rightarrow> stop + parser" where
  "parser_add_option name opt p =
     (if pr_option p name \<noteq> None then Inl (Throws (''multiple definition: '' @ name))
      else Inr (p\<lparr>pr_options := smap_put name opt (pr_options p), pr_ordered := pr_ordered p @ [name]\<rparr>))"

definition parser_add_flag :: "string \<Rightarrow> char \<Rightarrow> string \<Rightarrow> parser \<Rightarrow> stop + parser" where
  "parser_add_flag name short_name desc = parser_add_option name (option_without_value name short_name desc)"

definition parser_add_reader ::
    "string \<Rightarrow> char \<Rightarrow> string \<Rightarrow> bool \<Rightarrow> opt_value \<Rightarrow> reader \<Rightarrow> parser \<Rightarrow> stop + parser" where
  "parser_add_reader name short_name desc need def rd =
     parser_add_option name (option_with_value_with_reader name short_name need def desc rd)"

definition parser_add :: "string \<Rightarrow> char \<Rightarrow> string \<Rightarrow> bool \<Rightarrow> opt_value \<Rightarrow> parser \<Rightarrow> stop + parser" where
  "parser_add name short_name desc need def = parser_add_reader name short_name desc need def Default_reader"

definition parser_footer :: "string \<Rightarrow> parser \<Rightarrow> parser" where
  "parser_footer f p = p\<lparr>pr_ftr := f\<rparr>"

definition parser_set_program_name :: "string \<Rightarrow> parser \<Rightarrow> parser" where
  "parser_set_program_name name p = p\<lparr>pr_prog_name := name\<rparr>"

definition parser_exist :: "string \<Rightarrow> parser \<Rightarrow> stop + bool" where
  "parser_exist name p =
     (case pr_option p name of
        None \<Rightarrow> Inl (Throws (''there is no flag: --'' @ name))
      | Some opt \<Rightarrow> Inr (opt_has opt))"

definition type_mismatch :: "string \<Rightarrow> stop" where
  "type_mismatch name = Throws (''type mismatch flag '' @ [CHR 0x27] @ name @ [CHR 0x27])"

definition parser_get_text :: "string \<Rightarrow> parser \<Rightarrow> stop + string" where
  "parser_get_text name p =
     (case pr_option p name of
        None \<Rightarrow> Inl (Throws (''there is no flag: --'' @ name))
      | Some (Option_with_value _ _ _ _ _ _ (Text s) _) \<Rightarrow> Inr s
      | Some _ \<Rightarrow> Inl (type_mismatch name))"

definition parser_get_number :: "string \<Rightarrow> parser \<Rightarrow> stop + int" where
  "parser_get_number name p =
     (case pr_option p name of
        None \<Rightarrow> Inl (Throws (''there is no flag: --'' @ name))
      | Some (Option_with_value _ _ _ _ _ _ (Number i) _) \<Rightarrow> Inr i
      | Some _ \<Rightarrow> Inl (type_mismatch name))"

definition parser_rest :: "parser \<Rightarrow> string list" where
  "parser_rest p = pr_others p"

definition push_error :: "string \<Rightarrow> parser \<Rightarrow> parser" where
  "push_error e p = p\<lparr>pr_errors := pr_errors p @ [e]\<rparr>"

definition parser_set_option :: "string \<Rightarrow> parser \<Rightarrow> parser" where
  "parser_set_option name p =
     (case pr_option p name of
        None \<Rightarrow> push_error (''undefined option: --'' @ name) p
      | Some opt \<Rightarrow>
          (let (opt, ok) = option_set opt; p = p\<lparr>pr_options := smap_put name opt (pr_options p)\<rparr>
           in if ok then p else push_error (''option needs value: --'' @ name) p))"

definition parser_set_option_value :: "string \<Rightarrow> string \<Rightarrow> parser \<Rightarrow> parser" where
  "parser_set_option_value name val p =
     (case pr_option p name of
        None \<Rightarrow> push_error (''undefined option: --'' @ name) p
      | Some opt \<Rightarrow>
          (let (opt, ok) = option_set_value val opt; p = p\<lparr>pr_options := smap_put name opt (pr_options p)\<rparr>
           in if ok then p else push_error (''option value is invalid: --'' @ name @ ''='' @ val) p))"

section \<open>Parsing\<close>

text \<open>The table of short names: the error when two options have the same one.\<close>

fun short_names :: "(string \<times> option_base) list \<Rightarrow> (char \<rightharpoonup> string) \<Rightarrow> string + (char \<rightharpoonup> string)" where
  "short_names [] lookup = Inr lookup"
| "short_names ((name, opt) # opts) lookup =
     (let initial = opt_short opt in
      if name = [] \<or> initial = NUL then short_names opts lookup
      else if lookup initial \<noteq> None
      then Inl (''short option '' @ [CHR 0x27, initial, CHR 0x27] @ '' is ambiguous'')
      else short_names opts (lookup(initial \<mapsto> name)))"

text \<open>A letter that is not the last one of its cluster.\<close>

definition parse_letter :: "(char \<rightharpoonup> string) \<Rightarrow> char \<Rightarrow> parser \<Rightarrow> parser" where
  "parse_letter lookup c p =
     (case lookup c of
        None \<Rightarrow> push_error (''undefined short option: -'' @ [c]) p
      | Some name \<Rightarrow>
          if name = [] then push_error (''ambiguous short option: -'' @ [c]) p else parser_set_option name p)"

text \<open>
  The body of the loop over \<open>argv\<close>: the argument, the ones after it, and the state; it answers the state
  and the arguments that are left.
\<close>

definition parse_long :: "string \<Rightarrow> string list \<Rightarrow> parser \<Rightarrow> parser \<times> string list" where
  "parse_long arg args p =
     (if CHR ''='' \<in> set arg
      then (parser_set_option_value (takeWhile (\<lambda>c. c \<noteq> CHR ''='') arg) (tl (dropWhile (\<lambda>c. c \<noteq> CHR ''='') arg)) p, args)
      else case pr_option p arg of
        None \<Rightarrow> (push_error (''undefined option: --'' @ arg) p, args)
      | Some opt \<Rightarrow>
          if option_has_value opt
          then (case args of
                  [] \<Rightarrow> (push_error (''option needs value: --'' @ arg) p, [])
                | val # args \<Rightarrow> (parser_set_option_value arg val p, args))
          else (parser_set_option arg p, args))"

definition parse_short :: "(char \<rightharpoonup> string) \<Rightarrow> string \<Rightarrow> string list \<Rightarrow> parser \<Rightarrow> stop + parser \<times> string list" where
  "parse_short lookup arg args p =
     (if arg = [] then Inr (p, args)
      else let p = fold (parse_letter lookup) (butlast arg) p in
      case lookup (last arg) of
        None \<Rightarrow> Inr (push_error (''undefined short option: -'' @ [last arg]) p, args)
      | Some name \<Rightarrow>
          if name = [] then Inr (push_error (''ambiguous short option: -'' @ [last arg]) p, args)
          else (case args of
                  [] \<Rightarrow> Inr (parser_set_option name p, [])
                | val # rest \<Rightarrow>
                    (case pr_option p name of
                       None \<Rightarrow> Inl Null_option
                     | Some opt \<Rightarrow>
                         if option_has_value opt then Inr (parser_set_option_value name val p, rest)
                         else Inr (parser_set_option name p, args))))"

definition parse_arg :: "(char \<rightharpoonup> string) \<Rightarrow> string \<Rightarrow> string list \<Rightarrow> parser \<Rightarrow> stop + parser \<times> string list" where
  "parse_arg lookup arg args p =
     (if take 2 arg = ''--'' then Inr (parse_long (drop 2 arg) args p)
      else if take 1 arg = ''-'' then parse_short lookup (drop 1 arg) args p
      else Inr (p\<lparr>pr_others := pr_others p @ [arg]\<rparr>, args))"

lemma parse_arg_consumes: "parse_arg lookup arg args p = Inr (p', rest) \<Longrightarrow> length rest \<le> length args"
  by (auto simp: parse_arg_def parse_long_def parse_short_def Let_def split: if_splits option.splits list.splits)

function parse_args :: "(char \<rightharpoonup> string) \<Rightarrow> string list \<Rightarrow> parser \<Rightarrow> stop + parser" where
  "parse_args lookup [] p = Inr p"
| "parse_args lookup (arg # args) p =
     (case parse_arg lookup arg args p of
        Inl e \<Rightarrow> Inl e
      | Inr (p, rest) \<Rightarrow> parse_args lookup rest p)"
  by pat_completeness auto
termination
  by (relation "measure (\<lambda>(_, args, _). length args)") (auto dest: parse_arg_consumes)

text \<open>The options that are needed and were not set.\<close>

definition need_options :: "parser \<Rightarrow> parser" where
  "need_options p =
     fold (\<lambda>(name, opt) p. if option_valid opt then p else push_error (''need option: --'' @ name) p) (pr_options p) p"

definition parser_parse :: "string list \<Rightarrow> parser \<Rightarrow> stop + parser \<times> bool" where
  "parser_parse argv p =
     (let p = p\<lparr>pr_errors := [], pr_others := []\<rparr> in
      case argv of
        [] \<Rightarrow> Inr (push_error ''argument number must be longer than 0'' p, False)
      | prog # args \<Rightarrow>
          (let p = (if pr_prog_name p = [] then p\<lparr>pr_prog_name := prog\<rparr> else p) in
           case short_names (pr_options p) Map.empty of
             Inl e \<Rightarrow> Inr (push_error e p, False)
           | Inr lookup \<Rightarrow>
               bind_sum (parse_args lookup args p) (\<lambda>p.
                 let p = need_options p in Inr (p, pr_errors p = []))))"

text \<open>\<open>parse\<close> on a vector of strings: \<open>c_str\<close> ends at the first NUL.\<close>

definition parser_parse_strings :: "string list \<Rightarrow> parser \<Rightarrow> stop + parser \<times> bool" where
  "parser_parse_strings args = parser_parse (map until_NUL args)"

text \<open>\<open>parse\<close> on one string: spaces separate arguments, quotes keep them, a backslash takes the next character.\<close>

fun split_args :: "string \<Rightarrow> string \<Rightarrow> bool \<Rightarrow> string list \<Rightarrow> string + string list" where
  "split_args [] buf in_quote args =
     (if in_quote then Inl ''quote is not closed'' else Inr (if buf \<noteq> [] then args @ [buf] else args))"
| "split_args (c # arg) buf in_quote args =
     (if c = CHR 0x22 then split_args arg buf (\<not> in_quote) args
      else if c = CHR '' '' \<and> \<not> in_quote then split_args arg [] in_quote (args @ [buf])
      else if c = CHR 0x5C
      then (case arg of
              [] \<Rightarrow> Inl (''unexpected occurrence of '' @ [CHR 0x27, CHR 0x5C, CHR 0x27] @ '' at end of string'')
            | d # arg \<Rightarrow> split_args arg (buf @ [d]) in_quote args)
      else split_args arg (buf @ [c]) in_quote args)"

definition parser_parse_line :: "string \<Rightarrow> parser \<Rightarrow> stop + parser \<times> bool" where
  "parser_parse_line arg p =
     (case split_args arg [] False [] of
        Inl e \<Rightarrow> Inr (push_error e p, False)
      | Inr args \<Rightarrow> parser_parse_strings args p)"

section \<open>Messages\<close>

definition parser_error :: "parser \<Rightarrow> string" where
  "parser_error p = (case pr_errors p of [] \<Rightarrow> [] | e # _ \<Rightarrow> e)"

definition parser_error_full :: "parser \<Rightarrow> string" where
  "parser_error_full p = concat (map (\<lambda>e. e @ [CHR 0x0A]) (pr_errors p))"

definition ordered_options :: "parser \<Rightarrow> option_base list" where
  "ordered_options p = map (\<lambda>name. the (pr_option p name)) (pr_ordered p)"

definition max_width :: "parser \<Rightarrow> nat" where
  "max_width p = fold (\<lambda>opt w. max w (length (opt_name opt))) (ordered_options p) 0"

definition usage_line :: "nat \<Rightarrow> option_base \<Rightarrow> string" where
  "usage_line width opt =
     (if opt_short opt \<noteq> NUL then ''  -'' @ [opt_short opt] @ '', '' else ''      '') @
     ''--'' @ opt_name opt @ replicate (width + 4 - length (opt_name opt)) (CHR '' '') @ opt_desc opt @ [CHR 0x0A]"

definition parser_usage :: "parser \<Rightarrow> string" where
  "parser_usage p =
     ''usage: '' @ pr_prog_name p @ '' '' @
     concat (map (\<lambda>opt. if option_must opt then short_description opt @ '' '' else []) (ordered_options p)) @
     ''[options] ... '' @ pr_ftr p @ [CHR 0x0A] @ ''options:'' @ [CHR 0x0A] @
     concat (map (usage_line (max_width p)) (ordered_options p))"

section \<open>Parsing or leaving the process\<close>

definition parser_check :: "nat \<Rightarrow> parser \<times> bool \<Rightarrow> stop + parser" where
  "parser_check argc pok =
     (let (p, ok) = pok in
      if argc = 1 \<and> \<not> ok then Inl (Exits 0 (parser_usage p))
      else bind_sum (parser_exist ''help'' p) (\<lambda>help.
        if help then Inl (Exits 0 (parser_usage p))
        else if \<not> ok then Inl (Exits 1 (parser_error p @ [CHR 0x0A] @ parser_usage p))
        else Inr p))"

definition add_help :: "parser \<Rightarrow> stop + parser" where
  "add_help p =
     (if pr_option p ''help'' = None then parser_add_flag ''help'' (CHR ''?'') ''print this message'' p else Inr p)"

definition parse_check :: "string list \<Rightarrow> parser \<Rightarrow> stop + parser" where
  "parse_check argv p =
     bind_sum (add_help p) (\<lambda>p. bind_sum (parser_parse argv p) (parser_check (length argv)))"

definition parse_check_strings :: "string list \<Rightarrow> parser \<Rightarrow> stop + parser" where
  "parse_check_strings args p =
     bind_sum (add_help p) (\<lambda>p. bind_sum (parser_parse_strings args p) (parser_check (length args)))"

definition parse_check_line :: "string \<Rightarrow> parser \<Rightarrow> stop + parser" where
  "parse_check_line arg p =
     bind_sum (add_help p) (\<lambda>p. bind_sum (parser_parse_line arg p) (parser_check 0))"

end
