(* ===== verification/Loggers.thy ===== *)
theory Loggers
  imports Connections
begin

text \<open>
  The registry of loggers (\<open>spdlog/details/registry.h\<close>) and the loggers that the program makes: every
  object has one, under a name that must not be taken, and only sockets give theirs back.  What a logger
  prints, and how, is left out.
\<close>

section \<open>Levels and loggers\<close>

datatype level = Trace | Debug | Info | Warn | Err | Critical | Off

fun level_num :: "level \<Rightarrow> nat" where
  "level_num Trace = 0"
| "level_num Debug = 1"
| "level_num Info = 2"
| "level_num Warn = 3"
| "level_num Err = 4"
| "level_num Critical = 5"
| "level_num Off = 6"

record logger =
  lg_name :: string
  lg_level :: level

definition logger_new :: "string \<Rightarrow> logger" where
  "logger_new name = \<lparr>lg_name = name, lg_level = Info\<rparr>"

definition logger_set_level :: "level \<Rightarrow> logger \<Rightarrow> logger" where
  "logger_set_level lvl l = l\<lparr>lg_level := lvl\<rparr>"

definition logger_should_log :: "level \<Rightarrow> logger \<Rightarrow> bool" where
  "logger_should_log lvl l \<longleftrightarrow> level_num (lg_level l) \<le> level_num lvl"

section \<open>The registry\<close>

record registry =
  rg_loggers :: "string \<rightharpoonup> logger"
  rg_level :: level

definition registry_new :: registry where
  "registry_new = \<lparr>rg_loggers = Map.empty, rg_level = Info\<rparr>"

datatype spdlog_ex = spdlog_ex string

definition throw_if_exists :: "string \<Rightarrow> registry \<Rightarrow> spdlog_ex + unit" where
  "throw_if_exists name r =
     (if rg_loggers r name \<noteq> None
      then Inl (spdlog_ex (''logger with name '' @ [CHR 0x27] @ name @ [CHR 0x27] @ '' already exists''))
      else Inr ())"

definition register_logger :: "logger \<Rightarrow> registry \<Rightarrow> spdlog_ex + registry" where
  "register_logger l r =
     bind_sum (throw_if_exists (lg_name l) r) (\<lambda>_. Inr (r\<lparr>rg_loggers := (rg_loggers r)(lg_name l \<mapsto> l)\<rparr>))"

definition registry_get :: "string \<Rightarrow> registry \<Rightarrow> logger option" where
  "registry_get name r = rg_loggers r name"

definition registry_create :: "string \<Rightarrow> registry \<Rightarrow> spdlog_ex + registry \<times> logger" where
  "registry_create name r =
     bind_sum (throw_if_exists name r) (\<lambda>_.
       let l = logger_set_level (rg_level r) (logger_new name)
       in Inr (r\<lparr>rg_loggers := (rg_loggers r)(name \<mapsto> l)\<rparr>, l))"

definition registry_apply_all :: "(logger \<Rightarrow> logger) \<Rightarrow> registry \<Rightarrow> registry" where
  "registry_apply_all f r = r\<lparr>rg_loggers := (\<lambda>name. map_option f (rg_loggers r name))\<rparr>"

definition registry_drop :: "string \<Rightarrow> registry \<Rightarrow> registry" where
  "registry_drop name r = r\<lparr>rg_loggers := (rg_loggers r)(name := None)\<rparr>"

definition registry_drop_all :: "registry \<Rightarrow> registry" where
  "registry_drop_all r = r\<lparr>rg_loggers := Map.empty\<rparr>"

definition registry_set_level :: "level \<Rightarrow> registry \<Rightarrow> registry" where
  "registry_set_level lvl r = (registry_apply_all (logger_set_level lvl) r)\<lparr>rg_level := lvl\<rparr>"

text \<open>\<open>spdlog::stdout_logger_mt\<close>, where no constructor of the program catches what it throws.\<close>

definition stdout_logger_mt :: "string \<Rightarrow> registry \<Rightarrow> registry outcome" where
  "stdout_logger_mt name r =
     (case registry_create name r of
        Inl e \<Rightarrow> Dies Uncaught_exception
      | Inr (r, l) \<Rightarrow> Ret r)"

definition stdout_loggers :: "string list \<Rightarrow> registry \<Rightarrow> registry outcome" where
  "stdout_loggers = fold_outcome stdout_logger_mt"

section \<open>The names\<close>

text \<open>Before \<open>main\<close>, the static members.\<close>

definition class_loggers :: "string list" where
  "class_loggers = [''Buffer'', ''SendRecvSocket'', ''RDMAWriteSocket'', ''RDMAWriteImmSocket'', ''TCPSocket'']"

fun acceptor_logger :: "com_type \<Rightarrow> string" where
  "acceptor_logger TCP = ''TCPServerSocket''"
| "acceptor_logger IPoIB = ''TCPServerSocket''"
| "acceptor_logger SEND_RECV = ''SendRecvServerSocket''"
| "acceptor_logger RDMA_WRITE = ''RDMAWriteServerSocket''"
| "acceptor_logger RDMA_WRITE_IMM = ''RDMAWriteImmServerSocket''"

text \<open>\<open>main\<close>, its acceptor, and the server with its table and the cache in it.\<close>

definition server_loggers :: "com_type \<Rightarrow> string list" where
  "server_loggers com = class_loggers @ [''main'', acceptor_logger com, ''CommittedItemsCache'', ''Table'', ''Server'']"

definition numbered :: "string \<Rightarrow> int \<Rightarrow> string" where
  "numbered name i = name @ ''-'' @ to_string_int i"

fun executor_loggers :: "trx_type \<Rightarrow> int \<Rightarrow> string list" where
  "executor_loggers TWO_PHASE_LOCKING i = [numbered ''LockBasedExecutor'' i]"
| "executor_loggers NO_CONCURRENCY_CONTROL i = [numbered ''NoCCExecutor'' i]"
| "executor_loggers RAMP_FAST i = [numbered ''RAMPFastExecutor'' i]"
| "executor_loggers AC_RAMP_FAST i = [numbered ''RAMPFastExecutor'' i, numbered ''ACRAMPFastExecutor'' i]"

fun handler_loggers :: "trx_type \<Rightarrow> int \<Rightarrow> string list" where
  "handler_loggers TWO_PHASE_LOCKING i = [numbered ''LockBasedHandler'' i]"
| "handler_loggers NO_CONCURRENCY_CONTROL i = [numbered ''NoCCHandler'' i]"
| "handler_loggers RAMP_FAST i = [numbered ''RAMPFastHandler'' i]"
| "handler_loggers AC_RAMP_FAST i = [numbered ''RAMPFastHandler'' i]"

definition client_loggers :: "trx_type \<Rightarrow> nat \<Rightarrow> string list" where
  "client_loggers tt worker_num =
     class_loggers @ [''main'', ''Client''] @ concat (map (\<lambda>i. handler_loggers tt (int i)) [0..<worker_num])"

text \<open>
  A socket is named after what the system counts: the descriptor, or the number of the queue pair.
  \<open>socket_teardown\<close> is the order in which its destructor gives back the number and the name; between the
  two other threads may run.
\<close>

fun is_tcp :: "com_type \<Rightarrow> bool" where
  "is_tcp TCP = True"
| "is_tcp IPoIB = True"
| "is_tcp _ = False"

definition socket_logger :: "com_type \<Rightarrow> nat \<Rightarrow> string" where
  "socket_logger com h = numbered (if is_tcp com then ''TCPSocket'' else ''SendRecvSocket'') (int h)"

datatype teardown = Release_number | Drop_logger

definition TCPSocket_teardown :: "teardown list" where
  "TCPSocket_teardown = [Release_number, Drop_logger]"

definition SendRecvSocket_teardown :: "teardown list" where
  "SendRecvSocket_teardown = [Drop_logger, Release_number]"

definition socket_teardown :: "com_type \<Rightarrow> teardown list" where
  "socket_teardown com = (if is_tcp com then TCPSocket_teardown else SendRecvSocket_teardown)"

section \<open>The accept loop of the server\<close>

datatype accept_state = Accepting | Accepted nat | Connected nat

datatype thread_state = Serving nat | Deleting nat "teardown list"

text \<open>\<open>ac_numbers\<close> are the descriptors or queue pairs that are in use.\<close>

record accept_loop =
  ac_registry :: registry
  ac_numbers :: "nat set"
  ac_state :: accept_state
  ac_id :: int
  ac_threads :: "thread_state list"

definition tear_down :: "com_type \<Rightarrow> nat \<Rightarrow> teardown \<Rightarrow> accept_loop \<Rightarrow> accept_loop" where
  "tear_down com h a st =
     (case a of
        Release_number \<Rightarrow> st\<lparr>ac_numbers := ac_numbers st - {h}\<rparr>
      | Drop_logger \<Rightarrow> st\<lparr>ac_registry := registry_drop (socket_logger com h) (ac_registry st)\<rparr>)"

text \<open>
  The main thread accepts (the system gives out the lowest free descriptor, and any free queue pair),
  makes the socket, makes the executor and starts its thread; a thread whose client is gone deletes its
  socket in steps.
\<close>

inductive accept_step :: "trx_type \<Rightarrow> com_type \<Rightarrow> accept_loop \<Rightarrow> accept_loop outcome \<Rightarrow> bool"
  for tt com where
  loop_accept: "ac_state st = Accepting \<Longrightarrow> h \<notin> ac_numbers st \<Longrightarrow> (is_tcp com \<Longrightarrow> {..<h} \<subseteq> ac_numbers st) \<Longrightarrow>
    accept_step tt com st (Ret (st\<lparr>ac_state := Accepted h, ac_numbers := insert h (ac_numbers st)\<rparr>))"
| loop_socket: "ac_state st = Accepted h \<Longrightarrow>
    accept_step tt com st (bind_outcome (stdout_logger_mt (socket_logger com h) (ac_registry st)) (\<lambda>r.
      Ret (st\<lparr>ac_registry := r, ac_state := Connected h\<rparr>)))"
| loop_executor: "ac_state st = Connected h \<Longrightarrow>
    accept_step tt com st (bind_outcome (stdout_loggers (executor_loggers tt (ac_id st)) (ac_registry st)) (\<lambda>r.
      Ret (st\<lparr>ac_registry := r, ac_state := Accepting, ac_id := ac_id st + 1, ac_threads := ac_threads st @ [Serving h]\<rparr>)))"
| loop_close: "i < length (ac_threads st) \<Longrightarrow> ac_threads st ! i = Serving h \<Longrightarrow>
    accept_step tt com st (Ret (st\<lparr>ac_threads := (ac_threads st)[i := Deleting h (socket_teardown com)]\<rparr>))"
| loop_delete: "i < length (ac_threads st) \<Longrightarrow> ac_threads st ! i = Deleting h (a # as) \<Longrightarrow>
    accept_step tt com st (Ret ((tear_down com h a st)\<lparr>ac_threads := (ac_threads st)[i := Deleting h as]\<rparr>))"

definition accept_moves :: "trx_type \<Rightarrow> com_type \<Rightarrow> accept_loop \<Rightarrow> accept_loop \<Rightarrow> bool" where
  "accept_moves tt com st st' \<longleftrightarrow> accept_step tt com st (Ret st')"

definition accept_start :: "com_type \<Rightarrow> nat set \<Rightarrow> accept_loop outcome" where
  "accept_start com numbers =
     bind_outcome (stdout_loggers (server_loggers com) registry_new) (\<lambda>r.
       Ret \<lparr>ac_registry = r, ac_numbers = numbers, ac_state = Accepting, ac_id = 0, ac_threads = []\<rparr>)"

end
