(* ===== verification/Mains.thy ===== *)
theory Mains
  imports Setup Cmdline Loggers
begin

text \<open>
  The command line programs before they start their threads: \<open>Config::read_server_list\<close>
  (\<open>src/common/util/Config.cpp\<close>), \<open>src/server/main.cpp\<close> and \<open>src/client/main.cpp\<close>, on the values that
  the option parser gives.
\<close>

section \<open>The server list\<close>

text \<open>
  \<open>%s\<close> on input that starts with a word: the word and a NUL go to the start of the array, whatever
  the size of the array is.
\<close>

definition scan_word :: "string \<Rightarrow> string \<Rightarrow> (string \<times> string) outcome" where
  "scan_word arr inp =
     (let word = takeWhile (\<lambda>c. \<not> is_space c) inp in
      if length word < length arr
      then Ret (word @ NUL # drop (length word + 1) arr, dropWhile (\<lambda>c. \<not> is_space c) inp)
      else Dies Out_of_bounds)"

text \<open>
  One \<open>fscanf\<close> with \<open>%s %s\n\<close>: \<open>None\<close> when it answers \<open>EOF\<close>.  When only the second word is missing it
  answers 1, which is not \<open>EOF\<close>, and \<open>port_str\<close> keeps what it had.
\<close>

definition fscanf_host_port :: "string \<Rightarrow> string \<Rightarrow> string \<Rightarrow> (string \<times> string \<times> string) option outcome" where
  "fscanf_host_port hostname port_str inp =
     (let inp = skip_space inp in
      if inp = [] then Ret None
      else bind_outcome (scan_word hostname inp) (\<lambda>(hostname, inp).
        let inp = skip_space inp in
        if inp = [] then Ret (Some (hostname, port_str, []))
        else bind_outcome (scan_word port_str inp) (\<lambda>(port_str, inp).
          Ret (Some (hostname, port_str, skip_space inp)))))"

lemma length_dropWhile_lt: "xs \<noteq> [] \<Longrightarrow> P (hd xs) \<Longrightarrow> length (dropWhile P xs) < length xs"
  by (cases xs) (auto simp: le_imp_less_Suc length_dropWhile_le)

lemma skip_space_hd: "skip_space inp \<noteq> [] \<Longrightarrow> \<not> is_space (hd (skip_space inp))"
  unfolding skip_space_def by (rule hd_dropWhile)

lemma length_skip_space: "length (skip_space inp) \<le> length inp"
  by (simp add: skip_space_def length_dropWhile_le)

lemma scan_word_consumes:
  assumes "scan_word arr (skip_space inp) = Ret (arr', rest)" and "skip_space inp \<noteq> []"
  shows "length rest < length inp"
proof -
  have "rest = dropWhile (\<lambda>c. \<not> is_space c) (skip_space inp)"
    using assms(1) by (auto simp: scan_word_def Let_def split: if_splits)
  then have "length rest < length (skip_space inp)"
    using length_dropWhile_lt[OF assms(2), of "\<lambda>c. \<not> is_space c"] skip_space_hd[OF assms(2)] by simp
  then show ?thesis using length_skip_space[of inp] by linarith
qed

lemma fscanf_consumes:
  assumes "fscanf_host_port hostname port_str inp = Ret (Some (h, p, rest))"
  shows "length rest < length inp"
proof -
  from assms have ne: "skip_space inp \<noteq> []" by (auto simp: fscanf_host_port_def Let_def split: if_splits)
  then obtain h1 inp1 where h1: "scan_word hostname (skip_space inp) = Ret (h1, inp1)"
    and tl: "rest = [] \<or> (\<exists>p1 inp2. skip_space inp1 \<noteq> [] \<and> scan_word port_str (skip_space inp1) = Ret (p1, inp2) \<and> rest = skip_space inp2)"
    using assms by (fastforce simp: fscanf_host_port_def Let_def bind_outcome_Ret_iff split: if_splits)
  note less = scan_word_consumes[OF h1 ne]
  from tl show ?thesis
  proof (elim disjE exE conjE)
    fix p1 inp2
    assume "skip_space inp1 \<noteq> []" and "scan_word port_str (skip_space inp1) = Ret (p1, inp2)" and rest: "rest = skip_space inp2"
    from scan_word_consumes[OF this(2,1)] have "length inp2 < length inp1" .
    then show ?thesis using less length_skip_space[of inp2] unfolding rest by linarith
  qed (use less in auto)
qed

function read_servers :: "string \<Rightarrow> string \<Rightarrow> string \<Rightarrow> host_and_port list \<Rightarrow> host_and_port list outcome" where
  "read_servers hostname port_str inp hps =
     (case fscanf_host_port hostname port_str inp of
        Dies e \<Rightarrow> Dies e
      | Blocks \<Rightarrow> Blocks
      | Ret None \<Rightarrow> Ret hps
      | Ret (Some (hostname, port_str, inp)) \<Rightarrow>
          read_servers hostname port_str inp (hps @ [HostAndPort (until_NUL hostname) (until_NUL port_str)]))"
  by pat_completeness auto
termination
  by (relation "measure (\<lambda>(_, _, inp, _). length inp)") (auto dest: fscanf_consumes)

declare read_servers.simps [simp del]

text \<open>
  \<open>cwd\<close> is the name of the working directory, which \<open>getcwd\<close> gives when it fits 256 bytes (the buffer
  holds zeros otherwise); \<open>fs\<close> gives the contents of a file; \<open>stack\<close> is what the two local arrays
  hold before the first call.
\<close>

definition server_list_file :: "string \<Rightarrow> com_type \<Rightarrow> string" where
  "server_list_file cwd com =
     (if length cwd < 256 then cwd else []) @ ''/server_lists'' @ (if com = TCP then ''/tcp'' else ''/ib'')"

definition Config_read_server_list ::
    "string \<Rightarrow> (string \<Rightarrow> string option) \<Rightarrow> string \<times> string \<Rightarrow> config \<Rightarrow> config outcome" where
  "Config_read_server_list cwd fs stack cfg =
     (case fs (server_list_file cwd (cfg_com_type cfg)) of
        None \<Rightarrow> Dies Exit_failure
      | Some inp \<Rightarrow>
          bind_outcome (read_servers (fst stack) (snd stack) inp (cfg_server_list cfg)) (\<lambda>hps.
            Ret (cfg\<lparr>cfg_server_list := hps\<rparr>)))"

section \<open>The options\<close>

datatype main_error = Unknown_log_level | Unknown_trx_type | Unknown_com_type

definition main_log_level :: "string \<Rightarrow> main_error + level" where
  "main_log_level s =
     (if s = ''info'' then Inr Info else if s = ''debug'' then Inr Debug else Inl Unknown_log_level)"

definition main_trx_type :: "string \<Rightarrow> main_error + trx_type" where
  "main_trx_type s =
     (if s = ''2PL'' then Inr TWO_PHASE_LOCKING
      else if s = ''NO_CC'' then Inr NO_CONCURRENCY_CONTROL
      else if s = ''RAMP_F'' then Inr RAMP_FAST
      else if s = ''AC_RAMP_F'' then Inr AC_RAMP_FAST
      else Inl Unknown_trx_type)"

definition main_com_type :: "string \<Rightarrow> main_error + com_type" where
  "main_com_type s =
     (if s = ''TCP'' then Inr TCP
      else if s = ''IPOIB'' then Inr IPoIB
      else if s = ''SEND_RECV'' then Inr SEND_RECV
      else if s = ''RDMA_WRITE'' then Inr RDMA_WRITE
      else if s = ''RDMA_WRITE_IMM'' then Inr RDMA_WRITE_IMM
      else Inl Unknown_com_type)"

record server_options =
  so_log_level :: string
  so_trx_type :: string
  so_com_type :: string
  so_port_num :: string

text \<open>
  The server up to \<open>Server::start\<close>: the configuration and the acceptor, or the message that is logged
  before \<open>EXIT_FAILURE\<close> is returned.  The acceptor is made while the type of communication is read.
\<close>

definition server_main :: "server_options \<Rightarrow> config \<Rightarrow> os \<Rightarrow> main_error + config \<times> endpoint" where
  "server_main opts cfg os =
     bind_sum (main_log_level (so_log_level opts)) (\<lambda>_.
     bind_sum (main_trx_type (so_trx_type opts)) (\<lambda>tt.
     bind_sum (main_com_type (so_com_type opts)) (\<lambda>com.
       let cfg = cfg\<lparr>cfg_trx_type := tt, cfg_com_type := com\<rparr>
       in Inr (cfg,
         (case com of
            TCP \<Rightarrow> TCPServerSocket (so_port_num opts) os
          | IPoIB \<Rightarrow> TCPServerSocket (so_port_num opts) os
          | SEND_RECV \<Rightarrow> SendRecvServerSocket (so_port_num opts) os
          | RDMA_WRITE \<Rightarrow> RDMAWriteServerSocket (so_port_num opts) os
          | RDMA_WRITE_IMM \<Rightarrow> RDMAWriteImmServerSocket (so_port_num opts) os)))))"

record client_options =
  co_log_level :: string
  co_trx_type :: string
  co_com_type :: string
  co_write_trx_num :: int
  co_read_trx_num :: int
  co_data_num :: int
  co_trx_size :: int
  co_value_size :: int

definition client_config :: "client_options \<Rightarrow> config \<Rightarrow> main_error + config" where
  "client_config opts cfg =
     bind_sum (main_log_level (co_log_level opts)) (\<lambda>_.
     bind_sum (main_trx_type (co_trx_type opts)) (\<lambda>tt.
     bind_sum (main_com_type (co_com_type opts)) (\<lambda>com.
       Inr (cfg\<lparr>cfg_trx_type := tt, cfg_com_type := com, cfg_data_num := co_data_num opts,
                cfg_worker_num := 8, cfg_trx_len := co_trx_size opts,
                cfg_write_trx_num := co_write_trx_num opts, cfg_read_trx_num := co_read_trx_num opts,
                cfg_value_size := co_value_size opts\<rparr>))))"

definition client_main ::
    "string \<Rightarrow> (string \<Rightarrow> string option) \<Rightarrow> string \<times> string \<Rightarrow> client_options \<Rightarrow> config \<Rightarrow> main_error + config outcome" where
  "client_main cwd fs stack opts cfg =
     bind_sum (client_config opts cfg) (\<lambda>cfg. Inr (Config_read_server_list cwd fs stack cfg))"

section \<open>The command lines\<close>

text \<open>The options that the two programs declare, and their values once the command line was parsed.\<close>

definition server_parser :: "stop + parser" where
  "server_parser =
     bind_sum (parser_add ''log_level'' (CHR ''l'') ''log level'' False (Text ''info'') parser_new) (\<lambda>p.
     bind_sum (parser_add ''trx_type'' (CHR ''t'') ''transaction type'' True (Text []) p) (\<lambda>p.
     bind_sum (parser_add ''com_type'' (CHR ''c'') ''communication type'' True (Text []) p) (\<lambda>p.
     parser_add ''port_num'' (CHR ''p'') ''port number'' False (Text ''50000'') p)))"

definition server_command :: "string list \<Rightarrow> stop + server_options" where
  "server_command argv =
     bind_sum server_parser (\<lambda>p.
     bind_sum (parse_check argv p) (\<lambda>p.
     bind_sum (parser_get_text ''log_level'' p) (\<lambda>log_level.
     bind_sum (parser_get_text ''trx_type'' p) (\<lambda>trx_type.
     bind_sum (parser_get_text ''com_type'' p) (\<lambda>com_type.
     bind_sum (parser_get_text ''port_num'' p) (\<lambda>port_num.
     Inr \<lparr>so_log_level = log_level, so_trx_type = trx_type, so_com_type = com_type, so_port_num = port_num\<rparr>))))))"

definition client_parser :: "stop + parser" where
  "client_parser =
     bind_sum (parser_add ''log_level'' (CHR ''l'') ''log level'' False (Text ''info'') parser_new) (\<lambda>p.
     bind_sum (parser_add ''trx_type'' (CHR ''t'') ''transaction type'' True (Text []) p) (\<lambda>p.
     bind_sum (parser_add ''com_type'' (CHR ''c'') ''communication type'' True (Text []) p) (\<lambda>p.
     bind_sum (parser_add ''write_trx_num'' (CHR ''w'') ''num of write transactions'' True (Number 0) p) (\<lambda>p.
     bind_sum (parser_add ''read_trx_num'' (CHR ''r'') ''num of read transactions'' True (Number 0) p) (\<lambda>p.
     bind_sum (parser_add ''data_num'' (CHR ''n'') ''num of data'' False (Number 1000) p) (\<lambda>p.
     bind_sum (parser_add ''trx_size'' (CHR ''s'') ''transaction size (operations)'' False (Number 8) p) (\<lambda>p.
     parser_add ''value_size'' (CHR ''v'') ''value size (bytes)'' False (Number 1000) p)))))))"

definition client_command :: "string list \<Rightarrow> stop + client_options" where
  "client_command argv =
     bind_sum client_parser (\<lambda>p.
     bind_sum (parse_check argv p) (\<lambda>p.
     bind_sum (parser_get_text ''log_level'' p) (\<lambda>log_level.
     bind_sum (parser_get_text ''trx_type'' p) (\<lambda>trx_type.
     bind_sum (parser_get_text ''com_type'' p) (\<lambda>com_type.
     bind_sum (parser_get_number ''data_num'' p) (\<lambda>data_num.
     bind_sum (parser_get_number ''trx_size'' p) (\<lambda>trx_size.
     bind_sum (parser_get_number ''write_trx_num'' p) (\<lambda>write_trx_num.
     bind_sum (parser_get_number ''read_trx_num'' p) (\<lambda>read_trx_num.
     bind_sum (parser_get_number ''value_size'' p) (\<lambda>value_size.
     Inr \<lparr>co_log_level = log_level, co_trx_type = trx_type, co_com_type = com_type,
          co_write_trx_num = write_trx_num, co_read_trx_num = read_trx_num, co_data_num = data_num,
          co_trx_size = trx_size, co_value_size = value_size\<rparr>))))))))))"

text \<open>The two programs from their arguments.\<close>

definition server_program :: "string list \<Rightarrow> config \<Rightarrow> os \<Rightarrow> stop + main_error + config \<times> endpoint" where
  "server_program argv cfg os = bind_sum (server_command argv) (\<lambda>opts. Inr (server_main opts cfg os))"

definition client_program ::
    "string list \<Rightarrow> string \<Rightarrow> (string \<Rightarrow> string option) \<Rightarrow> string \<times> string \<Rightarrow> config \<Rightarrow>
     stop + main_error + config outcome" where
  "client_program argv cwd fs stack cfg =
     bind_sum (client_command argv) (\<lambda>opts. Inr (client_main cwd fs stack opts cfg))"

section \<open>Files and options that are well formed\<close>

definition host_line :: "string \<times> string \<Rightarrow> string" where
  "host_line hp = fst hp @ '' '' @ snd hp @ [CHR 0x0A]"

definition word_of :: "nat \<Rightarrow> string \<Rightarrow> bool" where
  "word_of n w \<longleftrightarrow> w \<noteq> [] \<and> length w < n \<and> NUL \<notin> set w \<and> (\<forall>c \<in> set w. \<not> is_space c)"

definition host_line_ok :: "string \<times> string \<Rightarrow> bool" where
  "host_line_ok hp \<longleftrightarrow> word_of MAXHOSTNAMELEN (fst hp) \<and> word_of PORT_STR_LEN (snd hp)"

lemma skip_space_word:
  assumes "word_of n w"
  shows "skip_space (w @ r) = w @ r" "skip_space (CHR '' '' # w @ r) = w @ r"
proof -
  show "skip_space (w @ r) = w @ r"
    using assms by (cases w) (auto simp: skip_space_def word_of_def)
  then show "skip_space (CHR '' '' # w @ r) = w @ r" by (simp add: skip_space_def is_space_def)
qed

lemma scan_word_word:
  assumes "word_of (length arr) w" and "is_space c"
  shows "scan_word arr (w @ c # r) = Ret (w @ NUL # drop (length w + 1) arr, c # r)"
proof -
  have "takeWhile (\<lambda>c. \<not> is_space c) (w @ c # r) = w" "dropWhile (\<lambda>c. \<not> is_space c) (w @ c # r) = c # r"
    using assms by (auto simp: word_of_def takeWhile_append2 dropWhile_append2)
  then show ?thesis using assms(1) by (simp add: scan_word_def word_of_def)
qed

lemma until_NUL_word: "word_of n w \<Longrightarrow> until_NUL (w @ NUL # r) = w"
  unfolding until_NUL_def word_of_def by (subst takeWhile_append2) auto

lemma is_space_simps [simp]: "is_space (CHR '' '')" "is_space (CHR 0x0A)"
  by (simp_all add: is_space_def)

lemma fscanf_line:
  assumes hp: "host_line_ok hp" and len: "length hostname = MAXHOSTNAMELEN" "length port_str = PORT_STR_LEN"
  shows "fscanf_host_port hostname port_str (host_line hp @ r) =
    Ret (Some (fst hp @ NUL # drop (length (fst hp) + 1) hostname,
               snd hp @ NUL # drop (length (snd hp) + 1) port_str, skip_space r))"
proof -
  obtain h p where [simp]: "hp = (h, p)" by (cases hp)
  have w: "word_of (length hostname) h" "word_of (length port_str) p"
    using hp by (simp_all add: host_line_ok_def len)
  have "skip_space (host_line hp @ r) = h @ CHR '' '' # p @ CHR 0x0A # r"
    using skip_space_word(1)[OF w(1)] by (simp add: host_line_def)
  moreover have "h @ CHR '' '' # p @ CHR 0x0A # r \<noteq> []" "p @ CHR 0x0A # r \<noteq> []" by simp_all
  moreover have "skip_space (CHR 0x0A # r) = skip_space r" by (simp add: skip_space_def)
  ultimately show ?thesis
    by (simp add: fscanf_host_port_def scan_word_word[OF w(1)] skip_space_word(2)[OF w(2)]
        scan_word_word[OF w(2)] Let_def)
qed

lemma fscanf_end: "skip_space inp = [] \<Longrightarrow> fscanf_host_port h p inp = Ret None"
  by (simp add: fscanf_host_port_def)

lemma fscanf_skips: "fscanf_host_port h p (skip_space inp) = fscanf_host_port h p inp"
  by (simp add: fscanf_host_port_def skip_space_def)

lemma read_servers_skips: "read_servers h p (skip_space inp) hps = read_servers h p inp hps"
  by (subst (1 2) read_servers.simps) (simp only: fscanf_skips)

lemma read_servers_lines:
  assumes "\<forall>hp \<in> set lines. host_line_ok hp"
    and "length hostname = MAXHOSTNAMELEN" and "length port_str = PORT_STR_LEN"
  shows "read_servers hostname port_str (concat (map host_line lines)) hps =
    Ret (hps @ map (\<lambda>(h, p). HostAndPort h p) lines)"
  using assms
proof (induction lines arbitrary: hostname port_str hps)
  case Nil
  then show ?case by (subst read_servers.simps) (simp add: fscanf_end skip_space_def)
next
  case (Cons hp lines)
  obtain h p where hp: "hp = (h, p)" by (cases hp)
  have ok: "host_line_ok hp" using Cons.prems(1) by simp
  then have w: "word_of MAXHOSTNAMELEN h" "word_of PORT_STR_LEN p" by (simp_all add: hp host_line_ok_def)
  then have "length (h @ NUL # drop (length h + 1) hostname) = MAXHOSTNAMELEN"
    "length (p @ NUL # drop (length p + 1) port_str) = PORT_STR_LEN"
    using Cons.prems(2,3) by (auto simp: word_of_def)
  note rest = Cons.IH[OF _ this]
  show ?case
    using fscanf_line[OF ok Cons.prems(2,3), of "concat (map host_line lines)"] rest Cons.prems(1)
    by (subst read_servers.simps)
      (simp add: hp read_servers_skips until_NUL_word[OF w(1)] until_NUL_word[OF w(2)])
qed

lemma host_line_ok_fits: "host_line_ok (h, p) \<Longrightarrow> host_port_fits h p"
  by (simp add: host_line_ok_def host_port_fits_def word_of_def)

end
