(* ===== verification/Setup_Theorems.thy ===== *)
theory Setup_Theorems
  imports Mains
begin

text \<open>
  From the command line to open endpoints: options, the server list, and what the system calls of a
  connection leave open when one of them fails.
\<close>






section \<open>From the server list to the connections\<close>







end
