(* ===== verification/Ycsb_Data.thy ===== *)
theory Ycsb_Data
  imports Tables
begin

text \<open>
  The data layer of the copy of the program under \<open>YCSB-0.5.0/\<close>: \<open>src/data/Timestamp.cpp\<close>,
  \<open>Item.cpp\<close>, \<open>CommittedItemsCache.cpp\<close> and \<open>Table.cpp\<close> with their headers.  The classes are older
  versions of those of the main tree, and differ from them in behaviour, so they have definitions
  of their own; types that have the same members are shared.  All definitions here begin with \<open>Y_\<close>.
\<close>

section \<open>Timestamps\<close>

text \<open>\<open>operator ==\<close> compares the microseconds with the other's seconds.\<close>

definition Y_Timestamp_eq :: "timestamp \<Rightarrow> timestamp \<Rightarrow> bool" where
  "Y_Timestamp_eq this other \<longleftrightarrow> ts_sec this = ts_sec other \<and> ts_usec this = ts_sec other"

definition Y_Timestamp_gt :: "timestamp \<Rightarrow> timestamp \<Rightarrow> bool" where
  "Y_Timestamp_gt this other =
     (if ts_sec this = ts_sec other then ts_usec this > ts_usec other
      else ts_sec this > ts_sec other)"

definition Y_Timestamp_lt :: "timestamp \<Rightarrow> timestamp \<Rightarrow> bool" where
  "Y_Timestamp_lt this other =
     (if ts_sec this = ts_sec other then ts_usec this < ts_usec other
      else ts_sec this < ts_sec other)"

definition Y_Timestamp_is_empty :: "timestamp \<Rightarrow> bool" where
  "Y_Timestamp_is_empty this = Y_Timestamp_eq this Timestamp_default"

definition Y_Timestamp_to_str :: "timestamp \<Rightarrow> string" where
  "Y_Timestamp_to_str this = to_string_int (ts_sec this) @ ''.'' @ to_string_int (ts_usec this)"

definition Y_Timestamp_now :: "int \<times> int \<Rightarrow> timestamp" where
  "Y_Timestamp_now gettimeofday_result = Timestamp (fst gettimeofday_result) (snd gettimeofday_result)"

lemma Y_Timestamp_order [simp]:
  "Y_Timestamp_lt s t \<longleftrightarrow> s < t" "Y_Timestamp_gt s t \<longleftrightarrow> t < s"
  unfolding Y_Timestamp_lt_def Y_Timestamp_gt_def less_timestamp_def Timestamp_lt_def by auto

lemma Y_Timestamp_is_empty_iff [simp]: "Y_Timestamp_is_empty t \<longleftrightarrow> t = Timestamp_default"
  by (cases t) (auto simp: Y_Timestamp_is_empty_def Y_Timestamp_eq_def Timestamp_default_def)

section \<open>Items\<close>

definition Y_Item_of_key :: "key \<Rightarrow> item" where
  "Y_Item_of_key k = Item_default\<lparr>item_key := k\<rparr>"

definition Y_Item_versioned :: "key \<Rightarrow> (field \<times> val) list \<Rightarrow> timestamp \<Rightarrow> item" where
  "Y_Item_versioned k vs ts = Item_default\<lparr>item_key := k, item_values := vs, item_ts := ts\<rparr>"

definition Y_Item_full :: "key \<Rightarrow> (field \<times> val) list \<Rightarrow> timestamp \<Rightarrow> key list \<Rightarrow> item" where
  "Y_Item_full k vs ts ks = Item_default\<lparr>item_key := k, item_values := vs, item_ts := ts, item_trx_keys := ks\<rparr>"

definition Y_Item_is_empty :: "item \<Rightarrow> bool" where
  "Y_Item_is_empty it \<longleftrightarrow> item_key it = []"

section \<open>Cache entries\<close>

text \<open>
  The writes are plain \<open>memcpy\<close>s in this order; nothing compares their end with that of the entry.
\<close>

definition Y_CacheEntry_invalidate :: "nat \<Rightarrow> mem \<Rightarrow> mem" where
  "Y_CacheEntry_invalidate addr m = mem_write m addr (le_bytes 4 0xffffffff)"

definition Y_CacheEntry_update_writes :: "'o msgpack \<Rightarrow> nat \<times> nat \<Rightarrow> item \<Rightarrow> (nat \<times> byte list) list" where
  "Y_CacheEntry_update_writes mp junk it =
     (let sbuf = mp_pack mp (Item_arg it);
          header = MessageHeader junk RESULT (length sbuf);
          is_invalid = 0;
          is_arrived = 0xffffffff
      in [(0, le_bytes 4 is_invalid),
          (sizeof_int, header_bytes header),
          (sizeof_int + sizeof_MessageHeader, sbuf),
          (sizeof_int + sizeof_MessageHeader + length sbuf, le_bytes 4 is_arrived)])"

definition Y_memcpys :: "nat \<Rightarrow> (nat \<times> byte list) list \<Rightarrow> mem \<Rightarrow> mem" where
  "Y_memcpys addr ws m = fold (\<lambda>(offset, src) m. mem_write m (addr + offset) src) ws m"

definition Y_CacheEntry_update :: "'o msgpack \<Rightarrow> nat \<times> nat \<Rightarrow> nat \<Rightarrow> item \<Rightarrow> mem \<Rightarrow> mem" where
  "Y_CacheEntry_update mp junk addr it m = Y_memcpys addr (Y_CacheEntry_update_writes mp junk it) m"

section \<open>The cache\<close>

definition Y_CommittedItemsCache_new :: "nat option \<Rightarrow> mem \<Rightarrow> committed_items outcome" where
  "Y_CommittedItemsCache_new memalign m =
     (case memalign of
        None \<Rightarrow> Dies Exit_failure
      | Some addr \<Rightarrow>
          Ret \<lparr>ci_buf = Buffer_on addr CACHE_SIZE, ci_entries = Map.empty,
               ci_unused = foldl (\<lambda>q i. cqueue_push q (addr + i * ENTRY_SIZE)) [] [0..<ENTRY_NUM],
               ci_mem = m\<rparr>)"

definition Y_CommittedItemsCache_invalidate :: "key \<Rightarrow> committed_items \<Rightarrow> committed_items outcome" where
  "Y_CommittedItemsCache_invalidate k ci =
     (case ci_entries ci k of
        None \<Rightarrow>
          (let entries = fst (cmap_index (ci_entries ci) k None);
               (unused, popped) = cqueue_try_pop (ci_unused ci)
           in Ret (ci\<lparr>ci_unused := unused,
                      ci_entries := (case popped of None \<Rightarrow> entries
                                     | Some a \<Rightarrow> cmap_assign entries k (Some a))\<rparr>))
      | Some None \<Rightarrow> Dies Null_pointer
      | Some (Some a) \<Rightarrow> Ret (ci\<lparr>ci_mem := Y_CacheEntry_invalidate a (ci_mem ci)\<rparr>))"

definition Y_CommittedItemsCache_update ::
    "'o msgpack \<Rightarrow> nat \<times> nat \<Rightarrow> item \<Rightarrow> committed_items \<Rightarrow> committed_items outcome" where
  "Y_CommittedItemsCache_update mp junk it ci =
     (case ci_entries ci (item_key it) of
        None \<Rightarrow> Ret ci
      | Some None \<Rightarrow> Dies Null_pointer
      | Some (Some a) \<Rightarrow> Ret (ci\<lparr>ci_mem := Y_CacheEntry_update mp junk a it (ci_mem ci)\<rparr>))"

definition Y_CommittedItemsCache_get_item_addr ::
    "'o msgpack \<Rightarrow> nat \<times> nat \<Rightarrow> key \<Rightarrow> committed_items \<Rightarrow> (committed_items \<times> nat) outcome" where
  "Y_CommittedItemsCache_get_item_addr mp junk k ci =
     (let ci =
        (case ci_entries ci k of
           None \<Rightarrow>
             (case cqueue_try_pop (ci_unused ci) of
                (unused, None) \<Rightarrow> ci\<lparr>ci_unused := unused\<rparr>
              | (unused, Some a) \<Rightarrow>
                  ci\<lparr>ci_unused := unused, ci_mem := Y_CacheEntry_update mp junk a (Y_Item_of_key k) (ci_mem ci),
                     ci_entries := cmap_assign (ci_entries ci) k (Some a)\<rparr>)
         | Some _ \<Rightarrow> ci)
      in (case ci_entries ci k of
            None \<Rightarrow> Dies Uncaught_exception
          | Some None \<Rightarrow> Dies Null_pointer
          | Some (Some a) \<Rightarrow> Ret (ci, a)))"

section \<open>Maps from timestamps\<close>

text \<open>
  \<open>concurrent_unordered_map\<close> finds an element whose hash is that of the key and whose key is equal,
  by \<open>operator ==\<close>, to the one asked for.  With the operator above this need not hold of the key
  that was inserted, so the map is its list of elements, the hash \<open>h\<close> a parameter.
\<close>

type_synonym 'v ts_map = "(timestamp \<times> 'v) list"

definition Y_ts_map_at :: "(timestamp \<Rightarrow> nat) \<Rightarrow> 'v ts_map \<Rightarrow> timestamp \<Rightarrow> 'v option" where
  "Y_ts_map_at h m ts =
     map_option snd (find (\<lambda>(t, _). h t = h ts \<and> Y_Timestamp_eq t ts) m)"

fun Y_ts_map_update :: "(timestamp \<Rightarrow> nat) \<Rightarrow> 'v ts_map \<Rightarrow> timestamp \<Rightarrow> ('v \<Rightarrow> 'v) \<Rightarrow> 'v \<Rightarrow> 'v ts_map" where
  "Y_ts_map_update h [] ts f d = [(ts, f d)]"
| "Y_ts_map_update h ((t, v) # m) ts f d =
     (if h t = h ts \<and> Y_Timestamp_eq t ts then (t, f v) # m else (t, v) # Y_ts_map_update h m ts f d)"

section \<open>The table\<close>

record Y_table =
  Y_tbl_items :: "item list ts_map"
  Y_tbl_latest :: "(key, timestamp) cmap"
  Y_tbl_committed :: committed_items

text \<open>\<open>items[item.ts].push_back(item)\<close>, then the cache.\<close>

definition Y_Table_prepare :: "(timestamp \<Rightarrow> nat) \<Rightarrow> item \<Rightarrow> Y_table \<Rightarrow> Y_table outcome" where
  "Y_Table_prepare h it t =
     (let t = t\<lparr>Y_tbl_items := Y_ts_map_update h (Y_tbl_items t) (item_ts it) (\<lambda>v. v @ [it]) []\<rparr>
      in bind_outcome (Y_CommittedItemsCache_invalidate (item_key it) (Y_tbl_committed t))
           (\<lambda>ci. Ret (t\<lparr>Y_tbl_committed := ci\<rparr>)))"

definition Y_Table_commit_item ::
    "'o msgpack \<Rightarrow> nat \<times> nat \<Rightarrow> timestamp \<Rightarrow> item \<Rightarrow> Y_table \<Rightarrow> Y_table outcome" where
  "Y_Table_commit_item mp junk ts_c it t =
     (let (latest, v) = cmap_index (Y_tbl_latest t) (item_key it) Timestamp_default
      in if Y_Timestamp_lt v ts_c
         then bind_outcome (Y_CommittedItemsCache_update mp junk it (Y_tbl_committed t)) (\<lambda>ci.
                Ret (t\<lparr>Y_tbl_latest := cmap_assign latest (item_key it) ts_c, Y_tbl_committed := ci\<rparr>))
         else Ret (t\<lparr>Y_tbl_latest := latest\<rparr>))"

definition Y_Table_commit ::
    "(timestamp \<Rightarrow> nat) \<Rightarrow> 'o msgpack \<Rightarrow> nat \<times> nat \<Rightarrow> timestamp \<Rightarrow> Y_table \<Rightarrow> Y_table outcome" where
  "Y_Table_commit h mp junk ts_c t =
     (case Y_ts_map_at h (Y_tbl_items t) ts_c of
        None \<Rightarrow> Ret t
      | Some its \<Rightarrow> fold_outcome (Y_Table_commit_item mp junk ts_c) its t)"

definition Y_Table_commit_key :: "key \<Rightarrow> timestamp \<Rightarrow> Y_table \<Rightarrow> Y_table" where
  "Y_Table_commit_key k ts_c t =
     (let (latest, v) = cmap_index (Y_tbl_latest t) k Timestamp_default
      in if Y_Timestamp_lt v ts_c then t\<lparr>Y_tbl_latest := cmap_assign latest k ts_c\<rparr>
         else t\<lparr>Y_tbl_latest := latest\<rparr>)"

definition Y_Table_put :: "(timestamp \<Rightarrow> nat) \<Rightarrow> item \<Rightarrow> Y_table \<Rightarrow> Y_table outcome" where
  "Y_Table_put h it t =
     bind_outcome (Y_Table_prepare h it t) (\<lambda>t. Ret (Y_Table_commit_key (item_key it) (item_ts it) t))"

definition Y_Table_get_item_by_ver :: "(timestamp \<Rightarrow> nat) \<Rightarrow> key \<Rightarrow> timestamp \<Rightarrow> Y_table \<Rightarrow> item" where
  "Y_Table_get_item_by_ver h k ts t =
     (case Y_ts_map_at h (Y_tbl_items t) ts of
        None \<Rightarrow> Item_default
      | Some its \<Rightarrow>
          (case find (\<lambda>it. item_key it = k) its of Some it \<Rightarrow> it | None \<Rightarrow> Item_default))"

definition Y_Table_get_latest_item :: "(timestamp \<Rightarrow> nat) \<Rightarrow> key \<Rightarrow> Y_table \<Rightarrow> Y_table \<times> item" where
  "Y_Table_get_latest_item h k t =
     (let (latest, v) = cmap_index (Y_tbl_latest t) k Timestamp_default;
          t = t\<lparr>Y_tbl_latest := latest\<rparr>
      in (t, Y_Table_get_item_by_ver h k v t))"

definition Y_Table_get :: "(timestamp \<Rightarrow> nat) \<Rightarrow> key \<Rightarrow> Y_table \<Rightarrow> Y_table \<times> item" where
  "Y_Table_get h k t = Y_Table_get_latest_item h k t"

lemma set_Y_ts_map_update: "fst ` set (Y_ts_map_update h m ts f d) \<subseteq> insert ts (fst ` set m)"
  by (induction h m ts f d rule: Y_ts_map_update.induct) auto

end
