(* ===== verification/Ycsb_Messages.thy ===== *)
theory Ycsb_Messages
  imports Messages
begin

text \<open>
  \<open>Communicator\<close> of the YCSB copy (\<open>YCSB-0.5.0/include/net/Communicator.h\<close>).  It differs from that of
  the main tree in that \<open>unpack_args\<close> catches nothing: what \<open>next\<close> and \<open>convert\<close> throw leaves \<open>recv\<close>, its
  callers and the thread.
\<close>

fun Y_unpack_args :: "'o msgpack \<Rightarrow> arg list \<Rightarrow> byte list \<Rightarrow> (arg list \<times> byte list) outcome" where
  "Y_unpack_args mp [] unpk = Ret ([], unpk)"
| "Y_unpack_args mp (first # rest) unpk =
     bind_outcome
       (case mp_next mp unpk of
          Next_object obj unpk1 \<Rightarrow> Ret (mp_convert mp obj first, unpk1)
        | Next_incomplete \<Rightarrow> Ret (mp_convert mp (mp_nil mp) first, unpk)
        | Next_error unpk1 \<Rightarrow> Dies Uncaught_exception)
       (\<lambda>((first, converted), unpk).
          if converted
          then bind_outcome (Y_unpack_args mp rest unpk) (\<lambda>(rest, unpk). Ret (first # rest, unpk))
          else Dies Uncaught_exception)"

definition Y_Communicator_recv_body ::
    "'o msgpack \<Rightarrow> byte list \<Rightarrow> byte list \<Rightarrow> arg list \<Rightarrow> (arg list \<times> byte list) outcome" where
  "Y_Communicator_recv_body mp unpk body dsts = Y_unpack_args mp dsts (unpk @ body)"

text \<open>Where nothing is thrown, the two copies unpack alike.\<close>

lemma Y_unpack_args_agrees: "Y_unpack_args mp dsts unpk = Ret r \<Longrightarrow> unpack_args mp dsts unpk = r"
proof (induction dsts arbitrary: unpk r)
  case (Cons first rest)
  from Cons.prems obtain v unpk1 vals unpk2 where
    first: "(\<exists>obj. mp_next mp unpk = Next_object obj unpk1 \<and> mp_convert mp obj first = (v, True)) \<or>
      mp_next mp unpk = Next_incomplete \<and> mp_convert mp (mp_nil mp) first = (v, True) \<and> unpk1 = unpk"
    and rest: "Y_unpack_args mp rest unpk1 = Ret (vals, unpk2)" and r: "r = (v # vals, unpk2)"
    by (auto simp: bind_outcome_Ret_iff split: next_result.splits if_splits)
  show ?case using first Cons.IH[OF rest] r by auto
qed simp

lemma Y_recv_body_sent:
  assumes "msgpack_ok mp" and "list_all2 same_kind args dsts"
  shows "Y_Communicator_recv_body mp [] (snd (sent_msg mp junk t args)) dsts = Ret (args, [])"
proof -
  have "Y_unpack_args mp dsts (concat (map (mp_pack mp) args)) = Ret (args, [])"
    using assms(2)
  proof (induction args dsts rule: list_all2_induct)
    case (Cons a args dst dsts)
    obtain obj where "mp_next mp (mp_pack mp a @ concat (map (mp_pack mp) args)) =
        Next_object obj (concat (map (mp_pack mp) args))"
      and "\<And>dst. same_kind a dst \<Longrightarrow> mp_convert mp obj dst = (a, True)"
      using msgpack_okE[OF assms(1), of a "concat (map (mp_pack mp) args)"] by blast
    then show ?case using Cons by simp
  qed simp
  then show ?thesis by (simp add: Y_Communicator_recv_body_def sent_msg_eq)
qed

end
