(* ===== verification/Ycsb_Executors.thy ===== *)
theory Ycsb_Executors
  imports Ycsb_Data Ycsb_Messages Executors
begin

text \<open>
  The executors of the YCSB copy (\<open>YCSB-0.5.0/src/service/executor/\<close>,
  \<open>YCSB-0.5.0/include/service/executor/\<close>).  They answer as those of the main tree do, on the table of
  this copy; the lock-based one keeps each kind of lock for a time that the configuration sets
  (\<open>LockDuration.h\<close>).  \<open>LockManager\<close> and \<open>Mutex\<close> are the same code in both trees.
\<close>

datatype lock_duration = LONG | SHORT | NONE

record Y_server =
  Y_srv_table :: Y_table
  Y_srv_locks :: lock_manager

record Y_executor =
  Y_ex_unpk :: "byte list"
  Y_ex_access_keys :: "key list"
  Y_ex_rkey :: nat
  Y_ex_write_duration :: lock_duration
  Y_ex_read_duration :: lock_duration

type_synonym Y_iteration = "(Y_server \<times> Y_executor) \<times> message list \<times> bool"

definition Y_ex_recv_body ::
    "'o msgpack \<Rightarrow> Y_executor \<Rightarrow> byte list \<Rightarrow> arg list \<Rightarrow> (Y_executor \<times> arg list) outcome" where
  "Y_ex_recv_body mp ex body dsts =
     bind_outcome (Y_Communicator_recv_body mp (Y_ex_unpk ex) body dsts) (\<lambda>(vals, unpk).
       Ret (ex\<lparr>Y_ex_unpk := unpk\<rparr>, vals))"

definition Y_answered :: "Y_executor \<Rightarrow> (Y_server \<times> message) outcome \<Rightarrow> Y_iteration outcome" where
  "Y_answered ex r = bind_outcome r (\<lambda>(s, reply). Ret ((s, ex), [reply], True))"

section \<open>RAMP-Fast\<close>

definition Y_RAMPFastExecutor_prepare ::
    "(timestamp \<Rightarrow> nat) \<Rightarrow> 'o msgpack \<Rightarrow> nat \<times> nat \<Rightarrow> item \<Rightarrow> Y_server \<Rightarrow> (Y_server \<times> message) outcome" where
  "Y_RAMPFastExecutor_prepare h mp junk it s =
     bind_outcome (Y_Table_prepare h it (Y_srv_table s))
       (\<lambda>t. Ret (s\<lparr>Y_srv_table := t\<rparr>, sent_msg mp junk DONE []))"

definition Y_RAMPFastExecutor_commit ::
    "(timestamp \<Rightarrow> nat) \<Rightarrow> 'o msgpack \<Rightarrow> nat \<times> nat \<Rightarrow> timestamp \<Rightarrow> Y_server \<Rightarrow> (Y_server \<times> message) outcome" where
  "Y_RAMPFastExecutor_commit h mp junk ts_c s =
     bind_outcome (Y_Table_commit h mp junk ts_c (Y_srv_table s))
       (\<lambda>t. Ret (s\<lparr>Y_srv_table := t\<rparr>, sent_msg mp junk DONE []))"

definition Y_RAMPFastExecutor_get ::
    "(timestamp \<Rightarrow> nat) \<Rightarrow> 'o msgpack \<Rightarrow> nat \<times> nat \<Rightarrow> key \<Rightarrow> timestamp \<Rightarrow> Y_server \<Rightarrow> (Y_server \<times> message) outcome" where
  "Y_RAMPFastExecutor_get h mp junk k ts_req s =
     (if Y_Timestamp_is_empty ts_req
      then let (t, it) = Y_Table_get_latest_item h k (Y_srv_table s)
           in Ret (s\<lparr>Y_srv_table := t\<rparr>, sent_msg mp junk RESULT [Item_arg it])
      else Ret (s, sent_msg mp junk RESULT [Item_arg (Y_Table_get_item_by_ver h k ts_req (Y_srv_table s))]))"

definition Y_RAMPFastExecutor_run_iter ::
    "(timestamp \<Rightarrow> nat) \<Rightarrow> 'o msgpack \<Rightarrow> nat \<times> nat \<Rightarrow> message \<Rightarrow> Y_server \<times> Y_executor \<Rightarrow> Y_iteration outcome" where
  "Y_RAMPFastExecutor_run_iter h mp junk msg st =
     (let (header, body) = msg; (s, ex) = st in
      if req_type_is header PREPARE then
        bind_outcome (Y_ex_recv_body mp ex body [Item_arg Item_default]) (\<lambda>(ex, vals).
          Y_answered ex (Y_RAMPFastExecutor_prepare h mp junk (arg_item (vals ! 0)) s))
      else if req_type_is header COMMIT then
        bind_outcome (Y_ex_recv_body mp ex body [Ts_arg Timestamp_default]) (\<lambda>(ex, vals).
          Y_answered ex (Y_RAMPFastExecutor_commit h mp junk (arg_ts (vals ! 0)) s))
      else if req_type_is header GET then
        bind_outcome (Y_ex_recv_body mp ex body [Key_arg [], Ts_arg Timestamp_default]) (\<lambda>(ex, vals).
          Y_answered ex (Y_RAMPFastExecutor_get h mp junk (arg_key (vals ! 0)) (arg_ts (vals ! 1)) s))
      else
        bind_outcome (Y_ex_recv_body mp ex body []) (\<lambda>(ex, vals). Ret ((s, ex), [], False)))"

definition Y_RAMPFastExecutor_run where
  "Y_RAMPFastExecutor_run h mp junk = executor_run (Y_RAMPFastExecutor_run_iter h mp junk)"

section \<open>No concurrency control\<close>

definition Y_NoCCExecutor_prepare ::
    "(timestamp \<Rightarrow> nat) \<Rightarrow> 'o msgpack \<Rightarrow> nat \<times> nat \<Rightarrow> item \<Rightarrow> Y_server \<Rightarrow> (Y_server \<times> message) outcome" where
  "Y_NoCCExecutor_prepare h mp junk it s =
     bind_outcome (Y_Table_prepare h it (Y_srv_table s))
       (\<lambda>t. Ret (s\<lparr>Y_srv_table := t\<rparr>, sent_msg mp junk DONE []))"

definition Y_NoCCExecutor_commit ::
    "(timestamp \<Rightarrow> nat) \<Rightarrow> 'o msgpack \<Rightarrow> nat \<times> nat \<Rightarrow> timestamp \<Rightarrow> Y_server \<Rightarrow> (Y_server \<times> message) outcome" where
  "Y_NoCCExecutor_commit h mp junk ts_c s =
     bind_outcome (Y_Table_commit h mp junk ts_c (Y_srv_table s))
       (\<lambda>t. Ret (s\<lparr>Y_srv_table := t\<rparr>, sent_msg mp junk DONE []))"

definition Y_NoCCExecutor_get ::
    "(timestamp \<Rightarrow> nat) \<Rightarrow> 'o msgpack \<Rightarrow> nat \<times> nat \<Rightarrow> key \<Rightarrow> Y_server \<Rightarrow> (Y_server \<times> message) outcome" where
  "Y_NoCCExecutor_get h mp junk k s =
     (let (t, it) = Y_Table_get_latest_item h k (Y_srv_table s)
      in Ret (s\<lparr>Y_srv_table := t\<rparr>, sent_msg mp junk RESULT [Item_arg it]))"

definition Y_NoCCExecutor_run_iter ::
    "(timestamp \<Rightarrow> nat) \<Rightarrow> 'o msgpack \<Rightarrow> nat \<times> nat \<Rightarrow> message \<Rightarrow> Y_server \<times> Y_executor \<Rightarrow> Y_iteration outcome" where
  "Y_NoCCExecutor_run_iter h mp junk msg st =
     (let (header, body) = msg; (s, ex) = st in
      if req_type_is header PREPARE then
        bind_outcome (Y_ex_recv_body mp ex body [Item_arg Item_default]) (\<lambda>(ex, vals).
          Y_answered ex (Y_NoCCExecutor_prepare h mp junk (arg_item (vals ! 0)) s))
      else if req_type_is header COMMIT then
        bind_outcome (Y_ex_recv_body mp ex body [Ts_arg Timestamp_default]) (\<lambda>(ex, vals).
          Y_answered ex (Y_NoCCExecutor_commit h mp junk (arg_ts (vals ! 0)) s))
      else if req_type_is header GET then
        bind_outcome (Y_ex_recv_body mp ex body [Key_arg []]) (\<lambda>(ex, vals).
          Y_answered ex (Y_NoCCExecutor_get h mp junk (arg_key (vals ! 0)) s))
      else
        bind_outcome (Y_ex_recv_body mp ex body []) (\<lambda>(ex, vals). Ret ((s, ex), [], False)))"

definition Y_NoCCExecutor_run where
  "Y_NoCCExecutor_run h mp junk = executor_run (Y_NoCCExecutor_run_iter h mp junk)"

section \<open>RAMP-Fast over one-sided reads\<close>

definition Y_ACRAMPFastExecutor_get_item_and_addr ::
    "(timestamp \<Rightarrow> nat) \<Rightarrow> 'o msgpack \<Rightarrow> nat \<times> nat \<Rightarrow> Y_executor \<Rightarrow> key \<Rightarrow> timestamp \<Rightarrow> Y_server \<Rightarrow> (Y_server \<times> message) outcome" where
  "Y_ACRAMPFastExecutor_get_item_and_addr h mp junk ex k ts_req s =
     (let (t, it) = Y_Table_get_latest_item h k (Y_srv_table s)
      in bind_outcome (Y_CommittedItemsCache_get_item_addr mp junk k (Y_tbl_committed t)) (\<lambda>(ci, addr).
           let rka = RemoteKeyAndAddr (Y_ex_rkey ex) addr
           in Ret (s\<lparr>Y_srv_table := t\<lparr>Y_tbl_committed := ci\<rparr>\<rparr>,
                   sent_msg mp junk RESULT [Item_arg it, Rka_arg rka])))"

definition Y_ACRAMPFastExecutor_run_iter ::
    "(timestamp \<Rightarrow> nat) \<Rightarrow> 'o msgpack \<Rightarrow> nat \<times> nat \<Rightarrow> message \<Rightarrow> Y_server \<times> Y_executor \<Rightarrow> Y_iteration outcome" where
  "Y_ACRAMPFastExecutor_run_iter h mp junk msg st =
     (let (header, body) = msg; (s, ex) = st in
      if req_type_is header PREPARE then
        bind_outcome (Y_ex_recv_body mp ex body [Item_arg Item_default]) (\<lambda>(ex, vals).
          Y_answered ex (Y_RAMPFastExecutor_prepare h mp junk (arg_item (vals ! 0)) s))
      else if req_type_is header COMMIT then
        bind_outcome (Y_ex_recv_body mp ex body [Ts_arg Timestamp_default]) (\<lambda>(ex, vals).
          Y_answered ex (Y_RAMPFastExecutor_commit h mp junk (arg_ts (vals ! 0)) s))
      else if req_type_is header GET then
        bind_outcome (Y_ex_recv_body mp ex body [Key_arg [], Ts_arg Timestamp_default]) (\<lambda>(ex, vals).
          Y_answered ex (Y_RAMPFastExecutor_get h mp junk (arg_key (vals ! 0)) (arg_ts (vals ! 1)) s))
      else if req_type_is header GET_WITH_ADDR then
        bind_outcome (Y_ex_recv_body mp ex body [Key_arg [], Ts_arg Timestamp_default]) (\<lambda>(ex, vals).
          Y_answered ex (Y_ACRAMPFastExecutor_get_item_and_addr h mp junk ex (arg_key (vals ! 0)) (arg_ts (vals ! 1)) s))
      else
        bind_outcome (Y_ex_recv_body mp ex body []) (\<lambda>(ex, vals). Ret ((s, ex), [], False)))"

definition Y_ACRAMPFastExecutor_run where
  "Y_ACRAMPFastExecutor_run h mp junk = executor_run (Y_ACRAMPFastExecutor_run_iter h mp junk)"

section \<open>Locking\<close>

definition Y_LockBasedExecutor :: "lock_duration \<Rightarrow> lock_duration \<Rightarrow> Y_executor" where
  "Y_LockBasedExecutor write_duration read_duration =
     \<lparr>Y_ex_unpk = [], Y_ex_access_keys = [], Y_ex_rkey = 0,
      Y_ex_write_duration = write_duration, Y_ex_read_duration = read_duration\<rparr>"

definition Y_LockBasedExecutor_put ::
    "(timestamp \<Rightarrow> nat) \<Rightarrow> 'o msgpack \<Rightarrow> nat \<times> nat \<Rightarrow> item \<Rightarrow> Y_server \<times> Y_executor \<Rightarrow> Y_iteration outcome" where
  "Y_LockBasedExecutor_put h mp junk it st =
     (let (s, ex) = st in
      bind_outcome (LockManager_write_lock (item_key it) (Y_srv_locks s)) (\<lambda>lm.
      bind_outcome (Y_Table_put h it (Y_srv_table s)) (\<lambda>t.
      bind_outcome
        (case Y_ex_write_duration ex of
           SHORT \<Rightarrow> bind_outcome (LockManager_unlock (item_key it) lm) (\<lambda>lm. Ret (lm, ex))
         | LONG \<Rightarrow> Ret (lm, ex\<lparr>Y_ex_access_keys := insort_insert (item_key it) (Y_ex_access_keys ex)\<rparr>)
         | NONE \<Rightarrow> Ret (lm, ex)) (\<lambda>(lm, ex).
        Ret ((s\<lparr>Y_srv_table := t, Y_srv_locks := lm\<rparr>, ex), [sent_msg mp junk DONE []], True)))))"

definition Y_LockBasedExecutor_get ::
    "(timestamp \<Rightarrow> nat) \<Rightarrow> 'o msgpack \<Rightarrow> nat \<times> nat \<Rightarrow> key \<Rightarrow> Y_server \<times> Y_executor \<Rightarrow> Y_iteration outcome" where
  "Y_LockBasedExecutor_get h mp junk k st =
     (let (s, ex) = st in
      bind_outcome (if Y_ex_read_duration ex \<noteq> NONE then LockManager_read_lock k (Y_srv_locks s) else Ret (Y_srv_locks s)) (\<lambda>lm.
        let (t, it) = Y_Table_get h k (Y_srv_table s) in
        bind_outcome
          (case Y_ex_read_duration ex of
             SHORT \<Rightarrow> bind_outcome (LockManager_unlock k lm) (\<lambda>lm. Ret (lm, ex))
           | LONG \<Rightarrow> Ret (lm, ex\<lparr>Y_ex_access_keys := insort_insert k (Y_ex_access_keys ex)\<rparr>)
           | NONE \<Rightarrow> Ret (lm, ex)) (\<lambda>(lm, ex).
          Ret ((s\<lparr>Y_srv_table := t, Y_srv_locks := lm\<rparr>, ex), [sent_msg mp junk RESULT [Item_arg it]], True))))"

definition Y_LockBasedExecutor_release_locks ::
    "'o msgpack \<Rightarrow> nat \<times> nat \<Rightarrow> Y_server \<times> Y_executor \<Rightarrow> Y_iteration outcome" where
  "Y_LockBasedExecutor_release_locks mp junk st =
     (let (s, ex) = st in
      bind_outcome (LockManager_unlock_all (Y_ex_access_keys ex) (Y_srv_locks s)) (\<lambda>lm.
        Ret ((s\<lparr>Y_srv_locks := lm\<rparr>, ex\<lparr>Y_ex_access_keys := []\<rparr>),
             [sent_msg mp junk DONE []], True)))"

definition Y_LockBasedExecutor_run_iter ::
    "(timestamp \<Rightarrow> nat) \<Rightarrow> 'o msgpack \<Rightarrow> nat \<times> nat \<Rightarrow> message \<Rightarrow> Y_server \<times> Y_executor \<Rightarrow> Y_iteration outcome" where
  "Y_LockBasedExecutor_run_iter h mp junk msg st =
     (let (header, body) = msg; (s, ex) = st in
      if req_type_is header PUT then
        bind_outcome (Y_ex_recv_body mp ex body [Item_arg Item_default]) (\<lambda>(ex, vals).
          Y_LockBasedExecutor_put h mp junk (arg_item (vals ! 0)) (s, ex))
      else if req_type_is header GET then
        bind_outcome (Y_ex_recv_body mp ex body [Key_arg []]) (\<lambda>(ex, vals).
          Y_LockBasedExecutor_get h mp junk (arg_key (vals ! 0)) (s, ex))
      else if req_type_is header RELEASE_LOCKS then
        bind_outcome (Y_ex_recv_body mp ex body []) (\<lambda>(ex, vals).
          Y_LockBasedExecutor_release_locks mp junk (s, ex))
      else
        bind_outcome (Y_ex_recv_body mp ex body []) (\<lambda>(ex, vals). Ret ((s, ex), [], False)))"

definition Y_LockBasedExecutor_run where
  "Y_LockBasedExecutor_run h mp junk = executor_run (Y_LockBasedExecutor_run_iter h mp junk)"

end
