(* ===== verification/Ycsb_Theorems.thy ===== *)
theory Ycsb_Theorems
  imports Ycsb_Executors Reader_Theorems
begin

text \<open>
  What sets the YCSB copy apart from the main tree: its server finds none of the items that it
  stores, its cache entries are written flag first and without a bound, and its lock-based executor
  has three levels of isolation.
\<close>

section \<open>Items that cannot be found\<close>

text \<open>No stored timestamp has equal seconds and microseconds.\<close>

definition never_found :: "Y_table \<Rightarrow> bool" where
  "never_found t \<longleftrightarrow> (\<forall>ts \<in> fst ` set (Y_tbl_items t). ts_usec ts \<noteq> ts_sec ts)"

lemma never_found_at:
  assumes "never_found t"
  shows "Y_ts_map_at h (Y_tbl_items t) ts = None"
proof -
  have "\<not> (h t' = h ts \<and> Y_Timestamp_eq t' ts)" if "(t', v) \<in> set (Y_tbl_items t)" for t' v
    using assms that by (force simp: never_found_def Y_Timestamp_eq_def)
  then have "find (\<lambda>(t', _). h t' = h ts \<and> Y_Timestamp_eq t' ts) (Y_tbl_items t) = None"
    unfolding find_None_iff by auto
  then show ?thesis by (simp add: Y_ts_map_at_def)
qed

lemma never_found_get:
  assumes "never_found t"
  shows "Y_Table_get_item_by_ver h k ts t = Item_default" "snd (Y_Table_get_latest_item h k t) = Item_default"
    "never_found (fst (Y_Table_get_latest_item h k t))" "Y_Table_commit h mp junk ts t = Ret t"
  using never_found_at[OF assms, of h] assms
  by (simp_all add: Y_Table_get_item_by_ver_def Y_Table_get_latest_item_def Y_Table_commit_def case_prod_beta' Let_def never_found_def)

lemma never_found_prepare:
  assumes "never_found t" and "ts_usec (item_ts it) \<noteq> ts_sec (item_ts it)" and "Y_Table_prepare h it t = Ret t'"
  shows "never_found t'"
proof -
  have "Y_tbl_items t' = Y_ts_map_update h (Y_tbl_items t) (item_ts it) (\<lambda>v. v @ [it]) []"
    using assms(3) by (auto simp: Y_Table_prepare_def Let_def bind_outcome_Ret_iff)
  then have sub: "fst ` set (Y_tbl_items t') \<subseteq> insert (item_ts it) (fst ` set (Y_tbl_items t))"
    by (simp only: set_Y_ts_map_update)
  show ?thesis
    unfolding never_found_def
  proof
    fix ts assume "ts \<in> fst ` set (Y_tbl_items t')"
    with sub have "ts = item_ts it \<or> ts \<in> fst ` set (Y_tbl_items t)" by (meson insertE subsetD)
    then show "ts_usec ts \<noteq> ts_sec ts" using assms(1,2) unfolding never_found_def by metis
  qed
qed

lemma Y_ex_recv_body_sent:
  assumes "msgpack_ok mp" and "list_all2 same_kind args dsts" and "Y_ex_unpk ex = []"
  shows "Y_ex_recv_body mp ex (snd (sent_msg mp junk t args)) dsts = Ret (ex, args)"
  using Y_recv_body_sent[OF assms(1,2)] assms(3) by (simp add: Y_ex_recv_body_def)

fun Y_ramp_request :: "message_type \<times> arg list \<Rightarrow> bool" where
  "Y_ramp_request (PREPARE, [Item_arg it]) \<longleftrightarrow> ts_usec (item_ts it) \<noteq> ts_sec (item_ts it)"
| "Y_ramp_request (COMMIT, [Ts_arg ts]) \<longleftrightarrow> True"
| "Y_ramp_request (GET, [Key_arg k, Ts_arg ts]) \<longleftrightarrow> True"
| "Y_ramp_request _ \<longleftrightarrow> False"

definition Y_empty_answer :: "'o msgpack \<Rightarrow> nat \<times> nat \<Rightarrow> message_type \<Rightarrow> message" where
  "Y_empty_answer mp junk t =
     (if t = GET then sent_msg mp junk RESULT [Item_arg Item_default] else sent_msg mp junk DONE [])"

lemma Y_RAMP_iter_sent:
  assumes "msgpack_ok mp" and "Y_ex_unpk ex = []"
  shows "Y_RAMPFastExecutor_run_iter h mp junk (sent_msg mp junk' PREPARE [Item_arg it]) (s, ex) =
      Y_answered ex (Y_RAMPFastExecutor_prepare h mp junk it s)"
    and "Y_RAMPFastExecutor_run_iter h mp junk (sent_msg mp junk' COMMIT [Ts_arg ts]) (s, ex) =
      Y_answered ex (Y_RAMPFastExecutor_commit h mp junk ts s)"
    and "Y_RAMPFastExecutor_run_iter h mp junk (sent_msg mp junk' GET [Key_arg k, Ts_arg ts]) (s, ex) =
      Y_answered ex (Y_RAMPFastExecutor_get h mp junk k ts s)"
  by (auto simp: Y_RAMPFastExecutor_run_iter_def sent_msg_fst_snd Y_ex_recv_body_sent[OF assms(1) _ assms(2)])

lemma Y_answered_Ret:
  "Y_answered ex r = Ret ((s', ex'), out, go_on) \<longleftrightarrow>
     (\<exists>reply. r = Ret (s', reply) \<and> ex' = ex \<and> out = [reply] \<and> go_on)"
  by (auto simp: Y_answered_def bind_outcome_Ret_iff)

lemma Y_RAMP_iter:
  assumes "msgpack_ok mp" and "Y_ramp_request (t, args)" and "never_found (Y_srv_table s)" and "Y_ex_unpk ex = []"
    and "Y_RAMPFastExecutor_run_iter h mp junk (sent_msg mp junk' t args) (s, ex) = Ret ((s', ex'), out, go_on)"
  shows "never_found (Y_srv_table s') \<and> ex' = ex \<and> go_on \<and> out = [Y_empty_answer mp junk t]"
proof -
  note sent = Y_RAMP_iter_sent[OF assms(1,4)]
  consider it where "t = PREPARE" "args = [Item_arg it]" "ts_usec (item_ts it) \<noteq> ts_sec (item_ts it)"
    | ts where "t = COMMIT" "args = [Ts_arg ts]" | k ts where "t = GET" "args = [Key_arg k, Ts_arg ts]"
    using assms(2) by (cases "(t, args)" rule: Y_ramp_request.cases) auto
  then show ?thesis
  proof cases
    case (1 it)
    then obtain tb where p: "Y_Table_prepare h it (Y_srv_table s) = Ret tb" and r: "s' = s\<lparr>Y_srv_table := tb\<rparr>" "ex' = ex" "go_on"
      "out = [sent_msg mp junk DONE []]"
      using assms(5) by (auto simp: sent Y_answered_Ret Y_RAMPFastExecutor_prepare_def bind_outcome_Ret_iff)
    show ?thesis using never_found_prepare[OF assms(3) 1(3) p] r 1(1) by (simp add: Y_empty_answer_def)
  next
    case (2 ts)
    then show ?thesis
      using assms(3,5) by (simp add: sent Y_answered_Ret Y_RAMPFastExecutor_commit_def never_found_get(4) Y_empty_answer_def)
  next
    case (3 k ts)
    then show ?thesis
      using assms(3,5) never_found_get(1-3)[OF assms(3), of h]
      by (cases "ts = Timestamp_default")
        (auto simp: sent Y_answered_Ret Y_RAMPFastExecutor_get_def Y_empty_answer_def case_prod_beta')
  qed
qed

lemma Y_RAMP_run:
  assumes "msgpack_ok mp" and "\<forall>r \<in> set reqs. Y_ramp_request r" and "never_found (Y_srv_table s)" and "Y_ex_unpk ex = []"
    and "Y_RAMPFastExecutor_run h mp junk (map (\<lambda>(t, args). sent_msg mp junk' t args) reqs) (s, ex) = Ret (st, out, go_on)"
  shows "out = map (\<lambda>(t, args). Y_empty_answer mp junk t) reqs \<and> go_on"
  using assms(2-5) unfolding Y_RAMPFastExecutor_run_def
proof (induction reqs arbitrary: s ex out)
  case (Cons r reqs)
  obtain t args where r: "r = (t, args)" by (cases r)
  have req: "Y_ramp_request (t, args)" using Cons.prems(1) by (simp add: r)
  obtain s1 ex1 out1 g out2 where it: "Y_RAMPFastExecutor_run_iter h mp junk (sent_msg mp junk' t args) (s, ex) = Ret ((s1, ex1), out1, g)"
    and rest: "g \<Longrightarrow> executor_run (Y_RAMPFastExecutor_run_iter h mp junk) (map (\<lambda>(t, args). sent_msg mp junk' t args) reqs) (s1, ex1) = Ret (st, out2, go_on)"
    and out: "g \<Longrightarrow> out = out1 @ out2"
    using Cons.prems(4) by (fastforce simp: r bind_outcome_Ret_iff split: if_splits)
  from Y_RAMP_iter[OF assms(1) req Cons.prems(2,3) it] have 1: "never_found (Y_srv_table s1)" "ex1 = ex" "g"
    "out1 = [Y_empty_answer mp junk t]" by simp_all
  have "out2 = map (\<lambda>(t, args). Y_empty_answer mp junk t) reqs \<and> go_on"
    by (rule Cons.IH[OF _ 1(1) _ rest[OF 1(3)]]) (use Cons.prems 1 in auto)
  then show ?case using 1(4) out[OF 1(3)] by (simp add: r)
qed simp

text \<open>The YCSB server never finds what it stores.  A RAMP server of that copy that starts with an empty table
  answers every GET of a session with an empty item, whatever was prepared and committed before, as long as
  no prepared timestamp has as many microseconds as seconds: its \<open>operator ==\<close> of timestamps compares the
  microseconds with the other's seconds, so the map finds no element.\<close>

theorem ycsb_reads_nothing:
  assumes "msgpack_ok mp" and "\<forall>r \<in> set reqs. Y_ramp_request r"
    and "Y_tbl_items (Y_srv_table s) = []" and "Y_ex_unpk ex = []"
    and "Y_RAMPFastExecutor_run h mp junk (map (\<lambda>(t, args). sent_msg mp junk' t args) reqs) (s, ex) = Ret (st, out, go_on)"
  shows "out = map (\<lambda>(t, args). Y_empty_answer mp junk t) reqs"
proof -
  have "never_found (Y_srv_table s)" using assms(3) by (simp add: never_found_def)
  from Y_RAMP_run[OF assms(1,2) this assms(4,5)] show ?thesis by simp
qed

text \<open>An item is prepared, committed and asked for.\<close>

definition Y_sample_server :: Y_server where
  "Y_sample_server =
     \<lparr>Y_srv_table = \<lparr>Y_tbl_items = [], Y_tbl_latest = Map.empty,
        Y_tbl_committed = \<lparr>ci_buf = Buffer_on 0 CACHE_SIZE, ci_entries = Map.empty, ci_unused = [0], ci_mem = \<lambda>_. 0\<rparr>\<rparr>,
      Y_srv_locks = LockManager_new\<rparr>"

definition Y_sample_session :: "(message_type \<times> arg list) list" where
  "Y_sample_session =
     [(PREPARE, [Item_arg (Y_Item_versioned ''k'' [] (Timestamp 5 7))]), (COMMIT, [Ts_arg (Timestamp 5 7)]),
      (GET, [Key_arg ''k'', Ts_arg Timestamp_default])]"

theorem ycsb_reads_nothing_witness:
  "\<exists>st out go_on. Y_RAMPFastExecutor_run (\<lambda>_. 0) sample_mp (0, 0)
       (map (\<lambda>(t, args). sent_msg sample_mp (0, 0) t args) Y_sample_session)
       (Y_sample_server, Y_LockBasedExecutor LONG LONG) = Ret (st, out, go_on) \<and>
     last out = sent_msg sample_mp (0, 0) RESULT [Item_arg Item_default]"
proof -
  let ?ex = "Y_LockBasedExecutor LONG LONG" and ?msgs = "map (\<lambda>(t, args). sent_msg sample_mp (0, 0) t args) Y_sample_session"
  have unpk: "Y_ex_unpk ?ex = []" by (simp add: Y_LockBasedExecutor_def)
  have "\<exists>st out go_on. Y_RAMPFastExecutor_run (\<lambda>_. 0) sample_mp (0, 0) ?msgs (Y_sample_server, ?ex) = Ret (st, out, go_on)"
    by (simp add: Y_RAMPFastExecutor_run_def Y_sample_session_def Y_RAMP_iter_sent[OF sample_mp_ok unpk] Y_answered_def
        Y_RAMPFastExecutor_prepare_def Y_RAMPFastExecutor_commit_def Y_RAMPFastExecutor_get_def
        Y_Table_prepare_def Y_Table_commit_def Y_Table_get_latest_item_def Y_CommittedItemsCache_invalidate_def
        Y_sample_server_def Y_Item_versioned_def Y_ts_map_at_def Y_Timestamp_eq_def cmap_index_def cqueue_try_pop_def
        case_prod_beta' Let_def) (rule exI[of _ True], simp)
  then obtain st out go_on where r: "Y_RAMPFastExecutor_run (\<lambda>_. 0) sample_mp (0, 0) ?msgs (Y_sample_server, ?ex) = Ret (st, out, go_on)"
    by blast
  have "\<forall>r \<in> set Y_sample_session. Y_ramp_request r"
    by (simp add: Y_sample_session_def Y_Item_versioned_def)
  from ycsb_reads_nothing[OF sample_mp_ok this _ unpk r] have "out = map (\<lambda>(t, args). Y_empty_answer sample_mp (0, 0) t) Y_sample_session"
    by (simp add: Y_sample_server_def)
  then show ?thesis using r by (simp add: Y_sample_session_def Y_empty_answer_def)
qed

section \<open>Isolation levels\<close>




section \<open>Updates of the cache\<close>

lemma Y_update_eq:
  "Y_CacheEntry_update mp junk a it m =
    (let body = mp_pack mp (Item_arg it); n = length body
     in mem_write (mem_write (mem_write (mem_write m a (le_bytes 4 0))
       (a + 4) (header_bytes (MessageHeader junk RESULT n))) (a + 28) body) (a + 28 + n) (le_bytes 4 0xffffffff))"
  by (simp add: Y_CacheEntry_update_def Y_CacheEntry_update_writes_def Y_memcpys_def sizeof_simps Let_def add.assoc)



text \<open>The YCSB cache writes past its entries.  An item whose packed form needs more than an entry has overwrites
  the first bytes of the next one, its invalid flag included; the main tree ends the server instead.\<close>

theorem ycsb_update_overruns:
  assumes "ENTRY_SIZE < 28 + length (mp_pack mp (Item_arg it))" and "length (mp_pack mp (Item_arg it)) < 2 ^ 63"
    and "i < 28 + length (mp_pack mp (Item_arg it)) - ENTRY_SIZE"
  shows "Y_CacheEntry_update mp junk a it m (a + ENTRY_SIZE + i) = mp_pack mp (Item_arg it) ! (ENTRY_SIZE - 28 + i) \<and>
    Entry_update mp junk (Entry_at a) it m = Dies Exit_failure"
proof
  let ?body = "mp_pack mp (Item_arg it)"
  have e: "ENTRY_SIZE = 2560" by (simp add: ENTRY_SIZE_def)
  have l: "2560 + i < 28 + length ?body" using assms(1,3) e by linarith
  then have q: "a + 28 \<le> a + ENTRY_SIZE + i" "a + ENTRY_SIZE + i < a + 28 + length ?body"
    "a + ENTRY_SIZE + i - (a + 28) = ENTRY_SIZE - 28 + i" using e by linarith+
  have "mem_write m' (a + 28) ?body (a + ENTRY_SIZE + i) = ?body ! (ENTRY_SIZE - 28 + i)" for m'
    unfolding mem_write_def using q by presburger
  then show "Y_CacheEntry_update mp junk a it m (a + ENTRY_SIZE + i) = ?body ! (ENTRY_SIZE - 28 + i)"
    unfolding Y_update_eq Let_def using q(2) by (subst mem_write_outside) simp_all
  show "Entry_update mp junk (Entry_at a) it m = Dies Exit_failure"
    by (rule Entry_update_dies) (use assms in \<open>simp_all add: Entry_need_def\<close>)
qed

theorem ycsb_update_overruns_witness:
  "Y_CacheEntry_update sample_mp (0, 0) 0 big_item (\<lambda>_. 0) (0 + ENTRY_SIZE + 3) = mp_pack sample_mp (Item_arg big_item) ! (ENTRY_SIZE - 28 + 3) \<and>
   Entry_update sample_mp (0, 0) (Entry_at 0) big_item (\<lambda>_. 0) = Dies Exit_failure"
  by (rule ycsb_update_overruns) (simp_all add: big_item_length ENTRY_SIZE_def)

end
