(* ===== verification/Ycsb_Rdmacm.thy ===== *)
theory Ycsb_Rdmacm
  imports Setup Rdma_Sockets
begin

text \<open>
  The verbs layer of the YCSB copy: \<open>Buffer\<close> (\<open>YCSB-0.5.0/include/util/Buffer.h\<close>,
  \<open>src/util/Buffer.cpp\<close>), \<open>RDMACMSocket\<close> and \<open>RDMACMServerSocket\<close> (\<open>include/net/\<close>, \<open>src/net/\<close>).
  What each socket class of the main tree does itself, the classes of this copy leave to an
  \<open>RDMACMSocket\<close>.  The lemmas compare its operations with those of the main tree.
\<close>

section \<open>Buffers\<close>

text \<open>The bounds checks compare pointers, not differences: the sum is taken at the width of an address.\<close>

definition Y_within :: "nat \<Rightarrow> nat \<Rightarrow> buffer \<Rightarrow> bool" where
  "Y_within pos cnt b \<longleftrightarrow>
     (word_of_nat pos :: 64 word) + word_of_nat cnt \<le> word_of_nat (buf_addr b) + word_of_nat (buf_size b)"

definition Y_Buffer_default :: buffer where
  "Y_Buffer_default = \<lparr>write_pos = 0, read_pos = 0, buf_addr = 0, buf_size = 0\<rparr>"

definition Y_Buffer :: "nat \<Rightarrow> nat \<Rightarrow> buffer" where
  "Y_Buffer addr sz = \<lparr>write_pos = addr, read_pos = addr, buf_addr = addr, buf_size = sz\<rparr>"

definition Y_Buffer_clear :: "buffer \<Rightarrow> mem \<Rightarrow> mem \<times> buffer" where
  "Y_Buffer_clear b m =
     (mem_write m (buf_addr b) (replicate (buf_size b) 0),
      b\<lparr>write_pos := buf_addr b, read_pos := buf_addr b\<rparr>)"

definition Y_Buffer_allocate :: "nat option \<Rightarrow> nat \<Rightarrow> mem \<Rightarrow> (mem \<times> buffer) outcome" where
  "Y_Buffer_allocate memalign sz m =
     (case memalign of
        None \<Rightarrow> Dies Exit_failure
      | Some addr \<Rightarrow> Ret (Y_Buffer_clear (Y_Buffer_default\<lparr>buf_addr := addr, buf_size := sz\<rparr>) m))"

definition Y_Buffer_write :: "buffer \<Rightarrow> byte list \<Rightarrow> mem \<Rightarrow> (mem \<times> buffer) outcome" where
  "Y_Buffer_write b src m =
     (if Y_within (write_pos b) (length src) b
      then Ret (mem_write m (write_pos b) src, b\<lparr>write_pos := write_pos b + length src\<rparr>)
      else Dies Exit_failure)"

definition Y_Buffer_read :: "buffer \<Rightarrow> nat \<Rightarrow> mem \<Rightarrow> (buffer \<times> byte list) outcome" where
  "Y_Buffer_read b cnt m =
     (if Y_within (read_pos b) cnt b
      then Ret (b\<lparr>read_pos := read_pos b + cnt\<rparr>, mem_read m (read_pos b) cnt)
      else Dies Exit_failure)"

text \<open>A buffer in the lower half of the address space: the sums do not wrap.\<close>

definition low_buffer :: "buffer \<Rightarrow> bool" where
  "low_buffer b \<longleftrightarrow> Buffer_ok b \<and> buf_addr b + buf_size b < 2 ^ 63"

lemma Y_Buffer_eq [simp]: "Y_Buffer = Buffer_on"
  by (simp add: fun_eq_iff Y_Buffer_def Buffer_on_def)

lemma Y_Buffer_clear_eq [simp]: "Y_Buffer_clear = Buffer_clear"
  by (simp add: fun_eq_iff Y_Buffer_clear_def Buffer_clear_def)

lemma Y_Buffer_allocate_eq [simp]: "Y_Buffer_allocate = Buffer_allocate"
  by (simp add: fun_eq_iff Y_Buffer_allocate_def Buffer_allocate_def Buffer_clear_def Y_Buffer_default_def Buffer_on_def split: option.split)

lemma Y_within_iff:
  assumes "pos + cnt < 2 ^ 64" and "buf_addr b + buf_size b < 2 ^ 64"
  shows "Y_within pos cnt b \<longleftrightarrow> pos + cnt \<le> buf_addr b + buf_size b"
proof -
  have "Y_within pos cnt b \<longleftrightarrow> (word_of_nat (pos + cnt) :: 64 word) \<le> word_of_nat (buf_addr b + buf_size b)"
    by (simp add: Y_within_def)
  also have "\<dots> \<longleftrightarrow> pos + cnt \<le> buf_addr b + buf_size b"
    unfolding word_le_nat_alt using assms by (simp add: unat_of_nat del: of_nat_add)
  finally show ?thesis .
qed

lemma Y_Buffer_write_eq:
  assumes "low_buffer b" and "length src < 2 ^ 63"
  shows "Y_Buffer_write b src m = Buffer_append b src m"
proof -
  have "write_pos b + length src < 2 ^ 64" "buf_addr b + buf_size b < 2 ^ 64" "length src < 2 ^ 64"
    using assms by (auto simp: low_buffer_def Buffer_ok_def)
  then show ?thesis
    using assms(1) by (simp add: Y_Buffer_write_def Y_within_iff Buffer_append_iff low_buffer_def)
qed

lemma Y_Buffer_read_eq:
  assumes "low_buffer b" and "cnt < 2 ^ 63"
  shows "Y_Buffer_read b cnt m = Buffer_read b cnt m"
proof -
  have "read_pos b + cnt < 2 ^ 64" "buf_addr b + buf_size b < 2 ^ 64" "cnt < 2 ^ 64"
    using assms by (auto simp: low_buffer_def Buffer_ok_def)
  then show ?thesis
    using assms(1) by (simp add: Y_Buffer_read_def Y_within_iff Buffer_read_iff low_buffer_def)
qed

lemma low_buffer_append:
  "low_buffer b \<Longrightarrow> length src < 2 ^ 63 \<Longrightarrow> Buffer_append b src m = Ret (m', b') \<Longrightarrow>
     low_buffer b' \<and> buf_addr b' = buf_addr b \<and> buf_size b' = buf_size b"
  by (auto simp: low_buffer_def Buffer_append_iff Buffer_ok_def split: if_splits)

section \<open>RDMACMSocket\<close>

record Y_rdmacm_socket =
  Y_rs_mem :: mem
  Y_rs_qp :: qp
  Y_rs_verbs_buf :: buffer
  Y_rs_send_bufs :: "buffer list"

definition Y_RDMACMSocket_post_send :: "buffer \<Rightarrow> Y_rdmacm_socket \<Rightarrow> Y_rdmacm_socket outcome" where
  "Y_RDMACMSocket_post_send b r =
     (if qp_post_rc (Y_rs_qp r) < 0 then Dies Exit_failure
      else Ret (r\<lparr>Y_rs_qp := (Y_rs_qp r)\<lparr>qp_sends := qp_sends (Y_rs_qp r) @ [Wr_send (buf_addr b) (buf_size b)]\<rparr>\<rparr>))"

definition Y_RDMACMSocket_post_recv :: "buffer \<Rightarrow> Y_rdmacm_socket \<Rightarrow> Y_rdmacm_socket outcome" where
  "Y_RDMACMSocket_post_recv b r =
     (if qp_post_rc (Y_rs_qp r) < 0 then Dies Exit_failure
      else Ret (r\<lparr>Y_rs_qp := (Y_rs_qp r)\<lparr>qp_recvs := qp_recvs (Y_rs_qp r) @ [(buf_addr b, buf_size b)]\<rparr>\<rparr>))"

definition Y_RDMACMSocket_post_write :: "buffer \<Rightarrow> rka \<Rightarrow> Y_rdmacm_socket \<Rightarrow> Y_rdmacm_socket outcome" where
  "Y_RDMACMSocket_post_write b rka r =
     (if qp_post_rc (Y_rs_qp r) < 0 then Dies Exit_failure
      else Ret (r\<lparr>Y_rs_qp := (Y_rs_qp r)\<lparr>qp_sends := qp_sends (Y_rs_qp r) @ [Wr_write (buf_addr b) (buf_size b) rka]\<rparr>\<rparr>))"

definition Y_RDMACMSocket_post_write_imm :: "buffer \<Rightarrow> rka \<Rightarrow> Y_rdmacm_socket \<Rightarrow> Y_rdmacm_socket outcome" where
  "Y_RDMACMSocket_post_write_imm b rka r =
     (if qp_post_rc (Y_rs_qp r) < 0 then Dies Exit_failure
      else Ret (r\<lparr>Y_rs_qp := (Y_rs_qp r)\<lparr>qp_sends := qp_sends (Y_rs_qp r) @ [Wr_write_imm (buf_addr b) (buf_size b) rka]\<rparr>\<rparr>))"

definition Y_RDMACMSocket_post_read :: "buffer \<Rightarrow> rka \<Rightarrow> Y_rdmacm_socket \<Rightarrow> Y_rdmacm_socket outcome" where
  "Y_RDMACMSocket_post_read b rka r =
     (if qp_post_rc (Y_rs_qp r) < 0 then Dies Exit_failure
      else Ret (r\<lparr>Y_rs_qp := (Y_rs_qp r)\<lparr>qp_sends := qp_sends (Y_rs_qp r) @ [Wr_read (buf_addr b) (buf_size b) rka]\<rparr>\<rparr>))"

definition Y_RDMACMSocket_poll_send_cq :: "nat \<Rightarrow> Y_rdmacm_socket \<Rightarrow> (Y_rdmacm_socket \<times> nat list) outcome" where
  "Y_RDMACMSocket_poll_send_cq num_entries r =
     (let cq = qp_send_cq (Y_rs_qp r) in
      if qp_poll_rc (Y_rs_qp r) < 0 then Dies Exit_failure
      else if take num_entries cq = [] then Blocks
      else Ret (r\<lparr>Y_rs_qp := (Y_rs_qp r)\<lparr>qp_send_cq := drop num_entries cq\<rparr>\<rparr>, take num_entries cq))"

definition Y_RDMACMSocket_poll_recv_cq :: "nat \<Rightarrow> Y_rdmacm_socket \<Rightarrow> (Y_rdmacm_socket \<times> (nat \<times> nat) list) outcome" where
  "Y_RDMACMSocket_poll_recv_cq num_entries r =
     (let cq = qp_recv_cq (Y_rs_qp r) in
      if qp_poll_rc (Y_rs_qp r) < 0 then Dies Exit_failure
      else if take num_entries cq = [] then Blocks
      else Ret (r\<lparr>Y_rs_qp := (Y_rs_qp r)\<lparr>qp_recv_cq := drop num_entries cq\<rparr>\<rparr>, take num_entries cq))"

text \<open>The single poll by which \<open>send_close\<close> clears the completion queue.\<close>

definition Y_ibv_poll_send_cq :: "nat \<Rightarrow> Y_rdmacm_socket \<Rightarrow> (Y_rdmacm_socket \<times> nat list) outcome" where
  "Y_ibv_poll_send_cq num_entries r =
     (let cq = qp_send_cq (Y_rs_qp r) in
      if qp_poll_rc (Y_rs_qp r) < 0 then Dies Exit_failure
      else Ret (r\<lparr>Y_rs_qp := (Y_rs_qp r)\<lparr>qp_send_cq := drop num_entries cq\<rparr>\<rparr>, take num_entries cq))"

definition Y_clear_buf :: "buffer \<Rightarrow> Y_rdmacm_socket \<Rightarrow> Y_rdmacm_socket \<times> buffer" where
  "Y_clear_buf b r = (let (m, b) = Y_Buffer_clear b (Y_rs_mem r) in (r\<lparr>Y_rs_mem := m\<rparr>, b))"

definition Y_RDMACMSocket_get_send_buf :: "Y_rdmacm_socket \<Rightarrow> (Y_rdmacm_socket \<times> buffer) outcome" where
  "Y_RDMACMSocket_get_send_buf r =
     (case Y_rs_send_bufs r of
        [] \<Rightarrow>
          bind_outcome (Y_RDMACMSocket_poll_send_cq PACKET_WINDOW_SIZE r) (\<lambda>(r, wc).
            let r = fold (\<lambda>wr_id r. r\<lparr>Y_rs_send_bufs :=
                      circular_push_back PACKET_WINDOW_SIZE (Y_rs_send_bufs r) (Y_Buffer wr_id PACKET_SIZE)\<rparr>) (tl wc) r
            in Ret (Y_clear_buf (Y_Buffer (hd wc) PACKET_SIZE) r))
      | b # bs \<Rightarrow> Ret (Y_clear_buf b (r\<lparr>Y_rs_send_bufs := bs\<rparr>)))"

definition Y_RDMACMSocket_get_recv_buf :: "Y_rdmacm_socket \<Rightarrow> (Y_rdmacm_socket \<times> buffer) outcome" where
  "Y_RDMACMSocket_get_recv_buf r =
     bind_outcome (Y_RDMACMSocket_poll_recv_cq 1 r) (\<lambda>(r, wc). Ret (r, Y_Buffer (fst (hd wc)) (snd (hd wc))))"

text \<open>\<open>reg_ok\<close>: \<open>rdma_reg_msgs\<close> gave a memory region.\<close>

definition Y_RDMACMSocket_setup_verbs_buf :: "nat option \<Rightarrow> bool \<Rightarrow> Y_rdmacm_socket \<Rightarrow> Y_rdmacm_socket outcome" where
  "Y_RDMACMSocket_setup_verbs_buf memalign reg_ok r =
     bind_outcome (Y_Buffer_allocate memalign (PACKET_SIZE * PACKET_WINDOW_SIZE * 2) (Y_rs_mem r)) (\<lambda>(m, b).
       let r = r\<lparr>Y_rs_mem := m, Y_rs_verbs_buf := b\<rparr> in
       if \<not> reg_ok then Dies Exit_failure
       else let send_buf_begin = buf_addr b + PACKET_SIZE * PACKET_WINDOW_SIZE in
         fold_outcome (\<lambda>i r.
           bind_outcome (Y_RDMACMSocket_post_recv (Y_Buffer (buf_addr b + i * PACKET_SIZE) PACKET_SIZE) r) (\<lambda>r.
             Ret (r\<lparr>Y_rs_send_bufs := circular_push_back PACKET_WINDOW_SIZE (Y_rs_send_bufs r)
                      (Y_Buffer (send_buf_begin + i * PACKET_SIZE) PACKET_SIZE)\<rparr>)))
           [0..<PACKET_WINDOW_SIZE] r)"

definition Y_RDMACMSocket_new :: "nat option \<Rightarrow> bool \<Rightarrow> qp \<Rightarrow> mem \<Rightarrow> Y_rdmacm_socket outcome" where
  "Y_RDMACMSocket_new memalign reg_ok q m =
     Y_RDMACMSocket_setup_verbs_buf memalign reg_ok
       \<lparr>Y_rs_mem = m, Y_rs_qp = q, Y_rs_verbs_buf = Y_Buffer_default, Y_rs_send_bufs = []\<rparr>"

definition Y_RDMACMSocket_connect :: "host_and_port \<Rightarrow> os \<Rightarrow> endpoint" where
  "Y_RDMACMSocket_connect hp os =
     (let (os, r) = os_getaddrinfo (Some (hp_hostname hp)) (hp_port_str hp) False os in
      if r < 0 then Inl os
      else let (os, client_id) = os_create (Create_ep rdma_init_attr) os in
      if client_id < 0 then Inl (os_freeaddrinfo os)
      else let (os, r) = os_on client_id Connect (os_freeaddrinfo os) in
      if r < 0 then Inl (os_close client_id os)
      else Inr (os, client_id))"

section \<open>RDMACMServerSocket\<close>

definition Y_RDMACMServerSocket :: "string \<Rightarrow> os \<Rightarrow> endpoint" where
  "Y_RDMACMServerSocket port_str os =
     (let (os, r) = os_getaddrinfo None port_str True os in
      if r < 0 then Inl os
      else let (os, listen_id) = os_create (Create_ep rdma_init_attr) os in
      if listen_id < 0 then Inl (os_freeaddrinfo os)
      else let (os, r) = os_on listen_id (Listen LISTEN_MAX) (os_freeaddrinfo os) in
      if r < 0 then Inl (os_close listen_id os)
      else Inr (os, listen_id))"

definition Y_RDMACMServerSocket_accept :: "int \<Rightarrow> os \<Rightarrow> endpoint" where
  "Y_RDMACMServerSocket_accept listen_id os =
     (let (os, client_id) = os_create (Get_request listen_id) os in
      if client_id < 0 then Inl os
      else let (os, r) = os_on client_id Rdma_accept os in
      if r < 0 then Inl os else Inr (os, client_id))"

section \<open>The view of the main tree\<close>

text \<open>
  An \<open>RDMACMSocket\<close> together with the rest of a socket object is the object of the main tree: the
  message buffer and, in \<open>x\<close>, the members that the RDMA write classes add.
\<close>

definition so_view :: "buffer \<Rightarrow> 'a \<Rightarrow> Y_rdmacm_socket \<Rightarrow> 'a sendrecv_socket_scheme" where
  "so_view b x r =
     \<lparr>so_mem = Y_rs_mem r, so_msg_buf = b, so_qp = Y_rs_qp r, so_verbs_buf = Y_rs_verbs_buf r,
      so_send_bufs = Y_rs_send_bufs r, \<dots> = x\<rparr>"

lemma so_view_simps [simp]:
  "so_mem (so_view b x r) = Y_rs_mem r" "so_msg_buf (so_view b x r) = b" "so_qp (so_view b x r) = Y_rs_qp r"
  "so_verbs_buf (so_view b x r) = Y_rs_verbs_buf r" "so_send_bufs (so_view b x r) = Y_rs_send_bufs r"
  "(so_view b x r)\<lparr>so_mem := m\<rparr> = so_view b x (r\<lparr>Y_rs_mem := m\<rparr>)"
  "(so_view b x r)\<lparr>so_msg_buf := b'\<rparr> = so_view b' x r"
  "(so_view b x r)\<lparr>so_qp := q\<rparr> = so_view b x (r\<lparr>Y_rs_qp := q\<rparr>)"
  "(so_view b x r)\<lparr>so_verbs_buf := v\<rparr> = so_view b x (r\<lparr>Y_rs_verbs_buf := v\<rparr>)"
  "(so_view b x r)\<lparr>so_send_bufs := bs\<rparr> = so_view b x (r\<lparr>Y_rs_send_bufs := bs\<rparr>)"
  by (simp_all add: so_view_def)

text \<open>Under a map of the state, results correspond.\<close>

lemma map_bind_outcome: "map_outcome g (bind_outcome m f) = bind_outcome m (\<lambda>x. map_outcome g (f x))"
  by (cases m) simp_all

lemma bind_map_outcome: "bind_outcome (map_outcome g m) f = bind_outcome m (\<lambda>x. f (g x))"
  by (cases m) simp_all

lemma bind_outcome_cong_Ret: "(\<And>x. m = Ret x \<Longrightarrow> f x = g x) \<Longrightarrow> bind_outcome m f = bind_outcome m g"
  by (cases m) simp_all

lemma view_post:
  "SendRecvSocket_post_send buf (so_view b x r) = map_outcome (so_view b x) (Y_RDMACMSocket_post_send buf r)"
  "SendRecvSocket_post_recv buf (so_view b x r) = map_outcome (so_view b x) (Y_RDMACMSocket_post_recv buf r)"
  by (simp_all add: SendRecvSocket_post_send_def Y_RDMACMSocket_post_send_def SendRecvSocket_post_recv_def
      Y_RDMACMSocket_post_recv_def)

lemma view_post_rdma:
  "RDMAWriteSocket_post_write buf rka (so_view b x r) = map_outcome (so_view b x) (Y_RDMACMSocket_post_write buf rka r)"
  "RDMAWriteSocket_post_read buf rka (so_view b x r) = map_outcome (so_view b x) (Y_RDMACMSocket_post_read buf rka r)"
  "RDMAWriteImmSocket_post_write_imm buf rka (so_view b x r) = map_outcome (so_view b x) (Y_RDMACMSocket_post_write_imm buf rka r)"
  by (simp_all add: RDMAWriteSocket_post_write_def Y_RDMACMSocket_post_write_def RDMAWriteSocket_post_read_def
      Y_RDMACMSocket_post_read_def RDMAWriteImmSocket_post_write_imm_def Y_RDMACMSocket_post_write_imm_def)

lemma view_poll:
  "SendRecvSocket_poll_send_cq n (so_view b x r) =
    map_outcome (\<lambda>(r, wc). (so_view b x r, wc)) (Y_RDMACMSocket_poll_send_cq n r)"
  "SendRecvSocket_poll_recv_cq n (so_view b x r) =
    map_outcome (\<lambda>(r, wc). (so_view b x r, wc)) (Y_RDMACMSocket_poll_recv_cq n r)"
  "ibv_poll_send_cq n (so_view b x r) = map_outcome (\<lambda>(r, wc). (so_view b x r, wc)) (Y_ibv_poll_send_cq n r)"
  by (simp_all add: SendRecvSocket_poll_send_cq_def Y_RDMACMSocket_poll_send_cq_def SendRecvSocket_poll_recv_cq_def
      Y_RDMACMSocket_poll_recv_cq_def ibv_poll_send_cq_def Y_ibv_poll_send_cq_def Let_def)

lemma view_clear: "clear_buf buf (so_view b x r) = (so_view b x (fst (Y_clear_buf buf r)), snd (Y_clear_buf buf r))"
  by (simp add: clear_buf_def Y_clear_buf_def Buffer_clear_def)

lemma fold_push_rsock:
  "fold (\<lambda>wr_id r. r\<lparr>Y_rs_send_bufs := circular_push_back PACKET_WINDOW_SIZE (Y_rs_send_bufs r) (Buffer_on wr_id PACKET_SIZE)\<rparr>) ids r =
   r\<lparr>Y_rs_send_bufs := fold (\<lambda>wr_id bs. circular_push_back PACKET_WINDOW_SIZE bs (Buffer_on wr_id PACKET_SIZE)) ids (Y_rs_send_bufs r)\<rparr>"
  by (induction ids arbitrary: r) simp_all

lemma view_get_send_buf:
  "SendRecvSocket_get_send_buf (so_view b x r) =
    map_outcome (\<lambda>(r, buf). (so_view b x r, buf)) (Y_RDMACMSocket_get_send_buf r)"
  by (cases "Y_rs_send_bufs r")
    (simp_all add: SendRecvSocket_get_send_buf_def Y_RDMACMSocket_get_send_buf_def view_poll bind_map_outcome
      map_bind_outcome view_clear fold_push_rsock case_prod_beta' Let_def)

lemma view_get_recv_buf:
  "SendRecvSocket_get_recv_buf (so_view b x r) =
    map_outcome (\<lambda>(r, buf). (so_view b x r, buf)) (Y_RDMACMSocket_get_recv_buf r)"
  by (simp add: SendRecvSocket_get_recv_buf_def Y_RDMACMSocket_get_recv_buf_def view_poll bind_map_outcome
      map_bind_outcome case_prod_beta')

lemma view_fold:
  assumes "\<And>i r. f i (v r) = map_outcome v (g i r)"
  shows "fold_outcome f is (v r) = map_outcome v (fold_outcome g is r)"
  by (induction "is" arbitrary: r) (simp_all add: assms bind_map_outcome map_bind_outcome)

lemma view_setup_verbs_buf:
  "SendRecvSocket_setup_verbs_buf memalign reg_ok (so_view b x r) =
    map_outcome (so_view b x) (Y_RDMACMSocket_setup_verbs_buf memalign reg_ok r)"
proof -
  have step: "bind_outcome (SendRecvSocket_post_recv buf (so_view b x r)) (\<lambda>s. Ret (s\<lparr>so_send_bufs :=
        circular_push_back PACKET_WINDOW_SIZE (so_send_bufs s) buf'\<rparr>)) =
      map_outcome (so_view b x) (bind_outcome (Y_RDMACMSocket_post_recv buf r) (\<lambda>r. Ret (r\<lparr>Y_rs_send_bufs :=
        circular_push_back PACKET_WINDOW_SIZE (Y_rs_send_bufs r) buf'\<rparr>)))" for buf buf' r
    by (simp add: view_post bind_map_outcome map_bind_outcome)
  show ?thesis
    unfolding SendRecvSocket_setup_verbs_buf_def Y_RDMACMSocket_setup_verbs_buf_def
    by (auto simp: map_bind_outcome Let_def case_prod_beta' step intro!: bind_outcome_cong_Ret
        view_fold[where v = "so_view b x"])
qed

text \<open>Its endpoints are opened as those of the main tree are.\<close>

lemma Y_endpoints_alike:
  "Y_RDMACMSocket_connect = RDMAWriteSocket_connect"
  "Y_RDMACMServerSocket = RDMAWriteServerSocket"
  "Y_RDMACMServerSocket_accept = RDMAWriteServerSocket_accept"
  by (simp_all add: fun_eq_iff Y_RDMACMSocket_connect_def RDMAWriteSocket_connect_def Y_RDMACMServerSocket_def
      RDMAWriteServerSocket_def Y_RDMACMServerSocket_accept_def RDMAWriteServerSocket_accept_def)

end
