(* ===== verification/Ycsb_Sockets.thy ===== *)
theory Ycsb_Sockets
  imports Ycsb_Rdmacm
begin

text \<open>
  The socket classes of the YCSB copy: \<open>SendRecvSocket\<close>, \<open>RDMAWriteSocket\<close>, \<open>RDMAWriteImmSocket\<close> and
  \<open>TCPSocket\<close> with their acceptors (\<open>YCSB-0.5.0/include/net/\<close>, \<open>YCSB-0.5.0/src/net/\<close>).
\<close>

text \<open>\<open>send_buf.write(header).write(body, body_size)\<close> on a buffer of the socket.\<close>

definition Y_write_bytes :: "byte list \<Rightarrow> Y_rdmacm_socket \<times> buffer \<Rightarrow> (Y_rdmacm_socket \<times> buffer) outcome" where
  "Y_write_bytes src st =
     (let (r, b) = st in
      bind_outcome (Y_Buffer_write b src (Y_rs_mem r)) (\<lambda>(m, b). Ret (r\<lparr>Y_rs_mem := m\<rparr>, b)))"

section \<open>SendRecvSocket\<close>

record Y_sendrecv_socket =
  Y_so_msg_buf :: buffer
  Y_so_rsock :: Y_rdmacm_socket

definition Y_SendRecvSocket_new :: "Y_rdmacm_socket \<Rightarrow> Y_sendrecv_socket" where
  "Y_SendRecvSocket_new rsock = \<lparr>Y_so_msg_buf = Y_Buffer_default, Y_so_rsock = rsock\<rparr>"

definition Y_SendRecvSocket_connect :: "host_and_port \<Rightarrow> os \<Rightarrow> endpoint" where
  "Y_SendRecvSocket_connect hp os = Y_RDMACMSocket_connect hp os"

definition Y_SendRecvSocket_send_msg :: "message \<Rightarrow> Y_sendrecv_socket \<Rightarrow> Y_sendrecv_socket outcome" where
  "Y_SendRecvSocket_send_msg msg s =
     (let (header, body) = msg in
      bind_outcome (Y_RDMACMSocket_get_send_buf (Y_so_rsock s)) (\<lambda>st.
      bind_outcome (Y_write_bytes (header_bytes header) st) (\<lambda>st.
      bind_outcome (Y_write_bytes (take (hdr_body_size header) body) st) (\<lambda>(r, send_buf).
      bind_outcome (Y_RDMACMSocket_post_send send_buf r) (\<lambda>r. Ret (s\<lparr>Y_so_rsock := r\<rparr>))))))"

definition Y_SendRecvSocket_recv_header :: "Y_sendrecv_socket \<Rightarrow> (Y_sendrecv_socket \<times> message_header) outcome" where
  "Y_SendRecvSocket_recv_header s =
     bind_outcome (Y_RDMACMSocket_get_recv_buf (Y_so_rsock s)) (\<lambda>(r, b).
     bind_outcome (Y_Buffer_read b sizeof_MessageHeader (Y_rs_mem r)) (\<lambda>(b, hdr).
       Ret (s\<lparr>Y_so_rsock := r, Y_so_msg_buf := b\<rparr>, header_of_bytes hdr)))"

definition Y_SendRecvSocket_get_body :: "nat \<Rightarrow> Y_sendrecv_socket \<Rightarrow> nat" where
  "Y_SendRecvSocket_get_body body_size s = buf_addr (Y_so_msg_buf s) + sizeof_MessageHeader"

definition Y_SendRecvSocket_clear_msg_buf :: "Y_sendrecv_socket \<Rightarrow> Y_sendrecv_socket outcome" where
  "Y_SendRecvSocket_clear_msg_buf s =
     bind_outcome (Y_RDMACMSocket_post_recv (Y_so_msg_buf s) (Y_so_rsock s)) (\<lambda>r. Ret (s\<lparr>Y_so_rsock := r\<rparr>))"

text \<open>\<open>Communicator::recv\<close> up to the unpacking, on this class.\<close>

definition Y_SendRecvSocket_recv_msg :: "Y_sendrecv_socket \<Rightarrow> (Y_sendrecv_socket \<times> message) outcome" where
  "Y_SendRecvSocket_recv_msg s =
     bind_outcome (Y_SendRecvSocket_recv_header s) (\<lambda>(s, header).
     let body = mem_read (Y_rs_mem (Y_so_rsock s)) (Y_SendRecvSocket_get_body (hdr_body_size header) s) (hdr_body_size header)
     in bind_outcome (Y_SendRecvSocket_clear_msg_buf s) (\<lambda>s. Ret (s, (header, body))))"

definition Y_SendRecvSocket_send_close :: "nat \<times> nat \<Rightarrow> Y_sendrecv_socket \<Rightarrow> Y_sendrecv_socket outcome" where
  "Y_SendRecvSocket_send_close junk s =
     bind_outcome (Y_RDMACMSocket_get_send_buf (Y_so_rsock s)) (\<lambda>(r, send_buf).
     bind_outcome (Y_ibv_poll_send_cq PACKET_WINDOW_SIZE r) (\<lambda>(r, _).
     bind_outcome (Y_write_bytes (header_bytes (MessageHeader junk CLOSE 0)) (r, send_buf)) (\<lambda>(r, send_buf).
     bind_outcome (Y_RDMACMSocket_post_send send_buf r) (\<lambda>r. Ret (s\<lparr>Y_so_rsock := r\<rparr>)))))"

definition Y_SendRecvSocket_send_close_wait :: "Y_sendrecv_socket \<Rightarrow> Y_sendrecv_socket outcome" where
  "Y_SendRecvSocket_send_close_wait s =
     bind_outcome (Y_RDMACMSocket_poll_send_cq 1 (Y_so_rsock s)) (\<lambda>(r, _). Ret (s\<lparr>Y_so_rsock := r\<rparr>))"

section \<open>RDMAWriteSocket\<close>

record Y_rdma_write_socket =
  Y_rw_rsock :: Y_rdmacm_socket
  Y_rw_read_mr :: "nat option"
  Y_rw_write_buf :: buffer
  Y_rw_write_mr :: nat
  Y_rw_rka :: rka

definition Y_RDMAWriteSocket_setup_write_buf ::
    "nat option \<Rightarrow> nat option \<Rightarrow> 'a Y_rdma_write_socket_scheme \<Rightarrow> 'a Y_rdma_write_socket_scheme outcome" where
  "Y_RDMAWriteSocket_setup_write_buf memalign reg s =
     bind_outcome (Y_Buffer_allocate memalign PACKET_SIZE (Y_rs_mem (Y_rw_rsock s))) (\<lambda>(m, b).
       case reg of
         None \<Rightarrow> Dies Exit_failure
       | Some rkey \<Rightarrow> Ret (s\<lparr>Y_rw_rsock := (Y_rw_rsock s)\<lparr>Y_rs_mem := m\<rparr>, Y_rw_write_buf := b, Y_rw_write_mr := rkey\<rparr>))"

definition Y_RDMAWriteSocket_setup_read_buf ::
    "nat option \<Rightarrow> 'a Y_rdma_write_socket_scheme \<Rightarrow> 'a Y_rdma_write_socket_scheme outcome" where
  "Y_RDMAWriteSocket_setup_read_buf reg s =
     (case reg of None \<Rightarrow> Dies Exit_failure | Some rkey \<Rightarrow> Ret (s\<lparr>Y_rw_read_mr := Some rkey\<rparr>))"

text \<open>
  The constructor up to the send of its own key and address, and the rest, which waits for those of
  the peer.
\<close>

definition Y_RDMAWriteSocket_new ::
    "nat option \<Rightarrow> nat option \<Rightarrow> nat \<Rightarrow> Y_rdmacm_socket \<Rightarrow> Y_rdma_write_socket outcome" where
  "Y_RDMAWriteSocket_new memalign reg junk rsock =
     bind_outcome (Y_RDMAWriteSocket_setup_write_buf memalign reg
       \<lparr>Y_rw_rsock = rsock, Y_rw_read_mr = None, Y_rw_write_buf = Y_Buffer_default, Y_rw_write_mr = 0,
        Y_rw_rka = RemoteKeyAndAddr_default\<rparr>) (\<lambda>s.
     bind_outcome (Y_RDMACMSocket_get_send_buf (Y_rw_rsock s)) (\<lambda>st.
     let rka = RemoteKeyAndAddr (Y_rw_write_mr s) (buf_addr (Y_rw_write_buf s))
     in bind_outcome (Y_write_bytes (rka_bytes junk rka) st) (\<lambda>(r, send_buf).
        bind_outcome (Y_RDMACMSocket_post_send send_buf r) (\<lambda>r. Ret (s\<lparr>Y_rw_rsock := r\<rparr>)))))"

definition Y_RDMAWriteSocket_new_recv :: "'a Y_rdma_write_socket_scheme \<Rightarrow> 'a Y_rdma_write_socket_scheme outcome" where
  "Y_RDMAWriteSocket_new_recv s =
     bind_outcome (Y_RDMACMSocket_get_recv_buf (Y_rw_rsock s)) (\<lambda>(r, recv_buf).
     bind_outcome (Y_Buffer_read recv_buf sizeof_rka (Y_rs_mem r)) (\<lambda>(recv_buf, bs).
     bind_outcome (Y_RDMACMSocket_post_recv recv_buf r) (\<lambda>r.
       Ret (s\<lparr>Y_rw_rsock := r, Y_rw_rka := rka_of_bytes bs\<rparr>))))"

definition Y_RDMAWriteSocket_connect :: "host_and_port \<Rightarrow> os \<Rightarrow> endpoint" where
  "Y_RDMAWriteSocket_connect hp os = Y_RDMACMSocket_connect hp os"

text \<open>\<open>read\<close> up to its polling loop; the buffer that it will poll is the second result.\<close>

definition Y_RDMAWriteSocket_read ::
    "rka \<Rightarrow> 'a Y_rdma_write_socket_scheme \<Rightarrow> ('a Y_rdma_write_socket_scheme \<times> buffer) outcome" where
  "Y_RDMAWriteSocket_read rka s =
     bind_outcome (Y_RDMACMSocket_get_send_buf (Y_rw_rsock s)) (\<lambda>(r, read_buf).
     bind_outcome (Y_RDMACMSocket_post_read read_buf rka r) (\<lambda>r. Ret (s\<lparr>Y_rw_rsock := r\<rparr>, read_buf)))"

text \<open>The rest of \<open>read\<close>, on the copy \<open>rb\<close> of the entry that the RDMA read has left.\<close>

definition Y_RDMAWriteSocket_read_entry ::
    "'o msgpack \<Rightarrow> buffer \<Rightarrow> item \<Rightarrow> mem \<Rightarrow> (int \<times> item) outcome" where
  "Y_RDMAWriteSocket_read_entry mp rb it m =
     (if le_val (mem_read m (buf_addr rb + sizeof_int + offsetof_is_arrived) 4) = 0 then Blocks
      else bind_outcome (Y_Buffer_read rb sizeof_int m) (\<lambda>(rb1, flag).
        bind_outcome (Y_Buffer_read rb1 sizeof_MessageHeader m) (\<lambda>(rb2, hdr).
          let header = header_of_bytes hdr;
              body = buf_addr rb + sizeof_int + sizeof_MessageHeader
          in if le_val flag \<noteq> 0 then Ret (-1, it)
             else if le_val (mem_read m (body + hdr_body_size header) 4) = 0 then Blocks
             else (case mp_next mp (mem_read m body (hdr_body_size header)) of
                 Next_incomplete \<Rightarrow> Ret (-1, it)
               | Next_error _ \<Rightarrow> Dies Uncaught_exception
               | Next_object obj _ \<Rightarrow>
                   (case mp_convert mp obj (Item_arg it) of
                      (Item_arg it', True) \<Rightarrow> Ret (0, it')
                    | (Item_arg it', False) \<Rightarrow> Ret (-1, it')
                    | _ \<Rightarrow> Ret (-1, it))))))"

definition Y_write_arrived :: "message \<Rightarrow> Y_rdmacm_socket \<times> buffer \<Rightarrow> (Y_rdmacm_socket \<times> buffer) outcome" where
  "Y_write_arrived msg st =
     (let (header, body) = msg; is_arrived = 0xffffffff in
      bind_outcome (Y_write_bytes (header_bytes header) st) (\<lambda>st.
      bind_outcome (Y_write_bytes (take (hdr_body_size header) body) st) (\<lambda>st.
        Y_write_bytes (le_bytes 4 is_arrived) st)))"

definition Y_RDMAWriteSocket_send_msg :: "message \<Rightarrow> Y_rdma_write_socket \<Rightarrow> Y_rdma_write_socket outcome" where
  "Y_RDMAWriteSocket_send_msg msg s =
     bind_outcome (Y_RDMACMSocket_get_send_buf (Y_rw_rsock s)) (\<lambda>st.
     bind_outcome (Y_write_arrived msg st) (\<lambda>(r, send_buf).
     bind_outcome (Y_RDMACMSocket_post_write send_buf (Y_rw_rka s) r) (\<lambda>r. Ret (s\<lparr>Y_rw_rsock := r\<rparr>))))"

definition Y_RDMAWriteSocket_recv_header :: "Y_rdma_write_socket \<Rightarrow> (Y_rdma_write_socket \<times> message_header) outcome" where
  "Y_RDMAWriteSocket_recv_header s =
     (let m = Y_rs_mem (Y_rw_rsock s) in
      if le_val (mem_read m (buf_addr (Y_rw_write_buf s) + offsetof_is_arrived) 4) = 0 then Blocks
      else bind_outcome (Y_Buffer_read (Y_rw_write_buf s) sizeof_MessageHeader m) (\<lambda>(b, hdr).
        Ret (s\<lparr>Y_rw_write_buf := b\<rparr>, header_of_bytes hdr)))"

definition Y_RDMAWriteSocket_get_body :: "nat \<Rightarrow> Y_rdma_write_socket \<Rightarrow> nat outcome" where
  "Y_RDMAWriteSocket_get_body body_size s =
     (if le_val (mem_read (Y_rs_mem (Y_rw_rsock s)) (buf_addr (Y_rw_write_buf s) + sizeof_MessageHeader + body_size) 4) = 0
      then Blocks
      else Ret (buf_addr (Y_rw_write_buf s) + sizeof_MessageHeader))"

definition Y_RDMAWriteSocket_clear_msg_buf :: "'a Y_rdma_write_socket_scheme \<Rightarrow> 'a Y_rdma_write_socket_scheme" where
  "Y_RDMAWriteSocket_clear_msg_buf s =
     (let (r, b) = Y_clear_buf (Y_rw_write_buf s) (Y_rw_rsock s) in s\<lparr>Y_rw_rsock := r, Y_rw_write_buf := b\<rparr>)"

definition Y_RDMAWriteSocket_recv_msg :: "Y_rdma_write_socket \<Rightarrow> (Y_rdma_write_socket \<times> message) outcome" where
  "Y_RDMAWriteSocket_recv_msg s =
     bind_outcome (Y_RDMAWriteSocket_recv_header s) (\<lambda>(s, header).
     bind_outcome (Y_RDMAWriteSocket_get_body (hdr_body_size header) s) (\<lambda>p.
       let body = mem_read (Y_rs_mem (Y_rw_rsock s)) p (hdr_body_size header)
       in Ret (Y_RDMAWriteSocket_clear_msg_buf s, (header, body))))"

definition Y_RDMAWriteSocket_send_close :: "nat \<times> nat \<Rightarrow> Y_rdma_write_socket \<Rightarrow> Y_rdma_write_socket outcome" where
  "Y_RDMAWriteSocket_send_close junk s =
     bind_outcome (Y_RDMACMSocket_get_send_buf (Y_rw_rsock s)) (\<lambda>(r, send_buf).
     bind_outcome (Y_ibv_poll_send_cq PACKET_WINDOW_SIZE r) (\<lambda>(r, _).
     bind_outcome (Y_write_arrived (MessageHeader junk CLOSE 0, []) (r, send_buf)) (\<lambda>(r, send_buf).
     bind_outcome (Y_RDMACMSocket_post_write send_buf (Y_rw_rka s) r) (\<lambda>r. Ret (s\<lparr>Y_rw_rsock := r\<rparr>)))))"

definition Y_RDMAWriteSocket_send_close_wait :: "'a Y_rdma_write_socket_scheme \<Rightarrow> 'a Y_rdma_write_socket_scheme outcome" where
  "Y_RDMAWriteSocket_send_close_wait s =
     bind_outcome (Y_RDMACMSocket_poll_send_cq 1 (Y_rw_rsock s)) (\<lambda>(r, _). Ret (s\<lparr>Y_rw_rsock := r\<rparr>))"

section \<open>RDMAWriteImmSocket\<close>

record Y_rdma_write_imm_socket = Y_rdma_write_socket +
  Y_rwi_msg_buf :: buffer

definition Y_RDMAWriteImmSocket_connect :: "host_and_port \<Rightarrow> os \<Rightarrow> endpoint" where
  "Y_RDMAWriteImmSocket_connect hp os = Y_RDMACMSocket_connect hp os"

definition Y_RDMAWriteImmSocket_send_msg :: "message \<Rightarrow> Y_rdma_write_imm_socket \<Rightarrow> Y_rdma_write_imm_socket outcome" where
  "Y_RDMAWriteImmSocket_send_msg msg s =
     bind_outcome (Y_RDMACMSocket_get_send_buf (Y_rw_rsock s)) (\<lambda>st.
     bind_outcome (Y_write_arrived msg st) (\<lambda>(r, send_buf).
     bind_outcome (Y_RDMACMSocket_post_write_imm send_buf (Y_rw_rka s) r) (\<lambda>r. Ret (s\<lparr>Y_rw_rsock := r\<rparr>))))"

definition Y_RDMAWriteImmSocket_recv_header :: "Y_rdma_write_imm_socket \<Rightarrow> (Y_rdma_write_imm_socket \<times> message_header) outcome" where
  "Y_RDMAWriteImmSocket_recv_header s =
     bind_outcome (Y_RDMACMSocket_get_recv_buf (Y_rw_rsock s)) (\<lambda>(r, msg_buf).
     bind_outcome (Y_Buffer_read (Y_rw_write_buf s) sizeof_MessageHeader (Y_rs_mem r)) (\<lambda>(b, hdr).
       Ret (s\<lparr>Y_rw_rsock := r, Y_rwi_msg_buf := msg_buf, Y_rw_write_buf := b\<rparr>, header_of_bytes hdr)))"

definition Y_RDMAWriteImmSocket_get_body :: "nat \<Rightarrow> Y_rdma_write_imm_socket \<Rightarrow> nat" where
  "Y_RDMAWriteImmSocket_get_body body_size s = buf_addr (Y_rw_write_buf s) + sizeof_MessageHeader"

definition Y_RDMAWriteImmSocket_clear_msg_buf :: "Y_rdma_write_imm_socket \<Rightarrow> Y_rdma_write_imm_socket outcome" where
  "Y_RDMAWriteImmSocket_clear_msg_buf s =
     (let (r, b) = Y_clear_buf (Y_rw_write_buf s) (Y_rw_rsock s)
      in bind_outcome (Y_RDMACMSocket_post_recv (Y_rwi_msg_buf s) r) (\<lambda>r.
           Ret (s\<lparr>Y_rw_rsock := r, Y_rw_write_buf := b\<rparr>)))"

definition Y_RDMAWriteImmSocket_recv_msg :: "Y_rdma_write_imm_socket \<Rightarrow> (Y_rdma_write_imm_socket \<times> message) outcome" where
  "Y_RDMAWriteImmSocket_recv_msg s =
     bind_outcome (Y_RDMAWriteImmSocket_recv_header s) (\<lambda>(s, header).
     let body = mem_read (Y_rs_mem (Y_rw_rsock s)) (Y_RDMAWriteImmSocket_get_body (hdr_body_size header) s) (hdr_body_size header)
     in bind_outcome (Y_RDMAWriteImmSocket_clear_msg_buf s) (\<lambda>s. Ret (s, (header, body))))"

definition Y_RDMAWriteImmSocket_send_close :: "nat \<times> nat \<Rightarrow> Y_rdma_write_imm_socket \<Rightarrow> Y_rdma_write_imm_socket outcome" where
  "Y_RDMAWriteImmSocket_send_close junk s =
     bind_outcome (Y_RDMACMSocket_get_send_buf (Y_rw_rsock s)) (\<lambda>(r, send_buf).
     bind_outcome (Y_ibv_poll_send_cq PACKET_WINDOW_SIZE r) (\<lambda>(r, _).
     bind_outcome (Y_write_arrived (MessageHeader junk CLOSE 0, []) (r, send_buf)) (\<lambda>(r, send_buf).
     bind_outcome (Y_RDMACMSocket_post_write_imm send_buf (Y_rw_rka s) r) (\<lambda>r. Ret (s\<lparr>Y_rw_rsock := r\<rparr>)))))"

end
