(* ===== verification/Ycsb_Simulation.thy ===== *)
theory Ycsb_Simulation
  imports Ycsb_Sockets
begin

text \<open>
  The sockets of the YCSB copy are those of the main tree, divided into two objects: every sequence of
  operations, whatever the device does in between, has the same results on a socket of this copy and
  on its view as a socket of the main tree.
\<close>

section \<open>Simulation of outcomes\<close>

text \<open>\<open>m\<close> is \<open>n\<close> seen through \<open>W\<close>, and \<open>P\<close> holds of what \<open>n\<close> returns.\<close>

definition simulated :: "('a \<Rightarrow> 'b) \<Rightarrow> ('a \<Rightarrow> bool) \<Rightarrow> 'b outcome \<Rightarrow> 'a outcome \<Rightarrow> bool" where
  "simulated W P m n \<longleftrightarrow> m = map_outcome W n \<and> (\<forall>x. n = Ret x \<longrightarrow> P x)"

definition on_fst :: "('a \<Rightarrow> 'b) \<Rightarrow> 'a \<times> 'c \<Rightarrow> 'b \<times> 'c" where
  "on_fst v p = (v (fst p), snd p)"

lemma on_fst_pair [simp]: "on_fst v (a, c) = (v a, c)"
  by (simp add: on_fst_def)

lemma case_on_fst: "(\<lambda>(a, c). (v a, c)) = on_fst v"
  by (simp add: fun_eq_iff)

lemma simulated_bind:
  assumes "simulated V Q m n" and "\<And>x. Q x \<Longrightarrow> simulated W P (f (V x)) (g x)"
  shows "simulated W P (bind_outcome m f) (bind_outcome n g)"
  using assms by (cases n) (auto simp: simulated_def)

lemma simulated_bind2:
  assumes "simulated (on_fst v) Q m n" and "\<And>a c. Q (a, c) \<Longrightarrow> simulated W P (f (v a) c) (g a c)"
  shows "simulated W P (bind_outcome m (\<lambda>(a, c). f a c)) (bind_outcome n (\<lambda>(a, c). g a c))"
  using assms by (intro simulated_bind[OF assms(1)]) auto

lemma simulated_last:
  assumes "simulated V Q m n" and "\<And>x. Q x \<Longrightarrow> P (h x) \<and> W (h x) = V x"
  shows "simulated W P m (bind_outcome n (\<lambda>x. Ret (h x)))"
  using assms by (cases n) (auto simp: simulated_def)

lemma simulated_Ret: "P x \<Longrightarrow> y = W x \<Longrightarrow> simulated W P (Ret y) (Ret x)"
  by (simp add: simulated_def)

lemma simulated_stuck [simp]: "simulated W P (Dies e) (Dies e)" "simulated W P Blocks Blocks"
  by (simp_all add: simulated_def)

text \<open>A sequence of operations and its op_results.\<close>

fun op_results :: "('op \<Rightarrow> 'u \<Rightarrow> ('u \<times> 'r) outcome) \<Rightarrow> 'op list \<Rightarrow> 'u \<Rightarrow> ('u \<times> 'r list) outcome" where
  "op_results st [] s = Ret (s, [])"
| "op_results st (x # xs) s =
     bind_outcome (st x s) (\<lambda>(s, r). bind_outcome (op_results st xs s) (\<lambda>(s, rs). Ret (s, r # rs)))"

locale socket_simulation =
  fixes view :: "'s \<Rightarrow> 't"
    and inv :: "'s \<Rightarrow> bool"
    and ok :: "'op \<Rightarrow> bool"
    and mstep :: "'op \<Rightarrow> 't \<Rightarrow> ('t \<times> 'r) outcome"
    and ystep :: "'op \<Rightarrow> 's \<Rightarrow> ('s \<times> 'r) outcome"
  assumes step: "inv s \<Longrightarrow> ok x \<Longrightarrow>
    simulated (on_fst view) (\<lambda>(s', _). inv s') (mstep x (view s)) (ystep x s)"
begin

lemma simulates:
  assumes "inv s" and "list_all ok xs"
  shows "simulated (on_fst view) (\<lambda>(s', _). inv s') (op_results mstep xs (view s)) (op_results ystep xs s)"
  using assms
proof (induction xs arbitrary: s)
  case Nil
  then show ?case by (simp add: simulated_Ret)
next
  case (Cons x xs)
  show ?case
    unfolding op_results.simps
  proof (rule simulated_bind[OF step])
    fix y :: "'s \<times> 'r" assume y: "case y of (s', _) \<Rightarrow> inv s'"
    obtain s' r where [simp]: "y = (s', r)" by (cases y)
    have "simulated (on_fst view) (\<lambda>(s', _). inv s') (op_results mstep xs (view s')) (op_results ystep xs s')"
      using Cons.IH[of s'] Cons.prems(2) y by simp
    then show "simulated (on_fst view) (\<lambda>(s', _). inv s')
        (case on_fst view y of (s, r) \<Rightarrow> bind_outcome (op_results mstep xs s) (\<lambda>(s, rs). Ret (s, r # rs)))
        (case y of (s, r) \<Rightarrow> bind_outcome (op_results ystep xs s) (\<lambda>(s, rs). Ret (s, r # rs)))"
      by (auto intro!: simulated_bind simulated_Ret)
  qed (use Cons.prems in simp_all)
qed

end

section \<open>The verbs layer\<close>

text \<open>Completions name memory in the lower half of the address space.\<close>

definition low_qp :: "qp \<Rightarrow> bool" where
  "low_qp q \<longleftrightarrow> (\<forall>a \<in> set (qp_send_cq q). a + PACKET_SIZE < 2 ^ 63) \<and> (\<forall>(a, n) \<in> set (qp_recv_cq q). a + n < 2 ^ 63)"

definition low_rs :: "Y_rdmacm_socket \<Rightarrow> bool" where
  "low_rs r \<longleftrightarrow> low_qp (Y_rs_qp r) \<and> (\<forall>b \<in> set (Y_rs_send_bufs r). low_buffer b)"

lemma low_buffer_on: "a + n < 2 ^ 63 \<Longrightarrow> low_buffer (Buffer_on a n)"
  by (simp add: low_buffer_def)

lemma low_buffer_clear: "low_buffer b \<Longrightarrow> low_buffer (snd (Buffer_clear b m))"
  by (simp add: low_buffer_def Buffer_clear_def Buffer_ok_def)

lemma low_fold_push:
  assumes "\<forall>b \<in> set bs. low_buffer b" and "\<forall>a \<in> set ids. a + PACKET_SIZE < 2 ^ 63"
  shows "\<forall>b \<in> set (fold (\<lambda>a bs. circular_push_back PACKET_WINDOW_SIZE bs (Buffer_on a PACKET_SIZE)) ids bs). low_buffer b"
  using assms
proof (induction ids arbitrary: bs)
  case (Cons a ids)
  have "set (circular_push_back PACKET_WINDOW_SIZE bs (Buffer_on a PACKET_SIZE)) \<subseteq> insert (Buffer_on a PACKET_SIZE) (set bs)"
    by (cases bs) (auto simp: circular_push_back_def)
  then have "\<forall>b \<in> set (circular_push_back PACKET_WINDOW_SIZE bs (Buffer_on a PACKET_SIZE)). low_buffer b"
    using Cons.prems low_buffer_on[of a PACKET_SIZE] by auto
  from Cons.IH[OF this] Cons.prems show ?case by simp
qed simp

lemma low_rs_clear: "low_rs r \<Longrightarrow> low_rs (fst (Y_clear_buf b r))"
  by (simp add: low_rs_def Y_clear_buf_def case_prod_beta' Let_def)

lemma Y_clear_buf_snd: "snd (Y_clear_buf b r) = snd (Buffer_clear b (Y_rs_mem r))"
  by (simp add: Y_clear_buf_def case_prod_beta' Let_def)

lemma get_send_buf_low:
  assumes "low_rs r" and "Y_RDMACMSocket_get_send_buf r = Ret (r', b)"
  shows "low_rs r' \<and> low_buffer b"
proof (cases "Y_rs_send_bufs r")
  case Nil
  let ?cq = "qp_send_cq (Y_rs_qp r)"
  let ?r = "r\<lparr>Y_rs_qp := (Y_rs_qp r)\<lparr>qp_send_cq := drop PACKET_WINDOW_SIZE ?cq\<rparr>,
      Y_rs_send_bufs := fold (\<lambda>a bs. circular_push_back PACKET_WINDOW_SIZE bs (Buffer_on a PACKET_SIZE)) (tl (take PACKET_WINDOW_SIZE ?cq)) []\<rparr>"
  have ne: "take PACKET_WINDOW_SIZE ?cq \<noteq> []" and rb: "r' = fst (Y_clear_buf (Buffer_on (hd (take PACKET_WINDOW_SIZE ?cq)) PACKET_SIZE) ?r)"
    "b = snd (Y_clear_buf (Buffer_on (hd (take PACKET_WINDOW_SIZE ?cq)) PACKET_SIZE) ?r)"
    using assms(2) Nil
    by (auto simp: Y_RDMACMSocket_get_send_buf_def Y_RDMACMSocket_poll_send_cq_def bind_outcome_Ret_iff fold_push_rsock
        Let_def split: if_splits)
  have cq: "\<forall>a \<in> set ?cq. a + PACKET_SIZE < 2 ^ 63" and rcq: "\<forall>(a, n) \<in> set (qp_recv_cq (Y_rs_qp r)). a + n < 2 ^ 63"
    using assms(1) by (simp_all add: low_rs_def low_qp_def)
  have "\<forall>a \<in> set (tl (take PACKET_WINDOW_SIZE ?cq)). a + PACKET_SIZE < 2 ^ 63"
    using cq by (meson in_set_takeD list.set_sel(2) ne)
  from low_fold_push[OF _ this, of "[]"] have "low_rs ?r"
    using cq rcq by (auto simp: low_rs_def low_qp_def dest: in_set_dropD)
  moreover have "low_buffer (Buffer_on (hd (take PACKET_WINDOW_SIZE ?cq)) PACKET_SIZE)"
    using cq ne by (intro low_buffer_on) (meson hd_in_set in_set_takeD)
  ultimately show ?thesis
    unfolding rb Y_clear_buf_snd by (simp add: low_rs_clear low_buffer_clear)
next
  case (Cons c cs)
  then have "r' = fst (Y_clear_buf c (r\<lparr>Y_rs_send_bufs := cs\<rparr>))" "b = snd (Y_clear_buf c (r\<lparr>Y_rs_send_bufs := cs\<rparr>))"
    using assms(2) by (simp_all add: Y_RDMACMSocket_get_send_buf_def)
  moreover have "low_rs (r\<lparr>Y_rs_send_bufs := cs\<rparr>)" "low_buffer c" using assms(1) Cons by (simp_all add: low_rs_def)
  ultimately show ?thesis by (simp add: low_rs_clear low_buffer_clear Y_clear_buf_snd)
qed

text \<open>With the message buffer and the other members fixed, each step of the verbs layer is simulated.\<close>

abbreviation so_views :: "buffer \<Rightarrow> 'a \<Rightarrow> Y_rdmacm_socket \<times> 'b \<Rightarrow> 'a sendrecv_socket_scheme \<times> 'b" where
  "so_views b x \<equiv> on_fst (so_view b x)"

abbreviation low_both :: "Y_rdmacm_socket \<times> buffer \<Rightarrow> bool" where
  "low_both p \<equiv> low_rs (fst p) \<and> low_buffer (snd p)"

lemma sim_get_send:
  assumes "low_rs r"
  shows "simulated (so_views b x) low_both (SendRecvSocket_get_send_buf (so_view b x r)) (Y_RDMACMSocket_get_send_buf r)"
  using get_send_buf_low[OF assms]
  by (auto simp: simulated_def view_get_send_buf case_on_fst)

lemma sim_get_recv:
  assumes "low_rs r"
  shows "simulated (so_views b x) low_both (SendRecvSocket_get_recv_buf (so_view b x r)) (Y_RDMACMSocket_get_recv_buf r)"
proof -
  have "low_both (r', c)" if g: "Y_RDMACMSocket_get_recv_buf r = Ret (r', c)" for r' c
  proof -
    obtain a n cq where cq: "qp_recv_cq (Y_rs_qp r) = (a, n) # cq" and r': "r' = r\<lparr>Y_rs_qp := (Y_rs_qp r)\<lparr>qp_recv_cq := cq\<rparr>\<rparr>" "c = Buffer_on a n"
      using g by (cases "qp_recv_cq (Y_rs_qp r)")
        (auto simp: Y_RDMACMSocket_get_recv_buf_def Y_RDMACMSocket_poll_recv_cq_def Let_def bind_outcome_Ret_iff split: if_splits)
    then show ?thesis using assms low_buffer_on[of a n] by (auto simp: low_rs_def low_qp_def cq)
  qed
  then show ?thesis by (auto simp: simulated_def view_get_recv_buf case_on_fst)
qed

lemma sim_write:
  assumes "low_both p" and "length src < 2 ^ 63"
  shows "simulated (so_views b x) low_both (append_bytes src (so_views b x p)) (Y_write_bytes src p)"
proof (cases p)
  case (Pair r c)
  have "simulated (\<lambda>q. q) (\<lambda>(m, c). low_buffer c) (Buffer_append c src (Y_rs_mem r)) (Y_Buffer_write c src (Y_rs_mem r))"
    using assms low_buffer_append[OF _ assms(2)] by (auto simp: Pair simulated_def Y_Buffer_write_eq outcome.map_ident)
  then show ?thesis
    unfolding append_bytes_def Y_write_bytes_def
    by (auto simp: Pair intro!: simulated_bind simulated_Ret) (use assms in \<open>auto simp: Pair low_rs_def\<close>)
qed

lemma sim_read:
  assumes "low_buffer c" and "n < 2 ^ 63"
  shows "simulated (\<lambda>q. q) (\<lambda>(c, _). low_buffer c) (Buffer_read c n m) (Y_Buffer_read c n m)"
  using assms by (auto simp: simulated_def Y_Buffer_read_eq outcome.map_ident Buffer_read_iff low_buffer_def Buffer_ok_def split: if_splits)

lemma sim_post:
  assumes "low_rs r"
  shows "simulated (so_view b x) low_rs (SendRecvSocket_post_send c (so_view b x r)) (Y_RDMACMSocket_post_send c r)"
    and "simulated (so_view b x) low_rs (SendRecvSocket_post_recv c (so_view b x r)) (Y_RDMACMSocket_post_recv c r)"
  using assms by (auto simp: simulated_def view_post Y_RDMACMSocket_post_send_def Y_RDMACMSocket_post_recv_def low_rs_def low_qp_def
      split: if_splits)

lemma sim_post_rdma:
  assumes "low_rs r"
  shows "simulated (so_view b x) low_rs (RDMAWriteSocket_post_write c rka (so_view b x r)) (Y_RDMACMSocket_post_write c rka r)"
    and "simulated (so_view b x) low_rs (RDMAWriteSocket_post_read c rka (so_view b x r)) (Y_RDMACMSocket_post_read c rka r)"
    and "simulated (so_view b x) low_rs (RDMAWriteImmSocket_post_write_imm c rka (so_view b x r)) (Y_RDMACMSocket_post_write_imm c rka r)"
  using assms by (auto simp: simulated_def view_post_rdma Y_RDMACMSocket_post_write_def Y_RDMACMSocket_post_read_def
      Y_RDMACMSocket_post_write_imm_def low_rs_def low_qp_def split: if_splits)

lemma sim_poll:
  assumes "low_rs r"
  shows "simulated (so_views b x) (\<lambda>(r, _). low_rs r) (SendRecvSocket_poll_send_cq n (so_view b x r)) (Y_RDMACMSocket_poll_send_cq n r)"
    and "simulated (so_views b x) (\<lambda>(r, _). low_rs r) (ibv_poll_send_cq n (so_view b x r)) (Y_ibv_poll_send_cq n r)"
  using assms by (auto simp: simulated_def view_poll case_on_fst Y_RDMACMSocket_poll_send_cq_def Y_ibv_poll_send_cq_def
      low_rs_def low_qp_def Let_def dest: in_set_dropD split: if_splits)

section \<open>Send and receive\<close>

datatype socket_op = Op_device mem qp | Op_send message | Op_recv | Op_close "nat \<times> nat" | Op_close_wait

datatype socket_result = Done | Received message | Reading buffer

text \<open>\<open>Op_device\<close>: between two calls the device changes memory and queues in any way.\<close>

fun ok_op :: "socket_op \<Rightarrow> bool" where
  "ok_op (Op_device m q) \<longleftrightarrow> low_qp q"
| "ok_op (Op_send msg) \<longleftrightarrow> length (snd msg) < 2 ^ 63"
| "ok_op _ \<longleftrightarrow> True"

fun sr_op :: "socket_op \<Rightarrow> sendrecv_socket \<Rightarrow> (sendrecv_socket \<times> socket_result) outcome" where
  "sr_op (Op_device m q) s = Ret (s\<lparr>so_mem := m, so_qp := q\<rparr>, Done)"
| "sr_op (Op_send msg) s = bind_outcome (SendRecvSocket_send_msg msg s) (\<lambda>s. Ret (s, Done))"
| "sr_op Op_recv s = bind_outcome (SendRecvSocket_recv_msg s) (\<lambda>(s, msg). Ret (s, Received msg))"
| "sr_op (Op_close junk) s = bind_outcome (SendRecvSocket_send_close junk s) (\<lambda>s. Ret (s, Done))"
| "sr_op Op_close_wait s = bind_outcome (SendRecvSocket_send_close_wait s) (\<lambda>s. Ret (s, Done))"

fun Y_sr_op :: "socket_op \<Rightarrow> Y_sendrecv_socket \<Rightarrow> (Y_sendrecv_socket \<times> socket_result) outcome" where
  "Y_sr_op (Op_device m q) s = Ret (s\<lparr>Y_so_rsock := (Y_so_rsock s)\<lparr>Y_rs_mem := m, Y_rs_qp := q\<rparr>\<rparr>, Done)"
| "Y_sr_op (Op_send msg) s = bind_outcome (Y_SendRecvSocket_send_msg msg s) (\<lambda>s. Ret (s, Done))"
| "Y_sr_op Op_recv s = bind_outcome (Y_SendRecvSocket_recv_msg s) (\<lambda>(s, msg). Ret (s, Received msg))"
| "Y_sr_op (Op_close junk) s = bind_outcome (Y_SendRecvSocket_send_close junk s) (\<lambda>s. Ret (s, Done))"
| "Y_sr_op Op_close_wait s = bind_outcome (Y_SendRecvSocket_send_close_wait s) (\<lambda>s. Ret (s, Done))"

definition sr_view :: "Y_sendrecv_socket \<Rightarrow> sendrecv_socket" where
  "sr_view s = so_view (Y_so_msg_buf s) () (Y_so_rsock s)"

abbreviation low_sr :: "Y_sendrecv_socket \<Rightarrow> bool" where
  "low_sr s \<equiv> low_rs (Y_so_rsock s)"

lemma sr_view_sel [simp]:
  "so_mem (sr_view s) = Y_rs_mem (Y_so_rsock s)" "so_msg_buf (sr_view s) = Y_so_msg_buf s"
  by (simp_all add: sr_view_def)

lemma sr_send_simulated:
  assumes "low_sr s" and "length (snd msg) < 2 ^ 63"
  shows "simulated sr_view low_sr (SendRecvSocket_send_msg msg (sr_view s)) (Y_SendRecvSocket_send_msg msg s)"
proof (cases msg)
  case (Pair header body)
  show ?thesis
    unfolding SendRecvSocket_send_msg_def Y_SendRecvSocket_send_msg_def sr_view_def Pair Let_def case_prod_conv
    using assms
    by (intro simulated_bind[OF sim_get_send] simulated_bind[OF sim_write])
      (auto simp: Pair sr_view_def intro!: simulated_last[OF sim_post(1)])
qed

lemma sr_header_simulated:
  assumes "low_sr s"
  shows "simulated (on_fst sr_view) (\<lambda>(s, _). low_sr s) (SendRecvSocket_recv_header (sr_view s)) (Y_SendRecvSocket_recv_header s)"
  unfolding SendRecvSocket_recv_header_def Y_SendRecvSocket_recv_header_def sr_view_def
  by (rule simulated_bind[OF sim_get_recv[OF assms]])
    (auto simp: sr_view_def sizeof_simps intro!: simulated_bind[OF sim_read] simulated_Ret)

lemma sr_clear_simulated:
  assumes "low_sr s"
  shows "simulated sr_view low_sr (SendRecvSocket_clear_msg_buf (sr_view s)) (Y_SendRecvSocket_clear_msg_buf s)"
  unfolding SendRecvSocket_clear_msg_buf_def Y_SendRecvSocket_clear_msg_buf_def
  using assms by (auto simp: sr_view_def intro!: simulated_last[OF sim_post(2)])

lemma sr_recv_simulated:
  assumes "low_sr s"
  shows "simulated (on_fst sr_view) (\<lambda>(s, _). low_sr s) (SendRecvSocket_recv_msg (sr_view s)) (Y_SendRecvSocket_recv_msg s)"
  unfolding SendRecvSocket_recv_msg_def Y_SendRecvSocket_recv_msg_def Let_def SendRecvSocket_get_body_def
    Y_SendRecvSocket_get_body_def
proof (rule simulated_bind2[OF sr_header_simulated[OF assms]], unfold case_prod_conv)
  fix s' h assume "low_sr s'"
  from sr_clear_simulated[OF this]
  show "simulated (on_fst sr_view) (\<lambda>(s, _). low_sr s)
     (bind_outcome (SendRecvSocket_clear_msg_buf (sr_view s'))
       (\<lambda>s. Ret (s, h, mem_read (so_mem (sr_view s')) (buf_addr (so_msg_buf (sr_view s')) + sizeof_MessageHeader) (hdr_body_size h))))
     (bind_outcome (Y_SendRecvSocket_clear_msg_buf s')
       (\<lambda>s. Ret (s, h, mem_read (Y_rs_mem (Y_so_rsock s')) (buf_addr (Y_so_msg_buf s') + sizeof_MessageHeader) (hdr_body_size h))))"
    by (rule simulated_bind) (simp add: simulated_def)
qed

lemma sr_close_simulated:
  assumes "low_sr s"
  shows "simulated sr_view low_sr (SendRecvSocket_send_close junk (sr_view s)) (Y_SendRecvSocket_send_close junk s)"
proof -
  have h: "length (header_bytes (MessageHeader junk CLOSE 0)) < 2 ^ 63" by simp
  show ?thesis
    unfolding SendRecvSocket_send_close_def Y_SendRecvSocket_send_close_def sr_view_def
  proof (rule simulated_bind2[OF sim_get_send[OF assms]], rule simulated_bind2[OF sim_poll(2)], simp,
      rule simulated_bind2[OF sim_write[OF _ h, of "(r, c)" for r c, unfolded on_fst_pair]])
  qed (auto intro!: simulated_last[OF sim_post(1)])
qed

lemma sr_close_wait_simulated:
  assumes "low_sr s"
  shows "simulated sr_view low_sr (SendRecvSocket_send_close_wait (sr_view s)) (Y_SendRecvSocket_send_close_wait s)"
  unfolding SendRecvSocket_send_close_wait_def Y_SendRecvSocket_send_close_wait_def sr_view_def
  by (rule simulated_bind2[OF sim_poll(1)[OF assms]]) (simp add: simulated_def)

lemma simulated_done:
  assumes "simulated v P m n"
  shows "simulated (on_fst v) (\<lambda>(s, _). P s) (bind_outcome m (\<lambda>s. Ret (s, d))) (bind_outcome n (\<lambda>s. Ret (s, d)))"
  by (rule simulated_bind[OF assms]) (simp add: simulated_def)

lemma simulated_result:
  assumes "simulated (on_fst v) (\<lambda>(s, _). P s) m n"
  shows "simulated (on_fst v) (\<lambda>(s, _). P s) (bind_outcome m (\<lambda>(s, x). Ret (s, d x))) (bind_outcome n (\<lambda>(s, x). Ret (s, d x)))"
  by (rule simulated_bind2[OF assms]) (simp add: simulated_def)

lemmas sr_simulated = simulated_done[OF sr_send_simulated] simulated_result[OF sr_recv_simulated]
  simulated_done[OF sr_close_simulated] simulated_done[OF sr_close_wait_simulated]

interpretation sr_sim: socket_simulation sr_view low_sr ok_op sr_op Y_sr_op
proof unfold_locales
  fix s x
  assume s: "low_sr s" and x: "ok_op x"
  show "simulated (on_fst sr_view) (\<lambda>(s', _). low_sr s') (sr_op x (sr_view s)) (Y_sr_op x s)"
  proof (cases x)
    case (Op_device m q)
    then show ?thesis using s x by (simp add: simulated_def sr_view_def low_rs_def)
  qed (use s x in \<open>simp_all add: sr_simulated\<close>)
qed

end
