(* ===== verification/Ycsb_Rdma_Simulation.thy ===== *)
theory Ycsb_Rdma_Simulation
  imports Ycsb_Simulation
begin

text \<open>The simulation for the two RDMA write classes.\<close>

definition rw_ext :: "'a Y_rdma_write_socket_scheme \<Rightarrow> unit rdma_write_socket_ext" where
  "rw_ext s = \<lparr>rw_read_mr = Y_rw_read_mr s, rw_write_buf = Y_rw_write_buf s, rw_write_mr = Y_rw_write_mr s, rw_rka = Y_rw_rka s\<rparr>"

definition rw_view :: "buffer \<Rightarrow> 'a Y_rdma_write_socket_scheme \<Rightarrow> rdma_write_socket" where
  "rw_view b s = so_view b (rw_ext s) (Y_rw_rsock s)"

lemma rw_ext_simps [simp]:
  "rw_ext (s\<lparr>Y_rw_rsock := r\<rparr>) = rw_ext s" "rw_ext (t\<lparr>Y_rwi_msg_buf := c\<rparr>) = rw_ext t"
  "rw_ext (s\<lparr>Y_rw_rsock := r, Y_rw_write_buf := w\<rparr>) = rw_ext (s\<lparr>Y_rw_write_buf := w\<rparr>)"
  "rw_ext (s\<lparr>Y_rw_rsock := r, Y_rw_write_buf := w, Y_rw_write_mr := n\<rparr>) = rw_ext (s\<lparr>Y_rw_write_buf := w, Y_rw_write_mr := n\<rparr>)"
  "rw_ext (s\<lparr>Y_rw_rsock := r, Y_rw_rka := k\<rparr>) = rw_ext (s\<lparr>Y_rw_rka := k\<rparr>)"
  "rw_ext (t\<lparr>Y_rw_rsock := r, Y_rwi_msg_buf := c, Y_rw_write_buf := w\<rparr>) = rw_ext (t\<lparr>Y_rw_write_buf := w\<rparr>)"
  "rw_rka (so_view b (rw_ext s) r) = Y_rw_rka s" "rw_write_buf (so_view b (rw_ext s) r) = Y_rw_write_buf s"
  "rw_write_mr (so_view b (rw_ext s) r) = Y_rw_write_mr s"
  "(so_view b (rw_ext s) r)\<lparr>rw_write_buf := w\<rparr> = so_view b (rw_ext (s\<lparr>Y_rw_write_buf := w\<rparr>)) r"
  "(so_view b (rw_ext s) r)\<lparr>rw_write_mr := n\<rparr> = so_view b (rw_ext (s\<lparr>Y_rw_write_mr := n\<rparr>)) r"
  "(so_view b (rw_ext s) r)\<lparr>rw_read_mr := mr\<rparr> = so_view b (rw_ext (s\<lparr>Y_rw_read_mr := mr\<rparr>)) r"
  "(so_view b (rw_ext s) r)\<lparr>rw_rka := k\<rparr> = so_view b (rw_ext (s\<lparr>Y_rw_rka := k\<rparr>)) r"
  by (simp_all add: rw_ext_def so_view_def)

lemma rw_view_sel [simp]:
  "so_mem (rw_view b s) = Y_rs_mem (Y_rw_rsock s)" "so_msg_buf (rw_view b s) = b"
  "rw_write_buf (rw_view b s) = Y_rw_write_buf s" "rw_rka (rw_view b s) = Y_rw_rka s"
  by (simp_all add: rw_view_def)

abbreviation low_rw :: "'a Y_rdma_write_socket_scheme \<Rightarrow> bool" where
  "low_rw s \<equiv> low_rs (Y_rw_rsock s) \<and> low_buffer (Y_rw_write_buf s)"

lemma sim_arrived:
  assumes "low_both p" and "length (snd msg) < 2 ^ 63"
  shows "simulated (so_views b x) low_both (append_arrived msg (so_views b x p)) (Y_write_arrived msg p)"
proof (cases msg)
  case (Pair header body)
  have "length (header_bytes header) < 2 ^ 63" "length (take (hdr_body_size header) body) < 2 ^ 63" "length (le_bytes 4 0xffffffff) < 2 ^ 63"
    using assms(2) by (simp_all add: Pair)
  then show ?thesis
    unfolding append_arrived_def Y_write_arrived_def Pair Let_def case_prod_conv
    by (intro simulated_bind[OF sim_write[OF assms(1)]] simulated_bind[OF sim_write] sim_write)
qed

text \<open>
  The message buffer is a member of the second class only: \<open>g\<close> gives it, and does not depend on the
  verbs layer.  \<open>rwg_view g\<close> is the view of the whole object.
\<close>

definition rwg_view :: "('a Y_rdma_write_socket_scheme \<Rightarrow> buffer) \<Rightarrow> 'a Y_rdma_write_socket_scheme \<Rightarrow> rdma_write_socket" where
  "rwg_view g s = rw_view (g s) s"

definition apart_from_rsock :: "('a Y_rdma_write_socket_scheme \<Rightarrow> buffer) \<Rightarrow> bool" where
  "apart_from_rsock g \<longleftrightarrow> (\<forall>s r. g (s\<lparr>Y_rw_rsock := r\<rparr>) = g s)"

lemma rwg_view_rsock:
  "apart_from_rsock g \<Longrightarrow> rwg_view g (s\<lparr>Y_rw_rsock := r\<rparr>) = so_view (g s) (rw_ext s) r"
  by (simp add: rwg_view_def rw_view_def apart_from_rsock_def)

lemma rwg_view_eq: "rwg_view g s = so_view (g s) (rw_ext s) (Y_rw_rsock s)"
  by (simp add: rwg_view_def rw_view_def)

text \<open>A buffer is taken, filled and posted: the shape of all sends.\<close>

lemma sim_fill_post:
  assumes "low_rw s" and "length (snd msg) < 2 ^ 63" and g: "apart_from_rsock g"
    and "\<And>c r. low_rs r \<Longrightarrow> simulated (so_view (g s) (rw_ext s)) low_rs (post c (so_view (g s) (rw_ext s) r)) (ypost c r)"
  shows "simulated (rwg_view g) low_rw
    (bind_outcome (SendRecvSocket_get_send_buf (rwg_view g s)) (\<lambda>st. bind_outcome (append_arrived msg st) (\<lambda>(s, c). post c s)))
    (bind_outcome (Y_RDMACMSocket_get_send_buf (Y_rw_rsock s)) (\<lambda>st.
       bind_outcome (Y_write_arrived msg st) (\<lambda>(r, c). bind_outcome (ypost c r) (\<lambda>r. Ret (s\<lparr>Y_rw_rsock := r\<rparr>)))))"
  unfolding rwg_view_eq[of g s]
proof (rule simulated_bind[OF sim_get_send], use assms in simp, rule simulated_bind2[OF sim_arrived])
  fix r c assume "low_both (r, c)"
  then show "simulated (rwg_view g) low_rw (post c (so_view (g s) (rw_ext s) r))
      (bind_outcome (ypost c r) (\<lambda>r. Ret (s\<lparr>Y_rw_rsock := r\<rparr>)))"
    using assms(1) by (intro simulated_last[OF assms(4)]) (simp_all add: rwg_view_rsock[OF g])
qed (use assms(2) in simp_all)

lemma sim_close_post:
  assumes "low_rw s" and g: "apart_from_rsock g"
    and "\<And>c r. low_rs r \<Longrightarrow> simulated (so_view (g s) (rw_ext s)) low_rs (post c (so_view (g s) (rw_ext s) r)) (ypost c r)"
  shows "simulated (rwg_view g) low_rw
    (bind_outcome (SendRecvSocket_get_send_buf (rwg_view g s)) (\<lambda>(s, c). bind_outcome (ibv_poll_send_cq n s) (\<lambda>(s, _).
       bind_outcome (append_arrived (h, []) (s, c)) (\<lambda>(s, c). post c s))))
    (bind_outcome (Y_RDMACMSocket_get_send_buf (Y_rw_rsock s)) (\<lambda>(r, c). bind_outcome (Y_ibv_poll_send_cq n r) (\<lambda>(r, _).
       bind_outcome (Y_write_arrived (h, []) (r, c)) (\<lambda>(r, c). bind_outcome (ypost c r) (\<lambda>r. Ret (s\<lparr>Y_rw_rsock := r\<rparr>))))))"
  unfolding rwg_view_eq[of g s]
proof (rule simulated_bind2[OF sim_get_send], use assms in simp, rule simulated_bind2[OF sim_poll(2)], simp,
    rule simulated_bind2[OF sim_arrived[where p = "(r, c)" for r c, unfolded on_fst_pair]])
  fix r c assume "low_both (r, c)"
  then show "simulated (rwg_view g) low_rw (post c (so_view (g s) (rw_ext s) r))
      (bind_outcome (ypost c r) (\<lambda>r. Ret (s\<lparr>Y_rw_rsock := r\<rparr>)))"
    using assms(1) by (intro simulated_last[OF assms(3)]) (simp_all add: rwg_view_rsock[OF g])
qed auto

lemma sim_clear_write_buf:
  assumes "low_rw s"
  shows "RDMAWriteSocket_clear_msg_buf (rw_view b s) = rw_view b (Y_RDMAWriteSocket_clear_msg_buf s) \<and>
    low_rw (Y_RDMAWriteSocket_clear_msg_buf s)"
  using assms
  by (simp add: RDMAWriteSocket_clear_msg_buf_def Y_RDMAWriteSocket_clear_msg_buf_def rw_view_def view_clear
      case_prod_beta' low_rs_clear Y_clear_buf_snd low_buffer_clear)

lemma sim_rdma_read:
  assumes "low_rw s" and g: "apart_from_rsock g"
  shows "simulated (on_fst (rwg_view g)) (\<lambda>(s, _). low_rw s) (RDMAWriteSocket_read k (rwg_view g s)) (Y_RDMAWriteSocket_read k s)"
  unfolding RDMAWriteSocket_read_def Y_RDMAWriteSocket_read_def rwg_view_eq[of g s]
proof (rule simulated_bind2[OF sim_get_send], use assms in simp, rule simulated_bind[OF sim_post_rdma(2)], simp)
qed (use assms in \<open>simp add: simulated_def rwg_view_rsock\<close>)

lemma sim_rdma_close_wait:
  assumes "low_rw s" and g: "apart_from_rsock g"
  shows "simulated (rwg_view g) low_rw (SendRecvSocket_send_close_wait (rwg_view g s)) (Y_RDMAWriteSocket_send_close_wait s)"
  unfolding SendRecvSocket_send_close_wait_def Y_RDMAWriteSocket_send_close_wait_def rwg_view_eq[of g s]
  by (rule simulated_bind2[OF sim_poll(1)]) (use assms in \<open>simp_all add: simulated_def rwg_view_rsock\<close>)

section \<open>Polled receives\<close>

lemma sim_poll_header:
  assumes "low_rw s"
  shows "simulated (on_fst (rw_view b)) (\<lambda>(s, _). low_rw s) (RDMAWriteSocket_recv_header (rw_view b s)) (Y_RDMAWriteSocket_recv_header s)"
proof (cases "le_val (mem_read (Y_rs_mem (Y_rw_rsock s)) (buf_addr (Y_rw_write_buf s) + offsetof_is_arrived) 4) = 0")
  case True
  then show ?thesis by (simp add: RDMAWriteSocket_recv_header_def Y_RDMAWriteSocket_recv_header_def)
next
  case False
  have "simulated (on_fst (rw_view b)) (\<lambda>(s, _). low_rw s)
      (bind_outcome (Buffer_read (Y_rw_write_buf s) sizeof_MessageHeader (Y_rs_mem (Y_rw_rsock s)))
        (\<lambda>(c, hdr). Ret ((rw_view b s)\<lparr>rw_write_buf := c\<rparr>, header_of_bytes hdr)))
      (bind_outcome (Y_Buffer_read (Y_rw_write_buf s) sizeof_MessageHeader (Y_rs_mem (Y_rw_rsock s)))
        (\<lambda>(c, hdr). Ret (s\<lparr>Y_rw_write_buf := c\<rparr>, header_of_bytes hdr)))"
    by (rule simulated_bind[OF sim_read]) (use assms in \<open>auto simp: simulated_def rw_view_def sizeof_simps\<close>)
  then show ?thesis
    using False by (simp add: RDMAWriteSocket_recv_header_def Y_RDMAWriteSocket_recv_header_def)
qed

lemma sim_poll_recv:
  assumes "low_rw s"
  shows "simulated (on_fst (rw_view b)) (\<lambda>(s, _). low_rw s) (RDMAWriteSocket_recv_msg (rw_view b s)) (Y_RDMAWriteSocket_recv_msg s)"
  unfolding RDMAWriteSocket_recv_msg_def Y_RDMAWriteSocket_recv_msg_def
proof (rule simulated_bind2[OF sim_poll_header[OF assms]], unfold case_prod_conv)
  fix s' :: Y_rdma_write_socket and h assume "low_rw s'"
  from sim_clear_write_buf[OF this]
  show "simulated (on_fst (rw_view b)) (\<lambda>(s, _). low_rw s)
     (bind_outcome (RDMAWriteSocket_get_body (hdr_body_size h) (rw_view b s')) (\<lambda>p.
        let body = mem_read (so_mem (rw_view b s')) p (hdr_body_size h) in Ret (RDMAWriteSocket_clear_msg_buf (rw_view b s'), h, body)))
     (bind_outcome (Y_RDMAWriteSocket_get_body (hdr_body_size h) s') (\<lambda>p.
        let body = mem_read (Y_rs_mem (Y_rw_rsock s')) p (hdr_body_size h) in Ret (Y_RDMAWriteSocket_clear_msg_buf s', h, body)))"
    by (simp add: RDMAWriteSocket_get_body_def Y_RDMAWriteSocket_get_body_def simulated_def)
qed

section \<open>Receives that are completions\<close>

lemma sim_imm_header:
  assumes "low_rw s"
  shows "simulated (on_fst (\<lambda>s. rw_view (Y_rwi_msg_buf s) s)) (\<lambda>(s, _). low_rw s)
    (RDMAWriteImmSocket_recv_header (rw_view (Y_rwi_msg_buf s) s)) (Y_RDMAWriteImmSocket_recv_header s)"
  unfolding RDMAWriteImmSocket_recv_header_def Y_RDMAWriteImmSocket_recv_header_def rw_view_def
proof (rule simulated_bind2[OF sim_get_recv], use assms in simp, unfold so_view_simps(1) rw_ext_simps)
  fix r c assume low: "low_both (r, c)"
  show "simulated (on_fst (\<lambda>s. so_view (Y_rwi_msg_buf s) (rw_ext s) (Y_rw_rsock s))) (\<lambda>(s, _). low_rw s)
     (bind_outcome (Buffer_read (Y_rw_write_buf s) sizeof_MessageHeader (Y_rs_mem r))
       (\<lambda>(b, hdr). Ret (so_view (Y_rwi_msg_buf s) (rw_ext s) r\<lparr>so_msg_buf := c, rw_write_buf := b\<rparr>, header_of_bytes hdr)))
     (bind_outcome (Y_Buffer_read (Y_rw_write_buf s) sizeof_MessageHeader (Y_rs_mem r))
       (\<lambda>(b, hdr). Ret (s\<lparr>Y_rw_rsock := r, Y_rwi_msg_buf := c, Y_rw_write_buf := b\<rparr>, header_of_bytes hdr)))"
    by (rule simulated_bind[OF sim_read]) (use assms low in \<open>auto simp: simulated_def sizeof_simps\<close>)
qed

lemma sim_imm_recv:
  assumes "low_rw s"
  shows "simulated (on_fst (\<lambda>s. rw_view (Y_rwi_msg_buf s) s)) (\<lambda>(s, _). low_rw s)
    (RDMAWriteImmSocket_recv_msg (rw_view (Y_rwi_msg_buf s) s)) (Y_RDMAWriteImmSocket_recv_msg s)"
  unfolding RDMAWriteImmSocket_recv_msg_def Y_RDMAWriteImmSocket_recv_msg_def Let_def RDMAWriteImmSocket_get_body_def
    Y_RDMAWriteImmSocket_get_body_def
proof (rule simulated_bind2[OF sim_imm_header[OF assms]], unfold case_prod_conv rw_view_sel)
  fix s' :: Y_rdma_write_imm_socket and h assume low: "low_rw s'"
  have "simulated (\<lambda>s. rw_view (Y_rwi_msg_buf s) s) low_rw
      (RDMAWriteImmSocket_clear_msg_buf (rw_view (Y_rwi_msg_buf s') s')) (Y_RDMAWriteImmSocket_clear_msg_buf s')"
    unfolding RDMAWriteImmSocket_clear_msg_buf_def Y_RDMAWriteImmSocket_clear_msg_buf_def Let_def rw_view_def
    using low by (auto simp: view_clear case_prod_beta' low_rs_clear Y_clear_buf_snd low_buffer_clear intro!: simulated_last[OF sim_post(2)])
  then show "simulated (on_fst (\<lambda>s. rw_view (Y_rwi_msg_buf s) s)) (\<lambda>(s, _). low_rw s)
     (bind_outcome (RDMAWriteImmSocket_clear_msg_buf (rw_view (Y_rwi_msg_buf s') s'))
       (\<lambda>s. Ret (s, h, mem_read (Y_rs_mem (Y_rw_rsock s')) (buf_addr (Y_rw_write_buf s') + sizeof_MessageHeader) (hdr_body_size h))))
     (bind_outcome (Y_RDMAWriteImmSocket_clear_msg_buf s')
       (\<lambda>s. Ret (s, h, mem_read (Y_rs_mem (Y_rw_rsock s')) (buf_addr (Y_rw_write_buf s') + sizeof_MessageHeader) (hdr_body_size h))))"
    by (rule simulated_done)
qed

section \<open>Operations\<close>

datatype rdma_op = Common socket_op | Op_read rka | Op_setup_read "nat option" | Op_handshake

fun ok_rdma_op :: "rdma_op \<Rightarrow> bool" where
  "ok_rdma_op (Common x) \<longleftrightarrow> ok_op x"
| "ok_rdma_op _ \<longleftrightarrow> True"

fun rw_op :: "rdma_op \<Rightarrow> rdma_write_socket \<Rightarrow> (rdma_write_socket \<times> socket_result) outcome" where
  "rw_op (Common (Op_device m q)) s = Ret (s\<lparr>so_mem := m, so_qp := q\<rparr>, Done)"
| "rw_op (Common (Op_send msg)) s = bind_outcome (RDMAWriteSocket_send_msg msg s) (\<lambda>s. Ret (s, Done))"
| "rw_op (Common Op_recv) s = bind_outcome (RDMAWriteSocket_recv_msg s) (\<lambda>(s, msg). Ret (s, Received msg))"
| "rw_op (Common (Op_close junk)) s = bind_outcome (RDMAWriteSocket_send_close junk s) (\<lambda>s. Ret (s, Done))"
| "rw_op (Common Op_close_wait) s = bind_outcome (SendRecvSocket_send_close_wait s) (\<lambda>s. Ret (s, Done))"
| "rw_op (Op_read k) s = bind_outcome (RDMAWriteSocket_read k s) (\<lambda>(s, b). Ret (s, Reading b))"
| "rw_op (Op_setup_read reg) s = bind_outcome (RDMAWriteSocket_setup_read_buf reg s) (\<lambda>s. Ret (s, Done))"
| "rw_op Op_handshake s = bind_outcome (RDMAWriteSocket_new_recv s) (\<lambda>s. Ret (s, Done))"

fun Y_rw_op :: "rdma_op \<Rightarrow> Y_rdma_write_socket \<Rightarrow> (Y_rdma_write_socket \<times> socket_result) outcome" where
  "Y_rw_op (Common (Op_device m q)) s = Ret (s\<lparr>Y_rw_rsock := (Y_rw_rsock s)\<lparr>Y_rs_mem := m, Y_rs_qp := q\<rparr>\<rparr>, Done)"
| "Y_rw_op (Common (Op_send msg)) s = bind_outcome (Y_RDMAWriteSocket_send_msg msg s) (\<lambda>s. Ret (s, Done))"
| "Y_rw_op (Common Op_recv) s = bind_outcome (Y_RDMAWriteSocket_recv_msg s) (\<lambda>(s, msg). Ret (s, Received msg))"
| "Y_rw_op (Common (Op_close junk)) s = bind_outcome (Y_RDMAWriteSocket_send_close junk s) (\<lambda>s. Ret (s, Done))"
| "Y_rw_op (Common Op_close_wait) s = bind_outcome (Y_RDMAWriteSocket_send_close_wait s) (\<lambda>s. Ret (s, Done))"
| "Y_rw_op (Op_read k) s = bind_outcome (Y_RDMAWriteSocket_read k s) (\<lambda>(s, b). Ret (s, Reading b))"
| "Y_rw_op (Op_setup_read reg) s = bind_outcome (Y_RDMAWriteSocket_setup_read_buf reg s) (\<lambda>s. Ret (s, Done))"
| "Y_rw_op Op_handshake s = bind_outcome (Y_RDMAWriteSocket_new_recv s) (\<lambda>s. Ret (s, Done))"

fun imm_op :: "rdma_op \<Rightarrow> rdma_write_imm_socket \<Rightarrow> (rdma_write_imm_socket \<times> socket_result) outcome" where
  "imm_op (Common (Op_send msg)) s = bind_outcome (RDMAWriteImmSocket_send_msg msg s) (\<lambda>s. Ret (s, Done))"
| "imm_op (Common Op_recv) s = bind_outcome (RDMAWriteImmSocket_recv_msg s) (\<lambda>(s, msg). Ret (s, Received msg))"
| "imm_op (Common (Op_close junk)) s = bind_outcome (RDMAWriteImmSocket_send_close junk s) (\<lambda>s. Ret (s, Done))"
| "imm_op x s = rw_op x s"

fun Y_imm_op :: "rdma_op \<Rightarrow> Y_rdma_write_imm_socket \<Rightarrow> (Y_rdma_write_imm_socket \<times> socket_result) outcome" where
  "Y_imm_op (Common (Op_device m q)) s = Ret (s\<lparr>Y_rw_rsock := (Y_rw_rsock s)\<lparr>Y_rs_mem := m, Y_rs_qp := q\<rparr>\<rparr>, Done)"
| "Y_imm_op (Common (Op_send msg)) s = bind_outcome (Y_RDMAWriteImmSocket_send_msg msg s) (\<lambda>s. Ret (s, Done))"
| "Y_imm_op (Common Op_recv) s = bind_outcome (Y_RDMAWriteImmSocket_recv_msg s) (\<lambda>(s, msg). Ret (s, Received msg))"
| "Y_imm_op (Common (Op_close junk)) s = bind_outcome (Y_RDMAWriteImmSocket_send_close junk s) (\<lambda>s. Ret (s, Done))"
| "Y_imm_op (Common Op_close_wait) s = bind_outcome (Y_RDMAWriteSocket_send_close_wait s) (\<lambda>s. Ret (s, Done))"
| "Y_imm_op (Op_read k) s = bind_outcome (Y_RDMAWriteSocket_read k s) (\<lambda>(s, b). Ret (s, Reading b))"
| "Y_imm_op (Op_setup_read reg) s = bind_outcome (Y_RDMAWriteSocket_setup_read_buf reg s) (\<lambda>s. Ret (s, Done))"
| "Y_imm_op Op_handshake s = bind_outcome (Y_RDMAWriteSocket_new_recv s) (\<lambda>s. Ret (s, Done))"

lemma rw_send_simulated:
  assumes "low_rw s" and "length (snd msg) < 2 ^ 63" and "apart_from_rsock g"
  shows "simulated (rwg_view g) low_rw (RDMAWriteSocket_send_msg msg (rwg_view g s)) (Y_RDMAWriteSocket_send_msg msg s)"
  unfolding RDMAWriteSocket_send_msg_def Y_RDMAWriteSocket_send_msg_def
  by (rule sim_fill_post[OF assms]) (simp add: sim_post_rdma)

lemma rw_close_simulated:
  assumes "low_rw s" and "apart_from_rsock g"
  shows "simulated (rwg_view g) low_rw (RDMAWriteSocket_send_close junk (rwg_view g s)) (Y_RDMAWriteSocket_send_close junk s)"
  unfolding RDMAWriteSocket_send_close_def Y_RDMAWriteSocket_send_close_def
  by (rule sim_close_post[OF assms]) (simp add: sim_post_rdma)

lemma imm_send_simulated:
  assumes "low_rw s" and "length (snd msg) < 2 ^ 63" and "apart_from_rsock g"
  shows "simulated (rwg_view g) low_rw (RDMAWriteImmSocket_send_msg msg (rwg_view g s)) (Y_RDMAWriteImmSocket_send_msg msg s)"
  unfolding RDMAWriteImmSocket_send_msg_def Y_RDMAWriteImmSocket_send_msg_def
  by (rule sim_fill_post[OF assms]) (simp add: sim_post_rdma)

lemma imm_close_simulated:
  assumes "low_rw s" and "apart_from_rsock g"
  shows "simulated (rwg_view g) low_rw (RDMAWriteImmSocket_send_close junk (rwg_view g s)) (Y_RDMAWriteImmSocket_send_close junk s)"
  unfolding RDMAWriteImmSocket_send_close_def Y_RDMAWriteImmSocket_send_close_def
  by (rule sim_close_post[OF assms]) (simp add: sim_post_rdma)

lemma setup_read_simulated:
  assumes "low_rw s" and "\<And>s mr. g (s\<lparr>Y_rw_read_mr := mr\<rparr>) = g s"
  shows "simulated (rwg_view g) low_rw (RDMAWriteSocket_setup_read_buf reg (rwg_view g s)) (Y_RDMAWriteSocket_setup_read_buf reg s)"
  using assms by (cases reg)
    (simp_all add: simulated_def RDMAWriteSocket_setup_read_buf_def Y_RDMAWriteSocket_setup_read_buf_def rwg_view_eq)

lemma new_recv_simulated:
  assumes "low_rw s" and "\<And>s r k. g (s\<lparr>Y_rw_rsock := r, Y_rw_rka := k\<rparr>) = g s"
  shows "simulated (rwg_view g) low_rw (RDMAWriteSocket_new_recv (rwg_view g s)) (Y_RDMAWriteSocket_new_recv s)"
  unfolding RDMAWriteSocket_new_recv_def Y_RDMAWriteSocket_new_recv_def rwg_view_eq[of g s]
proof (rule simulated_bind2[OF sim_get_recv], use assms in simp, unfold so_view_simps(1))
  fix r c assume low: "low_both (r, c)"
  show "simulated (rwg_view g) low_rw
      (bind_outcome (Buffer_read c sizeof_rka (Y_rs_mem r)) (\<lambda>(recv_buf, bs).
        SendRecvSocket_post_recv recv_buf ((so_view (g s) (rw_ext s) r)\<lparr>rw_rka := rka_of_bytes bs\<rparr>)))
      (bind_outcome (Y_Buffer_read c sizeof_rka (Y_rs_mem r)) (\<lambda>(recv_buf, bs).
        bind_outcome (Y_RDMACMSocket_post_recv recv_buf r) (\<lambda>r. Ret (s\<lparr>Y_rw_rsock := r, Y_rw_rka := rka_of_bytes bs\<rparr>))))"
    by (rule simulated_bind[OF sim_read])
      (use assms low in \<open>auto simp: sizeof_rka_def rwg_view_eq intro!: simulated_last[OF sim_post(2)]\<close>)
qed

lemma apart_simps: "apart_from_rsock (\<lambda>_. b)" "apart_from_rsock Y_rwi_msg_buf"
  by (simp_all add: apart_from_rsock_def)

abbreviation rw_null_view :: "Y_rdma_write_socket \<Rightarrow> rdma_write_socket" where
  "rw_null_view \<equiv> rwg_view (\<lambda>_. Y_Buffer_default)"

abbreviation imm_view :: "Y_rdma_write_imm_socket \<Rightarrow> rdma_write_imm_socket" where
  "imm_view \<equiv> rwg_view Y_rwi_msg_buf"

lemma rw_recv_simulated:
  assumes "low_rw s"
  shows "simulated (on_fst rw_null_view) (\<lambda>(s, _). low_rw s) (RDMAWriteSocket_recv_msg (rw_null_view s)) (Y_RDMAWriteSocket_recv_msg s)"
  using sim_poll_recv[OF assms, of Y_Buffer_default] by (simp add: rwg_view_def[abs_def])

lemma imm_recv_simulated:
  assumes "low_rw s"
  shows "simulated (on_fst imm_view) (\<lambda>(s, _). low_rw s) (RDMAWriteImmSocket_recv_msg (imm_view s)) (Y_RDMAWriteImmSocket_recv_msg s)"
  using sim_imm_recv[OF assms] by (simp add: rwg_view_def[abs_def])

lemma device_simulated:
  assumes "low_rw s" and "low_qp q" and "apart_from_rsock g"
  shows "simulated (on_fst (rwg_view g)) (\<lambda>(s, _). low_rw s) (Ret ((rwg_view g s)\<lparr>so_mem := m, so_qp := q\<rparr>, Done))
    (Ret (s\<lparr>Y_rw_rsock := (Y_rw_rsock s)\<lparr>Y_rs_mem := m, Y_rs_qp := q\<rparr>\<rparr>, Done))"
  using assms by (simp add: simulated_def rwg_view_rsock) (simp add: rwg_view_eq low_rs_def)

lemmas rdma_simulated = simulated_done[OF rw_send_simulated] simulated_done[OF rw_close_simulated] simulated_done[OF imm_send_simulated]
  simulated_done[OF imm_close_simulated] simulated_done[OF setup_read_simulated] simulated_done[OF new_recv_simulated] simulated_done[OF sim_rdma_close_wait]
  simulated_result[OF rw_recv_simulated] simulated_result[OF imm_recv_simulated] simulated_result[OF sim_rdma_read] device_simulated

interpretation rw_sim: socket_simulation rw_null_view low_rw ok_rdma_op rw_op Y_rw_op
proof unfold_locales
  fix s :: Y_rdma_write_socket and x
  assume s: "low_rw s" and x: "ok_rdma_op x"
  show "simulated (on_fst rw_null_view) (\<lambda>(s', _). low_rw s') (rw_op x (rw_null_view s)) (Y_rw_op x s)"
    using s x by (cases "(x, s)" rule: Y_rw_op.cases) (simp_all add: rdma_simulated apart_simps)
qed

interpretation imm_sim: socket_simulation imm_view low_rw ok_rdma_op imm_op Y_imm_op
proof unfold_locales
  fix s :: Y_rdma_write_imm_socket and x
  assume s: "low_rw s" and x: "ok_rdma_op x"
  show "simulated (on_fst imm_view) (\<lambda>(s', _). low_rw s') (imm_op x (imm_view s)) (Y_imm_op x s)"
    using s x by (cases "(x, s)" rule: Y_imm_op.cases) (simp_all add: rdma_simulated apart_simps)
qed

section \<open>Construction\<close>

lemma Buffer_null_0: "Buffer_null 0 = Y_Buffer_default"
  by (simp add: Buffer_null_def Y_Buffer_default_def)

lemma sr_new_view:
  "SendRecvSocket_new memalign reg_ok 0 q m =
     map_outcome (\<lambda>r. sr_view (Y_SendRecvSocket_new r)) (Y_RDMACMSocket_new memalign reg_ok q m)"
proof -
  let ?r = "\<lparr>Y_rs_mem = m, Y_rs_qp = q, Y_rs_verbs_buf = Y_Buffer_default, Y_rs_send_bufs = []\<rparr>"
  have "\<lparr>so_mem = m, so_msg_buf = Buffer_null 0, so_qp = q, so_verbs_buf = Buffer_null 0, so_send_bufs = []\<rparr> =
      so_view Y_Buffer_default () ?r"
    by (simp add: so_view_def Buffer_null_0)
  then show ?thesis
    unfolding SendRecvSocket_new_def Y_RDMACMSocket_new_def
    by (simp only: view_setup_verbs_buf) (simp add: sr_view_def Y_SendRecvSocket_new_def)
qed

lemma rsock_new_low:
  assumes "low_qp q" and "0 \<le> qp_post_rc q" and "qp_recvs q = []" and "a + PACKET_SIZE * PACKET_WINDOW_SIZE * 2 < 2 ^ 63"
  shows "\<exists>r. Y_RDMACMSocket_new (Some a) True q m = Ret r \<and> low_rs r"
proof -
  note new = SendRecvSocket_new_eq[OF assms(2,3), of a 0 m, unfolded sr_new_view]
  then obtain r where r: "Y_RDMACMSocket_new (Some a) True q m = Ret r"
    by (cases "Y_RDMACMSocket_new (Some a) True q m") auto
  have "so_send_bufs (sr_view (Y_SendRecvSocket_new r)) = map (\<lambda>i. Buffer_on (a + PACKET_SIZE * PACKET_WINDOW_SIZE + i * PACKET_SIZE) PACKET_SIZE) [0..<PACKET_WINDOW_SIZE]"
    and "so_qp (sr_view (Y_SendRecvSocket_new r)) = q\<lparr>qp_recvs := map (\<lambda>i. (a + i * PACKET_SIZE, PACKET_SIZE)) [0..<PACKET_WINDOW_SIZE]\<rparr>"
    using new by (simp_all add: r)
  then have "Y_rs_send_bufs r = map (\<lambda>i. Buffer_on (a + PACKET_SIZE * PACKET_WINDOW_SIZE + i * PACKET_SIZE) PACKET_SIZE) [0..<PACKET_WINDOW_SIZE]"
    and "Y_rs_qp r = q\<lparr>qp_recvs := map (\<lambda>i. (a + i * PACKET_SIZE, PACKET_SIZE)) [0..<PACKET_WINDOW_SIZE]\<rparr>"
    by (simp_all add: sr_view_def Y_SendRecvSocket_new_def)
  then have "low_rs r"
    using assms(1,4) by (auto simp: low_rs_def low_qp_def packet_consts intro!: low_buffer_on)
  then show ?thesis using r by blast
qed

lemma rw_greeting_simulated:
  assumes "low_rw s" and "length bs < 2 ^ 63"
  shows "simulated rw_null_view low_rw
    (bind_outcome (SendRecvSocket_get_send_buf (rw_null_view s)) (\<lambda>st.
       bind_outcome (append_bytes bs st) (\<lambda>(s, send_buf). SendRecvSocket_post_send send_buf s)))
    (bind_outcome (Y_RDMACMSocket_get_send_buf (Y_rw_rsock s)) (\<lambda>st.
       bind_outcome (Y_write_bytes bs st) (\<lambda>(r, send_buf).
         bind_outcome (Y_RDMACMSocket_post_send send_buf r) (\<lambda>r. Ret (s\<lparr>Y_rw_rsock := r\<rparr>)))))"
  unfolding rwg_view_eq[of _ s]
proof (rule simulated_bind[OF sim_get_send], use assms in simp, rule simulated_bind2[OF sim_write])
  fix r c assume "low_both (r, c)"
  then show "simulated rw_null_view low_rw (SendRecvSocket_post_send c (so_view Y_Buffer_default (rw_ext s) r))
      (bind_outcome (Y_RDMACMSocket_post_send c r) (\<lambda>r. Ret (s\<lparr>Y_rw_rsock := r\<rparr>)))"
    using assms(1) by (intro simulated_last[OF sim_post(1)]) (simp_all add: rwg_view_eq)
qed (use assms(2) in simp_all)

lemma rw_setup_write_simulated:
  assumes "low_rs (Y_rw_rsock s)" and "w + PACKET_SIZE < 2 ^ 63"
  shows "simulated rw_null_view low_rw (RDMAWriteSocket_setup_write_buf (Some w) (Some key) (rw_null_view s))
    (Y_RDMAWriteSocket_setup_write_buf (Some w) (Some key) s)"
  using assms low_buffer_on[of w PACKET_SIZE]
  by (simp add: simulated_def RDMAWriteSocket_setup_write_buf_def Y_RDMAWriteSocket_setup_write_buf_def Buffer_allocate_def
      rwg_view_eq low_rs_def)

text \<open>The constructor of the main tree and the two constructors of this copy.\<close>

lemma rw_new_view:
  assumes "low_rs r" and "w + PACKET_SIZE < 2 ^ 63" and "Y_RDMACMSocket_new (Some a) True q m = Ret r"
  shows "simulated rw_null_view low_rw (RDMAWriteSocket_new (Some a) True (Some w) (Some key) 0 q m)
    (Y_RDMAWriteSocket_new (Some w) (Some key) 0 r)"
proof -
  define y where "y = \<lparr>Y_rw_rsock = r, Y_rw_read_mr = None, Y_rw_write_buf = Y_Buffer_default, Y_rw_write_mr = 0,
      Y_rw_rka = RemoteKeyAndAddr_default\<rparr>"
  have ext: "sendrecv_socket.extend (sr_view (Y_SendRecvSocket_new r))
      \<lparr>rw_read_mr = None, rw_write_buf = Buffer_null 0, rw_write_mr = 0, rw_rka = RemoteKeyAndAddr_default\<rparr> = rw_null_view y"
    by (simp add: sr_view_def Y_SendRecvSocket_new_def so_view_def sendrecv_socket.extend_def rwg_view_eq rw_ext_def y_def Buffer_null_0)
  have len: "length (rka_bytes 0 k) < 2 ^ 63" for k by (simp add: rka_bytes_def)
  have y: "low_rs (Y_rw_rsock y)" using assms(1) by (simp add: y_def)
  show ?thesis
    unfolding RDMAWriteSocket_new_def Y_RDMAWriteSocket_new_def sr_new_view assms(3) outcome.map bind_outcome_simps Let_def ext y_def[symmetric]
  proof (rule simulated_bind[OF rw_setup_write_simulated[OF y assms(2)]])
    fix s :: Y_rdma_write_socket assume "low_rw s"
    from rw_greeting_simulated[OF this len]
    show "simulated rw_null_view low_rw
      (bind_outcome (SendRecvSocket_get_send_buf (rw_null_view s)) (\<lambda>(sa, send_buf).
         bind_outcome (append_bytes (rka_bytes 0 (RemoteKeyAndAddr (rw_write_mr sa) (buf_addr (rw_write_buf sa)))) (sa, send_buf))
           (\<lambda>(s, send_buf). SendRecvSocket_post_send send_buf s)))
      (bind_outcome (Y_RDMACMSocket_get_send_buf (Y_rw_rsock s)) (\<lambda>st.
         bind_outcome (Y_write_bytes (rka_bytes 0 (RemoteKeyAndAddr (Y_rw_write_mr s) (buf_addr (Y_rw_write_buf s)))) st)
           (\<lambda>(r, send_buf). bind_outcome (Y_RDMACMSocket_post_send send_buf r) (\<lambda>r. Ret (s\<lparr>Y_rw_rsock := r\<rparr>)))))"
      by (simp add: rwg_view_eq view_get_send_buf bind_map_outcome case_prod_beta')
  qed
qed

end
