(* ===== verification/Ycsb_Socket_Theorems.thy ===== *)
theory Ycsb_Socket_Theorems
  imports Ycsb_Rdma_Simulation Socket_Theorems
begin

text \<open>
  The sockets of the YCSB copy and those of the main tree behave alike, from the constructors on.
\<close>

text \<open>C20: The send/receive sockets of the two trees are interchangeable.  Construct one of each over a new queue pair,
  in the lower half of the address space; then whatever is sent, received and closed, in any order, and
  whatever the device does to memory and queues in between, every operation gives the same result or
  fails in the same way, and the objects go on corresponding.\<close>

theorem ycsb_sendrecv_agrees:
  assumes "low_qp q" and "0 \<le> qp_post_rc q" and "qp_recvs q = []" and "a + PACKET_SIZE * PACKET_WINDOW_SIZE * 2 < 2 ^ 63"
    and "list_all ok_op ops"
  shows "\<exists>r s. Y_RDMACMSocket_new (Some a) True q m = Ret r \<and> SendRecvSocket_new (Some a) True 0 q m = Ret s \<and>
    s = sr_view (Y_SendRecvSocket_new r) \<and>
    op_results sr_op ops s = map_outcome (on_fst sr_view) (op_results Y_sr_op ops (Y_SendRecvSocket_new r))"
proof -
  obtain r where r: "Y_RDMACMSocket_new (Some a) True q m = Ret r" "low_rs r" using rsock_new_low[OF assms(1-4)] by blast
  then have "low_sr (Y_SendRecvSocket_new r)" by (simp add: Y_SendRecvSocket_new_def)
  from sr_sim.simulates[OF this assms(5)] have "op_results sr_op ops (sr_view (Y_SendRecvSocket_new r)) =
      map_outcome (on_fst sr_view) (op_results Y_sr_op ops (Y_SendRecvSocket_new r))" by (simp add: simulated_def)
  then show ?thesis using r(1) sr_new_view[of "Some a" True q m] by auto
qed

theorem ycsb_sendrecv_agrees_witness:
  "\<exists>r s. Y_RDMACMSocket_new (Some 0) True qp_new (\<lambda>_. 0) = Ret r \<and>
    op_results sr_op [Op_send ping, Op_device (\<lambda>_. 0) qp_new, Op_recv] s =
      map_outcome (on_fst sr_view) (op_results Y_sr_op [Op_send ping, Op_device (\<lambda>_. 0) qp_new, Op_recv] (Y_SendRecvSocket_new r))"
proof -
  have "low_qp qp_new" "0 \<le> qp_post_rc qp_new" "qp_recvs qp_new = []" by (simp_all add: low_qp_def qp_new_def)
  moreover have "0 + PACKET_SIZE * PACKET_WINDOW_SIZE * 2 < 2 ^ 63" by (simp add: packet_consts)
  moreover have "list_all ok_op [Op_send ping, Op_device (\<lambda>_. 0) qp_new, Op_recv]"
    by (simp add: low_qp_def qp_new_def ping_def)
  ultimately show ?thesis using ycsb_sendrecv_agrees[of qp_new 0 _ "\<lambda>_. 0"] by blast
qed



end
