(* ===== verification/Sessions.thy ===== *)
theory Sessions
  imports Programs Clients
begin

text \<open>
  Typed conversations.  \<open>req t args\<close> says which requests a service understands, \<open>rep t vals\<close> what the
  arguments of an answer to a request of type \<open>t\<close> can be.  A program conforms when all its requests are
  understood and it goes on to conform after every possible answer; \<open>post\<close> holds of what it returns.
  The locale is what a server promises in turn, and gives that a system of conforming programs goes on
  to conform, whatever the interleaving.
\<close>

inductive conforms ::
    "'o msgpack \<Rightarrow> nat \<times> nat \<Rightarrow> (message_type \<Rightarrow> arg list \<Rightarrow> bool) \<Rightarrow> (message_type \<Rightarrow> arg list \<Rightarrow> bool) \<Rightarrow>
     ('a \<Rightarrow> bool) \<Rightarrow> 'a prog \<Rightarrow> bool"
  for mp junk req rep post where
  conforms_Return: "post x \<Longrightarrow> conforms mp junk req rep post (Return x)"
| conforms_Crash: "conforms mp junk req rep post (Crash e)"
| conforms_Hang: "conforms mp junk req rep post Hang"
| conforms_Request: "req t args \<Longrightarrow>
    (\<And>vals rt. rep t vals \<Longrightarrow> conforms mp junk req rep post (k (sent_msg mp junk rt vals))) \<Longrightarrow>
    conforms mp junk req rep post (Request com (sent_msg mp junk t args) k)"
| conforms_Remote_read: "(\<And>bs. conforms mp junk req rep post (k bs)) \<Longrightarrow>
    conforms mp junk req rep post (Remote_read com a k)"

inductive_cases conforms_RequestE: "conforms mp junk req rep post (Request com msg k)"
inductive_cases conforms_ReadE: "conforms mp junk req rep post (Remote_read com a k)"
inductive_cases conforms_ReturnE: "conforms mp junk req rep post (Return x)"

lemma conforms_bind:
  assumes "conforms mp junk req rep mid p" and "\<And>x. mid x \<Longrightarrow> conforms mp junk req rep post (f x)"
  shows "conforms mp junk req rep post (bind_prog p f)"
  using assms(1) by (induction rule: conforms.induct) (auto intro: conforms.intros assms(2))

lemma conforms_of_outcome:
  assumes "\<And>x. m = Ret x \<Longrightarrow> post x"
  shows "conforms mp junk req rep post (of_outcome m)"
  using assms by (cases m) (auto intro: conforms.intros)

lemma conforms_for_each:
  assumes "I s" and "\<And>x s. I s \<Longrightarrow> conforms mp junk req rep I (f x s)"
  shows "conforms mp junk req rep I (for_each_prog f xs s)"
  using assms(1) by (induction xs arbitrary: s) (auto intro: conforms.intros conforms_bind assms(2))

lemma conforms_parallel:
  assumes "I s" and "\<And>x s. I s \<Longrightarrow> conforms mp junk req rep I (f x s)"
  shows "conforms mp junk req rep I (parallel_for_each perm xs f s)"
  unfolding parallel_for_each_def by (rule conforms_for_each[where I = I, OF assms])

section \<open>Services\<close>

locale service =
  fixes mp :: "'o msgpack" and junk :: "nat \<times> nat"
    and serve :: "nat \<Rightarrow> message \<Rightarrow> 'w \<Rightarrow> ('w \<times> message) outcome"
    and peek :: "nat \<Rightarrow> rka \<Rightarrow> 'w \<Rightarrow> byte list"
    and req :: "message_type \<Rightarrow> arg list \<Rightarrow> bool" and rep :: "message_type \<Rightarrow> arg list \<Rightarrow> bool"
    and good :: "'w \<Rightarrow> bool"
  assumes answers: "good w \<Longrightarrow> req t args \<Longrightarrow> serve c (sent_msg mp junk t args) w = Ret (w', r) \<Longrightarrow>
      good w' \<and> (\<exists>rt vals. rep t vals \<and> r = sent_msg mp junk rt vals)"
begin

lemma step_conforms:
  assumes "prog_step serve peek (w, p) (w', p')" and p: "conforms mp junk req rep post p" and w: "good w"
  shows "conforms mp junk req rep post p' \<and> good w'"
  using assms(1)
proof cases
  case (step_request c m r k)
  from p obtain t args where m: "m = sent_msg mp junk t args" and ok: "req t args"
    and k: "\<And>vals rt. rep t vals \<Longrightarrow> conforms mp junk req rep post (k (sent_msg mp junk rt vals))"
    unfolding step_request by (auto elim: conforms_RequestE)
  show ?thesis using answers[OF w ok step_request(3)[unfolded m]] k step_request(2) by blast
next
  case (step_read c a k)
  then show ?thesis using p w by (auto elim: conforms_ReadE)
qed

lemma system_conforms:
  assumes "(system_step serve peek)\<^sup>*\<^sup>* (w, ps) (w', ps')"
    and "\<And>i. conforms mp junk req rep (post i) (ps i)" and "good w"
  shows "(\<forall>i. conforms mp junk req rep (post i) (ps' i)) \<and> good w'"
  using assms(1)
proof (induction rule: rtranclp_induct2)
  case refl
  then show ?case using assms(2,3) by blast
next
  case (step w1 ps1 w2 ps2)
  from step.hyps(2) obtain i p where p: "prog_step serve peek (w1, ps1 i) (w2, p)" and ps2: "ps2 = ps1(i := p)"
    by (cases rule: system_step.cases) auto
  from step_conforms[OF p] step.IH have "conforms mp junk req rep (post i) p \<and> good w2" by blast
  then show ?case using step.IH by (simp add: ps2)
qed

end

section \<open>Handlers\<close>

text \<open>Between its exchanges a handler has nothing pending in the unpackers of its connections.\<close>

definition drained :: "handler \<Rightarrow> bool" where
  "drained h \<longleftrightarrow> (\<forall>com. h_unpk h com = [])"

lemma drained_simps [simp]:
  "drained (h\<lparr>h_cp := cp\<rparr>) = drained h" "drained (h\<lparr>h_trx := trx\<rparr>) = drained h"
  "drained (h\<lparr>h_addr_cache := cache\<rparr>) = drained h"
  by (simp_all add: drained_def)

lemma conforms_exchange:
  assumes "msgpack_ok mp" and "req t args" and "drained h"
    and "\<And>vals. rep t vals \<Longrightarrow> list_all2 same_kind vals dsts"
  shows "conforms mp junk req rep (\<lambda>(h', vals). drained h' \<and> rep t vals \<and> h_trx h' = h_trx h) (com_exchange mp junk com t args dsts h)"
  unfolding com_exchange_def
proof (rule conforms_Request[where req = req and t = t and args = args, OF assms(2)])
  fix vals rt
  assume vals: "rep t vals"
  have empty: "h_unpk h com = []" using assms(3) by (simp add: drained_def)
  have "drained (h\<lparr>h_unpk := (h_unpk h)(com := [])\<rparr>)" using assms(3) by (simp add: drained_def)
  then show "conforms mp junk req rep (\<lambda>(h', vals). drained h' \<and> rep t vals \<and> h_trx h' = h_trx h)
      (case sent_msg mp junk rt vals of (header, body) \<Rightarrow>
         let (vals, unpk) = Communicator_recv_body mp (h_unpk h com) body dsts
         in Return (h\<lparr>h_unpk := (h_unpk h)(com := unpk)\<rparr>, vals))"
    using recv_body_sent[OF assms(1) assms(4)[OF vals], of junk rt] vals
    by (auto simp: empty case_prod_beta' intro: conforms_Return)
qed

lemma conforms_cp_get:
  assumes "drained h"
  shows "conforms mp junk req rep (\<lambda>(h', com). drained h' \<and> h_trx h' = h_trx h) (cp_get hash cfg k h)"
  unfolding cp_get_def
  by (rule conforms_of_outcome) (use assms in \<open>auto simp: bind_outcome_Ret_iff\<close>)

section \<open>What handlers make of answers\<close>

text \<open>
  The answers to all requests of the handlers have the arguments that they unpack, and \<open>P\<close> holds of every
  item among them.  Then \<open>P\<close> holds of every item that a transaction reads.
\<close>

definition all_items :: "(item \<Rightarrow> bool) \<Rightarrow> (key, item) cmap \<Rightarrow> bool" where
  "all_items P ret \<longleftrightarrow> (\<forall>k i. ret k = Some i \<longrightarrow> P i)"

definition handler_items :: "(item \<Rightarrow> bool) \<Rightarrow> trx \<Rightarrow> handler \<times> (key, item) cmap \<Rightarrow> bool" where
  "handler_items P trx st \<longleftrightarrow> drained (fst st) \<and> h_trx (fst st) = trx \<and> all_items P (snd st)"

lemma handler_items_pair [simp]:
  "handler_items P trx (h, ret) \<longleftrightarrow> drained h \<and> h_trx h = trx \<and> all_items P ret"
  by (simp add: handler_items_def)

lemma all_items_empty [simp]: "all_items P Map.empty"
  by (simp add: all_items_def)

lemma all_items_assign: "all_items P ret \<Longrightarrow> P i \<Longrightarrow> all_items P (cmap_assign ret k i)"
  by (simp add: all_items_def cmap_assign_def)

lemma all_items_index: "all_items P ret \<Longrightarrow> P Item_default \<Longrightarrow> cmap_index ret k Item_default = (ret', i) \<Longrightarrow>
    all_items P ret' \<and> P i"
  by (auto simp: all_items_def cmap_index_def split: option.splits if_splits)

locale reply_contract =
  fixes rep :: "message_type \<Rightarrow> arg list \<Rightarrow> bool" and P :: "item \<Rightarrow> bool"
  assumes default: "P Item_default"
    and item: "rep GET vals \<Longrightarrow> \<exists>i. vals = [Item_arg i] \<and> P i"
    and item_addr: "rep GET_WITH_ADDR vals \<Longrightarrow> \<exists>i a. vals = [Item_arg i, Rka_arg a] \<and> P i"
    and no_args: "t \<in> {PREPARE, COMMIT, PUT, RELEASE_LOCKS} \<Longrightarrow> rep t vals \<Longrightarrow> vals = []"
begin

lemma exchange_nothing:
  assumes "msgpack_ok mp" and "req t args" and t: "t \<in> {PREPARE, COMMIT, PUT, RELEASE_LOCKS}"
    and h: "drained h \<and> h_trx h = trx"
  shows "conforms mp junk req rep (\<lambda>h. drained h \<and> h_trx h = trx)
    (bind_prog (com_exchange mp junk com t args [] h) (\<lambda>(h, _). Return h))"
proof -
  have kinds: "list_all2 same_kind vals []" if "rep t vals" for vals
    using no_args[OF t that] by simp
  have "drained h" using h by simp
  then have "conforms mp junk req rep (\<lambda>(h', vals). drained h' \<and> rep t vals \<and> h_trx h' = h_trx h)
      (com_exchange mp junk com t args [] h)"
    by (rule conforms_exchange[where req = req and t = t and args = args, OF assms(1,2) _ kinds])
  then show ?thesis by (rule conforms_bind) (use h in \<open>auto intro: conforms_Return\<close>)
qed

lemma send_to_all:
  assumes "msgpack_ok mp" and "req t args" and "t \<in> {PREPARE, COMMIT, PUT, RELEASE_LOCKS}"
    and "drained h \<and> h_trx h = trx"
  shows "conforms mp junk req rep (\<lambda>h. drained h \<and> h_trx h = trx) (TrxHandler_send_to_all mp junk perm t args h)"
  unfolding TrxHandler_send_to_all_def
  by (rule conforms_parallel[where I = "\<lambda>h. drained h \<and> h_trx h = trx", OF assms(4)])
    (rule exchange_nothing[where req = req, OF assms(1-3)])

lemma keyed_exchange:
  assumes "msgpack_ok mp" and "\<And>h. h_trx h = trx \<Longrightarrow> req t (args h)"
    and "t \<in> {PREPARE, COMMIT, PUT, RELEASE_LOCKS}" and "drained h \<and> h_trx h = trx"
  shows "conforms mp junk req rep (\<lambda>h. drained h \<and> h_trx h = trx)
    (bind_prog (cp_get hash cfg k h) (\<lambda>(h, com).
     bind_prog (com_exchange mp junk com t (args h) [] h) (\<lambda>(h, _). Return h)))"
proof -
  have "conforms mp junk req rep (\<lambda>h. drained h \<and> h_trx h = trx)
      (bind_prog (com_exchange mp junk com t (args h) [] h) (\<lambda>(h, _). Return h))"
    if "drained h" "h_trx h = trx" for h com
    using that by (intro exchange_nothing[where req = req, OF assms(1) assms(2)[OF that(2)] assms(3)]) simp
  then show ?thesis
    by (intro conforms_bind[OF conforms_cp_get]) (use assms(4) in auto)
qed

lemma exchange_item:
  assumes "msgpack_ok mp" and "req GET args" and "drained h"
  shows "conforms mp junk req rep (\<lambda>(h', vals). drained h' \<and> rep GET vals \<and> h_trx h' = h_trx h)
    (com_exchange mp junk com GET args [Item_arg i] h)"
proof -
  have "list_all2 same_kind vals [Item_arg i]" if "rep GET vals" for vals using item[OF that] by auto
  then show ?thesis using assms by (intro conforms_exchange) auto
qed

lemma into:
  assumes "msgpack_ok mp" and "req GET args" and st: "handler_items P trx st"
  shows "conforms mp junk req rep (handler_items P trx) (get_into mp junk com GET args k st)"
proof -
  obtain h ret where hr: "st = (h, ret)" by (cases st)
  obtain ret' i where r: "cmap_index ret k Item_default = (ret', i)" by fastforce
  have "all_items P ret'" using st all_items_index[where P = P and ret = ret, OF _ default r] by (simp add: hr)
  then show ?thesis
    unfolding get_into_def hr Let_def prod.case r
    by (intro conforms_bind[OF exchange_item[where req = req, OF assms(1,2)]])
      (use st in \<open>auto simp: hr intro!: conforms_Return all_items_assign dest!: item\<close>)
qed

lemma keyed_get:
  assumes "msgpack_ok mp" and "req GET args" and st: "handler_items P trx st"
  shows "conforms mp junk req rep (handler_items P trx)
    (case st of (h, ret) \<Rightarrow> bind_prog (cp_get hash cfg k h) (\<lambda>(h, com). get_into mp junk com GET args k (h, ret)))"
proof -
  obtain h ret where hr: "st = (h, ret)" by (cases st)
  show ?thesis
    unfolding hr prod.case
    by (rule conforms_bind[OF conforms_cp_get]) (use st in \<open>auto simp: hr intro!: into[where req = req, OF assms(1,2)]\<close>)
qed

lemma second:
  assumes "msgpack_ok mp" and "\<And>v. req GET [Key_arg k, Ts_arg v]" and st: "handler_items P trx st"
  shows "conforms mp junk req rep (handler_items P trx) (second_round mp junk hash cfg v_latest k st)"
proof -
  obtain h ret where hr: "st = (h, ret)" by (cases st)
  obtain ret' i where r: "cmap_index ret k Item_default = (ret', i)" by fastforce
  have "handler_items P trx (h, ret')" using st all_items_index[where P = P and ret = ret, OF _ default r] by (simp add: hr)
  then show ?thesis
    using keyed_get[where req = req and mp = mp and st = "(h, ret')" and hash = hash and cfg = cfg and k = k, OF assms(1,2)]
    by (auto simp: second_round_def hr r Let_def intro: conforms_Return)
qed

lemma get_with_addr:
  assumes "msgpack_ok mp" and "req GET_WITH_ADDR [Key_arg k, Ts_arg Timestamp_default]" and st: "handler_items P trx st"
  shows "conforms mp junk req rep (handler_items P trx) (get_with_addr mp junk com k st)"
proof -
  obtain h ret where hr: "st = (h, ret)" by (cases st)
  obtain ret' i where r: "cmap_index ret k Item_default = (ret', i)" by fastforce
  obtain cache a where c: "cmap_index (h_addr_cache h) k RemoteKeyAndAddr_default = (cache, a)" by fastforce
  have ret': "all_items P ret'" using st all_items_index[where P = P and ret = ret, OF _ default r] by (simp add: hr)
  have kinds: "list_all2 same_kind vals [Item_arg i, Rka_arg a]" if "rep GET_WITH_ADDR vals" for vals
    using item_addr[OF that] by auto
  have "drained (h\<lparr>h_addr_cache := cache\<rparr>)" using st by (simp add: hr)
  from conforms_exchange[where req = req and t = GET_WITH_ADDR and rep = rep, OF assms(1,2) this kinds]
  show ?thesis
    unfolding get_with_addr_def hr Let_def prod.case r c
    by (rule conforms_bind) (use st ret' in \<open>auto simp: hr intro!: conforms_Return all_items_assign dest!: item_addr\<close>)
qed

text \<open>A one-sided read gives an item that no answer vouches for.\<close>

lemma AC_first:
  assumes "msgpack_ok mp" and "req GET_WITH_ADDR [Key_arg k, Ts_arg Timestamp_default]" and st: "handler_items P trx st"
    and any: "\<And>i. P i"
  shows "conforms mp junk req rep (handler_items P trx) (AC_first_round mp junk hash cfg k st)"
proof -
  obtain h ret where hr: "st = (h, ret)" by (cases st)
  obtain ret' i where r: "cmap_index ret k Item_default = (ret', i)" by fastforce
  have ret': "all_items P ret" "all_items P ret'" using any by (auto simp: all_items_def)
  note addr = get_with_addr[where req = req, OF assms(1,2)]
  have read: "conforms mp junk req rep (\<lambda>_. True) (com_read mp com i a)" for com i a
    unfolding com_read_def by (rule conforms_Remote_read, rule conforms_of_outcome) simp
  have hit: "conforms mp junk req rep (handler_items P trx)
      (bind_prog (com_read mp com i a) (\<lambda>(rc, it).
         if rc = -1 then get_with_addr mp junk com k (h', cmap_assign ret' k it) else Return (h', cmap_assign ret' k it)))"
    if "drained h' \<and> h_trx h' = trx" for com a h'
    by (rule conforms_bind[OF read])
      (use that ret' any in \<open>auto intro!: conforms_Return addr all_items_assign\<close>)
  have "conforms mp junk req rep (handler_items P trx)
      ((\<lambda>(h, com). case h_addr_cache h k of None \<Rightarrow> get_with_addr mp junk com k (h, ret)
         | Some a \<Rightarrow> (case cmap_index ret k Item_default of (ret, it) \<Rightarrow>
             bind_prog (com_read mp com it a) (\<lambda>(rc, it).
               if rc = -1 then get_with_addr mp junk com k (h, cmap_assign ret k it) else Return (h, cmap_assign ret k it)))) x)"
    if "case x of (h', com) \<Rightarrow> drained h' \<and> h_trx h' = h_trx h" for x :: "handler \<times> nat"
  proof -
    obtain h' com where x: "x = (h', com)" by (cases x)
    have h': "drained h' \<and> h_trx h' = trx" using that st by (simp add: x hr)
    show ?thesis using hit[OF h'] addr h' ret' by (simp add: x r split: option.split)
  qed
  then show ?thesis
    unfolding AC_first_round_def hr Let_def prod.case
    by (intro conforms_bind[OF conforms_cp_get]) (use st in \<open>simp_all add: hr\<close>)
qed

end

section \<open>Whole transactions\<close>

text \<open>The requests that the handler of a class makes, with \<open>ts\<close> the timestamp of its write transactions.\<close>

definition handler_requests :: "trx_type \<Rightarrow> timestamp \<Rightarrow> (message_type \<Rightarrow> arg list \<Rightarrow> bool) \<Rightarrow> bool" where
  "handler_requests tt ts req \<longleftrightarrow>
     (if tt = TWO_PHASE_LOCKING then (\<forall>i. item_ts i = ts \<longrightarrow> req PUT [Item_arg i]) \<and> req RELEASE_LOCKS []
      else (\<forall>i. item_ts i = ts \<longrightarrow> req PREPARE [Item_arg i]) \<and> req COMMIT [Ts_arg ts]) \<and>
     (\<forall>k. if tt = TWO_PHASE_LOCKING \<or> tt = NO_CONCURRENCY_CONTROL then req GET [Key_arg k]
          else \<forall>v. req GET [Key_arg k, Ts_arg v]) \<and>
     (tt = AC_RAMP_FAST \<longrightarrow> (\<forall>k. req GET_WITH_ADDR [Key_arg k, Ts_arg Timestamp_default]))"

context reply_contract
begin

lemma put_all:
  assumes mp: "msgpack_ok mp" and req: "handler_requests tt (Timestamp_now tod) req"
    and h: "drained h \<and> h_trx h = trx"
  shows "conforms mp junk req rep (\<lambda>h. drained h \<and> h_trx h = trx) (handler_put_all mp junk hash cfg tt tod perms h)"
proof -
  let ?I = "\<lambda>h :: handler. drained h \<and> h_trx h = trx" and ?ts = "Timestamp_now tod"
  have ts: "item_ts (Item_versioned k vs t) = t" "item_ts (Item_full k vs t ks) = t" for k vs t ks
    by (simp_all add: Item_versioned_def Item_full_def)
  have par: "conforms mp junk req rep ?I
      (bind_prog (parallel_for_each (perms 0) xs (\<lambda>w h. bind_prog (cp_get hash cfg (fst w) h) (\<lambda>(h, com).
         bind_prog (com_exchange mp junk com PREPARE [Item_arg (f w h)] [] h) (\<lambda>(h, _). Return h))) h)
       (TrxHandler_send_to_all mp junk (perms 1) COMMIT [Ts_arg ?ts]))"
    if "tt \<noteq> TWO_PHASE_LOCKING" and "\<And>w h. item_ts (f w h) = ?ts"
    for f and xs :: "(key \<times> (field, val) smap) list"
  proof (rule conforms_bind[OF conforms_parallel[where I = ?I, OF h]])
    fix w h assume "?I h"
    then show "conforms mp junk req rep ?I (bind_prog (cp_get hash cfg (fst w) h) (\<lambda>(h, com).
         bind_prog (com_exchange mp junk com PREPARE [Item_arg (f w h)] [] h) (\<lambda>(h, _). Return h)))"
      by (intro keyed_exchange[where req = req and args = "\<lambda>h. [Item_arg (f w h)]", OF mp])
        (use req that in \<open>auto simp: handler_requests_def\<close>)
  next
    fix h assume "?I h"
    then show "conforms mp junk req rep ?I (TrxHandler_send_to_all mp junk (perms 1) COMMIT [Ts_arg ?ts] h)"
      by (intro send_to_all[where req = req, OF mp]) (use req that(1) in \<open>auto simp: handler_requests_def\<close>)
  qed
  have seq: "conforms mp junk req rep ?I (LockBasedHandler_put_all mp junk hash cfg tod perms h)"
    if "tt = TWO_PHASE_LOCKING"
    unfolding LockBasedHandler_put_all_def Let_def
  proof (rule conforms_bind[OF conforms_for_each[where I = ?I, OF h]])
    fix w :: "key \<times> (field, val) smap" and h assume "?I h"
    then show "conforms mp junk req rep ?I (bind_prog (cp_get hash cfg (fst w) h) (\<lambda>(h, com).
         bind_prog (com_exchange mp junk com PUT [Item_arg (Item_versioned (fst w) (snd w) ?ts)] [] h) (\<lambda>(h, _). Return h)))"
      by (intro keyed_exchange[where req = req and args = "\<lambda>h. [Item_arg (Item_versioned (fst w) (snd w) ?ts)]", OF mp])
        (use req that ts in \<open>auto simp: handler_requests_def\<close>)
  next
    fix h assume "?I h"
    then show "conforms mp junk req rep ?I (TrxHandler_send_to_all mp junk (perms 0) RELEASE_LOCKS [] h)"
      by (intro send_to_all[where req = req, OF mp]) (use req that in \<open>auto simp: handler_requests_def\<close>)
  qed
  show ?thesis
  proof (cases tt)
    case TWO_PHASE_LOCKING
    then show ?thesis using seq by simp
  next
    case NO_CONCURRENCY_CONTROL
    then show ?thesis using par ts(1) by (simp add: NoCCHandler_put_all_def Let_def)
  next
    case RAMP_FAST
    then show ?thesis using par ts(2) by (simp add: RAMPFastHandler_put_all_def Let_def)
  next
    case AC_RAMP_FAST
    then show ?thesis using par ts(2) by (simp add: RAMPFastHandler_put_all_def Let_def)
  qed
qed

lemma rounds:
  assumes mp: "msgpack_ok mp" and req: "\<And>k v. req GET [Key_arg k, Ts_arg v]"
    and h: "drained h \<and> h_trx h = trx"
    and first: "\<And>k st. handler_items P trx st \<Longrightarrow> conforms mp junk req rep (handler_items P trx) (first k st)"
  shows "conforms mp junk req rep (handler_items P trx)
    (bind_prog (parallel_for_each (perms 0) keys first (h, Map.empty)) (\<lambda>(h, ret).
       parallel_for_each (perms 2) keys (second_round mp junk hash cfg (check_missing (ret_values (perms 1) keys ret))) (h, ret)))"
proof (rule conforms_bind[OF conforms_parallel[where I = "handler_items P trx", OF _ first]])
  fix st assume st: "handler_items P trx st"
  obtain h ret where hr: "st = (h, ret)" by (cases st)
  show "conforms mp junk req rep (handler_items P trx) (case st of (h, ret) \<Rightarrow>
      parallel_for_each (perms 2) keys (second_round mp junk hash cfg (check_missing (ret_values (perms 1) keys ret))) (h, ret))"
    unfolding hr prod.case
    by (rule conforms_parallel[where I = "handler_items P trx", OF st[unfolded hr]])
      (rule second[where req = req, OF mp req])
qed (use h in auto)

lemma get_all:
  assumes mp: "msgpack_ok mp" and req: "handler_requests tt ts req"
    and h: "drained h \<and> h_trx h = trx" and any: "tt = AC_RAMP_FAST \<Longrightarrow> \<forall>i. P i"
  shows "conforms mp junk req rep (handler_items P trx) (handler_get_all mp junk hash cfg tt perms h)"
proof -
  let ?I = "handler_items P trx"
  have start: "?I (h, Map.empty)" using h by simp
  show ?thesis
  proof (cases tt)
    case TWO_PHASE_LOCKING
    have get: "req GET [Key_arg k]" and release: "req RELEASE_LOCKS []" for k
      using req TWO_PHASE_LOCKING by (simp_all add: handler_requests_def)
    have "conforms mp junk req rep ?I (case st of (h, ret) \<Rightarrow>
        bind_prog (TrxHandler_send_to_all mp junk (perms 0) RELEASE_LOCKS [] h) (\<lambda>h. Return (h, ret)))"
      if "?I st" for st
    proof -
      obtain h ret where hr: "st = (h, ret)" by (cases st)
      show ?thesis
        unfolding hr prod.case
        by (rule conforms_bind[OF send_to_all[where req = req and t = RELEASE_LOCKS, OF mp release]])
          (use that in \<open>auto simp: hr intro: conforms_Return\<close>)
    qed
    then show ?thesis
      unfolding TWO_PHASE_LOCKING handler_get_all.simps LockBasedHandler_get_all_def
      by (intro conforms_bind[OF conforms_for_each[where I = ?I, OF start keyed_get[where req = req, OF mp get]]])
  next
    case NO_CONCURRENCY_CONTROL
    have "req GET [Key_arg k]" for k using req NO_CONCURRENCY_CONTROL by (simp add: handler_requests_def)
    then show ?thesis
      unfolding NO_CONCURRENCY_CONTROL handler_get_all.simps NoCCHandler_get_all_def
      by (intro conforms_parallel[where I = ?I, OF start keyed_get[where req = req, OF mp]])
  next
    case RAMP_FAST
    have get: "req GET [Key_arg k, Ts_arg v]" for k v using req RAMP_FAST by (simp add: handler_requests_def)
    show ?thesis
      unfolding RAMP_FAST handler_get_all.simps RAMPFastHandler_get_all_def Let_def
      by (rule rounds[where req = req, OF mp get h]) (rule keyed_get[where req = req, OF mp get])
  next
    case AC_RAMP_FAST
    have get: "req GET [Key_arg k, Ts_arg v]" and addr: "req GET_WITH_ADDR [Key_arg k, Ts_arg Timestamp_default]" for k v
      using req AC_RAMP_FAST by (simp_all add: handler_requests_def)
    show ?thesis
      unfolding AC_RAMP_FAST handler_get_all.simps ACRAMPFastHandler_get_all_def Let_def
      by (rule rounds[where req = req, OF mp get h])
        (rule AC_first[where req = req, OF mp addr], assumption, use any AC_RAMP_FAST in simp)
  qed
qed

lemma client_trx:
  assumes mp: "msgpack_ok mp" and req: "handler_requests tt (Timestamp_now tod) req"
    and any: "tt = AC_RAMP_FAST \<Longrightarrow> \<forall>i. P i" and st: "drained (fst st) \<and> (\<forall>ret \<in> set (snd st). all_items P ret)"
  shows "conforms mp junk req rep (\<lambda>st. drained (fst st) \<and> (\<forall>ret \<in> set (snd st). all_items P ret))
    (ClientThread_trx (handler_put_all mp junk hash cfg tt tod perms) (handler_get_all mp junk hash cfg tt perms) trx st)"
proof -
  let ?J = "\<lambda>st :: handler \<times> (key, item) cmap list. drained (fst st) \<and> (\<forall>ret \<in> set (snd st). all_items P ret)"
  obtain h rets where hr: "st = (h, rets)" by (cases st)
  have h: "drained (h\<lparr>h_trx := trx\<rparr>) \<and> h_trx (h\<lparr>h_trx := trx\<rparr>) = trx" using st by (simp add: hr)
  have put: "conforms mp junk req rep (\<lambda>h. drained h \<and> h_trx h = trx)
      (if b then handler_put_all mp junk hash cfg tt tod perms h else Return h)"
    if "drained h \<and> h_trx h = trx" for b h
    using put_all[where req = req, OF mp req that] that by (auto intro: conforms_Return)
  have get: "conforms mp junk req rep ?J
      (if b then bind_prog (handler_get_all mp junk hash cfg tt perms h) (\<lambda>(h, ret). Return (h, rets @ [ret])) else Return (h, rets))"
    if "drained h \<and> h_trx h = trx" for b h
  proof -
    have "conforms mp junk req rep ?J (case x of (h, ret) \<Rightarrow> Return (h, rets @ [ret]))" if "handler_items P trx x" for x
      using that st by (cases x) (auto simp: hr intro!: conforms_Return)
    from conforms_bind[OF get_all[where req = req, OF mp req that any] this] show ?thesis
      using that st by (auto simp: hr intro: conforms_Return)
  qed
  show ?thesis
    unfolding ClientThread_trx_def hr Let_def prod.case
    by (rule conforms_bind[OF put[OF h]], rule conforms_bind[OF get]) (auto intro!: conforms_Return)
qed

text \<open>All transactions of a thread.\<close>

lemma client_run:
  assumes mp: "msgpack_ok mp" and req: "\<And>j. handler_requests tt (Timestamp_now (tod j)) req"
    and any: "tt = AC_RAMP_FAST \<Longrightarrow> \<forall>i. P i" and h: "drained h"
  shows "conforms mp junk req rep (\<lambda>st. drained (fst st) \<and> (\<forall>ret \<in> set (snd st). all_items P ret))
    (client_thread mp junk hash cfg tt tod perms trxs h)"
proof -
  let ?J = "\<lambda>st :: handler \<times> (key, item) cmap list. drained (fst st) \<and> (\<forall>ret \<in> set (snd st). all_items P ret)"
  have "conforms mp junk req rep ?J (ClientThread_run (\<lambda>j. handler_put_all mp junk hash cfg tt (tod j) (perms j))
       (\<lambda>j. handler_get_all mp junk hash cfg tt (perms j)) i trxs st)" if "?J st" for i st
    using that
  proof (induction trxs arbitrary: i st)
    case Nil
    then show ?case by (auto intro: conforms_Return)
  next
    case (Cons trx trxs)
    show ?case
      unfolding ClientThread_run.simps
      by (rule conforms_bind[OF client_trx[where req = req, OF mp req any Cons.prems]]) (simp, rule Cons.IH)
  qed
  then show ?thesis using h by (simp add: client_thread_def)
qed

end

end
