(* ===== verification/Protocol.thy ===== *)
theory Protocol
  imports Cluster Sessions
begin

text \<open>
  The types of the protocol.  A request has a type and arguments, and the executor that serves it
  declares locals of certain types to unpack them into; the answer has arguments of its own, for which
  the handler declares destinations.  Nothing on the wire says which types these are: both sides have
  to agree.  \<open>request_ok\<close> says what an executor of each class unpacks, \<open>reply_dsts\<close> what a handler
  unpacks from the answer, and \<open>typed_prog\<close> what it means that a client program keeps to both.
\<close>

section \<open>Requests and answers\<close>

text \<open>The locals that \<open>run\<close> declares before it calls \<open>recv_body\<close>, by class and type of the request.\<close>

fun request_dsts :: "trx_type \<Rightarrow> message_type \<Rightarrow> arg list option" where
  "request_dsts TWO_PHASE_LOCKING t =
     (if t = PUT then Some [Item_arg Item_default]
      else if t = GET then Some [Key_arg []]
      else if t = RELEASE_LOCKS then Some [] else None)"
| "request_dsts NO_CONCURRENCY_CONTROL t =
     (if t = PREPARE then Some [Item_arg Item_default]
      else if t = COMMIT then Some [Ts_arg Timestamp_default]
      else if t = GET then Some [Key_arg []] else None)"
| "request_dsts RAMP_FAST t =
     (if t = PREPARE then Some [Item_arg Item_default]
      else if t = COMMIT then Some [Ts_arg Timestamp_default]
      else if t = GET then Some [Key_arg [], Ts_arg Timestamp_default] else None)"
| "request_dsts AC_RAMP_FAST t =
     (if t = PREPARE then Some [Item_arg Item_default]
      else if t = COMMIT then Some [Ts_arg Timestamp_default]
      else if t = GET \<or> t = GET_WITH_ADDR then Some [Key_arg [], Ts_arg Timestamp_default] else None)"

definition request_ok :: "trx_type \<Rightarrow> message_type \<Rightarrow> arg list \<Rightarrow> bool" where
  "request_ok tt t args =
     (case request_dsts tt t of None \<Rightarrow> False | Some dsts \<Rightarrow> list_all2 same_kind args dsts)"

definition reply_type :: "message_type \<Rightarrow> message_type" where
  "reply_type t = (if t = GET \<or> t = GET_WITH_ADDR then RESULT else DONE)"

definition reply_dsts :: "message_type \<Rightarrow> arg list" where
  "reply_dsts t =
     (if t = GET then [Item_arg Item_default]
      else if t = GET_WITH_ADDR then [Item_arg Item_default, Rka_arg RemoteKeyAndAddr_default]
      else [])"

lemma same_kind_Item: "same_kind a (Item_arg x) \<longleftrightarrow> (\<exists>i. a = Item_arg i)" by (cases a) auto
lemma same_kind_Rka: "same_kind a (Rka_arg x) \<longleftrightarrow> (\<exists>i. a = Rka_arg i)" by (cases a) auto

lemma same_kind_Key: "same_kind a (Key_arg x) \<longleftrightarrow> (\<exists>i. a = Key_arg i)" by (cases a) auto
lemma same_kind_Ts: "same_kind a (Ts_arg x) \<longleftrightarrow> (\<exists>i. a = Ts_arg i)" by (cases a) auto

lemmas same_kind_simps = same_kind_Item same_kind_Rka same_kind_Key same_kind_Ts

lemmas typing_simps = request_ok_def list_all2_Cons2 same_kind_simps

section \<open>What a server answers\<close>

definition answers_well :: "'o msgpack \<Rightarrow> nat \<times> nat \<Rightarrow> message_type \<Rightarrow> iteration \<Rightarrow> bool" where
  "answers_well mp junk t r \<longleftrightarrow>
     (case r of ((s, ex), out, go_on) \<Rightarrow>
        (\<exists>vals. list_all2 same_kind vals (reply_dsts t) \<and> out = [sent_msg mp junk (reply_type t) vals]) \<and>
        go_on \<and> ex_unpk ex = [])"

lemma answers_well_answered:
  assumes "answered ex r = Ret res" and "ex_unpk ex = []"
    and "\<And>s' reply. r = Ret (s', reply) \<Longrightarrow>
      \<exists>vals. list_all2 same_kind vals (reply_dsts t) \<and> reply = sent_msg mp junk (reply_type t) vals"
  shows "answers_well mp junk t res"
proof -
  obtain s' reply where "r = Ret (s', reply)" "res = ((s', ex), [reply], True)"
    using assms(1) by (auto simp: answered_def bind_outcome_Ret_iff)
  then show ?thesis using assms(2,3) by (auto simp: answers_well_def)
qed

lemma reply_nothing:
  assumes "sent_msg mp junk DONE [] = m" and "t \<noteq> GET" "t \<noteq> GET_WITH_ADDR"
  shows "\<exists>vals. list_all2 same_kind vals (reply_dsts t) \<and> m = sent_msg mp junk (reply_type t) vals"
  using assms by (intro exI[of _ "[]"]) (simp add: reply_dsts_def reply_type_def)

lemma reply_item:
  assumes "sent_msg mp junk RESULT [Item_arg i] = m"
  shows "\<exists>vals. list_all2 same_kind vals (reply_dsts GET) \<and> m = sent_msg mp junk (reply_type GET) vals"
  using assms by (intro exI[of _ "[Item_arg i]"]) (simp add: reply_dsts_def reply_type_def)

lemma reply_item_addr:
  assumes "sent_msg mp junk RESULT [Item_arg i, Rka_arg a] = m"
  shows "\<exists>vals. list_all2 same_kind vals (reply_dsts GET_WITH_ADDR) \<and>
    m = sent_msg mp junk (reply_type GET_WITH_ADDR) vals"
  using assms by (intro exI[of _ "[Item_arg i, Rka_arg a]"]) (simp add: reply_dsts_def reply_type_def)

lemma reply_phase:
  assumes "sent_msg mp junk DONE [] = m"
  shows "\<exists>vals. list_all2 same_kind vals (reply_dsts PREPARE) \<and> m = sent_msg mp junk (reply_type PREPARE) vals"
    and "\<exists>vals. list_all2 same_kind vals (reply_dsts COMMIT) \<and> m = sent_msg mp junk (reply_type COMMIT) vals"
  using reply_nothing[OF assms] by blast+

lemmas replies = reply_phase reply_item

lemma locking_answers_well:
  assumes "ex_unpk ex = []"
  shows "LockBasedExecutor_put mp junk i (s, ex) = Ret r \<Longrightarrow> answers_well mp junk PUT r"
    and "LockBasedExecutor_get mp junk k (s, ex) = Ret r \<Longrightarrow> answers_well mp junk GET r"
    and "LockBasedExecutor_release_locks mp junk (s, ex) = Ret r \<Longrightarrow> answers_well mp junk RELEASE_LOCKS r"
proof -
  show "LockBasedExecutor_put mp junk i (s, ex) = Ret r \<Longrightarrow> answers_well mp junk PUT r"
    using assms reply_nothing[OF refl, of PUT mp junk]
    by (auto simp: LockBasedExecutor_put_def answers_well_def bind_outcome_Ret_iff Let_def)
  show "LockBasedExecutor_get mp junk k (s, ex) = Ret r \<Longrightarrow> answers_well mp junk GET r"
    using assms reply_item[OF refl, of mp junk]
    by (auto simp: LockBasedExecutor_get_def answers_well_def bind_outcome_Ret_iff Let_def case_prod_beta')
  show "LockBasedExecutor_release_locks mp junk (s, ex) = Ret r \<Longrightarrow> answers_well mp junk RELEASE_LOCKS r"
    using assms reply_nothing[OF refl, of RELEASE_LOCKS mp junk]
    by (auto simp: LockBasedExecutor_release_locks_def answers_well_def bind_outcome_Ret_iff Let_def)
qed

lemmas answering_defs = RAMPFastExecutor_prepare_def RAMPFastExecutor_commit_def RAMPFastExecutor_get_def
  NoCCExecutor_prepare_def NoCCExecutor_commit_def NoCCExecutor_get_def

lemma get_with_addr_answers_well:
  assumes "answered ex (ACRAMPFastExecutor_get_item_and_addr mp junk ex k ts s) = Ret r" and "ex_unpk ex = []"
  shows "answers_well mp junk GET_WITH_ADDR r"
proof (rule answers_well_answered[OF assms])
  fix s' reply
  assume "ACRAMPFastExecutor_get_item_and_addr mp junk ex k ts s = Ret (s', reply)"
  then obtain i a where "sent_msg mp junk RESULT [Item_arg i, Rka_arg a] = reply"
    by (auto simp: ACRAMPFastExecutor_get_item_and_addr_def bind_outcome_Ret_iff split: prod.splits)
  then show "\<exists>vals. list_all2 same_kind vals (reply_dsts GET_WITH_ADDR) \<and>
      reply = sent_msg mp junk (reply_type GET_WITH_ADDR) vals" by (rule reply_item_addr)
qed

lemma executor_answers_well:
  assumes mp: "msgpack_ok mp" and ok: "request_ok tt t args" and ex: "ex_unpk ex = []"
    and r: "executor_iter mp junk tt (sent_msg mp junk t args) (s, ex) = Ret r"
  shows "answers_well mp junk t r"
proof (cases tt)
  case TWO_PHASE_LOCKING
  then show ?thesis
    using ok r
    by (auto simp: typing_simps LockBased_iter_sent[OF mp ex] simp del: executor_iter.simps
        dest: locking_answers_well[OF ex] split: if_splits)
next
  case NO_CONCURRENCY_CONTROL
  then show ?thesis
    using ok r
    by (auto simp: typing_simps NoCC_iter_sent[OF mp ex] answering_defs bind_outcome_Ret_iff
        simp del: executor_iter.simps intro!: replies elim!: answers_well_answered[OF _ ex] split: if_splits prod.splits)
next
  case RAMP_FAST
  then show ?thesis
    using ok r
    by (auto simp: typing_simps RAMP_iter_sent[OF mp ex] answering_defs bind_outcome_Ret_iff
        simp del: executor_iter.simps intro!: replies elim!: answers_well_answered[OF _ ex] split: if_splits prod.splits)
next
  case AC_RAMP_FAST
  show ?thesis
  proof (cases "t = GET_WITH_ADDR")
    case True
    then show ?thesis
      using ok r AC_RAMP_FAST
      by (auto simp: typing_simps AC_iter_sent[OF mp ex] simp del: executor_iter.simps intro: get_with_addr_answers_well[OF _ ex])
  next
    case False
    then show ?thesis
      using ok r AC_RAMP_FAST
      by (auto simp: typing_simps RAMP_iter_sent[OF mp ex] answering_defs bind_outcome_Ret_iff
          simp del: executor_iter.simps intro!: replies elim!: answers_well_answered[OF _ ex] split: if_splits prod.splits)
  qed
qed

section \<open>The handlers keep to the types\<close>

definition reply_ok :: "message_type \<Rightarrow> arg list \<Rightarrow> bool" where
  "reply_ok t vals \<longleftrightarrow> list_all2 same_kind vals (reply_dsts t)"

text \<open>\<open>typed_prog\<close>: all requests are well typed, and what follows after every answer of the right types is.\<close>

abbreviation typed_prog :: "'o msgpack \<Rightarrow> nat \<times> nat \<Rightarrow> trx_type \<Rightarrow> ('a \<Rightarrow> bool) \<Rightarrow> 'a prog \<Rightarrow> bool" where
  "typed_prog mp junk tt \<equiv> conforms mp junk (request_ok tt) reply_ok"

interpretation typed_reply: reply_contract reply_ok "\<lambda>_. True"
  by unfold_locales
    (auto simp: reply_ok_def reply_dsts_def list_all2_Cons2 same_kind_simps)

lemma handler_requests_typed: "handler_requests tt ts (request_ok tt)"
  by (cases tt) (simp_all add: handler_requests_def request_ok_def)

definition conns_drained :: "cluster \<Rightarrow> bool" where
  "conns_drained w \<longleftrightarrow> (\<forall>c. ex_unpk (cl_conns w c) = [])"

interpretation typed_service: service mp junk "cluster_serve mp junk tt home" "cluster_peek home" "request_ok tt" reply_ok
    "\<lambda>w. msgpack_ok mp \<and> conns_drained w" for mp :: "'o msgpack" and junk tt home
proof
  fix w t args c w' r
  assume w: "msgpack_ok mp \<and> conns_drained w" and ok: "request_ok tt t args"
    and served: "cluster_serve mp junk tt home c (sent_msg mp junk t args) w = Ret (w', r)"
  obtain s ex out go_on where
    iter: "executor_iter mp junk tt (sent_msg mp junk t args) (cl_servers w (home c), cl_conns w c) = Ret ((s, ex), r # out, go_on)"
    and conns: "cl_conns w' = (cl_conns w)(c := ex)" using served by (rule cluster_serve_Ret)
  have "ex_unpk (cl_conns w c) = []" using w by (simp add: conns_drained_def)
  from executor_answers_well[OF _ ok this iter] w obtain vals where
    "reply_ok t vals" "r = sent_msg mp junk (reply_type t) vals" "ex_unpk ex = []"
    by (auto simp: answers_well_def reply_ok_def)
  then show "(msgpack_ok mp \<and> conns_drained w') \<and> (\<exists>rt vals. reply_ok t vals \<and> r = sent_msg mp junk rt vals)"
    using w conns by (auto simp: conns_drained_def)
qed

end
