(* ===== verification/Protocol_Theorems.thy ===== *)
theory Protocol_Theorems
  imports Protocol Samples
begin

text \<open>
  Both ends of a connection agree on the types of what they exchange: the server's answers have the
  types that the client unpacks, and what the client threads send is what the servers unpack, in every
  interleaving.
\<close>

text \<open>C10: Well-typed requests get well-typed answers.  For each of the four classes of executor, a request that it
  knows, with arguments of the types that it unpacks and nothing pending in its unpacker, is answered with
  exactly one message; the message has the type of its kind of request, its body is unpacked completely and
  without loss into the destinations that the handlers give to \<open>recv\<close>, and the executor stays in its loop with
  nothing pending.\<close>

theorem answers_are_well_typed:
  assumes "msgpack_ok mp" and "request_ok tt t args" and "ex_unpk ex = []"
    and "executor_iter mp junk tt (sent_msg mp junk t args) (s, ex) = Ret ((s', ex'), out, go_on)"
  shows "\<exists>vals. list_all2 same_kind vals (reply_dsts t) \<and> out = [sent_msg mp junk (reply_type t) vals] \<and>
    Communicator_recv_body mp [] (snd (hd out)) (reply_dsts t) = (vals, []) \<and> go_on \<and> ex_unpk ex' = []"
proof -
  obtain vals where vals: "list_all2 same_kind vals (reply_dsts t)" "out = [sent_msg mp junk (reply_type t) vals]"
      "go_on" "ex_unpk ex' = []"
    using executor_answers_well[OF assms] by (auto simp: answers_well_def)
  then show ?thesis using recv_body_sent[OF assms(1) vals(1), of junk "reply_type t"] by auto
qed

text \<open>A fresh server that does without concurrency control is asked for a key.\<close>

theorem answers_are_well_typed_witness:
  "\<exists>vals s' ex' out go_on.
     executor_iter sample_mp (0, 0) NO_CONCURRENCY_CONTROL (sent_msg sample_mp (0, 0) GET [Key_arg ''k''])
       (sample_server, NoCCExecutor 0) = Ret ((s', ex'), out, go_on) \<and>
     list_all2 same_kind vals [Item_arg Item_default] \<and> out = [sent_msg sample_mp (0, 0) RESULT vals]"
proof -
  have ok: "request_ok NO_CONCURRENCY_CONTROL GET [Key_arg ''k'']" by (simp add: request_ok_def)
  have ex: "ex_unpk (NoCCExecutor 0) = []" by (simp add: NoCCExecutor_def TrxExecutor_def)
  obtain s' ex' out go_on where r: "executor_iter sample_mp (0, 0) NO_CONCURRENCY_CONTROL
      (sent_msg sample_mp (0, 0) GET [Key_arg ''k'']) (sample_server, NoCCExecutor 0) = Ret ((s', ex'), out, go_on)"
    by (auto simp: NoCC_iter_sent[OF sample_mp_ok ex] NoCCExecutor_get_def answered_def case_prod_beta'
        simp del: executor_iter.simps)
  from answers_are_well_typed[OF sample_mp_ok ok ex r] r show ?thesis
    by (simp add: reply_dsts_def reply_type_def) blast
qed

text \<open>C9: Requests are unpacked as what was sent.  Whatever transactions the client threads run, in every interleaving
  of their messages and for each class of handler with its class of executor: the next request of a thread is
  one that the executor at the other end of its connection knows, its arguments have the types that the
  executor unpacks, and nothing older is pending there, so that unpacking gives exactly these arguments.\<close>

theorem requests_are_well_typed:
  assumes "msgpack_ok mp" and "\<forall>c. ex_unpk (cl_conns w c) = []" and "\<forall>i com. h_unpk (h i) com = []"
    and "(system_step (cluster_serve mp junk tt home) (cluster_peek home))\<^sup>*\<^sup>*
      (w, \<lambda>i. client_thread mp junk hash cfg tt (tod i) (perms i) (trxs i) (h i)) (w', ps')"
    and "ps' i = Request com msg k"
  shows "\<exists>t args dsts. msg = sent_msg mp junk t args \<and> request_dsts tt t = Some dsts \<and>
    Communicator_recv_body mp (ex_unpk (cl_conns w' com)) (snd msg) dsts = (args, [])"
proof -
  let ?post = "\<lambda>st :: handler \<times> (key, item) cmap list. drained (fst st) \<and> (\<forall>ret \<in> set (snd st). all_items (\<lambda>_. True) ret)"
  have thread: "typed_prog mp junk tt ?post (client_thread mp junk hash cfg tt (tod i) (perms i) (trxs i) (h i))" for i
    by (rule typed_reply.client_run[OF assms(1) handler_requests_typed]) (use assms(3) in \<open>simp_all add: drained_def\<close>)
  have "msgpack_ok mp \<and> conns_drained w" using assms(1,2) by (simp add: conns_drained_def)
  from typed_service.system_conforms[OF assms(4) thread this]
  have ps': "typed_prog mp junk tt ?post (ps' i)" and w': "conns_drained w'" by blast+
  have p: "typed_prog mp junk tt ?post (Request com msg k)" using ps' unfolding assms(5) .
  have empty: "ex_unpk (cl_conns w' com) = []" using w' by (simp add: conns_drained_def)
  from p obtain t args where msg: "msg = sent_msg mp junk t args" and "request_ok tt t args"
    by (auto elim: conforms_RequestE)
  then obtain dsts where dsts: "request_dsts tt t = Some dsts" "list_all2 same_kind args dsts"
    by (auto simp: request_ok_def split: option.splits)
  from recv_body_sent[OF assms(1) dsts(2)] show ?thesis
    unfolding empty msg using dsts(1) by blast
qed

text \<open>The first message of a RAMP write transaction.\<close>

theorem requests_are_well_typed_witness:
  "\<exists>t args dsts com msg k.
     client_thread sample_mp (0, 0) sample_hash sample_cfg RAMP_FAST (\<lambda>_. (5, 7)) (\<lambda>_ _ n. [0..<n])
       [sample_write] (sample_handler 0) = Request com msg k \<and>
     msg = sent_msg sample_mp (0, 0) t args \<and> request_dsts RAMP_FAST t = Some dsts"
proof -
  let ?p = "client_thread sample_mp (0, 0) sample_hash sample_cfg RAMP_FAST (\<lambda>_. (5, 7)) (\<lambda>_ _ n. [0..<n])
       [sample_write] (sample_handler 0)"
  obtain com msg k where p: "?p = Request com msg k"
    by (simp add: client_thread_def ClientThread_trx_def sample_write_eq sample_handler_def TrxHandler_new_def sample_cfg_def
        RAMPFastHandler_put_all_def parallel_for_each_def in_order_def cp_get_def ConnectionPool_get_def com_exchange_def
        Let_def)
  have "\<forall>c. ex_unpk (cl_conns (sample_cluster RAMP_FAST) c) = []"
    by (simp add: sample_cluster_def RAMPFastExecutor_def TrxExecutor_def)
  moreover have "\<forall>(i :: nat) com. h_unpk (sample_handler 0) com = []" by (simp add: sample_handler_def TrxHandler_new_def)
  moreover have "(system_step (cluster_serve sample_mp (0, 0) RAMP_FAST (\<lambda>_. 0)) (cluster_peek (\<lambda>_. 0)))\<^sup>*\<^sup>*
      (sample_cluster RAMP_FAST, \<lambda>i. ?p) (sample_cluster RAMP_FAST, \<lambda>i. ?p)" by simp
  ultimately show ?thesis
    using requests_are_well_typed[OF sample_mp_ok, of "sample_cluster RAMP_FAST" "\<lambda>_. sample_handler 0" "(0, 0)" RAMP_FAST
        "\<lambda>_. 0" sample_hash sample_cfg "\<lambda>_ _. (5, 7)" "\<lambda>_ _ _ n. [0..<n]" "\<lambda>_. [sample_write]"
        "sample_cluster RAMP_FAST" "\<lambda>_. ?p" 0 com msg k, OF _ _ _ p] p by blast
qed

end
