(* ===== verification/Ycsb_Clients.thy ===== *)
theory Ycsb_Clients
  imports Ycsb_Executors Clients
begin

text \<open>
  The client side of the YCSB copy: \<open>Config\<close> (\<open>YCSB-0.5.0/include/config/Config.h\<close>), \<open>ConnectionPool\<close>
  (\<open>YCSB-0.5.0/src/net/ConnectionPool.cpp\<close>), the handlers (\<open>YCSB-0.5.0/src/service/handler/\<close>),
  \<open>TrxQueue\<close> (\<open>YCSB-0.5.0/src/service/TrxQueue.cpp\<close>) and \<open>Client\<close> with its threads
  (\<open>YCSB-0.5.0/src/client/\<close>).  \<open>Transaction\<close> and the classes of the connections are the same code in
  both trees and are shared.
\<close>

section \<open>Configuration\<close>

datatype Y_trx_type = LOCK_BASED | Y_NO_CONCURRENCY_CONTROL | Y_RAMP_FAST | Y_AC_RAMP_FAST

text \<open>The members that the code reads; \<open>sleep_flag\<close> and \<open>sleep_time\<close> are set and never read.\<close>

record Y_config =
  Yc_host_id :: int
  Yc_com_type :: com_type
  Yc_trx_type :: Y_trx_type
  Yc_data_num :: int
  Yc_worker_num :: int
  Yc_trx_len :: int
  Yc_write_trx_num :: int
  Yc_read_trx_num :: int
  Yc_trx_num :: int
  Yc_value_size :: int
  Yc_server_num :: int
  Yc_server_list :: "host_and_port list"
  Yc_cache_addr :: nat
  Yc_cache_size :: nat
  Yc_write_duration :: lock_duration
  Yc_read_duration :: lock_duration

section \<open>Connection pool\<close>

definition Y_ConnectionPool_connect_all ::
    "(socket_class \<Rightarrow> host_and_port \<Rightarrow> 'w \<Rightarrow> ('w \<times> nat) outcome) \<Rightarrow> Y_config \<Rightarrow>
     'w \<times> connection_pool \<Rightarrow> ('w \<times> connection_pool) outcome" where
  "Y_ConnectionPool_connect_all connect cfg st =
     fold_outcome (\<lambda>hp (w, cp).
         bind_outcome (connect (socket_class_of (Yc_com_type cfg)) hp w) (\<lambda>(w, com).
           Ret (w, cp\<lparr>connections := cmap_assign (connections cp) hp com\<rparr>)))
       (Yc_server_list cfg) st"

text \<open>
  \<open>hash_v % config.server_num\<close> takes \<open>server_num\<close> as a \<open>size_t\<close>; \<open>at\<close> throws when the remainder is past
  the end of the list.
\<close>

definition size_t_of_int :: "int \<Rightarrow> nat" where
  "size_t_of_int i = nat (i mod 2 ^ 64)"

definition Y_ConnectionPool_get ::
    "(key \<Rightarrow> nat) \<Rightarrow> Y_config \<Rightarrow> key \<Rightarrow> connection_pool \<Rightarrow> (connection_pool \<times> nat) outcome" where
  "Y_ConnectionPool_get hash cfg k cp =
     (let hash_v = hash k;
          n = size_t_of_int (Yc_server_num cfg)
      in if n = 0 then Dies Division_by_zero
         else if length (Yc_server_list cfg) \<le> hash_v mod n then Dies Uncaught_exception
         else let hp = Yc_server_list cfg ! (hash_v mod n) in
           (case connections cp hp of
              None \<Rightarrow> Dies Uncaught_exception
            | Some com \<Rightarrow>
                Ret (cp\<lparr>access_coms := (if com \<in> set (access_coms cp) then access_coms cp
                                        else access_coms cp @ [com])\<rparr>, com)))"

definition Y_ConnectionPool_clear_access_coms :: "connection_pool \<Rightarrow> connection_pool" where
  "Y_ConnectionPool_clear_access_coms cp = cp\<lparr>access_coms := []\<rparr>"

definition Y_ConnectionPool_close_all ::
    "(nat \<Rightarrow> 'w \<Rightarrow> 'w outcome) \<Rightarrow> (nat \<Rightarrow> 'w \<Rightarrow> 'w outcome) \<Rightarrow> host_and_port list \<Rightarrow>
     connection_pool \<Rightarrow> 'w \<Rightarrow> 'w outcome" where
  "Y_ConnectionPool_close_all send_close destroy hps cp w =
     fold_outcome (\<lambda>hp w.
         (case connections cp hp of
            None \<Rightarrow> Ret w
          | Some com \<Rightarrow> bind_outcome (send_close com w) (destroy com)))
       hps w"

section \<open>Handlers\<close>

text \<open>
  \<open>trx\<close> is a pointer that nothing sets before the first \<open>pop\<close>; a handler made by \<open>new\<close> with empty
  parentheses starts out zeroed, so that the pointer is null.
\<close>

record Y_handler =
  Yh_cp :: connection_pool
  Yh_unpk :: "nat \<Rightarrow> byte list"
  Yh_addr_cache :: "(key, rka) cmap"
  Yh_trx :: "trx option"

definition Y_TrxHandler_new :: Y_handler where
  "Y_TrxHandler_new = \<lparr>Yh_cp = ConnectionPool_new, Yh_unpk = (\<lambda>_. []), Yh_addr_cache = Map.empty, Yh_trx = None\<rparr>"

definition Y_this_trx :: "Y_handler \<Rightarrow> trx prog" where
  "Y_this_trx h = (case Yh_trx h of None \<Rightarrow> Crash Null_pointer | Some trx \<Rightarrow> Return trx)"

definition Y_cp_get :: "(key \<Rightarrow> nat) \<Rightarrow> Y_config \<Rightarrow> key \<Rightarrow> Y_handler \<Rightarrow> (Y_handler \<times> nat) prog" where
  "Y_cp_get hash cfg k h =
     of_outcome (bind_outcome (Y_ConnectionPool_get hash cfg k (Yh_cp h))
       (\<lambda>(cp, com). Ret (h\<lparr>Yh_cp := cp\<rparr>, com)))"

definition Y_com_exchange ::
    "'o msgpack \<Rightarrow> nat \<times> nat \<Rightarrow> nat \<Rightarrow> message_type \<Rightarrow> arg list \<Rightarrow> arg list \<Rightarrow> Y_handler \<Rightarrow>
     (Y_handler \<times> arg list) prog" where
  "Y_com_exchange mp junk com msg_type args dsts h =
     Request com (sent_msg mp junk msg_type args) (\<lambda>(header, body).
       of_outcome (bind_outcome (Y_Communicator_recv_body mp (Yh_unpk h com) body dsts) (\<lambda>(vals, unpk).
         Ret (h\<lparr>Yh_unpk := (Yh_unpk h)(com := unpk)\<rparr>, vals))))"

definition Y_TrxHandler_send_to_all ::
    "'o msgpack \<Rightarrow> nat \<times> nat \<Rightarrow> (nat \<Rightarrow> nat list) \<Rightarrow> message_type \<Rightarrow> arg list \<Rightarrow> Y_handler \<Rightarrow> Y_handler prog" where
  "Y_TrxHandler_send_to_all mp junk perm msg_type args h =
     parallel_for_each perm (access_coms (Yh_cp h))
       (\<lambda>com h. bind_prog (Y_com_exchange mp junk com msg_type args [] h) (\<lambda>(h, _). Return h)) h"

definition Y_RAMPFastHandler_put_all ::
    "'o msgpack \<Rightarrow> nat \<times> nat \<Rightarrow> (key \<Rightarrow> nat) \<Rightarrow> Y_config \<Rightarrow> int \<times> int \<Rightarrow> (nat \<Rightarrow> nat \<Rightarrow> nat list) \<Rightarrow>
     Y_handler \<Rightarrow> Y_handler prog" where
  "Y_RAMPFastHandler_put_all mp junk hash cfg timeofday perms h =
     (let ts = Y_Timestamp_now timeofday in
      bind_prog (Y_this_trx h) (\<lambda>trx.
      bind_prog
        (parallel_for_each (perms 0) (write_set trx) (\<lambda>w h.
           let k = fst w in
           bind_prog (Y_cp_get hash cfg k h) (\<lambda>(h, com).
           bind_prog (Y_com_exchange mp junk com PREPARE
                        [Item_arg (Y_Item_full k (snd w) ts (access_keys trx))] [] h) (\<lambda>(h, _).
           Return h))) h)
        (Y_TrxHandler_send_to_all mp junk (perms 1) COMMIT [Ts_arg ts])))"

definition Y_get_into ::
    "'o msgpack \<Rightarrow> nat \<times> nat \<Rightarrow> nat \<Rightarrow> message_type \<Rightarrow> arg list \<Rightarrow> key \<Rightarrow>
     Y_handler \<times> (key, item) cmap \<Rightarrow> (Y_handler \<times> (key, item) cmap) prog" where
  "Y_get_into mp junk com msg_type args k st =
     (let (h, ret) = st;
          (ret, it) = cmap_index ret k Item_default
      in bind_prog (Y_com_exchange mp junk com msg_type args [Item_arg it] h) (\<lambda>(h, vals).
           Return (h, cmap_assign ret k (arg_item (vals ! 0)))))"

definition Y_note_version :: "timestamp \<Rightarrow> key \<Rightarrow> (key, timestamp) cmap \<Rightarrow> (key, timestamp) cmap" where
  "Y_note_version ts k v_latest =
     (let (v_latest, v) = cmap_index v_latest k Timestamp_default
      in if Y_Timestamp_lt v ts then cmap_assign v_latest k ts else v_latest)"

definition Y_check_missing :: "item list \<Rightarrow> (key, timestamp) cmap" where
  "Y_check_missing its =
     fold (\<lambda>it v_latest. fold (Y_note_version (item_ts it)) (item_trx_keys it) v_latest) its Map.empty"

definition Y_second_round ::
    "'o msgpack \<Rightarrow> nat \<times> nat \<Rightarrow> (key \<Rightarrow> nat) \<Rightarrow> Y_config \<Rightarrow> (key, timestamp) cmap \<Rightarrow> key \<Rightarrow>
     Y_handler \<times> (key, item) cmap \<Rightarrow> (Y_handler \<times> (key, item) cmap) prog" where
  "Y_second_round mp junk hash cfg v_latest k st =
     (let (h, ret) = st;
          v = snd (cmap_index v_latest k Timestamp_default);
          (ret, it) = cmap_index ret k Item_default
      in if Y_Timestamp_gt v (item_ts it)
         then bind_prog (Y_cp_get hash cfg k h) (\<lambda>(h, com).
                Y_get_into mp junk com GET [Key_arg k, Ts_arg v] k (h, ret))
         else Return (h, ret))"

definition Y_RAMPFastHandler_get_all ::
    "'o msgpack \<Rightarrow> nat \<times> nat \<Rightarrow> (key \<Rightarrow> nat) \<Rightarrow> Y_config \<Rightarrow> (nat \<Rightarrow> nat \<Rightarrow> nat list) \<Rightarrow>
     Y_handler \<Rightarrow> (Y_handler \<times> (key, item) cmap) prog" where
  "Y_RAMPFastHandler_get_all mp junk hash cfg perms h =
     bind_prog (Y_this_trx h) (\<lambda>trx.
      let keys = map fst (read_set trx) in
      bind_prog
        (parallel_for_each (perms 0) keys (\<lambda>k (h, ret).
           bind_prog (Y_cp_get hash cfg k h) (\<lambda>(h, com).
             Y_get_into mp junk com GET [Key_arg k, Ts_arg Timestamp_default] k (h, ret))) (h, Map.empty))
        (\<lambda>(h, ret).
           let v_latest = Y_check_missing (ret_values (perms 1) keys ret)
           in parallel_for_each (perms 2) keys (Y_second_round mp junk hash cfg v_latest) (h, ret)))"

definition Y_get_with_addr ::
    "'o msgpack \<Rightarrow> nat \<times> nat \<Rightarrow> nat \<Rightarrow> key \<Rightarrow>
     Y_handler \<times> (key, item) cmap \<Rightarrow> (Y_handler \<times> (key, item) cmap) prog" where
  "Y_get_with_addr mp junk com k st =
     (let (h, ret) = st;
          (ret, it) = cmap_index ret k Item_default;
          (cache, a) = cmap_index (Yh_addr_cache h) k RemoteKeyAndAddr_default;
          h = h\<lparr>Yh_addr_cache := cache\<rparr>
      in bind_prog (Y_com_exchange mp junk com GET_WITH_ADDR [Key_arg k, Ts_arg Timestamp_default]
                      [Item_arg it, Rka_arg a] h) (\<lambda>(h, vals).
           Return (h\<lparr>Yh_addr_cache := cmap_assign (Yh_addr_cache h) k (arg_rka (vals ! 1))\<rparr>,
                   cmap_assign ret k (arg_item (vals ! 0)))))"

text \<open>\<open>com->read\<close> does what that of the main tree does with the packet.\<close>

definition Y_AC_first_round ::
    "'o msgpack \<Rightarrow> nat \<times> nat \<Rightarrow> (key \<Rightarrow> nat) \<Rightarrow> Y_config \<Rightarrow> key \<Rightarrow>
     Y_handler \<times> (key, item) cmap \<Rightarrow> (Y_handler \<times> (key, item) cmap) prog" where
  "Y_AC_first_round mp junk hash cfg k st =
     (let (h, ret) = st in
      bind_prog (Y_cp_get hash cfg k h) (\<lambda>(h, com).
        (case Yh_addr_cache h k of
           None \<Rightarrow> Y_get_with_addr mp junk com k (h, ret)
         | Some a \<Rightarrow>
             (let (ret, it) = cmap_index ret k Item_default in
              bind_prog (com_read mp com it a) (\<lambda>(rc, it).
                let ret = cmap_assign ret k it in
                if rc = -1 then Y_get_with_addr mp junk com k (h, ret)
                else Return (h, ret))))))"

definition Y_ACRAMPFastHandler_get_all ::
    "'o msgpack \<Rightarrow> nat \<times> nat \<Rightarrow> (key \<Rightarrow> nat) \<Rightarrow> Y_config \<Rightarrow> (nat \<Rightarrow> nat \<Rightarrow> nat list) \<Rightarrow>
     Y_handler \<Rightarrow> (Y_handler \<times> (key, item) cmap) prog" where
  "Y_ACRAMPFastHandler_get_all mp junk hash cfg perms h =
     bind_prog (Y_this_trx h) (\<lambda>trx.
      let keys = map fst (read_set trx) in
      bind_prog
        (parallel_for_each (perms 0) keys (Y_AC_first_round mp junk hash cfg) (h, Map.empty))
        (\<lambda>(h, ret).
           let v_latest = Y_check_missing (ret_values (perms 1) keys ret)
           in parallel_for_each (perms 2) keys (Y_second_round mp junk hash cfg v_latest) (h, ret)))"

definition Y_NoCCHandler_put_all ::
    "'o msgpack \<Rightarrow> nat \<times> nat \<Rightarrow> (key \<Rightarrow> nat) \<Rightarrow> Y_config \<Rightarrow> int \<times> int \<Rightarrow> (nat \<Rightarrow> nat \<Rightarrow> nat list) \<Rightarrow>
     Y_handler \<Rightarrow> Y_handler prog" where
  "Y_NoCCHandler_put_all mp junk hash cfg timeofday perms h =
     (let ts = Y_Timestamp_now timeofday in
      bind_prog (Y_this_trx h) (\<lambda>trx.
      bind_prog
        (parallel_for_each (perms 0) (write_set trx) (\<lambda>w h.
           let k = fst w in
           bind_prog (Y_cp_get hash cfg k h) (\<lambda>(h, com).
           bind_prog (Y_com_exchange mp junk com PREPARE [Item_arg (Y_Item_versioned k (snd w) ts)] [] h) (\<lambda>(h, _).
           Return h))) h)
        (Y_TrxHandler_send_to_all mp junk (perms 1) COMMIT [Ts_arg ts])))"

definition Y_NoCCHandler_get_all ::
    "'o msgpack \<Rightarrow> nat \<times> nat \<Rightarrow> (key \<Rightarrow> nat) \<Rightarrow> Y_config \<Rightarrow> (nat \<Rightarrow> nat \<Rightarrow> nat list) \<Rightarrow>
     Y_handler \<Rightarrow> (Y_handler \<times> (key, item) cmap) prog" where
  "Y_NoCCHandler_get_all mp junk hash cfg perms h =
     bind_prog (Y_this_trx h) (\<lambda>trx.
       parallel_for_each (perms 0) (map fst (read_set trx)) (\<lambda>k (h, ret).
         bind_prog (Y_cp_get hash cfg k h) (\<lambda>(h, com).
           Y_get_into mp junk com GET [Key_arg k] k (h, ret))) (h, Map.empty))"

definition Y_LockBasedHandler_put_all ::
    "'o msgpack \<Rightarrow> nat \<times> nat \<Rightarrow> (key \<Rightarrow> nat) \<Rightarrow> Y_config \<Rightarrow> int \<times> int \<Rightarrow> (nat \<Rightarrow> nat \<Rightarrow> nat list) \<Rightarrow>
     Y_handler \<Rightarrow> Y_handler prog" where
  "Y_LockBasedHandler_put_all mp junk hash cfg timeofday perms h =
     (let ts = Y_Timestamp_now timeofday in
      bind_prog (Y_this_trx h) (\<lambda>trx.
      bind_prog
        (for_each_prog (\<lambda>w h.
           let k = fst w in
           bind_prog (Y_cp_get hash cfg k h) (\<lambda>(h, com).
           bind_prog (Y_com_exchange mp junk com PUT [Item_arg (Y_Item_versioned k (snd w) ts)] [] h) (\<lambda>(h, _).
           Return h))) (write_set trx) h)
        (Y_TrxHandler_send_to_all mp junk (perms 0) RELEASE_LOCKS [])))"

definition Y_LockBasedHandler_get_all ::
    "'o msgpack \<Rightarrow> nat \<times> nat \<Rightarrow> (key \<Rightarrow> nat) \<Rightarrow> Y_config \<Rightarrow> (nat \<Rightarrow> nat \<Rightarrow> nat list) \<Rightarrow>
     Y_handler \<Rightarrow> (Y_handler \<times> (key, item) cmap) prog" where
  "Y_LockBasedHandler_get_all mp junk hash cfg perms h =
     bind_prog (Y_this_trx h) (\<lambda>trx.
     bind_prog
       (for_each_prog (\<lambda>k (h, ret).
          bind_prog (Y_cp_get hash cfg k h) (\<lambda>(h, com).
            Y_get_into mp junk com GET [Key_arg k] k (h, ret))) (map fst (read_set trx)) (h, Map.empty))
       (\<lambda>(h, ret).
          bind_prog (Y_TrxHandler_send_to_all mp junk (perms 0) RELEASE_LOCKS [] h) (\<lambda>h. Return (h, ret))))"

section \<open>Client threads\<close>

text \<open>\<open>pop\<close> stores the transaction in \<open>trx_handler->trx\<close>.\<close>

definition Y_ClientThread_trx ::
    "(Y_handler \<Rightarrow> Y_handler prog) \<Rightarrow> (Y_handler \<Rightarrow> (Y_handler \<times> (key, item) cmap) prog) \<Rightarrow> trx \<Rightarrow>
     Y_handler \<times> (key, item) cmap list \<Rightarrow> (Y_handler \<times> (key, item) cmap list) prog" where
  "Y_ClientThread_trx put_all get_all trx st =
     (let (h, rets) = st; h = h\<lparr>Yh_trx := Some trx\<rparr> in
      bind_prog (Y_this_trx h) (\<lambda>trx.
      bind_prog (if write_set trx \<noteq> [] then put_all h else Return h) (\<lambda>h.
      bind_prog (Y_this_trx h) (\<lambda>trx.
      bind_prog (if read_set trx \<noteq> []
                 then bind_prog (get_all h) (\<lambda>(h, ret). Return (h, rets @ [ret]))
                 else Return (h, rets)) (\<lambda>(h, rets).
      Return (h\<lparr>Yh_cp := Y_ConnectionPool_clear_access_coms (Yh_cp h)\<rparr>, rets))))))"

fun Y_ClientThread_run ::
    "(nat \<Rightarrow> Y_handler \<Rightarrow> Y_handler prog) \<Rightarrow> (nat \<Rightarrow> Y_handler \<Rightarrow> (Y_handler \<times> (key, item) cmap) prog) \<Rightarrow>
     nat \<Rightarrow> trx list \<Rightarrow> Y_handler \<times> (key, item) cmap list \<Rightarrow> (Y_handler \<times> (key, item) cmap list) prog" where
  "Y_ClientThread_run put_all get_all i [] st = Return st"
| "Y_ClientThread_run put_all get_all i (trx # trxs) st =
     bind_prog (Y_ClientThread_trx (put_all i) (get_all i) trx st)
       (Y_ClientThread_run put_all get_all (Suc i) trxs)"

fun Y_handler_put_all ::
    "'o msgpack \<Rightarrow> nat \<times> nat \<Rightarrow> (key \<Rightarrow> nat) \<Rightarrow> Y_config \<Rightarrow> Y_trx_type \<Rightarrow> int \<times> int \<Rightarrow>
     (nat \<Rightarrow> nat \<Rightarrow> nat list) \<Rightarrow> Y_handler \<Rightarrow> Y_handler prog" where
  "Y_handler_put_all mp junk hash cfg LOCK_BASED = Y_LockBasedHandler_put_all mp junk hash cfg"
| "Y_handler_put_all mp junk hash cfg Y_NO_CONCURRENCY_CONTROL = Y_NoCCHandler_put_all mp junk hash cfg"
| "Y_handler_put_all mp junk hash cfg Y_RAMP_FAST = Y_RAMPFastHandler_put_all mp junk hash cfg"
| "Y_handler_put_all mp junk hash cfg Y_AC_RAMP_FAST = Y_RAMPFastHandler_put_all mp junk hash cfg"

fun Y_handler_get_all ::
    "'o msgpack \<Rightarrow> nat \<times> nat \<Rightarrow> (key \<Rightarrow> nat) \<Rightarrow> Y_config \<Rightarrow> Y_trx_type \<Rightarrow>
     (nat \<Rightarrow> nat \<Rightarrow> nat list) \<Rightarrow> Y_handler \<Rightarrow> (Y_handler \<times> (key, item) cmap) prog" where
  "Y_handler_get_all mp junk hash cfg LOCK_BASED = Y_LockBasedHandler_get_all mp junk hash cfg"
| "Y_handler_get_all mp junk hash cfg Y_NO_CONCURRENCY_CONTROL = Y_NoCCHandler_get_all mp junk hash cfg"
| "Y_handler_get_all mp junk hash cfg Y_RAMP_FAST = Y_RAMPFastHandler_get_all mp junk hash cfg"
| "Y_handler_get_all mp junk hash cfg Y_AC_RAMP_FAST = Y_ACRAMPFastHandler_get_all mp junk hash cfg"

definition Y_client_thread ::
    "'o msgpack \<Rightarrow> nat \<times> nat \<Rightarrow> (key \<Rightarrow> nat) \<Rightarrow> Y_config \<Rightarrow> Y_trx_type \<Rightarrow> (nat \<Rightarrow> int \<times> int) \<Rightarrow>
     (nat \<Rightarrow> nat \<Rightarrow> nat \<Rightarrow> nat list) \<Rightarrow> trx list \<Rightarrow> Y_handler \<Rightarrow> (Y_handler \<times> (key, item) cmap list) prog" where
  "Y_client_thread mp junk hash cfg tt tod perms trxs h =
     Y_ClientThread_run (\<lambda>j. Y_handler_put_all mp junk hash cfg tt (tod j) (perms j))
       (\<lambda>j. Y_handler_get_all mp junk hash cfg tt (perms j)) 0 trxs (h, [])"

section \<open>The generator and the client process\<close>

text \<open>The steps of the loops are those of the main tree; a queued pointer stands for its transaction.\<close>

definition Y_TrxQueue_gen_test_trxs ::
    "Y_config \<Rightarrow> (nat \<Rightarrow> int) \<Rightarrow> (nat \<Rightarrow> nat) \<Rightarrow> nat \<Rightarrow> (nat \<Rightarrow> nat list) \<Rightarrow> mem \<Rightarrow> trx cqueue \<Rightarrow>
     (mem \<times> trx cqueue) outcome" where
  "Y_TrxQueue_gen_test_trxs cfg key_dice value_dice val_str shuffle m q =
     (if Yc_value_size cfg < 0 then Dies Uncaught_exception
      else
        let value_size = nat (Yc_value_size cfg);
            trx_len = nat (Yc_trx_len cfg);
            write_num = nat (Yc_write_trx_num cfg);
            m = TrxQueue_fill_value value_size value_dice val_str m;
            values = smap_put ''f'' (mem_read m val_str value_size) [];
            writes = map (TrxQueue_write_trx key_dice values trx_len) [0..<write_num];
            flds = insort_insert ''f'' [];
            reads = map (\<lambda>i. TrxQueue_read_trx key_dice flds trx_len (write_num + i))
                      [0..<nat (Yc_read_trx_num cfg)];
            trxs = in_order shuffle (writes @ reads)
        in Ret (m, fold (\<lambda>trx q. cqueue_push q trx) trxs q))"

definition Y_TrxQueue_pop :: "trx cqueue \<Rightarrow> trx cqueue \<times> trx option" where
  "Y_TrxQueue_pop q = cqueue_try_pop q"

record Y_client =
  Ycl_trx_queue :: "trx cqueue"
  Ycl_handlers :: "Y_handler list"

definition Y_Client_new ::
    "Y_config \<Rightarrow> (nat \<Rightarrow> int) \<Rightarrow> (nat \<Rightarrow> nat) \<Rightarrow> nat \<Rightarrow> (nat \<Rightarrow> nat list) \<Rightarrow> mem \<Rightarrow> (mem \<times> Y_client) outcome" where
  "Y_Client_new cfg key_dice value_dice val_str shuffle m =
     bind_outcome (Y_TrxQueue_gen_test_trxs cfg key_dice value_dice val_str shuffle m []) (\<lambda>(m, q).
       Ret (m, \<lparr>Ycl_trx_queue = q,
                Ycl_handlers = map (\<lambda>_. Y_TrxHandler_new) [0..<nat (Yc_worker_num cfg)]\<rparr>))"

definition Y_Client_connect_handlers ::
    "(socket_class \<Rightarrow> host_and_port \<Rightarrow> 'w \<Rightarrow> ('w \<times> nat) outcome) \<Rightarrow> Y_config \<Rightarrow> 'w \<times> Y_client \<Rightarrow> ('w \<times> Y_client) outcome" where
  "Y_Client_connect_handlers connect cfg st =
     (let (w, c) = st in
      bind_outcome (fold_outcome (\<lambda>h (w, hs).
          bind_outcome (Y_ConnectionPool_connect_all connect cfg (w, Yh_cp h)) (\<lambda>(w, cp).
            Ret (w, hs @ [h\<lparr>Yh_cp := cp\<rparr>]))) (Ycl_handlers c) (w, []))
        (\<lambda>(w, hs). Ret (w, c\<lparr>Ycl_handlers := hs\<rparr>)))"

definition Y_Client_close_handlers ::
    "(nat \<Rightarrow> 'w \<Rightarrow> 'w outcome) \<Rightarrow> (nat \<Rightarrow> 'w \<Rightarrow> 'w outcome) \<Rightarrow> (Y_handler \<Rightarrow> host_and_port list) \<Rightarrow>
     Y_client \<Rightarrow> 'w \<Rightarrow> 'w outcome" where
  "Y_Client_close_handlers send_close destroy buckets c w =
     fold_outcome (\<lambda>h. Y_ConnectionPool_close_all send_close destroy (buckets h) (Yh_cp h)) (Ycl_handlers c) w"

section \<open>The view as a configuration and a transaction type of the main tree\<close>

fun main_type :: "Y_trx_type \<Rightarrow> trx_type" where
  "main_type LOCK_BASED = TWO_PHASE_LOCKING"
| "main_type Y_NO_CONCURRENCY_CONTROL = NO_CONCURRENCY_CONTROL"
| "main_type Y_RAMP_FAST = RAMP_FAST"
| "main_type Y_AC_RAMP_FAST = AC_RAMP_FAST"

definition main_config :: "Y_config \<Rightarrow> config" where
  "main_config cfg =
     \<lparr>cfg_com_type = Yc_com_type cfg, cfg_trx_type = main_type (Yc_trx_type cfg), cfg_data_num = Yc_data_num cfg,
      cfg_worker_num = Yc_worker_num cfg, cfg_trx_len = Yc_trx_len cfg, cfg_write_trx_num = Yc_write_trx_num cfg,
      cfg_read_trx_num = Yc_read_trx_num cfg, cfg_value_size = Yc_value_size cfg, cfg_server_list = Yc_server_list cfg,
      cfg_max_key_num = 0, cfg_cache_addr = Yc_cache_addr cfg, cfg_cache_size = Yc_cache_size cfg, cfg_cache_rkey = 0\<rparr>"

text \<open>What \<open>read_server_list\<close> establishes, for lists shorter than the largest \<open>int\<close>.\<close>

definition server_num_ok :: "Y_config \<Rightarrow> bool" where
  "server_num_ok cfg \<longleftrightarrow> Yc_server_num cfg = int (length (Yc_server_list cfg)) \<and> length (Yc_server_list cfg) < 2 ^ 31"

lemma Y_ConnectionPool_get_agrees:
  assumes "server_num_ok cfg"
  shows "Y_ConnectionPool_get hash cfg k cp = ConnectionPool_get hash (main_config cfg) k cp"
proof -
  have n: "size_t_of_int (Yc_server_num cfg) = length (Yc_server_list cfg)"
    using assms by (simp add: size_t_of_int_def server_num_ok_def)
  show ?thesis
  proof (cases "Yc_server_list cfg = []")
    case False
    then have "\<not> length (Yc_server_list cfg) \<le> hash k mod length (Yc_server_list cfg)" by (simp add: not_le)
    then show ?thesis
      using False by (simp only: Y_ConnectionPool_get_def ConnectionPool_get_def n main_config_def Let_def config.simps length_0_conv if_False)
  qed (simp add: Y_ConnectionPool_get_def ConnectionPool_get_def n main_config_def)
qed

lemma Y_TrxQueue_gen_agrees: "Y_TrxQueue_gen_test_trxs cfg = TrxQueue_gen_test_trxs (main_config cfg)"
  by (simp add: fun_eq_iff Y_TrxQueue_gen_test_trxs_def TrxQueue_gen_test_trxs_def main_config_def)

end
