(* ===== verification/Ycsb_Agreement.thy ===== *)
theory Ycsb_Agreement
  imports Ycsb_Clients Protocol
begin

text \<open>
  The clients of the YCSB copy and those of the main tree send the same messages as long as the answers
  have the types that they unpack.  \<open>agrees p q\<close> relates a program of the main tree with one of the copy:
  they make the same requests, and agree again after every answer that \<open>rep\<close> allows; \<open>R\<close> relates what
  they return.  In a system this is a simulation: every run of the copy is one of the main tree.
\<close>

inductive agrees ::
    "'o msgpack \<Rightarrow> nat \<times> nat \<Rightarrow> (message_type \<Rightarrow> arg list \<Rightarrow> bool) \<Rightarrow> ('a \<Rightarrow> 'b \<Rightarrow> bool) \<Rightarrow>
     'a prog \<Rightarrow> 'b prog \<Rightarrow> bool"
  for mp junk rep R where
  agrees_Return: "R x y \<Longrightarrow> agrees mp junk rep R (Return x) (Return y)"
| agrees_Crash: "agrees mp junk rep R (Crash e) (Crash e)"
| agrees_Hang: "agrees mp junk rep R Hang Hang"
| agrees_Request: "(\<And>vals rt. rep t vals \<Longrightarrow>
      agrees mp junk rep R (k (sent_msg mp junk rt vals)) (l (sent_msg mp junk rt vals))) \<Longrightarrow>
    agrees mp junk rep R (Request com (sent_msg mp junk t args) k) (Request com (sent_msg mp junk t args) l)"
| agrees_Remote_read: "(\<And>bs. agrees mp junk rep R (k bs) (l bs)) \<Longrightarrow>
    agrees mp junk rep R (Remote_read com a k) (Remote_read com a l)"

inductive_cases agrees_Return2E: "agrees mp junk rep R p (Return y)"
inductive_cases agrees_Request2E: "agrees mp junk rep R p (Request com msg l)"
inductive_cases agrees_Read2E: "agrees mp junk rep R p (Remote_read com a l)"

lemma agrees_bind:
  assumes "agrees mp junk rep S p q" and "\<And>x y. S x y \<Longrightarrow> agrees mp junk rep R (f x) (g y)"
  shows "agrees mp junk rep R (bind_prog p f) (bind_prog q g)"
  using assms(1) by (induction rule: agrees.induct) (auto intro: agrees.intros assms(2))

lemma agrees_of_outcome:
  assumes "\<And>x. m = Ret x \<Longrightarrow> \<exists>y. n = Ret y \<and> R x y" and "\<And>e. m = Dies e \<Longrightarrow> n = Dies e" and "m = Blocks \<Longrightarrow> n = Blocks"
  shows "agrees mp junk rep R (of_outcome m) (of_outcome n)"
  using assms by (cases m) (auto intro: agrees.intros)

lemma agrees_for_each:
  assumes "R s t" and "\<And>x s t. R s t \<Longrightarrow> agrees mp junk rep R (f x s) (g x t)"
  shows "agrees mp junk rep R (for_each_prog f xs s) (for_each_prog g xs t)"
  using assms(1) by (induction xs arbitrary: s t) (auto intro: agrees.intros agrees_bind assms(2))

lemma agrees_parallel:
  assumes "R s t" and "\<And>x s t. R s t \<Longrightarrow> agrees mp junk rep R (f x s) (g x t)"
  shows "agrees mp junk rep R (parallel_for_each perm xs f s) (parallel_for_each perm xs g t)"
  unfolding parallel_for_each_def by (rule agrees_for_each[where R = R, OF assms])

text \<open>What a program of the main tree keeps to, its counterpart keeps to.\<close>

lemma sent_msg_type: "sent_msg mp junk t args = sent_msg mp junk t' args' \<Longrightarrow> t = t'"
  using req_type_is_sent by metis

lemma conforms_agrees:
  assumes "agrees mp junk rep R p q" and "conforms mp junk req rep post p"
  shows "conforms mp junk req rep (\<lambda>y. \<exists>x. post x \<and> R x y) q"
  using assms
proof (induction rule: agrees.induct)
  case (agrees_Return x y)
  then show ?case by (auto intro: conforms_Return elim: conforms_ReturnE)
next
  case (agrees_Request t k l com args)
  from agrees_Request.prems obtain t' args' where m: "sent_msg mp junk t args = sent_msg mp junk t' args'"
    and req: "req t' args'" and k: "\<And>vals rt. rep t' vals \<Longrightarrow> conforms mp junk req rep post (k (sent_msg mp junk rt vals))"
    by (auto elim: conforms_RequestE)
  have t: "t' = t" using sent_msg_type[OF m] by simp
  show ?case
    unfolding m
    by (rule conforms_Request[where req = req and t = t' and args = args', OF req])
      (use agrees_Request.IH k in \<open>simp add: t\<close>)
next
  case (agrees_Remote_read k l com a)
  show ?case
    by (rule conforms_Remote_read) (use agrees_Remote_read in \<open>auto elim: conforms_ReadE\<close>)
qed (auto intro: conforms.intros)

context service
begin

lemma step_agrees:
  assumes "prog_step serve peek (w, q) (w', q')" and ag: "agrees mp junk rep R p q"
    and p: "conforms mp junk req rep post p" and w: "good w"
  shows "\<exists>p'. prog_step serve peek (w, p) (w', p') \<and> agrees mp junk rep R p' q'"
  using assms(1)
proof cases
  case (step_request c m r l)
  from ag obtain t args k where p': "p = Request c m k" and m: "m = sent_msg mp junk t args"
    and kl: "\<And>vals rt. rep t vals \<Longrightarrow> agrees mp junk rep R (k (sent_msg mp junk rt vals)) (l (sent_msg mp junk rt vals))"
    unfolding step_request by (auto elim: agrees_Request2E)
  from p obtain args' where "req t args'" "m = sent_msg mp junk t args'"
    unfolding p' m by (auto elim!: conforms_RequestE dest: sent_msg_type)
  from answers[OF w this(1) step_request(3)[unfolded this(2)]] obtain rt vals
    where "rep t vals" "r = sent_msg mp junk rt vals" by blast
  then show ?thesis using kl step_request prog_step.step_request[of serve c m w w' r peek k] by (auto simp: p')
next
  case (step_read c a l)
  from ag obtain k where "p = Remote_read c a k" "\<And>bs. agrees mp junk rep R (k bs) (l bs)"
    unfolding step_read by (auto elim: agrees_Read2E)
  then show ?thesis using step_read prog_step.step_read by fastforce
qed

lemma system_agrees:
  assumes "(system_step serve peek)\<^sup>*\<^sup>* (w, qs) (w', qs')"
    and "\<And>i. agrees mp junk rep R (ps i) (qs i)" and "\<And>i. conforms mp junk req rep (post i) (ps i)" and "good w"
  shows "\<exists>ps'. (system_step serve peek)\<^sup>*\<^sup>* (w, ps) (w', ps') \<and> (\<forall>i. agrees mp junk rep R (ps' i) (qs' i))"
  using assms(1)
proof (induction rule: rtranclp_induct2)
  case refl
  then show ?case using assms(2) by blast
next
  case (step w1 qs1 w2 qs2)
  then obtain ps1 where ps1: "(system_step serve peek)\<^sup>*\<^sup>* (w, ps) (w1, ps1)" "\<And>i. agrees mp junk rep R (ps1 i) (qs1 i)" by blast
  from system_conforms[OF ps1(1) assms(3,4)] have c: "\<And>i. conforms mp junk req rep (post i) (ps1 i)" "good w1" by blast+
  from step.hyps(2) obtain i q where q: "prog_step serve peek (w1, qs1 i) (w2, q)" and qs2: "qs2 = qs1(i := q)"
    by (cases rule: system_step.cases) auto
  from step_agrees[OF q ps1(2) c] obtain p where p: "prog_step serve peek (w1, ps1 i) (w2, p)" "agrees mp junk rep R p q" by blast
  have "system_step serve peek (w1, ps1) (w2, ps1(i := p))" using system_stepI[where ps = ps1, OF p(1)] .
  then have "(system_step serve peek)\<^sup>*\<^sup>* (w, ps) (w2, ps1(i := p))" using ps1(1) by (rule rtranclp.rtrancl_into_rtrancl[rotated])
  moreover have "\<forall>j. agrees mp junk rep R ((ps1(i := p)) j) (qs2 j)" using ps1(2) p(2) by (simp add: qs2)
  ultimately show ?case by blast
qed

end

section \<open>Handlers\<close>

text \<open>Handlers that hold the same; \<open>same_trx\<close> says in addition that both have the transaction \<open>trx\<close>.\<close>

definition same_handler :: "handler \<Rightarrow> Y_handler \<Rightarrow> bool" where
  "same_handler h y \<longleftrightarrow> drained h \<and> Yh_cp y = h_cp h \<and> Yh_unpk y = h_unpk h \<and> Yh_addr_cache y = h_addr_cache h"

definition same_trx :: "trx \<Rightarrow> handler \<Rightarrow> Y_handler \<Rightarrow> bool" where
  "same_trx trx h y \<longleftrightarrow> same_handler h y \<and> h_trx h = trx \<and> Yh_trx y = Some trx"

definition same_with :: "trx \<Rightarrow> handler \<times> 'r \<Rightarrow> Y_handler \<times> 'r \<Rightarrow> bool" where
  "same_with trx x y \<longleftrightarrow> same_trx trx (fst x) (fst y) \<and> snd x = snd y"

lemma same_with_pair [simp]: "same_with trx (h, r) (y, s) \<longleftrightarrow> same_trx trx h y \<and> r = s"
  by (simp add: same_with_def)

lemma same_withE:
  assumes "same_with trx st su"
  obtains h y r where "st = (h, r)" "su = (y, r)" "same_trx trx h y"
  using assms by (cases st, cases su) auto

lemma same_check: "Y_check_missing = check_missing"
proof -
  have "Y_note_version = note_version"
    by (intro ext) (simp add: Y_note_version_def note_version_def)
  then show ?thesis by (intro ext) (simp add: Y_check_missing_def check_missing_def)
qed

lemma agrees_this_trx: "same_trx trx h y \<Longrightarrow> Y_this_trx y = Return trx"
  by (simp add: Y_this_trx_def same_trx_def)

lemma agrees_cp_get:
  assumes "server_num_ok cfg" and "same_trx trx h y"
  shows "agrees mp junk rep (same_with trx) (cp_get hash (main_config cfg) k h) (Y_cp_get hash cfg k y)"
  unfolding cp_get_def Y_cp_get_def Y_ConnectionPool_get_agrees[OF assms(1)]
proof (rule agrees_of_outcome)
  have cp: "Yh_cp y = h_cp h" using assms(2) by (simp add: same_trx_def same_handler_def)
  let ?m = "ConnectionPool_get hash (main_config cfg) k"
  show "\<exists>b. bind_outcome (?m (Yh_cp y)) (\<lambda>(cp, com). Ret (y\<lparr>Yh_cp := cp\<rparr>, com)) = Ret b \<and> same_with trx x b"
    if "bind_outcome (?m (h_cp h)) (\<lambda>(cp, com). Ret (h\<lparr>h_cp := cp\<rparr>, com)) = Ret x" for x
    using that assms(2) by (auto simp: bind_outcome_Ret_iff cp same_trx_def same_handler_def)
  show "bind_outcome (?m (Yh_cp y)) (\<lambda>(cp, com). Ret (y\<lparr>Yh_cp := cp\<rparr>, com)) = Dies e"
    if "bind_outcome (?m (h_cp h)) (\<lambda>(cp, com). Ret (h\<lparr>h_cp := cp\<rparr>, com)) = Dies e" for e
    using that by (cases "?m (h_cp h)") (auto simp: cp)
  show "bind_outcome (?m (Yh_cp y)) (\<lambda>(cp, com). Ret (y\<lparr>Yh_cp := cp\<rparr>, com)) = Blocks"
    if "bind_outcome (?m (h_cp h)) (\<lambda>(cp, com). Ret (h\<lparr>h_cp := cp\<rparr>, com)) = Blocks"
    using that by (cases "?m (h_cp h)") (auto simp: cp)
qed

lemma agrees_exchange:
  assumes mp: "msgpack_ok mp" and kinds: "\<And>vals. rep t vals \<Longrightarrow> list_all2 same_kind vals dsts" and hy: "same_trx trx h y"
  shows "agrees mp junk rep (same_with trx) (com_exchange mp junk com t args dsts h) (Y_com_exchange mp junk com t args dsts y)"
  unfolding com_exchange_def Y_com_exchange_def
proof (rule agrees_Request)
  fix vals rt assume "rep t vals"
  note sent = recv_body_sent[OF mp kinds[OF this]] Y_recv_body_sent[OF mp kinds[OF this]]
  have empty: "h_unpk h com = []" "Yh_unpk y com = []" using hy by (simp_all add: same_trx_def same_handler_def drained_def)
  show "agrees mp junk rep (same_with trx)
      (case sent_msg mp junk rt vals of (header, body) \<Rightarrow>
         let (vals, unpk) = Communicator_recv_body mp (h_unpk h com) body dsts
         in Return (h\<lparr>h_unpk := (h_unpk h)(com := unpk)\<rparr>, vals))
      (case sent_msg mp junk rt vals of (header, body) \<Rightarrow>
         of_outcome (bind_outcome (Y_Communicator_recv_body mp (Yh_unpk y com) body dsts) (\<lambda>(vals, unpk).
           Ret (y\<lparr>Yh_unpk := (Yh_unpk y)(com := unpk)\<rparr>, vals))))"
    using hy by (simp add: case_prod_beta' sent empty) (rule agrees_Return, simp add: same_trx_def same_handler_def drained_def)
qed

context reply_contract
begin

lemma agrees_nothing:
  assumes mp: "msgpack_ok mp" and t: "t \<in> {PREPARE, COMMIT, PUT, RELEASE_LOCKS}" and hy: "same_trx trx h y"
  shows "agrees mp junk rep (same_trx trx)
    (bind_prog (com_exchange mp junk com t args [] h) (\<lambda>(h, _). Return h))
    (bind_prog (Y_com_exchange mp junk com t args [] y) (\<lambda>(h, _). Return h))"
proof -
  have kinds: "list_all2 same_kind vals []" if "rep t vals" for vals using no_args[OF t that] by simp
  show ?thesis
    by (rule agrees_bind[OF agrees_exchange[where rep = rep and t = t, OF mp kinds hy]])
      (auto simp: same_with_def intro: agrees_Return)
qed

lemma agrees_send_to_all:
  assumes mp: "msgpack_ok mp" and t: "t \<in> {PREPARE, COMMIT, PUT, RELEASE_LOCKS}" and hy: "same_trx trx h y"
  shows "agrees mp junk rep (same_trx trx) (TrxHandler_send_to_all mp junk perm t args h) (Y_TrxHandler_send_to_all mp junk perm t args y)"
proof -
  have "Yh_cp y = h_cp h" using hy by (simp add: same_trx_def same_handler_def)
  then show ?thesis
    unfolding TrxHandler_send_to_all_def Y_TrxHandler_send_to_all_def
    by (simp only:) (rule agrees_parallel[where R = "same_trx trx", OF hy agrees_nothing[OF mp t]])
qed

lemma agrees_keyed:
  assumes mp: "msgpack_ok mp" and cfg: "server_num_ok cfg" and t: "t \<in> {PREPARE, COMMIT, PUT, RELEASE_LOCKS}"
    and args: "\<And>h. h_trx h = trx \<Longrightarrow> args h = args'" and hy: "same_trx trx h y"
  shows "agrees mp junk rep (same_trx trx)
    (bind_prog (cp_get hash (main_config cfg) k h) (\<lambda>(h, com).
     bind_prog (com_exchange mp junk com t (args h) [] h) (\<lambda>(h, _). Return h)))
    (bind_prog (Y_cp_get hash cfg k y) (\<lambda>(h, com).
     bind_prog (Y_com_exchange mp junk com t args' [] h) (\<lambda>(h, _). Return h)))"
proof (rule agrees_bind[OF agrees_cp_get[OF cfg hy]])
  fix x and x' :: "Y_handler \<times> nat" assume "same_with trx x x'"
  then obtain h com y where x: "x = (h, com)" "x' = (y, com)" and hy: "same_trx trx h y" by (rule same_withE)
  have "args h = args'" using hy args by (simp add: same_trx_def)
  then show "agrees mp junk rep (same_trx trx)
      (case x of (h, com) \<Rightarrow> bind_prog (com_exchange mp junk com t (args h) [] h) (\<lambda>(h, _). Return h))
      (case x' of (h, com) \<Rightarrow> bind_prog (Y_com_exchange mp junk com t args' [] h) (\<lambda>(h, _). Return h))"
    using agrees_nothing[OF mp t hy] by (simp add: x)
qed

lemma agrees_into:
  assumes mp: "msgpack_ok mp" and st: "same_with trx st su"
  shows "agrees mp junk rep (same_with trx) (get_into mp junk com GET args k st) (Y_get_into mp junk com GET args k su)"
proof -
  obtain h y ret where hr: "st = (h, ret)" "su = (y, ret)" and hy: "same_trx trx h y"
    using st by (rule same_withE)
  obtain ret' i where r: "cmap_index ret k Item_default = (ret', i)" by fastforce
  have kinds: "list_all2 same_kind vals [Item_arg i]" if "rep GET vals" for vals using item[OF that] by auto
  show ?thesis
    unfolding get_into_def Y_get_into_def hr Let_def prod.case r
    by (rule agrees_bind[OF agrees_exchange[where rep = rep and t = GET, OF mp kinds hy]])
      (auto simp: same_with_def intro: agrees_Return)
qed

lemma agrees_keyed_get:
  assumes mp: "msgpack_ok mp" and cfg: "server_num_ok cfg" and st: "same_with trx st su"
  shows "agrees mp junk rep (same_with trx)
    (case st of (h, ret) \<Rightarrow> bind_prog (cp_get hash (main_config cfg) k h) (\<lambda>(h, com). get_into mp junk com GET args k (h, ret)))
    (case su of (h, ret) \<Rightarrow> bind_prog (Y_cp_get hash cfg k h) (\<lambda>(h, com). Y_get_into mp junk com GET args k (h, ret)))"
proof -
  obtain h y ret where hr: "st = (h, ret)" "su = (y, ret)" and hy: "same_trx trx h y"
    using st by (rule same_withE)
  show ?thesis
    unfolding hr prod.case
    by (rule agrees_bind[OF agrees_cp_get[OF cfg hy]]) (auto intro!: agrees_into[OF mp])
qed

lemma agrees_second:
  assumes mp: "msgpack_ok mp" and cfg: "server_num_ok cfg" and st: "same_with trx st su"
  shows "agrees mp junk rep (same_with trx) (second_round mp junk hash (main_config cfg) v_latest k st)
    (Y_second_round mp junk hash cfg v_latest k su)"
proof -
  obtain h y ret where hr: "st = (h, ret)" "su = (y, ret)" and hy: "same_trx trx h y"
    using st by (rule same_withE)
  obtain ret' i where r: "cmap_index ret k Item_default = (ret', i)" by fastforce
  have "same_with trx (h, ret') (y, ret')" using hy by simp
  from agrees_keyed_get[OF mp cfg this] show ?thesis
    using hy by (auto simp: second_round_def Y_second_round_def hr r Let_def intro: agrees_Return)
qed

lemma agrees_get_with_addr:
  assumes mp: "msgpack_ok mp" and st: "same_with trx st su"
  shows "agrees mp junk rep (same_with trx) (get_with_addr mp junk com k st) (Y_get_with_addr mp junk com k su)"
proof -
  obtain h y ret where hr: "st = (h, ret)" "su = (y, ret)" and hy: "same_trx trx h y"
    using st by (rule same_withE)
  obtain ret' i where r: "cmap_index ret k Item_default = (ret', i)" by fastforce
  obtain cache a where c: "cmap_index (h_addr_cache h) k RemoteKeyAndAddr_default = (cache, a)" by fastforce
  have kinds: "list_all2 same_kind vals [Item_arg i, Rka_arg a]" if "rep GET_WITH_ADDR vals" for vals
    using item_addr[OF that] by auto
  have y: "Yh_addr_cache y = h_addr_cache h" and hy': "same_trx trx (h\<lparr>h_addr_cache := cache\<rparr>) (y\<lparr>Yh_addr_cache := cache\<rparr>)"
    using hy by (simp_all add: same_trx_def same_handler_def)
  show ?thesis
    unfolding get_with_addr_def Y_get_with_addr_def hr Let_def prod.case r y c
    by (rule agrees_bind[OF agrees_exchange[where rep = rep and t = GET_WITH_ADDR, OF mp kinds hy']])
      (auto simp: same_with_def same_trx_def same_handler_def intro!: agrees_Return)
qed

lemma agrees_AC_first:
  assumes mp: "msgpack_ok mp" and cfg: "server_num_ok cfg" and st: "same_with trx st su"
  shows "agrees mp junk rep (same_with trx) (AC_first_round mp junk hash (main_config cfg) k st)
    (Y_AC_first_round mp junk hash cfg k su)"
proof -
  obtain h y ret where hr: "st = (h, ret)" "su = (y, ret)" and hy: "same_trx trx h y"
    using st by (rule same_withE)
  obtain ret' i where r: "cmap_index ret k Item_default = (ret', i)" by fastforce
  note addr = agrees_get_with_addr[OF mp]
  have read: "agrees mp junk rep (=) (com_read mp com i a) (com_read mp com i a)" for com i a
    unfolding com_read_def by (rule agrees_Remote_read, rule agrees_of_outcome) auto
  have hit: "agrees mp junk rep (same_with trx)
      (bind_prog (com_read mp com i a) (\<lambda>(rc, it).
         if rc = -1 then get_with_addr mp junk com k (h', cmap_assign ret' k it) else Return (h', cmap_assign ret' k it)))
      (bind_prog (com_read mp com i a) (\<lambda>(rc, it).
         if rc = -1 then Y_get_with_addr mp junk com k (y', cmap_assign ret' k it) else Return (y', cmap_assign ret' k it)))"
    if "same_trx trx h' y'" for com a h' y'
    by (rule agrees_bind[OF read]) (use that in \<open>auto intro!: agrees_Return addr\<close>)
  show ?thesis
    unfolding AC_first_round_def Y_AC_first_round_def hr prod.case Let_def
  proof (rule agrees_bind[OF agrees_cp_get[OF cfg hy]])
    fix x and x' :: "Y_handler \<times> nat" assume "same_with trx x x'"
    then obtain h' com y' where x: "x = (h', com)" "x' = (y', com)" and hy': "same_trx trx h' y'" by (rule same_withE)
    have cache: "Yh_addr_cache y = h_addr_cache h" "Yh_addr_cache y' = h_addr_cache h'"
      using hy hy' by (simp_all add: same_trx_def same_handler_def)
    have miss: "agrees mp junk rep (same_with trx) (get_with_addr mp junk com k (h', ret)) (Y_get_with_addr mp junk com k (y', ret))"
      by (rule addr) (simp add: hy')
    show "agrees mp junk rep (same_with trx)
      (case x of (h, com) \<Rightarrow> (case h_addr_cache h k of None \<Rightarrow> get_with_addr mp junk com k (h, ret)
         | Some a \<Rightarrow> (case cmap_index ret k Item_default of (ret, it) \<Rightarrow>
             bind_prog (com_read mp com it a) (\<lambda>(rc, it).
               if rc = -1 then get_with_addr mp junk com k (h, cmap_assign ret k it) else Return (h, cmap_assign ret k it)))))
      (case x' of (h, com) \<Rightarrow> (case Yh_addr_cache h k of None \<Rightarrow> Y_get_with_addr mp junk com k (h, ret)
         | Some a \<Rightarrow> (case cmap_index ret k Item_default of (ret, it) \<Rightarrow>
             bind_prog (com_read mp com it a) (\<lambda>(rc, it).
               if rc = -1 then Y_get_with_addr mp junk com k (h, cmap_assign ret k it) else Return (h, cmap_assign ret k it)))))"
      using miss hit[OF hy'] by (simp add: x r cache split: option.split)
  qed
qed

lemma agrees_put_all:
  assumes mp: "msgpack_ok mp" and cfg: "server_num_ok cfg" and hy: "same_trx trx h y"
  shows "agrees mp junk rep (same_trx trx) (handler_put_all mp junk hash (main_config cfg) (main_type tt) tod perms h)
    (Y_handler_put_all mp junk hash cfg tt tod perms y)"
proof -
  have trx: "h_trx h = trx" using hy by (simp add: same_trx_def)
  note defs = Let_def agrees_this_trx[OF hy] trx Y_Timestamp_now_def Timestamp_now_def Timestamp_of_timeval_def
    Y_Item_full_def Item_full_def Y_Item_versioned_def Item_versioned_def
  note step = agrees_keyed[OF mp cfg] and all = agrees_send_to_all[OF mp]
  note par = agrees_bind[OF agrees_parallel[where R = "same_trx trx", OF hy]]
    and seq = agrees_bind[OF agrees_for_each[where R = "same_trx trx", OF hy]]
  show ?thesis
  proof (cases tt)
    case LOCK_BASED
    show ?thesis
      unfolding LOCK_BASED main_type.simps handler_put_all.simps Y_handler_put_all.simps
        LockBasedHandler_put_all_def Y_LockBasedHandler_put_all_def defs bind_prog.simps
      by (rule seq[OF step all]) simp_all
  next
    case Y_NO_CONCURRENCY_CONTROL
    show ?thesis
      unfolding Y_NO_CONCURRENCY_CONTROL main_type.simps handler_put_all.simps Y_handler_put_all.simps
        NoCCHandler_put_all_def Y_NoCCHandler_put_all_def defs bind_prog.simps
      by (rule par[OF step all]) simp_all
  next
    case Y_RAMP_FAST
    show ?thesis
      unfolding Y_RAMP_FAST main_type.simps handler_put_all.simps Y_handler_put_all.simps
        RAMPFastHandler_put_all_def Y_RAMPFastHandler_put_all_def defs bind_prog.simps
      by (rule par[OF step all]) simp_all
  next
    case Y_AC_RAMP_FAST
    show ?thesis
      unfolding Y_AC_RAMP_FAST main_type.simps handler_put_all.simps Y_handler_put_all.simps
        RAMPFastHandler_put_all_def Y_RAMPFastHandler_put_all_def defs bind_prog.simps
      by (rule par[OF step all]) simp_all
  qed
qed

lemma agrees_rounds:
  assumes mp: "msgpack_ok mp" and cfg: "server_num_ok cfg" and hy: "same_trx trx h y"
    and first: "\<And>k st su. same_with trx st su \<Longrightarrow> agrees mp junk rep (same_with trx) (first k st) (Y_first k su)"
  shows "agrees mp junk rep (same_with trx)
    (bind_prog (parallel_for_each perm0 keys first (h, Map.empty)) (\<lambda>(h, ret).
       parallel_for_each perm2 keys (second_round mp junk hash (main_config cfg) (check_missing (ret_values perm1 keys ret))) (h, ret)))
    (bind_prog (parallel_for_each perm0 keys Y_first (y, Map.empty)) (\<lambda>(h, ret).
       parallel_for_each perm2 keys (Y_second_round mp junk hash cfg (Y_check_missing (ret_values perm1 keys ret))) (h, ret)))"
proof (rule agrees_bind[OF agrees_parallel[where R = "same_with trx", OF _ first]])
  fix st and su :: "Y_handler \<times> (key, item) cmap" assume "same_with trx st su"
  then obtain h y ret where hr: "st = (h, ret)" "su = (y, ret)" and hy: "same_trx trx h y" by (rule same_withE)
  have start: "same_with trx (h, ret) (y, ret)" using hy by simp
  show "agrees mp junk rep (same_with trx)
      (case st of (h, ret) \<Rightarrow> parallel_for_each perm2 keys
         (second_round mp junk hash (main_config cfg) (check_missing (ret_values perm1 keys ret))) (h, ret))
      (case su of (h, ret) \<Rightarrow> parallel_for_each perm2 keys
         (Y_second_round mp junk hash cfg (Y_check_missing (ret_values perm1 keys ret))) (h, ret))"
    unfolding hr prod.case same_check
    by (rule agrees_parallel[where R = "same_with trx", OF start agrees_second[OF mp cfg]])
qed (use hy in auto)

lemma agrees_get_all:
  assumes mp: "msgpack_ok mp" and cfg: "server_num_ok cfg" and hy: "same_trx trx h y"
  shows "agrees mp junk rep (same_with trx) (handler_get_all mp junk hash (main_config cfg) (main_type tt) perms h)
    (Y_handler_get_all mp junk hash cfg tt perms y)"
proof -
  have trx: "h_trx h = trx" using hy by (simp add: same_trx_def)
  have start: "same_with trx (h, Map.empty) (y, Map.empty)" using hy by simp
  note defs = agrees_this_trx[OF hy] trx bind_prog.simps Let_def and get = agrees_keyed_get[OF mp cfg]
  show ?thesis
  proof (cases tt)
    case LOCK_BASED
    have release: "agrees mp junk rep (same_with trx)
        (case st of (h, ret) \<Rightarrow> bind_prog (TrxHandler_send_to_all mp junk perm RELEASE_LOCKS [] h) (\<lambda>h. Return (h, ret)))
        (case su of (h, ret) \<Rightarrow> bind_prog (Y_TrxHandler_send_to_all mp junk perm RELEASE_LOCKS [] h) (\<lambda>h. Return (h, ret)))"
      if st: "same_with trx st su" for st su perm
    proof -
      obtain h y ret where hr: "st = (h, ret)" "su = (y, ret)" and hy: "same_trx trx h y"
        using st by (rule same_withE)
      show ?thesis
        unfolding hr prod.case
        by (rule agrees_bind[OF agrees_send_to_all[OF mp _ hy]]) (auto intro: agrees_Return)
    qed
    show ?thesis
      unfolding LOCK_BASED main_type.simps handler_get_all.simps Y_handler_get_all.simps
        LockBasedHandler_get_all_def Y_LockBasedHandler_get_all_def defs
      by (rule agrees_bind[OF agrees_for_each[where R = "same_with trx", OF start get] release])
  next
    case Y_NO_CONCURRENCY_CONTROL
    show ?thesis
      unfolding Y_NO_CONCURRENCY_CONTROL main_type.simps handler_get_all.simps Y_handler_get_all.simps
        NoCCHandler_get_all_def Y_NoCCHandler_get_all_def defs
      by (rule agrees_parallel[where R = "same_with trx", OF start get])
  next
    case Y_RAMP_FAST
    show ?thesis
      unfolding Y_RAMP_FAST main_type.simps handler_get_all.simps Y_handler_get_all.simps
        RAMPFastHandler_get_all_def Y_RAMPFastHandler_get_all_def defs
      by (rule agrees_rounds[OF mp cfg hy get])
  next
    case Y_AC_RAMP_FAST
    show ?thesis
      unfolding Y_AC_RAMP_FAST main_type.simps handler_get_all.simps Y_handler_get_all.simps
        ACRAMPFastHandler_get_all_def Y_ACRAMPFastHandler_get_all_def defs
      by (rule agrees_rounds[OF mp cfg hy agrees_AC_first[OF mp cfg]])
  qed
qed

end

text \<open>Between two transactions only the pointers differ.\<close>

definition same_results :: "handler \<times> 'r \<Rightarrow> Y_handler \<times> 'r \<Rightarrow> bool" where
  "same_results x y \<longleftrightarrow> same_handler (fst x) (fst y) \<and> snd x = snd y"

context reply_contract
begin

lemma agrees_client_trx:
  assumes mp: "msgpack_ok mp" and cfg: "server_num_ok cfg" and st: "same_results st su"
  shows "agrees mp junk rep same_results
    (ClientThread_trx (handler_put_all mp junk hash (main_config cfg) (main_type tt) tod perms)
       (handler_get_all mp junk hash (main_config cfg) (main_type tt) perms) trx st)
    (Y_ClientThread_trx (Y_handler_put_all mp junk hash cfg tt tod perms) (Y_handler_get_all mp junk hash cfg tt perms) trx su)"
proof -
  obtain h y rets where hr: "st = (h, rets)" "su = (y, rets)" and hy: "same_handler h y"
    using st unfolding same_results_def by (cases st, cases su) simp
  let ?h = "h\<lparr>h_trx := trx\<rparr>" and ?y = "y\<lparr>Yh_trx := Some trx\<rparr>"
  have start: "same_trx trx ?h ?y" using hy by (simp add: same_trx_def same_handler_def)
  have put: "agrees mp junk rep (same_trx trx)
      (if b then handler_put_all mp junk hash (main_config cfg) (main_type tt) tod perms h else Return h)
      (if b then Y_handler_put_all mp junk hash cfg tt tod perms y else Return y)" if "same_trx trx h y" for b h y
    using that agrees_put_all[OF mp cfg that] by (auto intro: agrees_Return)
  have last: "agrees mp junk rep (same_with trx)
      (bind_prog (handler_get_all mp junk hash (main_config cfg) (main_type tt) perms h) (\<lambda>(h, ret). Return (h, rets @ [ret])))
      (bind_prog (Y_handler_get_all mp junk hash cfg tt perms y) (\<lambda>(h, ret). Return (h, rets @ [ret])))"
    if "same_trx trx h y" for h y
    by (rule agrees_bind[OF agrees_get_all[OF mp cfg that]]) (auto simp: same_with_def intro: agrees_Return)
  have get: "agrees mp junk rep (same_with trx)
      (if b then bind_prog (handler_get_all mp junk hash (main_config cfg) (main_type tt) perms h)
              (\<lambda>(h, ret). Return (h, rets @ [ret])) else Return (h, rets))
      (if b then bind_prog (Y_handler_get_all mp junk hash cfg tt perms y) (\<lambda>(h, ret). Return (h, rets @ [ret]))
       else Return (y, rets))" if "same_trx trx h y" for b h y
    using that last[OF that] by (auto intro: agrees_Return)
  have finish: "agrees mp junk rep same_results
      (case r of (h, rets) \<Rightarrow> Return (h\<lparr>h_cp := ConnectionPool_clear_access_coms (h_cp h)\<rparr>, rets))
      (case s of (h, rets) \<Rightarrow> Return (h\<lparr>Yh_cp := Y_ConnectionPool_clear_access_coms (Yh_cp h)\<rparr>, rets))"
    if r: "same_with trx r s" for r :: "handler \<times> (key, item) cmap list" and s
  proof -
    obtain h y rets where "r = (h, rets)" "s = (y, rets)" "same_trx trx h y" using r by (rule same_withE)
    then show ?thesis
      by (auto simp: same_results_def same_trx_def same_handler_def ConnectionPool_clear_access_coms_def
          Y_ConnectionPool_clear_access_coms_def intro!: agrees_Return)
  qed
  show ?thesis
    unfolding ClientThread_trx_def Y_ClientThread_trx_def hr Let_def prod.case agrees_this_trx[OF start] bind_prog.simps
  proof (rule agrees_bind)
    show "agrees mp junk rep (same_trx trx)
        (if write_set (h_trx ?h) \<noteq> [] then handler_put_all mp junk hash (main_config cfg) (main_type tt) tod perms ?h else Return ?h)
        (if write_set trx \<noteq> [] then Y_handler_put_all mp junk hash cfg tt tod perms ?y else Return ?y)"
      using put[OF start, of "write_set trx \<noteq> []"] by simp
  next
    fix h y assume hy: "same_trx trx h y"
    have trx: "h_trx h = trx" using hy by (simp add: same_trx_def)
    show "agrees mp junk rep same_results
        (bind_prog (if read_set (h_trx h) \<noteq> []
            then bind_prog (handler_get_all mp junk hash (main_config cfg) (main_type tt) perms h) (\<lambda>(h, ret). Return (h, rets @ [ret]))
            else Return (h, rets)) (\<lambda>(h, rets). Return (h\<lparr>h_cp := ConnectionPool_clear_access_coms (h_cp h)\<rparr>, rets)))
        (bind_prog (Y_this_trx y) (\<lambda>trx. bind_prog (if read_set trx \<noteq> []
            then bind_prog (Y_handler_get_all mp junk hash cfg tt perms y) (\<lambda>(h, ret). Return (h, rets @ [ret]))
            else Return (y, rets)) (\<lambda>(h, rets). Return (h\<lparr>Yh_cp := Y_ConnectionPool_clear_access_coms (Yh_cp h)\<rparr>, rets))))"
      unfolding agrees_this_trx[OF hy] trx bind_prog.simps by (rule agrees_bind[OF get[OF hy] finish])
  qed
qed

lemma agrees_client_thread:
  assumes mp: "msgpack_ok mp" and cfg: "server_num_ok cfg" and hy: "same_handler h y"
  shows "agrees mp junk rep same_results (client_thread mp junk hash (main_config cfg) (main_type tt) tod perms trxs h)
    (Y_client_thread mp junk hash cfg tt tod perms trxs y)"
proof -
  have "agrees mp junk rep same_results
      (ClientThread_run (\<lambda>j. handler_put_all mp junk hash (main_config cfg) (main_type tt) (tod j) (perms j))
         (\<lambda>j. handler_get_all mp junk hash (main_config cfg) (main_type tt) (perms j)) i trxs st)
      (Y_ClientThread_run (\<lambda>j. Y_handler_put_all mp junk hash cfg tt (tod j) (perms j))
         (\<lambda>j. Y_handler_get_all mp junk hash cfg tt (perms j)) i trxs su)" if "same_results st su" for i st su
    using that
  proof (induction trxs arbitrary: i st su)
    case (Cons trx trxs)
    show ?case
      unfolding ClientThread_run.simps Y_ClientThread_run.simps
      by (rule agrees_bind[OF agrees_client_trx[OF mp cfg Cons.prems] Cons.IH])
  qed (auto intro: agrees_Return)
  then show ?thesis using hy by (simp add: client_thread_def Y_client_thread_def same_results_def)
qed

end

end
