(* ===== verification/Ycsb_Servers.thy ===== *)
theory Ycsb_Servers
  imports Ycsb_Clients Cluster
begin

text \<open>
  \<open>Server\<close> and \<open>ServerThread\<close> of the YCSB copy (\<open>YCSB-0.5.0/src/server/Server.cpp\<close>,
  \<open>ServerThread.cpp\<close>), and clusters of its servers.  The server keeps its threads in a vector; a started
  thread goes on with the address that its element had when it was started.
\<close>

section \<open>Server\<close>

text \<open>The durations are members of the lock-based executor only.\<close>

definition Y_TrxExecutor :: Y_executor where
  "Y_TrxExecutor = \<lparr>Y_ex_unpk = [], Y_ex_access_keys = [], Y_ex_rkey = 0,
     Y_ex_write_duration = NONE, Y_ex_read_duration = NONE\<rparr>"

fun Y_Server_new_executor :: "Y_config \<Rightarrow> Y_trx_type \<Rightarrow> nat \<Rightarrow> Y_executor" where
  "Y_Server_new_executor cfg LOCK_BASED rkey = Y_LockBasedExecutor (Yc_write_duration cfg) (Yc_read_duration cfg)"
| "Y_Server_new_executor cfg Y_NO_CONCURRENCY_CONTROL rkey = Y_TrxExecutor"
| "Y_Server_new_executor cfg Y_RAMP_FAST rkey = Y_TrxExecutor"
| "Y_Server_new_executor cfg Y_AC_RAMP_FAST rkey = Y_TrxExecutor\<lparr>Y_ex_rkey := rkey\<rparr>"

text \<open>
  \<open>sts\<close>: the executors that its elements point to, its capacity, the number of the allocation that
  holds the elements, and for each started thread the address that it runs with, as an allocation and
  an index.  \<open>grow\<close> is the capacity that a full vector grows to.
\<close>

record Y_server_threads =
  sts_elements :: "Y_executor list"
  sts_capacity :: nat
  sts_buffer :: nat
  sts_this :: "(nat \<times> nat) list"

definition Y_sts_reserve :: "nat \<Rightarrow> Y_server_threads" where
  "Y_sts_reserve n = \<lparr>sts_elements = [], sts_capacity = n, sts_buffer = 0, sts_this = []\<rparr>"

definition Y_sts_push_back :: "(nat \<Rightarrow> nat) \<Rightarrow> Y_executor \<Rightarrow> Y_server_threads \<Rightarrow> Y_server_threads" where
  "Y_sts_push_back grow ex sts =
     (if length (sts_elements sts) < sts_capacity sts then sts\<lparr>sts_elements := sts_elements sts @ [ex]\<rparr>
      else sts\<lparr>sts_elements := sts_elements sts @ [ex], sts_capacity := grow (sts_capacity sts),
               sts_buffer := sts_buffer sts + 1\<rparr>)"

definition Y_sts_start :: "nat \<Rightarrow> Y_server_threads \<Rightarrow> Y_server_threads" where
  "Y_sts_start i sts = sts\<lparr>sts_this := sts_this sts @ [(sts_buffer sts, i)]\<rparr>"

fun Y_Server_accept_loop :: "(nat \<Rightarrow> nat) \<Rightarrow> Y_config \<Rightarrow> nat list \<Rightarrow> nat \<Rightarrow> Y_server_threads \<Rightarrow> Y_server_threads" where
  "Y_Server_accept_loop grow cfg [] i sts = sts"
| "Y_Server_accept_loop grow cfg (rkey # rkeys) i sts =
     (let sts = Y_sts_push_back grow (Y_Server_new_executor cfg (Yc_trx_type cfg) rkey) sts
      in Y_Server_accept_loop grow cfg rkeys (i + 1) (Y_sts_start i sts))"

definition Y_Server_start :: "(nat \<Rightarrow> nat) \<Rightarrow> Y_config \<Rightarrow> nat list \<Rightarrow> Y_server \<Rightarrow> Y_config \<times> Y_server_threads" where
  "Y_Server_start grow cfg rkeys s =
     (let committed = Y_tbl_committed (Y_srv_table s);
          cfg = cfg\<lparr>Yc_cache_addr := buf_addr (ci_buf committed), Yc_cache_size := buf_size (ci_buf committed)\<rparr>
      in (cfg, Y_Server_accept_loop grow cfg rkeys 0 (Y_sts_reserve 1000)))"

definition Y_Server_new :: "nat option \<Rightarrow> mem \<Rightarrow> Y_server outcome" where
  "Y_Server_new memalign m =
     bind_outcome (Y_CommittedItemsCache_new memalign m) (\<lambda>ci.
       Ret \<lparr>Y_srv_table = \<lparr>Y_tbl_items = [], Y_tbl_latest = Map.empty, Y_tbl_committed = ci\<rparr>,
            Y_srv_locks = LockManager_new\<rparr>)"

section \<open>ServerThread\<close>

fun Y_executor_iter ::
    "(timestamp \<Rightarrow> nat) \<Rightarrow> 'o msgpack \<Rightarrow> nat \<times> nat \<Rightarrow> Y_trx_type \<Rightarrow> message \<Rightarrow> Y_server \<times> Y_executor \<Rightarrow> Y_iteration outcome" where
  "Y_executor_iter h mp junk LOCK_BASED = Y_LockBasedExecutor_run_iter h mp junk"
| "Y_executor_iter h mp junk Y_NO_CONCURRENCY_CONTROL = Y_NoCCExecutor_run_iter h mp junk"
| "Y_executor_iter h mp junk Y_RAMP_FAST = Y_RAMPFastExecutor_run_iter h mp junk"
| "Y_executor_iter h mp junk Y_AC_RAMP_FAST = Y_ACRAMPFastExecutor_run_iter h mp junk"

text \<open>
  After the loop \<open>run\<close> deletes \<open>this->trx_executor\<close>: it reads its element again, where it was when the
  thread was started.
\<close>

definition Y_this_valid :: "Y_server_threads \<Rightarrow> nat \<Rightarrow> bool" where
  "Y_this_valid sts i \<longleftrightarrow> fst (sts_this sts ! i) = sts_buffer sts"

definition Y_ServerThread_run ::
    "(timestamp \<Rightarrow> nat) \<Rightarrow> 'o msgpack \<Rightarrow> nat \<times> nat \<Rightarrow> Y_trx_type \<Rightarrow> Y_server_threads \<Rightarrow> nat \<Rightarrow> message list \<Rightarrow>
     Y_server \<times> Y_executor \<Rightarrow> Y_iteration outcome" where
  "Y_ServerThread_run h mp junk tt sts i msgs st =
     bind_outcome (executor_run (Y_executor_iter h mp junk tt) msgs st) (\<lambda>(st, out, go_on).
       if \<not> go_on \<and> \<not> Y_this_valid sts i then Dies Out_of_bounds else Ret (st, out, go_on))"

text \<open>The first thousand threads keep their addresses, until one more connection moves them all.\<close>

lemma Y_accept_loop_within:
  assumes "length (sts_elements sts) + length rkeys \<le> sts_capacity sts" and "length (sts_this sts) = length (sts_elements sts)"
  shows "sts_buffer (Y_Server_accept_loop grow cfg rkeys i sts) = sts_buffer sts \<and>
    sts_capacity (Y_Server_accept_loop grow cfg rkeys i sts) = sts_capacity sts \<and>
    length (sts_elements (Y_Server_accept_loop grow cfg rkeys i sts)) = length (sts_elements sts) + length rkeys \<and>
    (\<exists>is. length is = length rkeys \<and>
       sts_this (Y_Server_accept_loop grow cfg rkeys i sts) = sts_this sts @ map (Pair (sts_buffer sts)) is)"
  using assms
proof (induction rkeys arbitrary: i sts)
  case (Cons rkey rkeys)
  let ?sts = "Y_sts_start i (Y_sts_push_back grow (Y_Server_new_executor cfg (Yc_trx_type cfg) rkey) sts)"
  have s: "sts_buffer ?sts = sts_buffer sts" "sts_capacity ?sts = sts_capacity sts"
    "length (sts_elements ?sts) = Suc (length (sts_elements sts))" "sts_this ?sts = sts_this sts @ [(sts_buffer sts, i)]"
    using Cons.prems(1) by (simp_all add: Y_sts_start_def Y_sts_push_back_def)
  have "length (sts_elements ?sts) + length rkeys \<le> sts_capacity ?sts" "length (sts_this ?sts) = length (sts_elements ?sts)"
    using Cons.prems s by simp_all
  from Cons.IH[OF this, of "i + 1"] obtain "is" where IH: "length is = length rkeys"
    "sts_buffer (Y_Server_accept_loop grow cfg rkeys (i + 1) ?sts) = sts_buffer sts"
    "sts_capacity (Y_Server_accept_loop grow cfg rkeys (i + 1) ?sts) = sts_capacity sts"
    "length (sts_elements (Y_Server_accept_loop grow cfg rkeys (i + 1) ?sts)) = Suc (length (sts_elements sts)) + length rkeys"
    "sts_this (Y_Server_accept_loop grow cfg rkeys (i + 1) ?sts) = sts_this sts @ map (Pair (sts_buffer sts)) (i # is)"
    unfolding s by auto
  have "length (i # is) = length (rkey # rkeys)" using IH(1) by simp
  then show ?case using IH unfolding Y_Server_accept_loop.simps Let_def by (auto intro!: exI[of _ "i # is"])
qed auto

lemma Y_threads_valid:
  assumes "length rkeys \<le> 1000" and "i < length rkeys"
  shows "Y_this_valid (snd (Y_Server_start grow cfg rkeys s)) i"
proof -
  define cfg' where "cfg' = cfg\<lparr>Yc_cache_addr := buf_addr (ci_buf (Y_tbl_committed (Y_srv_table s))),
    Yc_cache_size := buf_size (ci_buf (Y_tbl_committed (Y_srv_table s)))\<rparr>"
  define sts where "sts = Y_Server_accept_loop grow cfg' rkeys 0 (Y_sts_reserve 1000)"
  obtain "is" where "sts_buffer sts = 0" "length is = length rkeys" "sts_this sts = map (Pair 0) is"
    using Y_accept_loop_within[of "Y_sts_reserve 1000" rkeys grow cfg' 0] assms(1)
    by (auto simp: Y_sts_reserve_def sts_def)
  then show ?thesis
    using assms(2) by (simp add: Y_Server_start_def Let_def Y_this_valid_def cfg'_def[symmetric] sts_def[symmetric])
qed

lemma Y_accept_loop_append:
  "Y_Server_accept_loop grow cfg (xs @ ys) i sts =
     Y_Server_accept_loop grow cfg ys (i + length xs) (Y_Server_accept_loop grow cfg xs i sts)"
  by (induction xs arbitrary: i sts) (simp_all add: Let_def)

lemma Y_threads_moved:
  assumes "length rkeys = 1000" and "i < 1000"
  shows "\<not> Y_this_valid (snd (Y_Server_start grow cfg (rkeys @ [rkey]) s)) i"
proof -
  define cfg' where "cfg' = cfg\<lparr>Yc_cache_addr := buf_addr (ci_buf (Y_tbl_committed (Y_srv_table s))),
    Yc_cache_size := buf_size (ci_buf (Y_tbl_committed (Y_srv_table s)))\<rparr>"
  define sts where "sts = Y_Server_accept_loop grow cfg' rkeys 0 (Y_sts_reserve 1000)"
  obtain "is" where sts: "sts_buffer sts = 0" "sts_capacity sts = 1000" "length (sts_elements sts) = 1000"
    "length is = 1000" "sts_this sts = map (Pair 0) is"
    using Y_accept_loop_within[of "Y_sts_reserve 1000" rkeys grow cfg' 0] assms(1)
    by (auto simp: Y_sts_reserve_def sts_def)
  have "snd (Y_Server_start grow cfg (rkeys @ [rkey]) s) = Y_Server_accept_loop grow cfg' [rkey] 1000 sts"
    unfolding Y_Server_start_def Let_def snd_conv Y_accept_loop_append cfg'_def[symmetric] sts_def[symmetric] assms(1) by simp
  then show ?thesis
    using sts assms(2) by (simp add: Y_this_valid_def Y_sts_start_def Y_sts_push_back_def nth_append)
qed

section \<open>Clusters\<close>

record Y_cluster =
  Ycl_servers :: "nat \<Rightarrow> Y_server"
  Ycl_conns :: "nat \<Rightarrow> Y_executor"

definition Y_cluster_serve ::
    "(timestamp \<Rightarrow> nat) \<Rightarrow> 'o msgpack \<Rightarrow> nat \<times> nat \<Rightarrow> Y_trx_type \<Rightarrow> (nat \<Rightarrow> nat) \<Rightarrow> nat \<Rightarrow> message \<Rightarrow> Y_cluster \<Rightarrow>
     (Y_cluster \<times> message) outcome" where
  "Y_cluster_serve h mp junk tt home c msg w =
     bind_outcome (Y_executor_iter h mp junk tt msg (Ycl_servers w (home c), Ycl_conns w c)) (\<lambda>((s, ex), out, _).
       (case out of
          [] \<Rightarrow> Blocks
        | reply # _ \<Rightarrow>
            Ret (w\<lparr>Ycl_servers := (Ycl_servers w)(home c := s), Ycl_conns := (Ycl_conns w)(c := ex)\<rparr>, reply)))"

definition Y_cluster_peek :: "(nat \<Rightarrow> nat) \<Rightarrow> nat \<Rightarrow> rka \<Rightarrow> Y_cluster \<Rightarrow> byte list" where
  "Y_cluster_peek home c a w =
     mem_read (ci_mem (Y_tbl_committed (Y_srv_table (Ycl_servers w (home c))))) (rka_addr a) ENTRY_SIZE"

lemma Y_cluster_serve_Ret:
  assumes "Y_cluster_serve h mp junk tt home c msg w = Ret (w', reply)"
  obtains s ex out go_on where
    "Y_executor_iter h mp junk tt msg (Ycl_servers w (home c), Ycl_conns w c) = Ret ((s, ex), reply # out, go_on)"
    "Ycl_servers w' = (Ycl_servers w)(home c := s)" "Ycl_conns w' = (Ycl_conns w)(c := ex)"
proof -
  obtain s ex out go_on where
    iter: "Y_executor_iter h mp junk tt msg (Ycl_servers w (home c), Ycl_conns w c) = Ret ((s, ex), out, go_on)"
    and rest: "(case out of [] \<Rightarrow> Blocks | reply # _ \<Rightarrow>
        Ret (w\<lparr>Ycl_servers := (Ycl_servers w)(home c := s), Ycl_conns := (Ycl_conns w)(c := ex)\<rparr>, reply)) = Ret (w', reply)"
    using assms unfolding Y_cluster_serve_def by (auto elim!: bind_outcome_RetE)
  from rest obtain out' where "out = reply # out'"
    "w' = w\<lparr>Ycl_servers := (Ycl_servers w)(home c := s), Ycl_conns := (Ycl_conns w)(c := ex)\<rparr>"
    by (cases out) auto
  then show thesis using that[of s ex out' go_on] iter by simp
qed

end
