(* ===== verification/Ycsb_Client_Theorems.thy ===== *)
theory Ycsb_Client_Theorems
  imports Ycsb_Agreement Ycsb_Servers Ycsb_Theorems Protocol_Theorems
begin

text \<open>
  The clients of the YCSB copy, first against the servers of the main tree, then against their own.
\<close>

section \<open>Against the servers of the main tree\<close>

definition main_handler :: "Y_handler \<Rightarrow> handler" where
  "main_handler y = \<lparr>h_cp = Yh_cp y, h_unpk = Yh_unpk y, h_addr_cache = Yh_addr_cache y,
     h_trx = (case Yh_trx y of None \<Rightarrow> Transaction_new | Some trx \<Rightarrow> trx)\<rparr>"

lemma same_main_handler: "\<forall>com. Yh_unpk y com = [] \<Longrightarrow> same_handler (main_handler y) y"
  by (simp add: same_handler_def main_handler_def drained_def)

lemma drained_main_handler: "\<forall>com. Yh_unpk y com = [] \<Longrightarrow> drained (main_handler y)"
  by (simp add: main_handler_def drained_def)

text \<open>C19: The YCSB clients refine those of the main tree.  Against servers of the main tree, every run of YCSB client
  threads, in any interleaving and for each class of handler, is step by step a run of main tree clients with
  the same transactions: the servers go through the same states, no thread is stuck or crashes that would not
  there, and the threads that finish have read the same items.  In particular the missing exception handlers
  of the copy and its unset transaction pointer make no difference there.\<close>

theorem ycsb_clients_refine:
  assumes "msgpack_ok mp" and "server_num_ok cfg" and "\<forall>c. ex_unpk (cl_conns w c) = []" and "\<forall>i com. Yh_unpk (y i) com = []"
    and "(system_step (cluster_serve mp junk (main_type tt) home) (cluster_peek home))\<^sup>*\<^sup>*
      (w, \<lambda>i. Y_client_thread mp junk hash cfg tt (tod i) (perms i) (trxs i) (y i)) (w', qs)"
  shows "\<exists>ps. (system_step (cluster_serve mp junk (main_type tt) home) (cluster_peek home))\<^sup>*\<^sup>*
      (w, \<lambda>i. client_thread mp junk hash (main_config cfg) (main_type tt) (tod i) (perms i) (trxs i) (main_handler (y i))) (w', ps) \<and>
    (\<forall>i. (\<forall>z rets. qs i = Return (z, rets) \<longrightarrow> (\<exists>h. ps i = Return (h, rets))) \<and>
         (\<forall>e. qs i = Crash e \<longrightarrow> ps i = Crash e) \<and> (qs i = Hang \<longrightarrow> ps i = Hang))"
proof -
  let ?p = "\<lambda>i. client_thread mp junk hash (main_config cfg) (main_type tt) (tod i) (perms i) (trxs i) (main_handler (y i))"
  have ag: "agrees mp junk reply_ok same_results (?p i)
      (Y_client_thread mp junk hash cfg tt (tod i) (perms i) (trxs i) (y i))" for i
    by (rule typed_reply.agrees_client_thread[OF assms(1,2) same_main_handler]) (use assms(4) in simp)
  have thread: "typed_prog mp junk (main_type tt) (\<lambda>st. drained (fst st) \<and> (\<forall>ret \<in> set (snd st). all_items (\<lambda>_. True) ret)) (?p i)" for i
    by (rule typed_reply.client_run[OF assms(1) handler_requests_typed _ drained_main_handler]) (use assms(4) in simp_all)
  have "msgpack_ok mp \<and> conns_drained w" using assms(1,3) by (simp add: conns_drained_def)
  from typed_service.system_agrees[OF assms(5) ag thread this] obtain ps where
    ps: "(system_step (cluster_serve mp junk (main_type tt) home) (cluster_peek home))\<^sup>*\<^sup>* (w, ?p) (w', ps)"
    and ag': "\<And>i. agrees mp junk reply_ok same_results (ps i) (qs i)" by blast
  have "(\<forall>z rets. qs i = Return (z, rets) \<longrightarrow> (\<exists>h. ps i = Return (h, rets))) \<and>
      (\<forall>e. qs i = Crash e \<longrightarrow> ps i = Crash e) \<and> (qs i = Hang \<longrightarrow> ps i = Hang)" for i
    using ag'[of i] by (cases rule: agrees.cases) (auto simp: same_results_def)
  then show ?thesis using ps by blast
qed

text \<open>The sample cluster, before anything happened.\<close>

definition Y_sample_cfg :: Y_config where
  "Y_sample_cfg = \<lparr>Yc_host_id = 0, Yc_com_type = TCP, Yc_trx_type = Y_RAMP_FAST, Yc_data_num = 2, Yc_worker_num = 1,
     Yc_trx_len = 1, Yc_write_trx_num = 1, Yc_read_trx_num = 1, Yc_trx_num = 2, Yc_value_size = 2, Yc_server_num = 1,
     Yc_server_list = [sample_host], Yc_cache_addr = 0, Yc_cache_size = 0, Yc_write_duration = LONG, Yc_read_duration = LONG\<rparr>"

definition Y_sample_handler :: "nat \<Rightarrow> Y_handler" where
  "Y_sample_handler i = Y_TrxHandler_new\<lparr>Yh_cp := \<lparr>connections = [sample_host \<mapsto> i], access_coms = []\<rparr>\<rparr>"

definition Y_sample_read :: trx where
  "Y_sample_read = Transaction_add_read ''1'' [''f''] Transaction_new"

definition Y_sample_thread :: "nat \<Rightarrow> (Y_handler \<times> (key, item) cmap list) prog" where
  "Y_sample_thread i = Y_client_thread sample_mp (0, 0) sample_hash Y_sample_cfg Y_NO_CONCURRENCY_CONTROL
     (\<lambda>_. (2000000, 7)) (\<lambda>_ _ n. [0..<n]) [Y_sample_read] (Y_sample_handler i)"

lemma Y_sample_read_eq:
  "Y_sample_read = \<lparr>access_keys = [''1''], read_set = [(''1'', [''f''])], write_set = []\<rparr>"
  by (simp add: Y_sample_read_def Transaction_add_read_def Transaction_new_def insort_insert_key_def)

lemma sample_get:
  "\<exists>w it. cluster_serve sample_mp (0, 0) NO_CONCURRENCY_CONTROL (\<lambda>_. 0) c
     (sent_msg sample_mp (0, 0) GET [Key_arg k]) (sample_cluster NO_CONCURRENCY_CONTROL) =
   Ret (w, sent_msg sample_mp (0, 0) RESULT [Item_arg it])"
  by (simp add: cluster_serve_def NoCC_iter_sent[OF sample_mp_ok] sample_cluster_def NoCCExecutor_def TrxExecutor_def
      NoCCExecutor_get_def answered_def case_prod_beta' del: executor_iter.simps) blast

lemma Y_sample_thread_eq:
  "\<exists>k h ret. Y_sample_thread i = Request i (sent_msg sample_mp (0, 0) GET [Key_arg ''1'']) k \<and>
     k (sent_msg sample_mp (0, 0) RESULT [Item_arg it]) = Return (h, [ret])"
  by (simp add: Y_sample_thread_def Y_client_thread_def Y_ClientThread_trx_def Y_sample_read_eq
     Y_this_trx_def Y_NoCCHandler_get_all_def parallel_for_each_def in_order_def Y_cp_get_def Y_ConnectionPool_get_def Y_sample_cfg_def
     Y_sample_handler_def Y_TrxHandler_new_def size_t_of_int_def Y_get_into_def Y_com_exchange_def cmap_index_def Let_def
     case_prod_beta' Y_recv_body_sent[OF sample_mp_ok])

text \<open>The read transaction of the sample runs to its end.\<close>

lemma Y_sample_run:
  "\<exists>w' z ret. (system_step (cluster_serve sample_mp (0, 0) NO_CONCURRENCY_CONTROL (\<lambda>_. 0)) (cluster_peek (\<lambda>_. 0)))\<^sup>*\<^sup>*
      (sample_cluster NO_CONCURRENCY_CONTROL, Y_sample_thread) (w', Y_sample_thread(0 := Return (z, [ret])))"
proof -
  obtain w it where get: "cluster_serve sample_mp (0, 0) NO_CONCURRENCY_CONTROL (\<lambda>_. 0) 0
     (sent_msg sample_mp (0, 0) GET [Key_arg ''1'']) (sample_cluster NO_CONCURRENCY_CONTROL) =
     Ret (w, sent_msg sample_mp (0, 0) RESULT [Item_arg it])" using sample_get by blast
  obtain k z ret where thread: "Y_sample_thread 0 = Request 0 (sent_msg sample_mp (0, 0) GET [Key_arg ''1'']) k"
    and k: "k (sent_msg sample_mp (0, 0) RESULT [Item_arg it]) = Return (z, [ret])" using Y_sample_thread_eq by blast
  have "prog_step (cluster_serve sample_mp (0, 0) NO_CONCURRENCY_CONTROL (\<lambda>_. 0)) (cluster_peek (\<lambda>_. 0))
      (sample_cluster NO_CONCURRENCY_CONTROL, Y_sample_thread 0) (w, Return (z, [ret]))"
    unfolding thread k[symmetric] by (rule step_request) (rule get)
  from system_stepI[where ps = Y_sample_thread and i = 0, OF this] show ?thesis by blast
qed

theorem ycsb_clients_refine_witness:
  "\<exists>w' ps h ret. (system_step (cluster_serve sample_mp (0, 0) NO_CONCURRENCY_CONTROL (\<lambda>_. 0)) (cluster_peek (\<lambda>_. 0)))\<^sup>*\<^sup>*
      (sample_cluster NO_CONCURRENCY_CONTROL, \<lambda>i. client_thread sample_mp (0, 0) sample_hash (main_config Y_sample_cfg) NO_CONCURRENCY_CONTROL
         (\<lambda>_. (2000000, 7)) (\<lambda>_ _ n. [0..<n]) [Y_sample_read] (main_handler (Y_sample_handler i))) (w', ps) \<and>
    ps 0 = Return (h, [ret])"
proof -
  obtain w' z ret where run: "(system_step (cluster_serve sample_mp (0, 0) (main_type Y_NO_CONCURRENCY_CONTROL) (\<lambda>_. 0)) (cluster_peek (\<lambda>_. 0)))\<^sup>*\<^sup>*
      (sample_cluster NO_CONCURRENCY_CONTROL, \<lambda>i. Y_client_thread sample_mp (0, 0) sample_hash Y_sample_cfg Y_NO_CONCURRENCY_CONTROL
         (\<lambda>_. (2000000, 7)) (\<lambda>_ _ n. [0..<n]) [Y_sample_read] (Y_sample_handler i)) (w', Y_sample_thread(0 := Return (z, [ret])))"
    using Y_sample_run unfolding Y_sample_thread_def[abs_def] by auto
  have "server_num_ok Y_sample_cfg" by (simp add: server_num_ok_def Y_sample_cfg_def)
  moreover have "\<forall>c. ex_unpk (cl_conns (sample_cluster NO_CONCURRENCY_CONTROL) c) = []"
    by (simp add: sample_cluster_def NoCCExecutor_def TrxExecutor_def)
  moreover have "\<forall>i com. Yh_unpk (Y_sample_handler i) com = []" by (simp add: Y_sample_handler_def Y_TrxHandler_new_def)
  ultimately obtain ps where
    ps: "(system_step (cluster_serve sample_mp (0, 0) (main_type Y_NO_CONCURRENCY_CONTROL) (\<lambda>_. 0)) (cluster_peek (\<lambda>_. 0)))\<^sup>*\<^sup>*
      (sample_cluster NO_CONCURRENCY_CONTROL, \<lambda>i. client_thread sample_mp (0, 0) sample_hash (main_config Y_sample_cfg)
         (main_type Y_NO_CONCURRENCY_CONTROL) (\<lambda>_. (2000000, 7)) (\<lambda>_ _ n. [0..<n]) [Y_sample_read] (main_handler (Y_sample_handler i))) (w', ps)"
    and same: "\<forall>i z' rets. (Y_sample_thread(0 := Return (z, [ret]))) i = Return (z', rets) \<longrightarrow> (\<exists>h. ps i = Return (h, rets))"
    using ycsb_clients_refine[OF sample_mp_ok, where y = Y_sample_handler and tod = "\<lambda>_ _. (2000000, 7)"
        and perms = "\<lambda>_ _ _ n. [0..<n]" and trxs = "\<lambda>_. [Y_sample_read]", OF _ _ _ run] by blast
  have "\<exists>h. ps 0 = Return (h, [ret])" using same by (metis fun_upd_same)
  then show ?thesis using ps by auto
qed

section \<open>Against their own servers\<close>

text \<open>A server that finds nothing answers these requests, as long as no prepared timestamp finds itself.\<close>

definition Y_findable :: "message_type \<Rightarrow> arg list \<Rightarrow> bool" where
  "Y_findable t args \<longleftrightarrow> Y_ramp_request (t, args)"

definition Y_empty_reply :: "message_type \<Rightarrow> arg list \<Rightarrow> bool" where
  "Y_empty_reply t vals \<longleftrightarrow>
     (if t = GET then vals = [Item_arg Item_default] else (t = PREPARE \<or> t = COMMIT) \<and> vals = [])"

interpretation empty_reply: reply_contract Y_empty_reply "\<lambda>i. i = Item_default"
  by unfold_locales (auto simp: Y_empty_reply_def split: if_splits)

definition Y_finds_nothing :: "Y_cluster \<Rightarrow> bool" where
  "Y_finds_nothing w \<longleftrightarrow> (\<forall>s. never_found (Y_srv_table (Ycl_servers w s))) \<and> (\<forall>c. Y_ex_unpk (Ycl_conns w c) = [])"

interpretation ycsb_service: service mp junk "Y_cluster_serve hash_ts mp junk Y_RAMP_FAST home" "Y_cluster_peek home"
    Y_findable Y_empty_reply "\<lambda>w. msgpack_ok mp \<and> Y_finds_nothing w" for mp :: "'o msgpack" and junk hash_ts home
proof
  fix w t args c w' r
  assume w: "msgpack_ok mp \<and> Y_finds_nothing w" and ok: "Y_findable t args"
    and served: "Y_cluster_serve hash_ts mp junk Y_RAMP_FAST home c (sent_msg mp junk t args) w = Ret (w', r)"
  obtain s ex out go_on where
    iter: "Y_executor_iter hash_ts mp junk Y_RAMP_FAST (sent_msg mp junk t args) (Ycl_servers w (home c), Ycl_conns w c) =
      Ret ((s, ex), r # out, go_on)"
    and w': "Ycl_servers w' = (Ycl_servers w)(home c := s)" "Ycl_conns w' = (Ycl_conns w)(c := ex)"
    using served by (rule Y_cluster_serve_Ret)
  have "never_found (Y_srv_table s) \<and> ex = Ycl_conns w c \<and> go_on \<and> r # out = [Y_empty_answer mp junk t]"
    by (rule Y_RAMP_iter[OF _ _ _ _ iter[unfolded Y_executor_iter.simps]])
      (use w ok in \<open>auto simp: Y_finds_nothing_def Y_findable_def\<close>)
  then have s: "never_found (Y_srv_table s)" "ex = Ycl_conns w c" "r = Y_empty_answer mp junk t" by auto
  have "t = GET \<or> t = PREPARE \<or> t = COMMIT"
    using ok unfolding Y_findable_def by (cases "(t, args)" rule: Y_ramp_request.cases) auto
  then have "\<exists>rt vals. Y_empty_reply t vals \<and> r = sent_msg mp junk rt vals"
    unfolding s(3) by (auto simp: Y_empty_reply_def Y_empty_answer_def)
  then show "(msgpack_ok mp \<and> Y_finds_nothing w') \<and> (\<exists>rt vals. Y_empty_reply t vals \<and> r = sent_msg mp junk rt vals)"
    using w w' s(1,2) by (simp add: Y_finds_nothing_def)
qed

text \<open>The time of day since 12 January 1970.\<close>

definition plausible_time :: "int \<times> int \<Rightarrow> bool" where
  "plausible_time timeofday \<longleftrightarrow> 0 \<le> snd timeofday \<and> snd timeofday < 1000000 \<and> 1000000 \<le> fst timeofday"

lemma handler_requests_findable:
  assumes "plausible_time timeofday"
  shows "handler_requests RAMP_FAST (Timestamp_now timeofday) Y_findable"
  using assms
  by (auto simp: handler_requests_def Y_findable_def plausible_time_def Timestamp_now_def Timestamp_of_timeval_def)

text \<open>C32: Nothing is ever read in the YCSB copy.  In a system of YCSB clients and YCSB servers that run RAMP-Fast, with
  any number of client threads and any interleaving of their messages, every item that any read transaction
  gets is the empty one, whatever was written and committed before, provided only that the clock shows a date
  after 12 January 1970 and microseconds below a million.\<close>

theorem ycsb_system_reads_nothing:
  assumes "msgpack_ok mp" and "server_num_ok cfg"
    and "\<forall>s. Y_tbl_items (Y_srv_table (Ycl_servers w s)) = []" and "\<forall>c. Y_ex_unpk (Ycl_conns w c) = []"
    and "\<forall>i com. Yh_unpk (y i) com = []" and "\<forall>i j. plausible_time (tod i j)"
    and "(system_step (Y_cluster_serve hash_ts mp junk Y_RAMP_FAST home) (Y_cluster_peek home))\<^sup>*\<^sup>*
      (w, \<lambda>i. Y_client_thread mp junk hash cfg Y_RAMP_FAST (tod i) (perms i) (trxs i) (y i)) (w', qs)"
    and "qs i = Return (z, rets)" and "ret \<in> set rets" and "ret k = Some it"
  shows "it = Item_default"
proof -
  let ?p = "\<lambda>i. client_thread mp junk hash (main_config cfg) RAMP_FAST (tod i) (perms i) (trxs i) (main_handler (y i))"
  let ?post = "\<lambda>st :: handler \<times> (key, item) cmap list. drained (fst st) \<and> (\<forall>ret \<in> set (snd st). all_items (\<lambda>i. i = Item_default) ret)"
  let ?Ypost = "\<lambda>b. \<exists>a. ?post a \<and> same_results a b"
  have p: "conforms mp junk Y_findable Y_empty_reply ?post (?p i)" for i
    by (rule empty_reply.client_run[OF assms(1) handler_requests_findable _ drained_main_handler]) (use assms(5,6) in simp_all)
  have ag: "agrees mp junk Y_empty_reply same_results (?p i)
      (Y_client_thread mp junk hash cfg Y_RAMP_FAST (tod i) (perms i) (trxs i) (y i))" for i
    using empty_reply.agrees_client_thread[OF assms(1,2) same_main_handler, of "y i" junk hash Y_RAMP_FAST "tod i" "perms i" "trxs i"]
      assms(5) by simp
  have thread: "conforms mp junk Y_findable Y_empty_reply ?Ypost
      (Y_client_thread mp junk hash cfg Y_RAMP_FAST (tod i) (perms i) (trxs i) (y i))" for i
    by (rule conforms_agrees[OF ag p])
  have "msgpack_ok mp \<and> Y_finds_nothing w" using assms(1,3,4) by (simp add: Y_finds_nothing_def never_found_def)
  from ycsb_service.system_conforms[OF assms(7) thread this]
  have "conforms mp junk Y_findable Y_empty_reply ?Ypost (qs i)" by blast
  then have "?Ypost (z, rets)" unfolding assms(8) by (rule conforms_ReturnE)
  then show ?thesis using assms(9,10) by (auto simp: same_results_def all_items_def)
qed

text \<open>A read transaction on a fresh cluster of the copy.\<close>

definition Y_sample_cluster :: Y_cluster where
  "Y_sample_cluster = \<lparr>Ycl_servers = (\<lambda>_. Y_sample_server), Ycl_conns = (\<lambda>_. Y_TrxExecutor)\<rparr>"

lemma Y_sample_get:
  "\<exists>w. Y_cluster_serve (\<lambda>_. 0) sample_mp (0, 0) Y_RAMP_FAST (\<lambda>_. 0) 0
     (sent_msg sample_mp (0, 0) GET [Key_arg k, Ts_arg Timestamp_default]) Y_sample_cluster =
   Ret (w, sent_msg sample_mp (0, 0) RESULT [Item_arg Item_default])"
  by (simp add: Y_cluster_serve_def Y_RAMP_iter_sent[OF sample_mp_ok] Y_sample_cluster_def Y_TrxExecutor_def
      Y_RAMPFastExecutor_get_def Y_answered_def Y_Table_get_latest_item_def Y_Table_get_item_by_ver_def Y_ts_map_at_def
      Y_sample_server_def cmap_index_def case_prod_beta' Let_def)

definition Y_sample_ramp_thread :: "nat \<Rightarrow> (Y_handler \<times> (key, item) cmap list) prog" where
  "Y_sample_ramp_thread i = Y_client_thread sample_mp (0, 0) sample_hash Y_sample_cfg Y_RAMP_FAST
     (\<lambda>_. (2000000, 7)) (\<lambda>_ _ n. [0..<n]) [Y_sample_read] (Y_sample_handler i)"

lemma Y_sample_ramp_thread_eq:
  "\<exists>k h ret it. Y_sample_ramp_thread i = Request i (sent_msg sample_mp (0, 0) GET [Key_arg ''1'', Ts_arg Timestamp_default]) k \<and>
     k (sent_msg sample_mp (0, 0) RESULT [Item_arg Item_default]) = Return (h, [ret]) \<and> ret ''1'' = Some it"
  by (simp add: Y_sample_ramp_thread_def Y_client_thread_def Y_ClientThread_trx_def Y_sample_read_eq
     Y_this_trx_def Y_RAMPFastHandler_get_all_def parallel_for_each_def in_order_def Y_cp_get_def Y_ConnectionPool_get_def Y_sample_cfg_def
     Y_sample_handler_def Y_TrxHandler_new_def size_t_of_int_def Y_get_into_def Y_com_exchange_def cmap_index_def cmap_assign_def Let_def
     Y_second_round_def Y_check_missing_def ret_values_def ret_item_def Item_default_def
     case_prod_beta' Y_recv_body_sent[OF sample_mp_ok])

theorem ycsb_system_reads_nothing_witness:
  "\<exists>w' qs z ret it. (system_step (Y_cluster_serve (\<lambda>_. 0) sample_mp (0, 0) Y_RAMP_FAST (\<lambda>_. 0)) (Y_cluster_peek (\<lambda>_. 0)))\<^sup>*\<^sup>*
      (Y_sample_cluster, Y_sample_ramp_thread) (w', qs) \<and> qs 0 = Return (z, [ret]) \<and> ret ''1'' = Some it \<and> it = Item_default"
proof -
  obtain w where get: "Y_cluster_serve (\<lambda>_. 0) sample_mp (0, 0) Y_RAMP_FAST (\<lambda>_. 0) 0
     (sent_msg sample_mp (0, 0) GET [Key_arg ''1'', Ts_arg Timestamp_default]) Y_sample_cluster =
     Ret (w, sent_msg sample_mp (0, 0) RESULT [Item_arg Item_default])" using Y_sample_get by blast
  obtain k z ret it where
    thread: "Y_sample_ramp_thread 0 = Request 0 (sent_msg sample_mp (0, 0) GET [Key_arg ''1'', Ts_arg Timestamp_default]) k"
    and k: "k (sent_msg sample_mp (0, 0) RESULT [Item_arg Item_default]) = Return (z, [ret])" and it: "ret ''1'' = Some it"
    using Y_sample_ramp_thread_eq by blast
  let ?qs = "Y_sample_ramp_thread(0 := Return (z, [ret]))"
  have "prog_step (Y_cluster_serve (\<lambda>_. 0) sample_mp (0, 0) Y_RAMP_FAST (\<lambda>_. 0)) (Y_cluster_peek (\<lambda>_. 0))
      (Y_sample_cluster, Y_sample_ramp_thread 0) (w, Return (z, [ret]))"
    unfolding thread k[symmetric] by (rule step_request) (rule get)
  from system_stepI[where ps = Y_sample_ramp_thread and i = 0, OF this]
  have run: "(system_step (Y_cluster_serve (\<lambda>_. 0) sample_mp (0, 0) Y_RAMP_FAST (\<lambda>_. 0)) (Y_cluster_peek (\<lambda>_. 0)))\<^sup>*\<^sup>*
      (Y_sample_cluster, Y_sample_ramp_thread) (w, ?qs)" by blast
  have "it = Item_default"
  proof (rule ycsb_system_reads_nothing[OF sample_mp_ok])
    show "server_num_ok Y_sample_cfg" by (simp add: server_num_ok_def Y_sample_cfg_def)
    show "(system_step (Y_cluster_serve (\<lambda>_. 0) sample_mp (0, 0) Y_RAMP_FAST (\<lambda>_. 0)) (Y_cluster_peek (\<lambda>_. 0)))\<^sup>*\<^sup>*
      (Y_sample_cluster, \<lambda>i. Y_client_thread sample_mp (0, 0) sample_hash Y_sample_cfg Y_RAMP_FAST
         (\<lambda>_. (2000000, 7)) (\<lambda>_ _ n. [0..<n]) [Y_sample_read] (Y_sample_handler i)) (w, ?qs)"
      using run unfolding Y_sample_ramp_thread_def[abs_def] .
    show "\<forall>s. Y_tbl_items (Y_srv_table (Ycl_servers Y_sample_cluster s)) = []"
      by (simp add: Y_sample_cluster_def Y_sample_server_def)
    show "\<forall>c. Y_ex_unpk (Ycl_conns Y_sample_cluster c) = []" by (simp add: Y_sample_cluster_def Y_TrxExecutor_def)
    show "\<forall>i com. Yh_unpk (Y_sample_handler i) com = []" by (simp add: Y_sample_handler_def Y_TrxHandler_new_def)
    show "\<forall>i j :: nat. plausible_time (2000000, 7)" by (simp add: plausible_time_def)
    show "?qs 0 = Return (z, [ret])" and "ret \<in> set [ret]" by simp_all
  qed (rule it)
  then show ?thesis using run it by (intro exI[of _ w] exI[of _ ?qs] exI[of _ z] exI[of _ ret] exI[of _ it]) simp
qed

end
