(* ===== verification/Ycsb_Endpoints.thy ===== *)
theory Ycsb_Endpoints
  imports Ycsb_Sockets
begin

text \<open>
  \<open>TCPSocket\<close>, \<open>TCPServerSocket\<close> and the acceptors over the verbs layer of the YCSB copy
  (\<open>YCSB-0.5.0/include/net/\<close>, \<open>YCSB-0.5.0/src/net/\<close>), as in the main tree: what \<open>read\<close> and \<open>write\<close>
  answer is an argument.  The lemmas at the end say that they do the same.
\<close>

section \<open>TCPSocket\<close>

record Y_tcp_socket =
  Y_tcp_sock :: int
  Y_tcp_msg_buf :: buffer

definition Y_TCPSocket_new :: "int \<Rightarrow> nat option \<Rightarrow> mem \<Rightarrow> (mem \<times> Y_tcp_socket) outcome" where
  "Y_TCPSocket_new sock memalign m =
     bind_outcome (Y_Buffer_allocate memalign PACKET_SIZE m) (\<lambda>(m, b).
       Ret (m, \<lparr>Y_tcp_sock = sock, Y_tcp_msg_buf = b\<rparr>))"

definition Y_TCPSocket_connect :: "host_and_port \<Rightarrow> os \<Rightarrow> endpoint" where
  "Y_TCPSocket_connect hp os =
     (let (os, r) = os_getaddrinfo (Some (hp_hostname hp)) (hp_port_str hp) True os in
      if r \<noteq> 0 then Inl os
      else let (os, com) = os_create Socket os in
      if com < 0 then Inl (os_freeaddrinfo os)
      else let (os, r) = os_on com Nodelay os in
      if r < 0 then Inl (os_close com (os_freeaddrinfo os))
      else let (os, r) = os_on com Connect os in
      if r < 0 then Inl (os_close com (os_freeaddrinfo os))
      else Inr (os_freeaddrinfo os, com))"

definition Y_TCPSocket_send :: "int option \<Rightarrow> byte list \<Rightarrow> byte list \<Rightarrow> byte list outcome" where
  "Y_TCPSocket_send answer buf out =
     (case answer of
        None \<Rightarrow> Blocks
      | Some r \<Rightarrow> if r < 0 then Dies Exit_failure else Ret (out @ take (nat r) buf))"

definition Y_TCPSocket_recv :: "int option \<Rightarrow> nat \<Rightarrow> byte list \<Rightarrow> (byte list \<times> byte list) outcome" where
  "Y_TCPSocket_recv answer cnt inp =
     (case answer of
        None \<Rightarrow> Blocks
      | Some r \<Rightarrow>
          if r < 0 then Dies Exit_failure
          else Ret (take (min (nat r) cnt) inp, drop (min (nat r) cnt) inp))"

definition Y_TCPSocket_send_msg :: "int option \<times> int option \<Rightarrow> message \<Rightarrow> byte list \<Rightarrow> byte list outcome" where
  "Y_TCPSocket_send_msg answers msg out =
     (let (header, body) = msg in
      bind_outcome (Y_TCPSocket_send (fst answers) (header_bytes header) out)
        (Y_TCPSocket_send (snd answers) (take (hdr_body_size header) body)))"

definition Y_TCPSocket_recv_header :: "int option \<Rightarrow> byte list \<Rightarrow> byte list \<Rightarrow> (byte list \<times> byte list) outcome" where
  "Y_TCPSocket_recv_header answer hdr inp =
     bind_outcome (Y_TCPSocket_recv answer sizeof_MessageHeader inp) (\<lambda>(got, inp).
       Ret (got @ drop (length got) hdr, inp))"

definition Y_TCPSocket_get_body ::
    "int option \<Rightarrow> nat \<Rightarrow> Y_tcp_socket \<Rightarrow> mem \<times> byte list \<Rightarrow> ((mem \<times> byte list) \<times> nat) outcome" where
  "Y_TCPSocket_get_body answer body_size s st =
     (let (m, inp) = st in
      bind_outcome (Y_TCPSocket_recv answer body_size inp) (\<lambda>(got, inp).
        Ret ((mem_write m (buf_addr (Y_tcp_msg_buf s)) got, inp), buf_addr (Y_tcp_msg_buf s))))"

definition Y_TCPSocket_clear_msg_buf :: "Y_tcp_socket \<times> mem \<Rightarrow> Y_tcp_socket \<times> mem" where
  "Y_TCPSocket_clear_msg_buf st =
     (let (s, m) = st; (m, b) = Y_Buffer_clear (Y_tcp_msg_buf s) m in (s\<lparr>Y_tcp_msg_buf := b\<rparr>, m))"

definition Y_TCPSocket_send_close ::
    "'o msgpack \<Rightarrow> nat \<times> nat \<Rightarrow> int option \<times> int option \<Rightarrow> byte list \<Rightarrow> byte list outcome" where
  "Y_TCPSocket_send_close mp junk answers out = Y_TCPSocket_send_msg answers (sent_msg mp junk CLOSE []) out"

section \<open>Acceptors\<close>

definition Y_TCPServerSocket :: "string \<Rightarrow> os \<Rightarrow> endpoint" where
  "Y_TCPServerSocket port_str os =
     (let (os, r) = os_getaddrinfo None port_str True os in
      if r \<noteq> 0 then Inl os
      else let (os, sock) = os_create Socket os in
      if sock < 0 then Inl (os_freeaddrinfo os)
      else let (os, r) = os_on sock Reuseaddr os in
      if r < 0 then Inl (os_close sock (os_freeaddrinfo os))
      else let (os, r) = os_on sock Nodelay os in
      if r < 0 then Inl (os_close sock (os_freeaddrinfo os))
      else let (os, r) = os_on sock Bind os in
      if r < 0 then Inl (os_close sock (os_freeaddrinfo os))
      else let (os, r) = os_on sock (Listen LISTEN_MAX) (os_freeaddrinfo os) in
      if r < 0 then Inl (os_close sock os)
      else Inr (os, sock))"

definition Y_TCPServerSocket_accept :: "int \<Rightarrow> os \<Rightarrow> endpoint" where
  "Y_TCPServerSocket_accept sock os =
     (let (os, com) = os_create (Accept sock) os in if com < 0 then Inl os else Inr (os, com))"

definition Y_SendRecvServerSocket_accept :: "int \<Rightarrow> os \<Rightarrow> endpoint" where
  "Y_SendRecvServerSocket_accept rsock os = Y_RDMACMServerSocket_accept rsock os"

definition Y_RDMAWriteServerSocket_accept :: "int \<Rightarrow> os \<Rightarrow> endpoint" where
  "Y_RDMAWriteServerSocket_accept rsock os = Y_RDMACMServerSocket_accept rsock os"

definition Y_RDMAWriteImmServerSocket_accept :: "int \<Rightarrow> os \<Rightarrow> endpoint" where
  "Y_RDMAWriteImmServerSocket_accept rsock os = Y_RDMACMServerSocket_accept rsock os"

fun Y_socket_connect :: "socket_class \<Rightarrow> host_and_port \<Rightarrow> os \<Rightarrow> endpoint" where
  "Y_socket_connect TCPSocket = Y_TCPSocket_connect"
| "Y_socket_connect SendRecvSocket = Y_SendRecvSocket_connect"
| "Y_socket_connect RDMAWriteSocket = Y_RDMAWriteSocket_connect"
| "Y_socket_connect RDMAWriteImmSocket = Y_RDMAWriteImmSocket_connect"

fun Y_acceptor_new :: "socket_class \<Rightarrow> string \<Rightarrow> os \<Rightarrow> endpoint" where
  "Y_acceptor_new TCPSocket = Y_TCPServerSocket"
| "Y_acceptor_new SendRecvSocket = Y_RDMACMServerSocket"
| "Y_acceptor_new RDMAWriteSocket = Y_RDMACMServerSocket"
| "Y_acceptor_new RDMAWriteImmSocket = Y_RDMACMServerSocket"

fun Y_acceptor_accept :: "socket_class \<Rightarrow> int \<Rightarrow> os \<Rightarrow> endpoint" where
  "Y_acceptor_accept TCPSocket = Y_TCPServerSocket_accept"
| "Y_acceptor_accept SendRecvSocket = Y_SendRecvServerSocket_accept"
| "Y_acceptor_accept RDMAWriteSocket = Y_RDMAWriteServerSocket_accept"
| "Y_acceptor_accept RDMAWriteImmSocket = Y_RDMAWriteImmServerSocket_accept"

section \<open>Agreement with the main tree\<close>

lemma Y_setup_agrees:
  "Y_socket_connect c = socket_connect c" "Y_acceptor_new c = acceptor_new c" "Y_acceptor_accept c = acceptor_accept c"
  by (cases c; simp add: fun_eq_iff Y_endpoints_alike rdma_setups_alike Y_SendRecvSocket_connect_def Y_RDMAWriteSocket_connect_def
      Y_RDMAWriteImmSocket_connect_def Y_TCPSocket_connect_def TCPSocket_connect_def Y_TCPServerSocket_def TCPServerSocket_def
      Y_TCPServerSocket_accept_def TCPServerSocket_accept_def Y_SendRecvServerSocket_accept_def Y_RDMAWriteServerSocket_accept_def
      Y_RDMAWriteImmServerSocket_accept_def)+

definition tcp_view :: "Y_tcp_socket \<Rightarrow> tcp_socket" where
  "tcp_view s = \<lparr>tcp_sock = Y_tcp_sock s, tcp_msg_buf = Y_tcp_msg_buf s\<rparr>"

lemma Y_tcp_calls_agree: "Y_TCPSocket_send = TCPSocket_send" "Y_TCPSocket_recv = TCPSocket_recv"
  by (simp_all add: fun_eq_iff Y_TCPSocket_send_def TCPSocket_send_def Y_TCPSocket_recv_def TCPSocket_recv_def)

lemma Y_tcp_agrees:
  "Y_TCPSocket_send_msg answers msg out = TCPSocket_send_msg answers msg out"
  "Y_TCPSocket_recv_header answer hdr inp = TCPSocket_recv_header answer hdr inp"
  "Y_TCPSocket_get_body answer n s st = TCPSocket_get_body answer n (tcp_view s) st"
  "TCPSocket_clear_msg_buf (tcp_view s, m) = (\<lambda>(s, m). (tcp_view s, m)) (Y_TCPSocket_clear_msg_buf (s, m))"
  by (simp_all add: Y_TCPSocket_send_msg_def TCPSocket_send_msg_def Y_TCPSocket_recv_header_def TCPSocket_recv_header_def
      Y_TCPSocket_get_body_def TCPSocket_get_body_def Y_tcp_calls_agree tcp_view_def Y_TCPSocket_clear_msg_buf_def
      TCPSocket_clear_msg_buf_def Buffer_clear_def)

end
