(* ===== verification/Ycsb_Mains.thy ===== *)
theory Ycsb_Mains
  imports Ycsb_Clients Ycsb_Endpoints Mains
begin

text \<open>
  \<open>Config\<close> of the YCSB copy (\<open>YCSB-0.5.0/src/config/Config.cpp\<close>) and its two command line programs
  (\<open>YCSB-0.5.0/src/server/server_main.cpp\<close>, \<open>YCSB-0.5.0/src/client/client_main.cpp\<close>) up to where they
  start their threads.
\<close>

section \<open>Config\<close>

definition Y_server_list_file :: "com_type \<Rightarrow> string" where
  "Y_server_list_file com =
     ''/home/murata/ramp/server_lists/'' @ (if com = TCP then ''tcp'' else ''ib'')"

definition int_of_size_t :: "nat \<Rightarrow> int" where
  "int_of_size_t n = (let i = int n mod 2 ^ 32 in if i < 2 ^ 31 then i else i - 2 ^ 32)"

definition Y_Config_read_server_list ::
    "(string \<Rightarrow> string option) \<Rightarrow> string \<times> string \<Rightarrow> Y_config \<Rightarrow> Y_config outcome" where
  "Y_Config_read_server_list fs stack cfg =
     (case fs (Y_server_list_file (Yc_com_type cfg)) of
        None \<Rightarrow> Dies Exit_failure
      | Some inp \<Rightarrow>
          bind_outcome (read_servers (fst stack) (snd stack) inp (Yc_server_list cfg)) (\<lambda>hps.
            Ret (cfg\<lparr>Yc_server_list := hps, Yc_server_num := int_of_size_t (length hps)\<rparr>)))"

text \<open>\<open>atoi\<close>, whose result is not defined when the number does not fit an \<open>int\<close>; two characters do.\<close>

definition digit_value :: "char \<Rightarrow> nat" where
  "digit_value c = of_char c - of_char CHR ''0''"

definition atoi :: "string \<Rightarrow> int" where
  "atoi s =
     (let s = skip_space s;
          neg = (s \<noteq> [] \<and> hd s = CHR ''-'');
          s = (if s \<noteq> [] \<and> (hd s = CHR ''-'' \<or> hd s = CHR ''+'') then tl s else s);
          n = foldl (\<lambda>n c. 10 * n + int (digit_value c)) 0 (takeWhile is_digit s)
      in if neg then - n else n)"

text \<open>\<open>hostname\<close> is what \<open>gethostname\<close> leaves in the array of 64 characters, or that it fails.\<close>

definition Y_Config_init :: "string option \<Rightarrow> Y_config \<Rightarrow> Y_config outcome" where
  "Y_Config_init hostname cfg =
     (case hostname of
        None \<Rightarrow> Dies Exit_failure
      | Some hostname \<Rightarrow> Ret (cfg\<lparr>Yc_host_id := atoi (until_NUL [hostname ! 5, hostname ! 6, NUL])\<rparr>))"

section \<open>Options\<close>

datatype Y_main_error = Y_Unknown_trx_type | Y_Unknown_com_type

definition Y_main_com_type :: "string \<Rightarrow> Y_main_error + com_type" where
  "Y_main_com_type s =
     (if s = ''tcp'' then Inr TCP
      else if s = ''ipoib'' then Inr IPoIB
      else if s = ''send_recv'' then Inr SEND_RECV
      else if s = ''rdma_write'' then Inr RDMA_WRITE
      else if s = ''rdma_write_imm'' then Inr RDMA_WRITE_IMM
      else Inl Y_Unknown_com_type)"

text \<open>The server takes the isolation level from the type of transactions.\<close>

definition Y_server_trx_type :: "string \<Rightarrow> Y_config \<Rightarrow> Y_main_error + Y_config" where
  "Y_server_trx_type s cfg =
     (if s = ''rr'' then Inr (cfg\<lparr>Yc_trx_type := LOCK_BASED, Yc_write_duration := LONG, Yc_read_duration := LONG\<rparr>)
      else if s = ''rc'' then Inr (cfg\<lparr>Yc_trx_type := LOCK_BASED, Yc_write_duration := LONG, Yc_read_duration := SHORT\<rparr>)
      else if s = ''ru'' then Inr (cfg\<lparr>Yc_trx_type := LOCK_BASED, Yc_write_duration := LONG, Yc_read_duration := NONE\<rparr>)
      else if s = ''no_cc'' then Inr (cfg\<lparr>Yc_trx_type := Y_NO_CONCURRENCY_CONTROL\<rparr>)
      else if s = ''ramp_f'' then Inr (cfg\<lparr>Yc_trx_type := Y_RAMP_FAST\<rparr>)
      else if s = ''ac_ramp_f'' then Inr (cfg\<lparr>Yc_trx_type := Y_AC_RAMP_FAST\<rparr>)
      else Inl Y_Unknown_trx_type)"

definition Y_client_trx_type :: "string \<Rightarrow> Y_main_error + Y_trx_type" where
  "Y_client_trx_type s =
     (if s = ''rr'' then Inr LOCK_BASED
      else if s = ''rc'' then Inr LOCK_BASED
      else if s = ''ru'' then Inr LOCK_BASED
      else if s = ''no_cc'' then Inr Y_NO_CONCURRENCY_CONTROL
      else if s = ''ramp_f'' then Inr Y_RAMP_FAST
      else if s = ''ac_ramp_f'' then Inr Y_AC_RAMP_FAST
      else Inl Y_Unknown_trx_type)"

text \<open>The two options of the server are texts; an unknown one is printed before the process exits.\<close>

definition Y_server_main :: "string \<Rightarrow> string \<Rightarrow> Y_config \<Rightarrow> os \<Rightarrow> Y_main_error + Y_config \<times> endpoint" where
  "Y_server_main trx_type com_type cfg os =
     bind_sum (Y_server_trx_type trx_type cfg) (\<lambda>cfg.
     bind_sum (Y_main_com_type com_type) (\<lambda>com.
       let cfg = cfg\<lparr>Yc_com_type := com\<rparr>; port_str = ''50000''
       in Inr (cfg,
         (case com of
            TCP \<Rightarrow> Y_TCPServerSocket port_str os
          | IPoIB \<Rightarrow> Y_TCPServerSocket port_str os
          | SEND_RECV \<Rightarrow> Y_RDMACMServerSocket port_str os
          | RDMA_WRITE \<Rightarrow> Y_RDMACMServerSocket port_str os
          | RDMA_WRITE_IMM \<Rightarrow> Y_RDMACMServerSocket port_str os))))"

record Y_client_options =
  Yco_trx_type :: string
  Yco_com_type :: string
  Yco_write_trx_num :: int
  Yco_read_trx_num :: int
  Yco_data_num :: int
  Yco_trx_len :: int
  Yco_value_size :: int

definition Y_client_main ::
    "string option \<Rightarrow> (string \<Rightarrow> string option) \<Rightarrow> string \<times> string \<Rightarrow> Y_client_options \<Rightarrow> Y_config \<Rightarrow>
     (Y_main_error + Y_config) outcome" where
  "Y_client_main hostname fs stack opts cfg =
     bind_outcome (Y_Config_init hostname cfg) (\<lambda>cfg.
       (case bind_sum (Y_client_trx_type (Yco_trx_type opts)) (\<lambda>tt.
             bind_sum (Y_main_com_type (Yco_com_type opts)) (\<lambda>com.
               Inr (cfg\<lparr>Yc_trx_type := tt, Yc_com_type := com, Yc_data_num := Yco_data_num opts,
                        Yc_worker_num := 8, Yc_trx_len := Yco_trx_len opts,
                        Yc_write_trx_num := Yco_write_trx_num opts, Yc_read_trx_num := Yco_read_trx_num opts,
                        Yc_trx_num := Yco_write_trx_num opts + Yco_read_trx_num opts,
                        Yc_value_size := Yco_value_size opts\<rparr>))) of
          Inl e \<Rightarrow> Ret (Inl e)
        | Inr cfg \<Rightarrow> bind_outcome (Y_Config_read_server_list fs stack cfg) (\<lambda>cfg. Ret (Inr cfg))))"

section \<open>The command lines\<close>

definition Y_server_parser :: "stop + parser" where
  "Y_server_parser =
     bind_sum (parser_add ''trx_type'' (CHR ''t'') ''transaction type'' True (Text []) parser_new) (\<lambda>p.
     parser_add ''com_type'' (CHR ''c'') ''communication type'' True (Text []) p)"

definition Y_server_command :: "string list \<Rightarrow> stop + string \<times> string" where
  "Y_server_command argv =
     bind_sum Y_server_parser (\<lambda>p.
     bind_sum (parse_check argv p) (\<lambda>p.
     bind_sum (parser_get_text ''trx_type'' p) (\<lambda>trx_type.
     bind_sum (parser_get_text ''com_type'' p) (\<lambda>com_type.
     Inr (trx_type, com_type)))))"

definition Y_client_parser :: "stop + parser" where
  "Y_client_parser =
     bind_sum (parser_add ''trx_type'' (CHR ''t'') ''transaction type'' True (Text []) parser_new) (\<lambda>p.
     bind_sum (parser_add ''com_type'' (CHR ''c'') ''communication type'' True (Text []) p) (\<lambda>p.
     bind_sum (parser_add ''write_trx_num'' (CHR ''w'') ''num of write transactions'' True (Number 0) p) (\<lambda>p.
     bind_sum (parser_add ''read_trx_num'' (CHR ''r'') ''num of read transactions'' True (Number 0) p) (\<lambda>p.
     bind_sum (parser_add ''data_num'' (CHR ''n'') ''num of data'' False (Number 100) p) (\<lambda>p.
     bind_sum (parser_add ''trx_len'' (CHR ''l'') ''transaction size (operations)'' False (Number 8) p) (\<lambda>p.
     parser_add ''value_size'' (CHR ''v'') ''value size (bytes)'' False (Number 1000) p))))))"

definition Y_client_command :: "string list \<Rightarrow> stop + Y_client_options" where
  "Y_client_command argv =
     bind_sum Y_client_parser (\<lambda>p.
     bind_sum (parse_check argv p) (\<lambda>p.
     bind_sum (parser_get_text ''trx_type'' p) (\<lambda>trx_type.
     bind_sum (parser_get_text ''com_type'' p) (\<lambda>com_type.
     bind_sum (parser_get_number ''data_num'' p) (\<lambda>data_num.
     bind_sum (parser_get_number ''trx_len'' p) (\<lambda>trx_len.
     bind_sum (parser_get_number ''write_trx_num'' p) (\<lambda>write_trx_num.
     bind_sum (parser_get_number ''read_trx_num'' p) (\<lambda>read_trx_num.
     bind_sum (parser_get_number ''value_size'' p) (\<lambda>value_size.
     Inr \<lparr>Yco_trx_type = trx_type, Yco_com_type = com_type, Yco_write_trx_num = write_trx_num,
          Yco_read_trx_num = read_trx_num, Yco_data_num = data_num, Yco_trx_len = trx_len,
          Yco_value_size = value_size\<rparr>)))))))))"

section \<open>What the programs agree on\<close>

lemma Y_programs_agree:
  "(case Y_server_trx_type s cfg of Inl e \<Rightarrow> Y_client_trx_type s = Inl e | Inr cfg' \<Rightarrow> Y_client_trx_type s = Inr (Yc_trx_type cfg'))"
  by (simp add: Y_server_trx_type_def Y_client_trx_type_def)

text \<open>After the list was read, the number of servers is its length.\<close>

lemma Y_read_server_list_num:
  assumes "Y_Config_read_server_list fs stack cfg = Ret cfg'" and "length (Yc_server_list cfg') < 2 ^ 31"
  shows "server_num_ok cfg'"
  using assms
  by (auto simp: Y_Config_read_server_list_def bind_outcome_Ret_iff server_num_ok_def int_of_size_t_def Let_def
      split: option.splits)

lemma Y_client_main_num:
  assumes "Y_client_main hostname fs stack opts cfg = Ret (Inr cfg')" and "length (Yc_server_list cfg') < 2 ^ 31"
  shows "server_num_ok cfg'"
  using assms Y_read_server_list_num
  by (fastforce simp: Y_client_main_def bind_outcome_Ret_iff bind_sum_def split: sum.splits)

end
