(* ===== verification/Jni.thy ===== *)
theory Jni
  imports Ycsb_Mains
begin

text \<open>
  The native methods through which the Java benchmark uses the client
  (\<open>YCSB-0.5.0/src/lib/com_yahoo_ycsb_db_JNIRAMPClient.cpp\<close>).  Java holds the address of a handler as
  a number; \<open>jni_handlers\<close> gives the handlers that were constructed and not destructed.  Strings and
  arrays are what the JNI functions make of them.
\<close>

datatype jni_call =
    Jni_configure
  | Jni_construct
  | Jni_destruct nat
  | Jni_connect_all nat
  | Jni_close_all nat
  | Jni_read nat key "field list option"
  | Jni_insert nat key "(field \<times> val) list"
  | Jni_put_all nat
  | Jni_get_all nat
  | Jni_clear nat

record 'w jni =
  jni_world :: 'w
  jni_config :: Y_config
  jni_handlers :: "nat \<Rightarrow> Y_handler option"

text \<open>
  What the calls need from their surroundings: the files, the stack of \<open>read_server_list\<close>, the socket
  functions, the address that \<open>new\<close> answers, and what the handlers take.
\<close>

record ('o, 'w) jni_env =
  je_fs :: "string \<Rightarrow> string option"
  je_stack :: "string \<times> string"
  je_connect :: "socket_class \<Rightarrow> host_and_port \<Rightarrow> 'w \<Rightarrow> ('w \<times> nat) outcome"
  je_send_close :: "nat \<Rightarrow> 'w \<Rightarrow> 'w outcome"
  je_destroy :: "nat \<Rightarrow> 'w \<Rightarrow> 'w outcome"
  je_buckets :: "Y_handler \<Rightarrow> host_and_port list"
  je_new :: "'w jni \<Rightarrow> nat"
  je_mp :: "'o msgpack"
  je_junk :: "nat \<times> nat"
  je_hash :: "key \<Rightarrow> nat"
  je_timeofday :: "'w jni \<Rightarrow> int \<times> int"
  je_perms :: "nat \<Rightarrow> nat \<Rightarrow> nat list"

text \<open>\<open>reinterpret_cast<TrxHandler*>(obj_p)\<close> and the first access through it.\<close>

definition jni_handler :: "nat \<Rightarrow> 'w jni \<Rightarrow> Y_handler prog" where
  "jni_handler obj_p j = (case jni_handlers j obj_p of None \<Rightarrow> Crash Out_of_bounds | Some h \<Rightarrow> Return h)"

definition jni_store :: "nat \<Rightarrow> Y_handler \<Rightarrow> 'w jni \<Rightarrow> 'w jni" where
  "jni_store obj_p h j = j\<lparr>jni_handlers := (jni_handlers j)(obj_p := Some h)\<rparr>"

definition jni_configure :: "('o, 'w) jni_env \<Rightarrow> 'w jni \<Rightarrow> 'w jni prog" where
  "jni_configure env j =
     of_outcome (bind_outcome (Y_Config_read_server_list (je_fs env) (je_stack env) ((jni_config j)\<lparr>Yc_com_type := IPoIB\<rparr>))
       (\<lambda>cfg. Ret (j\<lparr>jni_config := cfg\<rparr>)))"

definition jni_construct :: "('o, 'w) jni_env \<Rightarrow> 'w jni \<Rightarrow> 'w jni" where
  "jni_construct env j = jni_store (je_new env j) Y_TrxHandler_new j"

definition jni_destruct :: "nat \<Rightarrow> 'w jni \<Rightarrow> 'w jni prog" where
  "jni_destruct obj_p j =
     bind_prog (jni_handler obj_p j) (\<lambda>_. Return (j\<lparr>jni_handlers := (jni_handlers j)(obj_p := None)\<rparr>))"

definition jni_connect_all :: "('o, 'w) jni_env \<Rightarrow> nat \<Rightarrow> 'w jni \<Rightarrow> 'w jni prog" where
  "jni_connect_all env obj_p j =
     bind_prog (jni_handler obj_p j) (\<lambda>h.
       of_outcome (bind_outcome (Y_ConnectionPool_connect_all (je_connect env) (jni_config j) (jni_world j, Yh_cp h)) (\<lambda>(w, cp).
         Ret (jni_store obj_p (h\<lparr>Yh_cp := cp\<rparr>) (j\<lparr>jni_world := w\<rparr>)))))"

definition jni_close_all :: "('o, 'w) jni_env \<Rightarrow> nat \<Rightarrow> 'w jni \<Rightarrow> 'w jni prog" where
  "jni_close_all env obj_p j =
     bind_prog (jni_handler obj_p j) (\<lambda>h.
       of_outcome (bind_outcome
         (Y_ConnectionPool_close_all (je_send_close env) (je_destroy env) (je_buckets env h) (Yh_cp h) (jni_world j)) (\<lambda>w.
         Ret (j\<lparr>jni_world := w\<rparr>))))"

text \<open>\<open>jfields\<close> is null for all fields; then the set stays empty.\<close>

definition jni_read :: "nat \<Rightarrow> key \<Rightarrow> field list option \<Rightarrow> 'w jni \<Rightarrow> 'w jni prog" where
  "jni_read obj_p k jfields j =
     (let flds = (case jfields of None \<Rightarrow> [] | Some fs \<Rightarrow> fold insort_insert fs []) in
      bind_prog (jni_handler obj_p j) (\<lambda>h.
      bind_prog (Y_this_trx h) (\<lambda>trx.
        Return (jni_store obj_p (h\<lparr>Yh_trx := Some (Transaction_add_read k flds trx)\<rparr>) j))))"

definition jni_insert :: "nat \<Rightarrow> key \<Rightarrow> (field \<times> val) list \<Rightarrow> 'w jni \<Rightarrow> 'w jni prog" where
  "jni_insert obj_p k jvalues j =
     (let values = fold (\<lambda>(f, v). smap_put f v) jvalues [] in
      bind_prog (jni_handler obj_p j) (\<lambda>h.
      bind_prog (Y_this_trx h) (\<lambda>trx.
        Return (jni_store obj_p (h\<lparr>Yh_trx := Some (Transaction_add_write k values trx)\<rparr>) j))))"

definition jni_put_all :: "('o, 'w) jni_env \<Rightarrow> nat \<Rightarrow> 'w jni \<Rightarrow> 'w jni prog" where
  "jni_put_all env obj_p j =
     bind_prog (jni_handler obj_p j) (\<lambda>h.
     bind_prog (Y_RAMPFastHandler_put_all (je_mp env) (je_junk env) (je_hash env) (jni_config j) (je_timeofday env j) (je_perms env) h)
       (\<lambda>h. Return (jni_store obj_p h j)))"

definition jni_get_all :: "('o, 'w) jni_env \<Rightarrow> nat \<Rightarrow> 'w jni \<Rightarrow> 'w jni prog" where
  "jni_get_all env obj_p j =
     bind_prog (jni_handler obj_p j) (\<lambda>h.
     bind_prog (Y_RAMPFastHandler_get_all (je_mp env) (je_junk env) (je_hash env) (jni_config j) (je_perms env) h)
       (\<lambda>(h, ret). Return (jni_store obj_p h j)))"

definition jni_clear :: "nat \<Rightarrow> 'w jni \<Rightarrow> 'w jni prog" where
  "jni_clear obj_p j =
     bind_prog (jni_handler obj_p j) (\<lambda>h.
     bind_prog (Y_this_trx h) (\<lambda>trx.
       let h = h\<lparr>Yh_trx := Some (Transaction_clear trx)\<rparr>
       in Return (jni_store obj_p (h\<lparr>Yh_cp := Y_ConnectionPool_clear_access_coms (Yh_cp h)\<rparr>) j)))"

fun jni_do :: "('o, 'w) jni_env \<Rightarrow> jni_call \<Rightarrow> 'w jni \<Rightarrow> 'w jni prog" where
  "jni_do env Jni_configure j = jni_configure env j"
| "jni_do env Jni_construct j = Return (jni_construct env j)"
| "jni_do env (Jni_destruct p) j = jni_destruct p j"
| "jni_do env (Jni_connect_all p) j = jni_connect_all env p j"
| "jni_do env (Jni_close_all p) j = jni_close_all env p j"
| "jni_do env (Jni_read p k flds) j = jni_read p k flds j"
| "jni_do env (Jni_insert p k vs) j = jni_insert p k vs j"
| "jni_do env (Jni_put_all p) j = jni_put_all env p j"
| "jni_do env (Jni_get_all p) j = jni_get_all env p j"
| "jni_do env (Jni_clear p) j = jni_clear p j"

fun jni_calls :: "('o, 'w) jni_env \<Rightarrow> jni_call list \<Rightarrow> 'w jni \<Rightarrow> 'w jni prog" where
  "jni_calls env [] j = Return j"
| "jni_calls env (call # calls) j = bind_prog (jni_do env call j) (jni_calls env calls)"

section \<open>No call sets the transaction\<close>

text \<open>The calls that read or write, and the handler that they are given.\<close>

fun jni_transacts :: "jni_call \<Rightarrow> nat option" where
  "jni_transacts (Jni_read p k flds) = Some p"
| "jni_transacts (Jni_insert p k vs) = Some p"
| "jni_transacts (Jni_put_all p) = Some p"
| "jni_transacts (Jni_get_all p) = Some p"
| "jni_transacts (Jni_clear p) = Some p"
| "jni_transacts _ = None"

definition no_trx :: "'w jni \<Rightarrow> bool" where
  "no_trx j \<longleftrightarrow> (\<forall>p h. jni_handlers j p = Some h \<longrightarrow> Yh_trx h = None)"

lemma no_trx_crashes:
  assumes "no_trx j" and "jni_transacts call = Some p" and "jni_handlers j p \<noteq> None"
  shows "jni_do env call j = Crash Null_pointer"
proof -
  obtain h where h: "jni_handlers j p = Some h" using assms(3) by blast
  then have "Y_this_trx h = Crash Null_pointer" using assms(1) by (simp add: no_trx_def Y_this_trx_def)
  then show ?thesis
    using assms(2) h
    by (cases call)
      (simp_all add: jni_read_def jni_insert_def jni_put_all_def jni_get_all_def jni_clear_def jni_handler_def
        Y_RAMPFastHandler_put_all_def Y_RAMPFastHandler_get_all_def Let_def)
qed

lemma no_trx_do:
  assumes "no_trx j"
  shows "(\<exists>e. jni_do env call j = Crash e) \<or> jni_do env call j = Hang \<or> (\<exists>j'. jni_do env call j = Return j' \<and> no_trx j')"
proof (cases "jni_transacts call")
  case (Some p)
  then show ?thesis
  proof (cases "jni_handlers j p")
    case None
    then show ?thesis
      using Some
      by (cases call) (simp_all add: jni_read_def jni_insert_def jni_put_all_def jni_get_all_def jni_clear_def jni_handler_def Let_def)
  next
    case (Some h)
    then show ?thesis using no_trx_crashes[OF assms \<open>jni_transacts call = Some p\<close>, of env] by simp
  qed
next
  case None
  have stored: "no_trx (jni_store p h j')" if "no_trx j'" "Yh_trx h = None" for p h and j' :: "'a jni"
    using that by (simp add: no_trx_def jni_store_def)
  have out: "(\<exists>e. of_outcome m = Crash e) \<or> of_outcome m = Hang \<or> (\<exists>j'. of_outcome m = Return j' \<and> no_trx j')"
    if "\<And>j'. m = Ret j' \<Longrightarrow> no_trx j'" for m :: "'a jni outcome"
    using that by (cases m) auto
  have on_handler: "(\<exists>e. bind_prog (jni_handler p j) f = Crash e) \<or> bind_prog (jni_handler p j) f = Hang \<or>
      (\<exists>j'. bind_prog (jni_handler p j) f = Return j' \<and> no_trx j')"
    if "\<And>h. Yh_trx h = None \<Longrightarrow> (\<exists>e. f h = Crash e) \<or> f h = Hang \<or> (\<exists>j'. f h = Return j' \<and> no_trx j')" for p f
    using assms that by (auto simp: jni_handler_def no_trx_def split: option.split)
  show ?thesis
  proof (cases call)
    case Jni_configure
    show ?thesis
      unfolding Jni_configure jni_do.simps jni_configure_def
      by (rule out) (use assms in \<open>auto simp: bind_outcome_Ret_iff no_trx_def\<close>)
  next
    case Jni_construct
    show ?thesis
      using stored[OF assms] by (simp add: Jni_construct jni_construct_def Y_TrxHandler_new_def)
  next
    case (Jni_destruct p)
    show ?thesis
      unfolding Jni_destruct jni_do.simps jni_destruct_def
      by (rule on_handler) (use assms in \<open>auto simp: no_trx_def\<close>)
  next
    case (Jni_connect_all p)
    show ?thesis
      unfolding Jni_connect_all jni_do.simps jni_connect_all_def
    proof (rule on_handler, rule out)
      fix h j' assume "Yh_trx h = None"
        and "bind_outcome (Y_ConnectionPool_connect_all (je_connect env) (jni_config j) (jni_world j, Yh_cp h)) (\<lambda>(w, cp).
          Ret (jni_store p (h\<lparr>Yh_cp := cp\<rparr>) (j\<lparr>jni_world := w\<rparr>))) = Ret j'"
      moreover have "no_trx (j\<lparr>jni_world := w\<rparr>)" for w using assms by (simp add: no_trx_def)
      ultimately show "no_trx j'" by (auto simp: bind_outcome_Ret_iff intro!: stored)
    qed
  next
    case (Jni_close_all p)
    show ?thesis
      unfolding Jni_close_all jni_do.simps jni_close_all_def
      by (rule on_handler, rule out) (use assms in \<open>auto simp: bind_outcome_Ret_iff no_trx_def\<close>)
  qed (use None in simp_all)
qed

lemma no_trx_calls:
  assumes "no_trx j" and "run_prog serve peek (jni_calls env calls j) w = Ret (w', j')"
  shows "no_trx j'"
  using assms
proof (induction calls arbitrary: j)
  case (Cons call calls)
  from no_trx_do[OF Cons.prems(1), of env call] obtain j1 where "jni_do env call j = Return j1" "no_trx j1"
    using Cons.prems(2) by auto
  then show ?case using Cons by simp
qed simp

end
