(* ===== verification/Ramp_Jni.thy ===== *)
theory Ramp_Jni
  imports Jni Clients Mains Loggers
begin

text \<open>
  The native methods of the main tree (\<open>src/lib/com_yahoo_ycsb_db_JNIRAMPClient.cpp\<close>, built as
  \<open>libramp.so\<close>).  They are those of the YCSB copy over the handlers of the main tree, which have two
  differences: a handler registers a logger, and its constructor leaves the transaction pointer as the
  memory was, where in the copy \<open>new\<close> clears it.
\<close>

text \<open>A handler object, and whether its pointer to a transaction was ever assigned.\<close>

record native_handler =
  nh_handler :: handler
  nh_trx_assigned :: bool

record 'w native =
  nat_world :: 'w
  nat_config :: config
  nat_registry :: registry
  nat_handlers :: "nat \<Rightarrow> native_handler option"

record ('o, 'w) native_env =
  ne_cwd :: string
  ne_fs :: "string \<Rightarrow> string option"
  ne_stack :: "string \<times> string"
  ne_connect :: "socket_class \<Rightarrow> host_and_port \<Rightarrow> 'w \<Rightarrow> ('w \<times> nat) outcome"
  ne_send_close :: "nat \<Rightarrow> 'w \<Rightarrow> 'w outcome"
  ne_destroy :: "nat \<Rightarrow> 'w \<Rightarrow> 'w outcome"
  ne_buckets :: "handler \<Rightarrow> host_and_port list"
  ne_new :: "'w native \<Rightarrow> nat"
  ne_mp :: "'o msgpack"
  ne_junk :: "nat \<times> nat"
  ne_hash :: "key \<Rightarrow> nat"
  ne_timeofday :: "'w native \<Rightarrow> int \<times> int"
  ne_perms :: "nat \<Rightarrow> nat \<Rightarrow> nat list"

definition native_object :: "nat \<Rightarrow> 'w native \<Rightarrow> native_handler prog" where
  "native_object obj_p j = (case nat_handlers j obj_p of None \<Rightarrow> Crash Out_of_bounds | Some h \<Rightarrow> Return h)"

text \<open>The handler with its transaction; what an unassigned pointer points to is not part of the program.\<close>

definition native_trx_handler :: "nat \<Rightarrow> 'w native \<Rightarrow> handler prog" where
  "native_trx_handler obj_p j =
     bind_prog (native_object obj_p j) (\<lambda>h. if nh_trx_assigned h then Return (nh_handler h) else Crash Out_of_bounds)"

definition native_store :: "nat \<Rightarrow> handler \<Rightarrow> 'w native \<Rightarrow> 'w native" where
  "native_store obj_p h j =
     j\<lparr>nat_handlers := (nat_handlers j)(obj_p := map_option (\<lambda>o'. o'\<lparr>nh_handler := h\<rparr>) (nat_handlers j obj_p))\<rparr>"

definition native_configure :: "('o, 'w) native_env \<Rightarrow> 'w native \<Rightarrow> 'w native prog" where
  "native_configure env j =
     of_outcome (bind_outcome
       (Config_read_server_list (ne_cwd env) (ne_fs env) (ne_stack env) ((nat_config j)\<lparr>cfg_com_type := IPoIB\<rparr>))
       (\<lambda>cfg. Ret (j\<lparr>nat_config := cfg\<rparr>)))"

definition native_construct :: "('o, 'w) native_env \<Rightarrow> 'w native \<Rightarrow> 'w native prog" where
  "native_construct env j =
     of_outcome (bind_outcome (stdout_loggers (handler_loggers RAMP_FAST 0) (nat_registry j)) (\<lambda>r.
       Ret (j\<lparr>nat_registry := r,
              nat_handlers := (nat_handlers j)(ne_new env j \<mapsto> \<lparr>nh_handler = TrxHandler_new, nh_trx_assigned = False\<rparr>)\<rparr>)))"

definition native_destruct :: "nat \<Rightarrow> 'w native \<Rightarrow> 'w native prog" where
  "native_destruct obj_p j =
     bind_prog (native_object obj_p j) (\<lambda>_. Return (j\<lparr>nat_handlers := (nat_handlers j)(obj_p := None)\<rparr>))"

definition native_connect_all :: "('o, 'w) native_env \<Rightarrow> nat \<Rightarrow> 'w native \<Rightarrow> 'w native prog" where
  "native_connect_all env obj_p j =
     bind_prog (native_object obj_p j) (\<lambda>h.
       of_outcome (bind_outcome
         (ConnectionPool_connect_all (ne_connect env) (nat_config j) (nat_world j, h_cp (nh_handler h))) (\<lambda>(w, cp).
         Ret (native_store obj_p ((nh_handler h)\<lparr>h_cp := cp\<rparr>) (j\<lparr>nat_world := w\<rparr>)))))"

definition native_close_all :: "('o, 'w) native_env \<Rightarrow> nat \<Rightarrow> 'w native \<Rightarrow> 'w native prog" where
  "native_close_all env obj_p j =
     bind_prog (native_object obj_p j) (\<lambda>h.
       of_outcome (bind_outcome
         (ConnectionPool_close_all (ne_send_close env) (ne_destroy env) (ne_buckets env (nh_handler h)) (h_cp (nh_handler h)) (nat_world j))
         (\<lambda>w. Ret (j\<lparr>nat_world := w\<rparr>))))"

definition native_read :: "nat \<Rightarrow> key \<Rightarrow> field list option \<Rightarrow> 'w native \<Rightarrow> 'w native prog" where
  "native_read obj_p k jfields j =
     (let flds = (case jfields of None \<Rightarrow> [] | Some fs \<Rightarrow> fold insort_insert fs []) in
      bind_prog (native_trx_handler obj_p j) (\<lambda>h.
        Return (native_store obj_p (h\<lparr>h_trx := Transaction_add_read k flds (h_trx h)\<rparr>) j)))"

definition native_insert :: "nat \<Rightarrow> key \<Rightarrow> (field \<times> val) list \<Rightarrow> 'w native \<Rightarrow> 'w native prog" where
  "native_insert obj_p k jvalues j =
     (let values = fold (\<lambda>(f, v). smap_put f v) jvalues [] in
      bind_prog (native_trx_handler obj_p j) (\<lambda>h.
        Return (native_store obj_p (h\<lparr>h_trx := Transaction_add_write k values (h_trx h)\<rparr>) j)))"

definition native_put_all :: "('o, 'w) native_env \<Rightarrow> nat \<Rightarrow> 'w native \<Rightarrow> 'w native prog" where
  "native_put_all env obj_p j =
     bind_prog (native_trx_handler obj_p j) (\<lambda>h.
     bind_prog (RAMPFastHandler_put_all (ne_mp env) (ne_junk env) (ne_hash env) (nat_config j) (ne_timeofday env j) (ne_perms env) h)
       (\<lambda>h. Return (native_store obj_p h j)))"

definition native_get_all :: "('o, 'w) native_env \<Rightarrow> nat \<Rightarrow> 'w native \<Rightarrow> 'w native prog" where
  "native_get_all env obj_p j =
     bind_prog (native_trx_handler obj_p j) (\<lambda>h.
     bind_prog (RAMPFastHandler_get_all (ne_mp env) (ne_junk env) (ne_hash env) (nat_config j) (ne_perms env) h)
       (\<lambda>(h, ret). Return (native_store obj_p h j)))"

definition native_clear :: "nat \<Rightarrow> 'w native \<Rightarrow> 'w native prog" where
  "native_clear obj_p j =
     bind_prog (native_trx_handler obj_p j) (\<lambda>h.
       let h = h\<lparr>h_trx := Transaction_clear (h_trx h)\<rparr>
       in Return (native_store obj_p (h\<lparr>h_cp := ConnectionPool_clear_access_coms (h_cp h)\<rparr>) j))"

fun native_do :: "('o, 'w) native_env \<Rightarrow> jni_call \<Rightarrow> 'w native \<Rightarrow> 'w native prog" where
  "native_do env Jni_configure j = native_configure env j"
| "native_do env Jni_construct j = native_construct env j"
| "native_do env (Jni_destruct p) j = native_destruct p j"
| "native_do env (Jni_connect_all p) j = native_connect_all env p j"
| "native_do env (Jni_close_all p) j = native_close_all env p j"
| "native_do env (Jni_read p k flds) j = native_read p k flds j"
| "native_do env (Jni_insert p k vs) j = native_insert p k vs j"
| "native_do env (Jni_put_all p) j = native_put_all env p j"
| "native_do env (Jni_get_all p) j = native_get_all env p j"
| "native_do env (Jni_clear p) j = native_clear p j"

fun native_calls :: "('o, 'w) native_env \<Rightarrow> jni_call list \<Rightarrow> 'w native \<Rightarrow> 'w native prog" where
  "native_calls env [] j = Return j"
| "native_calls env (call # calls) j = bind_prog (native_do env call j) (native_calls env calls)"

section \<open>One handler, and no transaction\<close>

text \<open>\<open>handler_made\<close>: a handler was constructed at some time; no pointer to a transaction is ever assigned.\<close>

definition handler_made :: "'w native \<Rightarrow> bool" where
  "handler_made j \<longleftrightarrow> rg_loggers (nat_registry j) ''RAMPFastHandler-0'' \<noteq> None"

definition none_assigned :: "'w native \<Rightarrow> bool" where
  "none_assigned j \<longleftrightarrow> (\<forall>p h. nat_handlers j p = Some h \<longrightarrow> \<not> nh_trx_assigned h)"

lemma handler_name: "numbered ''RAMPFastHandler'' 0 = ''RAMPFastHandler-0''"
  by (simp add: numbered_def to_string_int_def dec_digits.simps digit_char_def char_of_eq_iff take_bit_eq_mod)

lemma second_construct: "handler_made j \<Longrightarrow> native_construct env j = Crash Uncaught_exception"
  by (auto simp: native_construct_def handler_name stdout_loggers_def handler_made_def stdout_logger_mt_def
      registry_create_def throw_if_exists_def)

lemma none_assigned_crashes:
  assumes "none_assigned j" and "jni_transacts call = Some p"
  shows "native_do env call j = Crash Out_of_bounds"
proof -
  have "native_trx_handler p j = Crash Out_of_bounds"
    using assms(1) by (auto simp: native_trx_handler_def native_object_def none_assigned_def split: option.split)
  then show ?thesis
    using assms(2)
    by (cases call) (simp_all add: native_read_def native_insert_def native_put_all_def native_get_all_def native_clear_def Let_def)
qed

text \<open>What a call that returns keeps.\<close>

definition native_kept :: "'w native \<Rightarrow> 'w native \<Rightarrow> bool" where
  "native_kept j j' \<longleftrightarrow> (none_assigned j \<longrightarrow> none_assigned j') \<and> (handler_made j \<longrightarrow> handler_made j')"

lemma native_kept_store: "native_kept j (native_store p h (j\<lparr>nat_world := w\<rparr>))"
  by (auto simp: native_kept_def native_store_def none_assigned_def handler_made_def)

lemma native_kept_simps [simp]: "native_kept j j" "native_kept j (j\<lparr>nat_world := w\<rparr>)" "native_kept j (j\<lparr>nat_config := c\<rparr>)"
  "native_kept j (j\<lparr>nat_handlers := (nat_handlers j)(p := None)\<rparr>)"
  by (auto simp: native_kept_def none_assigned_def handler_made_def)

lemma native_do_kept:
  assumes "none_assigned j" and "native_do env call j = Return j'"
  shows "native_kept j j' \<and> (call = Jni_construct \<longrightarrow> handler_made j')"
proof (cases "jni_transacts call")
  case (Some p)
  then show ?thesis using none_assigned_crashes[OF assms(1) Some, of env] assms(2) by simp
next
  case None
  have out: "m = Ret j'" if "of_outcome m = Return j'" for m using that by (cases m) auto
  show ?thesis
  proof (cases call)
    case Jni_configure
    then show ?thesis using out assms(2) by (fastforce simp: native_configure_def bind_outcome_Ret_iff)
  next
    case Jni_construct
    then obtain r where r: "stdout_loggers (handler_loggers RAMP_FAST 0) (nat_registry j) = Ret r"
      "j' = j\<lparr>nat_registry := r, nat_handlers := (nat_handlers j)(ne_new env j \<mapsto> \<lparr>nh_handler = TrxHandler_new, nh_trx_assigned = False\<rparr>)\<rparr>"
      using out assms(2) by (fastforce simp: native_construct_def bind_outcome_Ret_iff)
    have "rg_loggers r ''RAMPFastHandler-0'' \<noteq> None" using r(1)
      by (auto simp: handler_name stdout_loggers_def stdout_logger_mt_def registry_create_def throw_if_exists_def
          bind_outcome_Ret_iff Let_def split: if_splits)
    then show ?thesis by (auto simp: r(2) native_kept_def none_assigned_def handler_made_def)
  next
    case (Jni_destruct p)
    then show ?thesis using assms(2) by (auto simp: native_destruct_def native_object_def split: option.splits)
  next
    case (Jni_connect_all p)
    then show ?thesis using out assms(2) native_kept_store
      by (fastforce simp: native_connect_all_def native_object_def bind_outcome_Ret_iff split: option.splits)
  next
    case (Jni_close_all p)
    then show ?thesis using out assms(2)
      by (fastforce simp: native_close_all_def native_object_def bind_outcome_Ret_iff split: option.splits)
  qed (use None in simp_all)
qed

end
