(* ===== verification/Jni_Theorems.thy ===== *)
theory Jni_Theorems
  imports Ramp_Jni Samples
begin

text \<open>What the Java benchmark can do with the native client.\<close>

lemma run_prog_bind:
  "run_prog serve peek (bind_prog p f) w =
     bind_outcome (run_prog serve peek p w) (\<lambda>(w, x). run_prog serve peek (f x) w)"
proof (induction p arbitrary: w)
  case (Request c m k)
  then show ?case by (cases "serve c m w") auto
qed simp_all

lemma bind_prog_assoc: "bind_prog (bind_prog p f) g = bind_prog p (\<lambda>x. bind_prog (f x) g)"
  by (induction p) auto

lemma jni_calls_append:
  "jni_calls env (calls @ calls') j = bind_prog (jni_calls env calls j) (jni_calls env calls')"
proof (induction calls arbitrary: j)
  case (Cons call calls)
  have "jni_calls env (calls @ calls') = (\<lambda>j. bind_prog (jni_calls env calls j) (jni_calls env calls'))"
    using Cons.IH by blast
  then show ?case by (simp add: bind_prog_assoc)
qed simp

text \<open>C36: The Java binding cannot run a transaction.  Whatever native methods were called before, the first call of
  \<open>read\<close>, \<open>insert\<close>, \<open>put_all\<close>, \<open>get_all\<close> or \<open>clear\<close> on a handler that was constructed takes the process down:
  each of them follows the handler's transaction pointer, which is null in a new handler and which none of the
  native methods ever sets.\<close>

theorem jni_transactions_crash:
  assumes "jni_handlers j0 = Map.empty" and "run_prog serve peek (jni_calls env calls j0) w = Ret (w', j)"
    and "jni_transacts call = Some p" and "jni_handlers j p \<noteq> None"
  shows "run_prog serve peek (jni_calls env (calls @ call # rest) j0) w = Dies Null_pointer"
proof -
  have "no_trx j0" using assms(1) by (simp add: no_trx_def)
  from no_trx_crashes[where env = env, OF no_trx_calls[OF this assms(2)] assms(3,4)]
  show ?thesis by (simp add: jni_calls_append run_prog_bind assms(2))
qed

text \<open>The benchmark's first steps: the library is loaded, a client is made and connected, a key is read.\<close>

definition sample_jni_env :: "(arg, nat) jni_env" where
  "sample_jni_env = \<lparr>je_fs = (\<lambda>_. Some (host_line (''node1'', ''50000''))), je_stack = (replicate 64 NUL, replicate 8 NUL),
     je_connect = (\<lambda>_ _ w. Ret (Suc w, w)), je_send_close = (\<lambda>_. Ret), je_destroy = (\<lambda>_. Ret), je_buckets = (\<lambda>_. []),
     je_new = (\<lambda>_. 4096), je_mp = sample_mp, je_junk = (0, 0), je_hash = sample_hash, je_timeofday = (\<lambda>_. (2000000, 7)),
     je_perms = (\<lambda>_ n. [0..<n])\<rparr>"

definition sample_jni :: "nat jni" where
  "sample_jni = \<lparr>jni_world = 0,
     jni_config = \<lparr>Yc_host_id = 0, Yc_com_type = TCP, Yc_trx_type = LOCK_BASED, Yc_data_num = 0, Yc_worker_num = 0,
       Yc_trx_len = 0, Yc_write_trx_num = 0, Yc_read_trx_num = 0, Yc_trx_num = 0, Yc_value_size = 0, Yc_server_num = 0,
       Yc_server_list = [], Yc_cache_addr = 0, Yc_cache_size = 0, Yc_write_duration = LONG, Yc_read_duration = LONG\<rparr>,
     jni_handlers = Map.empty\<rparr>"

theorem jni_transactions_crash_witness:
  "\<exists>j. run_prog (\<lambda>_ _ _. Blocks) (\<lambda>_ _ _. []) (jni_calls sample_jni_env [Jni_configure, Jni_construct, Jni_connect_all 4096] sample_jni) () = Ret ((), j) \<and>
     run_prog (\<lambda>_ _ _. Blocks) (\<lambda>_ _ _. [])
       (jni_calls sample_jni_env ([Jni_configure, Jni_construct, Jni_connect_all 4096] @ Jni_read 4096 ''1'' None # [Jni_get_all 4096]) sample_jni) () =
     Dies Null_pointer"
proof -
  let ?calls = "[Jni_configure, Jni_construct, Jni_connect_all 4096]"
  have lines: "read_servers (replicate 64 NUL) (replicate 8 NUL) (host_line (''node1'', ''50000'')) [] = Ret [sample_host]"
    using read_servers_lines[of "[(''node1'', ''50000'')]" "replicate 64 NUL" "replicate 8 NUL" "[]"]
    by (simp add: host_line_ok_def word_of_def MAXHOSTNAMELEN_def PORT_STR_LEN_def NUL_def is_space_def sample_host_def)
  have "\<exists>j. jni_calls sample_jni_env ?calls sample_jni = Return j \<and> jni_handlers j 4096 \<noteq> None"
    by (simp add: jni_configure_def jni_construct_def jni_connect_all_def sample_jni_env_def sample_jni_def jni_store_def jni_handler_def
        Y_Config_read_server_list_def Y_ConnectionPool_connect_all_def lines)
  then obtain j where j: "jni_calls sample_jni_env ?calls sample_jni = Return j" and p: "jni_handlers j 4096 \<noteq> None" by blast
  have run: "run_prog (\<lambda>_ _ _. Blocks) (\<lambda>_ _ _. []) (jni_calls sample_jni_env ?calls sample_jni) () = Ret ((), j)"
    unfolding j by simp
  have "run_prog (\<lambda>_ _ _. Blocks) (\<lambda>_ _ _. [])
       (jni_calls sample_jni_env (?calls @ Jni_read 4096 ''1'' None # [Jni_get_all 4096]) sample_jni) () = Dies Null_pointer"
    by (rule jni_transactions_crash[OF _ run _ p]) (simp_all add: sample_jni_def)
  then show ?thesis using run by blast
qed

section \<open>The main tree\<close>

lemma native_calls_append:
  "native_calls env (calls @ calls') j = bind_prog (native_calls env calls j) (native_calls env calls')"
proof (induction calls arbitrary: j)
  case (Cons call calls)
  have "native_calls env (calls @ calls') = (\<lambda>j. bind_prog (native_calls env calls j) (native_calls env calls'))"
    using Cons.IH by blast
  then show ?case by (simp add: bind_prog_assoc)
qed simp

lemma native_do_ends: "none_assigned j \<Longrightarrow> (\<exists>e. native_do env call j = Crash e) \<or> native_do env call j = Hang \<or> (\<exists>j'. native_do env call j = Return j')"
proof (cases "jni_transacts call")
  case None
  have out: "(\<exists>e. of_outcome m = Crash e) \<or> of_outcome m = Hang \<or> (\<exists>j'. of_outcome m = Return j')" for m :: "'a native outcome"
    by (cases m) auto
  show ?thesis
    using None out
    by (cases call) (auto simp: native_configure_def native_construct_def native_destruct_def native_connect_all_def
        native_close_all_def native_object_def split: option.split)
qed (use none_assigned_crashes in blast)

lemma native_calls_kept:
  assumes "none_assigned j" and "run_prog serve peek (native_calls env calls j) w = Ret (w', j')"
  shows "native_kept j j' \<and> (Jni_construct \<in> set calls \<longrightarrow> handler_made j')"
  using assms
proof (induction calls arbitrary: j)
  case (Cons call calls)
  from native_do_ends[OF Cons.prems(1), of env call] obtain j1 where j1: "native_do env call j = Return j1"
    using Cons.prems(2) by auto
  note kept = native_do_kept[OF Cons.prems(1) j1]
  then have "none_assigned j1" using Cons.prems(1) by (simp add: native_kept_def)
  from Cons.IH[OF this] Cons.prems(2) j1 have "native_kept j1 j'" "Jni_construct \<in> set calls \<longrightarrow> handler_made j'" by auto
  then show ?case using kept by (auto simp: native_kept_def)
qed simp

text \<open>The library of the main tree makes one client and runs no transaction: a second \<open>construct\<close>, even after
  \<open>destruct\<close>, throws because the logger's name is taken, and each call that reads or writes follows a pointer that
  was never assigned.\<close>

theorem native_library_one_client:
  assumes "nat_handlers j0 = Map.empty" and "run_prog serve peek (native_calls env calls j0) w = Ret (w', j)"
  shows "Jni_construct \<in> set calls \<Longrightarrow>
      run_prog serve peek (native_calls env (calls @ Jni_construct # rest) j0) w = Dies Uncaught_exception"
    and "jni_transacts call = Some p \<Longrightarrow>
      run_prog serve peek (native_calls env (calls @ call # rest) j0) w = Dies Out_of_bounds"
proof -
  have none: "none_assigned j0" using assms(1) by (simp add: none_assigned_def)
  note kept = native_calls_kept[OF none assms(2)]
  show "run_prog serve peek (native_calls env (calls @ Jni_construct # rest) j0) w = Dies Uncaught_exception"
    if "Jni_construct \<in> set calls"
    using kept that second_construct[of j env] by (simp add: native_calls_append run_prog_bind assms(2))
  show "run_prog serve peek (native_calls env (calls @ call # rest) j0) w = Dies Out_of_bounds" if "jni_transacts call = Some p"
    using kept none that none_assigned_crashes[of j call p env]
    by (simp add: native_calls_append run_prog_bind assms(2) native_kept_def)
qed

end
