(* ===== verification/Wires.thy ===== *)
theory Wires
  imports Programs Rdma_Duplex Tcp_Sockets
begin

text \<open>
  The system below the messages: client threads, the connections between them and the servers, and one
  server thread for each connection.  What \<open>Programs\<close> takes as one step, a request and its answer, is
  here what the two ends do one after the other: the client sends and waits, the server thread receives,
  executes and sends, the client receives.  These steps interleave with those of all other connections.
  \<open>com->mtx\<close> lets one thread at a time use a connection.
\<close>

datatype 'a client_state =
    Running "'a prog"
  | Waiting nat "message \<Rightarrow> 'a prog"

datatype server_state =
    Listening
  | Received message
  | Answering message

record ('w, 's, 'a) wires =
  wi_world :: 'w
  wi_links :: "nat \<Rightarrow> 's \<times> 's"
  wi_servers :: "nat \<Rightarrow> server_state"
  wi_clients :: "nat \<Rightarrow> 'a client_state"

text \<open>
  What \<open>Communicator::send\<close> hands to \<open>send_msg\<close>: the header says how long the body is, in a \<open>size_t\<close>, and
  has its flag set.
\<close>

definition sendable :: "message \<Rightarrow> bool" where
  "sendable m \<longleftrightarrow> header_ok (fst m) \<and> hdr_is_arrived (fst m) = 0xffffffff \<and> hdr_body_size (fst m) = length (snd m)"

lemma sendable_sent_msg:
  assumes "fst junk < 2 ^ 32" and "snd junk < 2 ^ 32" and "length (snd (sent_msg mp junk t args)) < 2 ^ 64"
  shows "sendable (sent_msg mp junk t args)"
proof -
  have "hdr_is_arrived (MessageHeader junk t n) = 0xffffffff" "hdr_body_size (MessageHeader junk t n) = n" for n
    by (simp_all add: MessageHeader_def)
  then show ?thesis using assms by (simp add: sendable_def sent_msg_eq)
qed

text \<open>The first socket of a link is the client's.  \<open>allow\<close> says which messages are looked at.\<close>

inductive wire_step ::
    "(message \<Rightarrow> 's \<times> 's \<Rightarrow> ('s \<times> 's) outcome) \<Rightarrow> ('s \<times> 's \<Rightarrow> (('s \<times> 's) \<times> message) outcome) \<Rightarrow> (message \<Rightarrow> bool) \<Rightarrow>
     (nat \<Rightarrow> message \<Rightarrow> 'w \<Rightarrow> ('w \<times> message) outcome) \<Rightarrow> (nat \<Rightarrow> rka \<Rightarrow> 'w \<Rightarrow> byte list) \<Rightarrow>
     ('w, 's, 'a) wires \<Rightarrow> ('w, 's, 'a) wires \<Rightarrow> bool"
  for send recv allow serve peek where
  wire_request: "wi_clients st i = Running (Request c m k) \<Longrightarrow> (\<forall>j k'. wi_clients st j \<noteq> Waiting c k') \<Longrightarrow> allow m \<Longrightarrow>
    send m (wi_links st c) = Ret l \<Longrightarrow>
    wire_step send recv allow serve peek st
      (st\<lparr>wi_links := (wi_links st)(c := l), wi_clients := (wi_clients st)(i := Waiting c k)\<rparr>)"
| wire_receive: "wi_servers st c = Listening \<Longrightarrow> recv (wi_links st c) = Ret (l, m) \<Longrightarrow>
    wire_step send recv allow serve peek st
      (st\<lparr>wi_links := (wi_links st)(c := l), wi_servers := (wi_servers st)(c := Received m)\<rparr>)"
| wire_execute: "wi_servers st c = Received m \<Longrightarrow> serve c m (wi_world st) = Ret (w, r) \<Longrightarrow>
    wire_step send recv allow serve peek st
      (st\<lparr>wi_world := w, wi_servers := (wi_servers st)(c := Answering r)\<rparr>)"
| wire_answer: "wi_servers st c = Answering r \<Longrightarrow> allow r \<Longrightarrow> send r (prod.swap (wi_links st c)) = Ret l \<Longrightarrow>
    wire_step send recv allow serve peek st
      (st\<lparr>wi_links := (wi_links st)(c := prod.swap l), wi_servers := (wi_servers st)(c := Listening)\<rparr>)"
| wire_reply: "wi_clients st i = Waiting c k \<Longrightarrow> recv (prod.swap (wi_links st c)) = Ret (l, r) \<Longrightarrow>
    wire_step send recv allow serve peek st
      (st\<lparr>wi_links := (wi_links st)(c := prod.swap l), wi_clients := (wi_clients st)(i := Running (k r))\<rparr>)"
| wire_read: "wi_clients st i = Running (Remote_read c a k) \<Longrightarrow>
    wire_step send recv allow serve peek st
      (st\<lparr>wi_clients := (wi_clients st)(i := Running (k (peek c a (wi_world st))))\<rparr>)"

text \<open>Nothing under way: every thread is at a step of its program, every server waits for a request.\<close>

definition wire_start :: "'w \<Rightarrow> (nat \<Rightarrow> 's \<times> 's) \<Rightarrow> (nat \<Rightarrow> 'a prog) \<Rightarrow> ('w, 's, 'a) wires" where
  "wire_start w links ps = \<lparr>wi_world = w, wi_links = links, wi_servers = (\<lambda>_. Listening), wi_clients = (\<lambda>i. Running (ps i))\<rparr>"

text \<open>Every message of every run fits.\<close>

definition messages_fit ::
    "(message \<Rightarrow> bool) \<Rightarrow> (nat \<Rightarrow> message \<Rightarrow> 'w \<Rightarrow> ('w \<times> message) outcome) \<Rightarrow> (nat \<Rightarrow> rka \<Rightarrow> 'w \<Rightarrow> byte list) \<Rightarrow>
     'w \<times> (nat \<Rightarrow> 'a prog) \<Rightarrow> bool" where
  "messages_fit fits serve peek st \<longleftrightarrow>
     (\<forall>w ps i c m k w' r. (system_step serve peek)\<^sup>*\<^sup>* st (w, ps) \<longrightarrow> ps i = Request c m k \<longrightarrow> serve c m w = Ret (w', r) \<longrightarrow>
        fits m \<and> fits r)"

lemma messages_fit_mono: "messages_fit P serve peek st \<Longrightarrow> (\<And>m. P m \<Longrightarrow> Q m) \<Longrightarrow> messages_fit Q serve peek st"
  unfolding messages_fit_def by blast

text \<open>A thread that needs one exchange, among threads that are finished.\<close>

lemma one_exchange_fits:
  assumes ps: "ps i = Request c m k" "\<And>j. j \<noteq> i \<Longrightarrow> \<exists>x. ps j = Return x" and s: "serve c m w = Ret (w1, r)"
    and k: "k r = Return x" and P: "P m" "P r"
  shows "messages_fit P serve peek (w, ps)" and "(system_step serve peek)\<^sup>*\<^sup>* (w, ps) (w1, ps(i := Return x))"
proof -
  have states: "st = (w, ps) \<or> st = (w1, ps(i := Return x))" if "(system_step serve peek)\<^sup>*\<^sup>* (w, ps) st" for st
    using that
  proof (induction rule: rtranclp_induct)
    case (step st st')
    have "ps' j = Return y" if "st = (w', ps')" "w' = w1" "ps' = ps(i := Return x)" "j \<noteq> i" "ps j = Return y" for w' ps' j y
      using that by simp
    obtain w' ps' j p where st: "st = (w', ps')" "st' = (fst st', ps'(j := p))" and p: "prog_step serve peek (w', ps' j) (fst st', p)"
      using step.hyps(2) by (cases rule: system_step.cases) auto
    from step.IH show ?case
    proof
      assume e: "st = (w, ps)"
      have "j = i"
      proof (rule ccontr)
        assume "j \<noteq> i"
        then obtain y where "ps j = Return y" using ps(2) by blast
        then show False using p e st(1) by (auto elim: prog_step_ReturnE)
      qed
      then have "fst st' = w1 \<and> p = Return x" using p e st(1) ps(1) s k by (auto elim: prog_step_RequestE)
      then show ?thesis using st e \<open>j = i\<close> by auto
    next
      assume e: "st = (w1, ps(i := Return x))"
      have "\<exists>y. ps' j = Return y" using e st(1) ps(2)[of j] by (cases "j = i") auto
      then show ?thesis using p by (auto elim: prog_step_ReturnE)
    qed
  qed simp
  show "messages_fit P serve peek (w, ps)"
    unfolding messages_fit_def
  proof (intro allI impI)
    fix w' ps' j c' m' k' w2 r'
    assume reach: "(system_step serve peek)\<^sup>*\<^sup>* (w, ps) (w', ps')" and q: "ps' j = Request c' m' k'" and s': "serve c' m' w' = Ret (w2, r')"
    have "\<exists>y. (ps(i := Return x)) j = Return y" using ps(2)[of j] by (cases "j = i") auto
    then have st: "w' = w" "ps' = ps" using states[OF reach] q by auto
    then have "j = i" using ps(2)[of j] q by auto
    then show "P m' \<and> P r'" using st q ps(1) s s' P by simp
  qed
  have "prog_step serve peek (w, ps i) (w1, Return x)" unfolding ps(1) k[symmetric] by (rule step_request) (rule s)
  then show "(system_step serve peek)\<^sup>*\<^sup>* (w, ps) (w1, ps(i := Return x))" by (auto intro: system_stepI)
qed

text \<open>
  \<open>carries\<close>: every run over the connections is one of messages.  \<open>delivers\<close>: every run of messages is one
  over the connections.
\<close>

definition carries ::
    "(message \<Rightarrow> 's \<times> 's \<Rightarrow> ('s \<times> 's) outcome) \<Rightarrow> ('s \<times> 's \<Rightarrow> (('s \<times> 's) \<times> message) outcome) \<Rightarrow> (message \<Rightarrow> bool) \<Rightarrow>
     ('s \<Rightarrow> 's \<Rightarrow> bool) \<Rightarrow> (nat \<Rightarrow> message \<Rightarrow> 'w \<Rightarrow> ('w \<times> message) outcome) \<Rightarrow> (nat \<Rightarrow> rka \<Rightarrow> 'w \<Rightarrow> byte list) \<Rightarrow>
     'w \<Rightarrow> (nat \<Rightarrow> 'a prog) \<Rightarrow> bool" where
  "carries send recv allow linked serve peek w ps \<longleftrightarrow>
     (\<forall>links st. (\<forall>c. linked (fst (links c)) (snd (links c))) \<longrightarrow>
        (wire_step send recv allow serve peek)\<^sup>*\<^sup>* (wire_start w links ps) st \<longrightarrow>
        (\<exists>ps'. (system_step serve peek)\<^sup>*\<^sup>* (w, ps) (wi_world st, ps') \<and>
           (\<forall>i p. wi_clients st i = Running p \<longrightarrow> ps' i = p)))"

definition delivers ::
    "(message \<Rightarrow> 's \<times> 's \<Rightarrow> ('s \<times> 's) outcome) \<Rightarrow> ('s \<times> 's \<Rightarrow> (('s \<times> 's) \<times> message) outcome) \<Rightarrow> (message \<Rightarrow> bool) \<Rightarrow>
     ('s \<Rightarrow> 's \<Rightarrow> bool) \<Rightarrow> (nat \<Rightarrow> message \<Rightarrow> 'w \<Rightarrow> ('w \<times> message) outcome) \<Rightarrow> (nat \<Rightarrow> rka \<Rightarrow> 'w \<Rightarrow> byte list) \<Rightarrow>
     'w \<Rightarrow> (nat \<Rightarrow> 'a prog) \<Rightarrow> bool" where
  "delivers send recv allow linked serve peek w ps \<longleftrightarrow>
     (\<forall>links w' ps'. (\<forall>c. linked (fst (links c)) (snd (links c))) \<longrightarrow> (system_step serve peek)\<^sup>*\<^sup>* (w, ps) (w', ps') \<longrightarrow>
        (\<exists>links'. (\<forall>c. linked (fst (links' c)) (snd (links' c))) \<and>
           (wire_step send recv allow serve peek)\<^sup>*\<^sup>* (wire_start w links ps) (wire_start w' links' ps')))"

section \<open>How far a connection is\<close>

text \<open>
  \<open>talking\<close>: the state of a connection that a thread waits on with \<open>k\<close>, where \<open>p\<close> is the program of the
  thread in the world of messages.  There the request is answered when the server has executed it.
\<close>

inductive talking ::
    "(message \<Rightarrow> 's \<times> 's \<Rightarrow> ('s \<times> 's) outcome) \<Rightarrow> ('s \<Rightarrow> 's \<Rightarrow> bool) \<Rightarrow> (message \<Rightarrow> bool) \<Rightarrow> nat \<Rightarrow>
     (message \<Rightarrow> 'a prog) \<Rightarrow> 'a prog \<Rightarrow> server_state \<Rightarrow> 's \<times> 's \<Rightarrow> bool"
  for send linked fits c k where
  asked: "linked s t \<Longrightarrow> fits m \<Longrightarrow> send m (s, t) = Ret l \<Longrightarrow> talking send linked fits c k (Request c m k) Listening l"
| received: "linked t s \<Longrightarrow> fits m \<Longrightarrow> talking send linked fits c k (Request c m k) (Received m) (s, t)"
| answering: "linked t s \<Longrightarrow> talking send linked fits c k (k r) (Answering r) (s, t)"
| answered: "linked t s \<Longrightarrow> fits r \<Longrightarrow> send r (t, s) = Ret (t', s') \<Longrightarrow> talking send linked fits c k (k r) Listening (s', t')"

inductive_cases talking_ReceivedE: "talking send linked fits c k p (Received m) l"
inductive_cases talking_AnsweringE: "talking send linked fits c k p (Answering m) l"

definition conn_ok ::
    "(message \<Rightarrow> 's \<times> 's \<Rightarrow> ('s \<times> 's) outcome) \<Rightarrow> ('s \<Rightarrow> 's \<Rightarrow> bool) \<Rightarrow> (message \<Rightarrow> bool) \<Rightarrow>
     ('w, 's, 'a) wires \<Rightarrow> (nat \<Rightarrow> 'a prog) \<Rightarrow> nat \<Rightarrow> bool" where
  "conn_ok send linked fits st ps c \<longleftrightarrow>
     (\<forall>i j k k'. wi_clients st i = Waiting c k \<longrightarrow> wi_clients st j = Waiting c k' \<longrightarrow> i = j) \<and>
     (\<forall>i k. wi_clients st i = Waiting c k \<longrightarrow> talking send linked fits c k (ps i) (wi_servers st c) (wi_links st c)) \<and>
     ((\<forall>i k. wi_clients st i \<noteq> Waiting c k) \<longrightarrow> wi_servers st c = Listening \<and> linked (fst (wi_links st c)) (snd (wi_links st c)))"

text \<open>\<open>wired\<close>: a state of the connections stands for a state of the world of messages.\<close>

definition wired ::
    "(message \<Rightarrow> 's \<times> 's \<Rightarrow> ('s \<times> 's) outcome) \<Rightarrow> ('s \<Rightarrow> 's \<Rightarrow> bool) \<Rightarrow> (message \<Rightarrow> bool) \<Rightarrow>
     ('w, 's, 'a) wires \<Rightarrow> (nat \<Rightarrow> 'a prog) \<Rightarrow> bool" where
  "wired send linked fits st ps \<longleftrightarrow>
     (\<forall>i p. wi_clients st i = Running p \<longrightarrow> ps i = p) \<and> (\<forall>c. conn_ok send linked fits st ps c)"

section \<open>Links that take turns\<close>

text \<open>
  What is under way is not seen from the side that sent it, and what \<open>send\<close> takes fits the buffer of the
  receiver.
\<close>

locale wire = duplex send recv pending ok fits may_send linked
  for send :: "message \<Rightarrow> 's \<times> 's \<Rightarrow> ('s \<times> 's) outcome"
    and recv :: "'s \<times> 's \<Rightarrow> (('s \<times> 's) \<times> message) outcome"
    and pending :: "'s \<times> 's \<Rightarrow> message list" and ok :: "'s \<times> 's \<Rightarrow> bool"
    and fits :: "message \<Rightarrow> bool" and may_send :: "nat \<Rightarrow> bool" and linked :: "'s \<Rightarrow> 's \<Rightarrow> bool" +
  fixes allow :: "message \<Rightarrow> bool"
  assumes quiet: "linked s t \<Longrightarrow> fits m \<Longrightarrow> send m (s, t) = Ret (s', t') \<Longrightarrow> recv (t', s') = Blocks"
    and sent_fits: "linked s t \<Longrightarrow> allow m \<Longrightarrow> send m (s, t) = Ret st \<Longrightarrow> fits m"
begin

lemma linked_empty: "linked s t \<Longrightarrow> recv (s, t) = Blocks"
  using linked_idle recv_empty by blast

lemma recv_sent:
  assumes "linked s t" and "fits m" and "send m (s, t) = Ret l"
  obtains s' t' where "recv l = Ret ((s', t'), m)" and "linked t' s'"
proof (rule turn[OF assms(1,2)])
  fix st s' t'
  assume "send m (s, t) = Ret st" and r: "recv st = Ret ((s', t'), m)" and l: "linked t' s'"
  then have "st = l" using assms(3) by simp
  then show thesis using that r l by blast
qed

lemma wired_start: "(\<And>c. linked (fst (links c)) (snd (links c))) \<Longrightarrow> wired send linked fits (wire_start w links ps) ps"
  by (simp add: wired_def conn_ok_def wire_start_def)

lemma wired_waiting:
  assumes "wired send linked fits st ps" and "wi_clients st i = Waiting c k"
  shows "talking send linked fits c k (ps i) (wi_servers st c) (wi_links st c)" and "wi_clients st j = Waiting c k' \<Longrightarrow> j = i"
proof -
  have c: "conn_ok send linked fits st ps c" using assms(1) by (simp add: wired_def)
  show "talking send linked fits c k (ps i) (wi_servers st c) (wi_links st c)"
    using c[unfolded conn_ok_def, THEN conjunct2, THEN conjunct1] assms(2) by simp
  show "j = i" if "wi_clients st j = Waiting c k'"
    using c[unfolded conn_ok_def, THEN conjunct1, rule_format, OF that assms(2)] .
qed

lemma wired_free:
  assumes "wired send linked fits st ps" and "\<And>i k. wi_clients st i \<noteq> Waiting c k"
  shows "wi_servers st c = Listening" and "linked (fst (wi_links st c)) (snd (wi_links st c))"
proof -
  have "conn_ok send linked fits st ps c" using assms(1) by (simp add: wired_def)
  then show "wi_servers st c = Listening" "linked (fst (wi_links st c)) (snd (wi_links st c))"
    using assms(2) by (simp_all add: conn_ok_def)
qed

text \<open>A step that concerns connection \<open>c\<close> and the thread \<open>i\<close> that uses it leaves the others as they are.\<close>

lemma wired_update:
  assumes wired: "wired send linked fits st ps"
    and links: "\<And>d. d \<noteq> c \<Longrightarrow> wi_links st' d = wi_links st d \<and> wi_servers st' d = wi_servers st d"
    and clients: "\<And>j. j \<noteq> i \<Longrightarrow> wi_clients st' j = wi_clients st j" and ps: "\<And>j. j \<noteq> i \<Longrightarrow> ps' j = ps j"
    and mine: "\<And>d k. d \<noteq> c \<Longrightarrow> wi_clients st i \<noteq> Waiting d k \<and> wi_clients st' i \<noteq> Waiting d k"
    and run: "\<And>p. wi_clients st' i = Running p \<Longrightarrow> ps' i = p" and conn: "conn_ok send linked fits st' ps' c"
  shows "wired send linked fits st' ps'"
proof -
  have "conn_ok send linked fits st' ps' d" if d: "d \<noteq> c" for d
  proof -
    have same: "wi_clients st' j = Waiting d k \<longleftrightarrow> wi_clients st j = Waiting d k" for j k
      using clients[of j] mine[OF d, of k] by (cases "j = i") auto
    have "ps' j = ps j" if "wi_clients st j = Waiting d k" for j k
      using ps[of j] mine[OF d, of k] that by (cases "j = i") auto
    moreover have "conn_ok send linked fits st ps d" using wired by (simp add: wired_def)
    ultimately show ?thesis unfolding conn_ok_def same using links[OF d] by simp
  qed
  moreover have "ps' j = p" if "wi_clients st' j = Running p" for j p
  proof (cases "j = i")
    case False
    then show ?thesis using that clients[OF False] ps[OF False] wired by (simp add: wired_def)
  qed (use that run in simp)
  ultimately show ?thesis using conn unfolding wired_def by metis
qed

text \<open>The connection that thread \<open>i\<close> is the only one to wait on.\<close>

lemma conn_okI:
  assumes "wi_clients st i = Waiting c k" and "\<And>j k'. j \<noteq> i \<Longrightarrow> wi_clients st j \<noteq> Waiting c k'"
    and "talking send linked fits c k (ps i) (wi_servers st c) (wi_links st c)"
  shows "conn_ok send linked fits st ps c"
proof -
  have "j = i \<and> k' = k" if "wi_clients st j = Waiting c k'" for j k'
    using assms(1) assms(2)[of j k'] that by (cases "j = i") auto
  then show ?thesis unfolding conn_ok_def using assms(1,3) by metis
qed

lemma wired_talking:
  assumes "wired send linked fits st ps" and "wi_clients st i = Waiting c k"
    and "\<And>d. d \<noteq> c \<Longrightarrow> wi_links st' d = wi_links st d \<and> wi_servers st' d = wi_servers st d"
    and "wi_clients st' = wi_clients st" and "\<And>j. j \<noteq> i \<Longrightarrow> ps' j = ps j"
    and "talking send linked fits c k (ps' i) (wi_servers st' c) (wi_links st' c)"
  shows "wired send linked fits st' ps'"
proof (rule wired_update[OF assms(1,3)])
  have only: "wi_clients st' j \<noteq> Waiting c k'" if "j \<noteq> i" for j k'
    using wired_waiting(2)[OF assms(1,2), of j k'] that by (auto simp: assms(4))
  show "conn_ok send linked fits st' ps' c"
    by (rule conn_okI[of _ i _ k]) (use assms(2,4,6) only in auto)
qed (use assms(2,4,5) in auto)

section \<open>Every step has a meaning among messages\<close>

definition means ::
    "(nat \<Rightarrow> message \<Rightarrow> 'w \<Rightarrow> ('w \<times> message) outcome) \<Rightarrow> (nat \<Rightarrow> rka \<Rightarrow> 'w \<Rightarrow> byte list) \<Rightarrow>
     ('w, 's, 'a) wires \<Rightarrow> (nat \<Rightarrow> 'a prog) \<Rightarrow> ('w, 's, 'a) wires \<Rightarrow> bool" where
  "means serve peek st ps st' \<longleftrightarrow>
     (\<exists>ps'. (system_step serve peek)\<^sup>*\<^sup>* (wi_world st, ps) (wi_world st', ps') \<and> wired send linked fits st' ps')"

lemma means_nothing: "wi_world st' = wi_world st \<Longrightarrow> wired send linked fits st' ps \<Longrightarrow> means serve peek st ps st'"
  unfolding means_def by (intro exI[of _ ps]) simp

lemma request_means:
  assumes w: "wired send linked fits st ps" and i: "wi_clients st i = Running (Request c m k)"
    and free: "\<forall>j k'. wi_clients st j \<noteq> Waiting c k'" and m: "allow m" and l: "send m (wi_links st c) = Ret l"
  shows "means serve peek st ps (st\<lparr>wi_links := (wi_links st)(c := l), wi_clients := (wi_clients st)(i := Waiting c k)\<rparr>)"
    (is "means _ _ _ _ ?st'")
proof (rule means_nothing)
  have c: "wi_servers st c = Listening" "linked (fst (wi_links st c)) (snd (wi_links st c))"
    using wired_free[OF w, of c] free by blast+
  have p: "ps i = Request c m k" using w i by (simp add: wired_def)
  have s: "send m (fst (wi_links st c), snd (wi_links st c)) = Ret l" using l by simp
  have "talking send linked fits c k (Request c m k) Listening l"
    by (rule asked[where send = send and linked = linked and fits = fits, OF c(2) sent_fits[OF c(2) m s] s])
  then have "conn_ok send linked fits ?st' ps c"
    by (intro conn_okI[of _ i _ k]) (use free in \<open>simp_all add: p c(1)\<close>)
  then show "wired send linked fits ?st' ps"
    by (intro wired_update[OF w, of c _ i]) (use i in \<open>simp_all\<close>)
qed simp

lemma receive_means:
  assumes w: "wired send linked fits st ps" and c: "wi_servers st c = Listening" and l: "recv (wi_links st c) = Ret (l, m)"
  shows "means serve peek st ps (st\<lparr>wi_links := (wi_links st)(c := l), wi_servers := (wi_servers st)(c := Received m)\<rparr>)"
    (is "means _ _ _ _ ?st'")
proof (rule means_nothing)
  obtain s t where st: "wi_links st c = (s, t)" by fastforce
  have "\<exists>i k. wi_clients st i = Waiting c k"
  proof (rule ccontr)
    assume "\<not> ?thesis"
    then have "linked s t" using wired_free(2)[OF w, of c] st by simp
    then show False using linked_empty l st by simp
  qed
  then obtain i k where i: "wi_clients st i = Waiting c k" by blast
  from wired_waiting(1)[OF w i] have "talking send linked fits c k (ps i) Listening (wi_links st c)" by (simp add: c)
  then have "talking send linked fits c k (ps i) (Received m) l"
  proof cases
    case (asked s t m')
    obtain s' t' where r: "recv (wi_links st c) = Ret ((s', t'), m')" and "linked t' s'" by (rule recv_sent[OF asked(2-4)])
    then show ?thesis using l received[of linked t' s' fits m' send c k] asked by auto
  next
    case (answered t s r t' s')
    then show ?thesis using quiet[OF answered(3-5)] l by simp
  qed
  then show "wired send linked fits ?st' ps" by (intro wired_talking[OF w i]) simp_all
qed simp

lemma execute_means:
  assumes w: "wired send linked fits st ps" and c: "wi_servers st c = Received m" and s: "serve c m (wi_world st) = Ret (w', r)"
  shows "means serve peek st ps (st\<lparr>wi_world := w', wi_servers := (wi_servers st)(c := Answering r)\<rparr>)"
    (is "means _ _ _ _ ?st'")
proof -
  have "\<exists>i k. wi_clients st i = Waiting c k" using wired_free(1)[OF w, of c] c by force
  then obtain i k where i: "wi_clients st i = Waiting c k" by blast
  from wired_waiting(1)[OF w i] have "talking send linked fits c k (ps i) (Received m) (wi_links st c)" by (simp add: c)
  then obtain s' t' where p: "ps i = Request c m k" and l: "wi_links st c = (s', t')" "linked t' s'"
    by (auto elim: talking_ReceivedE)
  have "prog_step serve peek (wi_world st, ps i) (w', k r)" unfolding p by (rule step_request) (rule s)
  then have "(system_step serve peek)\<^sup>*\<^sup>* (wi_world st, ps) (wi_world ?st', ps(i := k r))"
    by (auto intro: system_stepI)
  moreover have "wired send linked fits ?st' (ps(i := k r))"
    by (rule wired_talking[OF w i]) (use l answering[of linked t' s' send fits c k r] in simp_all)
  ultimately show ?thesis unfolding means_def by blast
qed

lemma answer_means:
  assumes w: "wired send linked fits st ps" and c: "wi_servers st c = Answering r" and r: "allow r"
    and l: "send r (prod.swap (wi_links st c)) = Ret l"
  shows "means serve peek st ps (st\<lparr>wi_links := (wi_links st)(c := prod.swap l), wi_servers := (wi_servers st)(c := Listening)\<rparr>)"
    (is "means _ _ _ _ ?st'")
proof (rule means_nothing)
  have "\<exists>i k. wi_clients st i = Waiting c k" using wired_free(1)[OF w, of c] c by force
  then obtain i k where i: "wi_clients st i = Waiting c k" by blast
  from wired_waiting(1)[OF w i] have "talking send linked fits c k (ps i) (Answering r) (wi_links st c)" by (simp add: c)
  then obtain s t where p: "ps i = k r" and st: "wi_links st c = (s, t)" "linked t s" by (auto elim: talking_AnsweringE)
  obtain t' s' where l': "l = (t', s')" by fastforce
  have s: "send r (t, s) = Ret (t', s')" using l by (simp add: st l')
  have "talking send linked fits c k (ps i) Listening (prod.swap l)"
    using answered[where send = send and fits = fits and linked = linked, OF st(2) sent_fits[OF st(2) r s] s] by (simp add: p l')
  then show "wired send linked fits ?st' ps" by (intro wired_talking[OF w i]) simp_all
qed simp

lemma reply_means:
  assumes w: "wired send linked fits st ps" and i: "wi_clients st i = Waiting c k"
    and l: "recv (prod.swap (wi_links st c)) = Ret (l, r)"
  shows "means serve peek st ps (st\<lparr>wi_links := (wi_links st)(c := prod.swap l), wi_clients := (wi_clients st)(i := Running (k r))\<rparr>)"
    (is "means _ _ _ _ ?st'")
proof (rule means_nothing)
  from wired_waiting(1)[OF w i] have "wi_servers st c = Listening \<and> ps i = k r \<and> linked (snd l) (fst l)"
  proof cases
    case (asked s t m)
    obtain s' t' where "wi_links st c = (s', t')" by fastforce
    then show ?thesis using quiet[OF asked(3,4), of s' t'] asked l by simp
  next
    case (received t s m)
    then show ?thesis using linked_empty l by simp
  next
    case (answering t s r)
    then show ?thesis using linked_empty l by simp
  next
    case (answered t s r' t' s')
    obtain t1 s1 where "recv (t', s') = Ret ((t1, s1), r')" and "linked s1 t1" by (rule recv_sent[OF answered(4-6)])
    then show ?thesis using l answered by auto
  qed
  then have p: "wi_servers st c = Listening" "ps i = k r" "linked (snd l) (fst l)" by auto
  have "wi_clients ?st' j \<noteq> Waiting c k'" for j k'
    using wired_waiting(2)[OF w i, of j k'] by auto
  then have "conn_ok send linked fits ?st' ps c" using p by (simp add: conn_ok_def)
  then show "wired send linked fits ?st' ps"
    by (intro wired_update[OF w, of c _ i]) (use i p in auto)
qed simp

lemma read_means:
  assumes w: "wired send linked fits st ps" and i: "wi_clients st i = Running (Remote_read c a k)"
  shows "means serve peek st ps (st\<lparr>wi_clients := (wi_clients st)(i := Running (k (peek c a (wi_world st))))\<rparr>)"
    (is "means _ _ _ _ ?st'")
proof -
  let ?p = "k (peek c a (wi_world st))"
  have p: "ps i = Remote_read c a k" using w i by (simp add: wired_def)
  have "prog_step serve peek (wi_world st, ps i) (wi_world st, ?p)" unfolding p by (rule step_read)
  then have "(system_step serve peek)\<^sup>*\<^sup>* (wi_world st, ps) (wi_world ?st', ps(i := ?p))" by (auto intro: system_stepI)
  moreover have "wired send linked fits ?st' (ps(i := ?p))"
  proof -
    have same: "wi_clients ?st' j = Waiting d k' \<longleftrightarrow> wi_clients st j = Waiting d k'" for j d k' using i by simp
    have "conn_ok send linked fits ?st' (ps(i := ?p)) d" for d
    proof -
      have "conn_ok send linked fits st ps d" using w by (simp add: wired_def)
      moreover have "(ps(i := ?p)) j = ps j" if "wi_clients st j = Waiting d k'" for j k' using that i by auto
      ultimately show ?thesis unfolding conn_ok_def same by simp
    qed
    then show ?thesis using w by (simp add: wired_def)
  qed
  ultimately show ?thesis unfolding means_def by blast
qed

lemma step_means:
  assumes "wire_step send recv allow serve peek st st'" and "wired send linked fits st ps"
  shows "means serve peek st ps st'"
  using assms(1)
  by cases (simp_all add: request_means[OF assms(2)] receive_means[OF assms(2)] execute_means[OF assms(2)]
      answer_means[OF assms(2)] reply_means[OF assms(2)] read_means[OF assms(2)])

text \<open>The system of connections refines the system of messages.\<close>

lemma steps_mean:
  assumes "(wire_step send recv allow serve peek)\<^sup>*\<^sup>* st st'" and "wired send linked fits st ps"
  shows "means serve peek st ps st'"
  using assms(1)
proof (induction rule: rtranclp_induct)
  case base
  then show ?case using assms(2) by (intro means_nothing) simp_all
next
  case (step st1 st2)
  obtain ps1 where r: "(system_step serve peek)\<^sup>*\<^sup>* (wi_world st, ps) (wi_world st1, ps1)" and "wired send linked fits st1 ps1"
    using step.IH by (auto simp: means_def)
  from step_means[OF step.hyps(2) this(2)] obtain ps2
    where "(system_step serve peek)\<^sup>*\<^sup>* (wi_world st1, ps1) (wi_world st2, ps2)" "wired send linked fits st2 ps2"
    by (auto simp: means_def)
  then show ?case using r unfolding means_def by (blast intro: rtranclp_trans)
qed

section \<open>Every run of messages happens\<close>

text \<open>A request and its answer, with nothing else in between.\<close>

lemma exchange_happens:
  assumes links: "\<And>d. linked (fst (links d)) (snd (links d))" and p: "ps i = Request c m k"
    and s: "serve c m w = Ret (w', r)" and fits: "fits m" "fits r" and allow: "allow m" "allow r"
  shows "\<exists>links'. (\<forall>d. linked (fst (links' d)) (snd (links' d))) \<and>
    (wire_step send recv allow serve peek)\<^sup>*\<^sup>* (wire_start w links ps) (wire_start w' links' (ps(i := k r)))"
proof -
  let ?S = "wire_step send recv allow serve peek"
  obtain l s1 t1 where 1: "send m (fst (links c), snd (links c)) = Ret l" "recv l = Ret ((s1, t1), m)" "linked t1 s1"
    by (rule turn[OF links[of c] fits(1)])
  obtain l' t2 s2 where 2: "send r (t1, s1) = Ret l'" "recv l' = Ret ((t2, s2), r)" "linked s2 t2"
    by (rule turn[OF 1(3) fits(2)])
  let ?clients = "(\<lambda>j. Running (ps j))(i := Waiting c k)"
  let ?st1 = "\<lparr>wi_world = w, wi_links = links(c := l), wi_servers = (\<lambda>_. Listening), wi_clients = ?clients\<rparr>"
  let ?st2 = "\<lparr>wi_world = w, wi_links = links(c := (s1, t1)), wi_servers = (\<lambda>_. Listening)(c := Received m), wi_clients = ?clients\<rparr>"
  let ?st3 = "\<lparr>wi_world = w', wi_links = links(c := (s1, t1)), wi_servers = (\<lambda>_. Listening)(c := Answering r), wi_clients = ?clients\<rparr>"
  let ?st4 = "\<lparr>wi_world = w', wi_links = links(c := prod.swap l'), wi_servers = (\<lambda>_. Listening), wi_clients = ?clients\<rparr>"
  have "?S (wire_start w links ps) ?st1"
    using wire_request[where st = "wire_start w links ps" and i = i and c = c and m = m and k = k and l = l and send = send] 1(1)
    by (simp add: wire_start_def p allow)
  moreover have "?S ?st1 ?st2"
    using wire_receive[where st = ?st1 and c = c and recv = recv and l = "(s1, t1)" and m = m] 1(2) by simp
  moreover have "?S ?st2 ?st3"
    using wire_execute[where st = ?st2 and c = c and m = m and serve = serve and w = w' and r = r] s by simp
  moreover have "?S ?st3 ?st4"
    using wire_answer[where st = ?st3 and c = c and r = r and send = send and l = l'] 2(1) allow(2) by (simp add: fun_upd_idem)
  moreover have "?S ?st4 (wire_start w' (links(c := (s2, t2))) (ps(i := k r)))"
  proof -
    have "(\<lambda>j. Running (ps j))(i := Running (k r)) = (\<lambda>j. Running ((ps(i := k r)) j))" by (rule ext) simp
    then show ?thesis
      using wire_reply[where st = ?st4 and i = i and c = c and k = k and recv = recv and l = "(t2, s2)" and r = r] 2(2)
      by (simp add: wire_start_def)
  qed
  ultimately have "?S\<^sup>*\<^sup>* (wire_start w links ps) (wire_start w' (links(c := (s2, t2))) (ps(i := k r)))"
    by (meson converse_rtranclp_into_rtranclp rtranclp.rtrancl_refl)
  moreover have "\<forall>d. linked (fst ((links(c := (s2, t2))) d)) (snd ((links(c := (s2, t2))) d))" using links 2(3) by simp
  ultimately show ?thesis by blast
qed

lemma read_happens:
  assumes "ps i = Remote_read c a k"
  shows "wire_step send recv allow serve peek (wire_start w links ps) (wire_start w links (ps(i := k (peek c a w))))"
proof -
  have "(\<lambda>j. Running (ps j))(i := Running (k (peek c a w))) = (\<lambda>j. Running ((ps(i := k (peek c a w))) j))" by (rule ext) simp
  then show ?thesis
    using wire_read[where st = "wire_start w links ps" and i = i and c = c and a = a and k = k and peek = peek] assms
    by (simp add: wire_start_def)
qed

lemma steps_happen:
  assumes steps: "(system_step serve peek)\<^sup>*\<^sup>* (w, ps) (w', ps')" and links: "\<And>d. linked (fst (links d)) (snd (links d))"
    and fit: "messages_fit P serve peek (w, ps)" and P: "\<And>m. P m \<Longrightarrow> fits m \<and> allow m"
  shows "\<exists>links'. (\<forall>d. linked (fst (links' d)) (snd (links' d))) \<and>
    (wire_step send recv allow serve peek)\<^sup>*\<^sup>* (wire_start w links ps) (wire_start w' links' ps')"
  using steps
proof (induction rule: rtranclp_induct2)
  case refl
  then show ?case using links by blast
next
  case (step w1 ps1 w2 ps2)
  obtain links1 where links1: "\<And>d. linked (fst (links1 d)) (snd (links1 d))"
    and run: "(wire_step send recv allow serve peek)\<^sup>*\<^sup>* (wire_start w links ps) (wire_start w1 links1 ps1)"
    using step.IH by blast
  obtain i p where ps2: "ps2 = ps1(i := p)" and "prog_step serve peek (w1, ps1 i) (w2, p)"
    using step.hyps(2) by (cases rule: system_step.cases) auto
  from this(2) have "\<exists>links'. (\<forall>d. linked (fst (links' d)) (snd (links' d))) \<and>
      (wire_step send recv allow serve peek)\<^sup>*\<^sup>* (wire_start w1 links1 ps1) (wire_start w2 links' (ps1(i := p)))"
  proof cases
    case (step_request c m r k)
    have "P m \<and> P r"
      using fit[unfolded messages_fit_def] step.hyps(1) step_request(1,3) by blast
    then show ?thesis
      using exchange_happens[of links1 ps1 i c m k serve w1 w2 r peek, OF links1 step_request(1) step_request(3)] P step_request(2) by blast
  next
    case (step_read c a k)
    then show ?thesis
      using read_happens[of ps1 i c a k serve peek w1 links1, OF step_read(1)] links1 by auto
  qed
  then show ?case using run unfolding ps2 by (meson rtranclp_trans)
qed

lemma carries: "carries send recv allow linked serve peek w ps"
  unfolding carries_def
proof (intro allI impI)
  fix links st
  assume "\<forall>c. linked (fst (links c)) (snd (links c))" and run: "(wire_step send recv allow serve peek)\<^sup>*\<^sup>* (wire_start w links ps) st"
  then have "wired send linked fits (wire_start w links ps) ps" by (simp add: wired_start)
  from steps_mean[OF run this] obtain ps' where
    "(system_step serve peek)\<^sup>*\<^sup>* (wi_world (wire_start w links ps), ps) (wi_world st, ps')" "wired send linked fits st ps'"
    unfolding means_def by blast
  then show "\<exists>ps'. (system_step serve peek)\<^sup>*\<^sup>* (w, ps) (wi_world st, ps') \<and> (\<forall>i p. wi_clients st i = Running p \<longrightarrow> ps' i = p)"
    by (auto simp: wired_def wire_start_def)
qed

lemma delivers:
  assumes "messages_fit P serve peek (w, ps)" and "\<And>m. P m \<Longrightarrow> fits m \<and> allow m"
  shows "delivers send recv allow linked serve peek w ps"
  unfolding delivers_def using steps_happen[OF _ _ assms] by blast

end

end
