(* ===== verification/Wire_Sockets.thy ===== *)
theory Wire_Sockets
  imports Wires
begin

text \<open>
  The four socket classes as the connections of such a system: what one side sends is not seen by itself,
  and the bounds check of \<open>Buffer::append\<close> lets only messages through that fit the buffer of the receiver.
  TCP has no such check on sending; there the bodies are taken to fit.
\<close>

section \<open>What the bounds check lets through\<close>

lemma append_bytes_Ret:
  assumes "append_bytes src (s, b) = Ret (s', b')" and "Buffer_ok b" and "length src < 2 ^ 64"
  shows "write_pos b + length src \<le> buf_addr b + buf_size b" and "b' = b\<lparr>write_pos := write_pos b + length src\<rparr>" and "Buffer_ok b'"
proof -
  show room: "write_pos b + length src \<le> buf_addr b + buf_size b"
    and b': "b' = b\<lparr>write_pos := write_pos b + length src\<rparr>"
    using assms by (auto simp: append_bytes_def Buffer_append_iff split: if_splits)
  show "Buffer_ok b'" using assms(2) room by (simp add: b' Buffer_ok_def)
qed

lemma appended_fits:
  assumes "append_bytes (header_bytes (fst m)) (s, b) = Ret (s1, b1)"
    and "append_bytes (take (hdr_body_size (fst m)) (snd m)) (s1, b1) = Ret (s2, b2)"
    and m: "sendable m" and b: "b = Buffer_on a PACKET_SIZE"
  shows "24 + length (snd m) \<le> PACKET_SIZE" and "b2 = Buffer_on a PACKET_SIZE\<lparr>write_pos := a + 24 + length (snd m)\<rparr>"
proof -
  have len: "length (snd m) < 2 ^ 64" "take (hdr_body_size (fst m)) (snd m) = snd m"
    using m by (auto simp: sendable_def header_ok_def)
  have ok: "Buffer_ok b" by (simp add: b PACKET_SIZE_def)
  note 1 = append_bytes_Ret[OF assms(1) ok, simplified] and 2 = append_bytes_Ret[OF assms(2)[unfolded len(2)] _ len(1)]
  show "24 + length (snd m) \<le> PACKET_SIZE" using 2(1)[OF 1(3)] 1(2) by (simp add: b)
  show "b2 = Buffer_on a PACKET_SIZE\<lparr>write_pos := a + 24 + length (snd m)\<rparr>"
    using 2(2)[OF 1(3)] 1(2) by (simp add: b)
qed

lemma append_arrived_fits:
  assumes "append_arrived m (s, Buffer_on a PACKET_SIZE) = Ret (s', b')" and m: "sendable m"
  shows "rw_fits m"
proof -
  obtain s1 b1 s2 b2 where 1: "append_bytes (header_bytes (fst m)) (s, Buffer_on a PACKET_SIZE) = Ret (s1, b1)"
    and 2: "append_bytes (take (hdr_body_size (fst m)) (snd m)) (s1, b1) = Ret (s2, b2)"
    and 3: "append_bytes (le_bytes 4 0xffffffff) (s2, b2) = Ret (s', b')"
    using assms(1) by (cases m) (auto simp: append_arrived_def bind_outcome_Ret_iff Let_def)
  note A = appended_fits[OF 1 2 m refl]
  have "Buffer_ok b2" using A by (simp add: Buffer_ok_def PACKET_SIZE_def)
  from append_bytes_Ret(1)[OF 3 this] A show ?thesis using m by (simp add: rw_fits_def sendable_def)
qed

lemma deliver_nothing: "qp_sends (so_qp s) = [] \<Longrightarrow> deliver (s, t) = (s, t)"
  by (simp add: deliver_def)

section \<open>TCP\<close>

text \<open>A socket with what has arrived for it; what the peer writes goes there.\<close>

type_synonym tcp_end = "(tcp_socket \<times> mem) \<times> byte list"

definition tcp_write :: "message \<Rightarrow> tcp_end \<times> tcp_end \<Rightarrow> (tcp_end \<times> tcp_end) outcome" where
  "tcp_write m st = bind_outcome (tcp_send m (snd st)) (\<lambda>t. Ret (fst st, t))"

definition tcp_read :: "byte list \<Rightarrow> tcp_end \<times> tcp_end \<Rightarrow> ((tcp_end \<times> tcp_end) \<times> message) outcome" where
  "tcp_read hdr st = bind_outcome (tcp_recv hdr (snd st)) (\<lambda>(t, m). Ret ((fst st, t), m))"

definition tcp_linked :: "tcp_end \<Rightarrow> tcp_end \<Rightarrow> bool" where
  "tcp_linked s t \<longleftrightarrow> snd s = [] \<and> snd t = []"

lemma tcp_ok_empty: "snd s = [] \<Longrightarrow> tcp_ok s" "snd s = [] \<Longrightarrow> tcp_pending s = []"
  using tcp_pending_concat[of "[]"] by (auto simp: tcp_ok_def tcp_pending_def intro: exI[of _ "[]"])

interpretation tcp_wire: wire tcp_write "tcp_read hdr" "\<lambda>st. tcp_pending (snd st)" "\<lambda>st. tcp_ok (snd st)" tcp_fits "\<lambda>_. True"
    tcp_linked tcp_fits for hdr
proof unfold_locales
  fix w :: "tcp_end \<times> tcp_end" and m
  assume "tcp_ok (snd w)" "tcp_fits m"
  from tcp.send_works[OF this] obtain t where "tcp_send m (snd w) = Ret t" "tcp_ok t" "tcp_pending t = tcp_pending (snd w) @ [m]" by auto
  then show "\<exists>w'. tcp_write m w = Ret w' \<and> tcp_ok (snd w') \<and> tcp_pending (snd w') = tcp_pending (snd w) @ [m]"
    by (intro exI[of _ "(fst w, t)"]) (simp add: tcp_write_def)
next
  fix w :: "tcp_end \<times> tcp_end" and m ms
  assume "tcp_ok (snd w)" "tcp_pending (snd w) = m # ms"
  from tcp.recv_works[OF this, of hdr] obtain t where "tcp_recv hdr (snd w) = Ret (t, m)" "tcp_ok t" "tcp_pending t = ms" by auto
  then show "\<exists>w'. tcp_read hdr w = Ret (w', m) \<and> tcp_ok (snd w') \<and> tcp_pending (snd w') = ms"
    by (intro exI[of _ "(fst w, t)"]) (simp add: tcp_read_def)
next
  fix w :: "tcp_end \<times> tcp_end"
  assume "tcp_ok (snd w)" "tcp_pending (snd w) = []"
  from tcp.recv_empty[OF this] show "tcp_read hdr w = Blocks" by (simp add: tcp_read_def)
next
  fix s t :: tcp_end assume "tcp_linked s t"
  then show "tcp_ok (snd (s, t)) \<and> tcp_pending (snd (s, t)) = []" using tcp_ok_empty by (simp add: tcp_linked_def)
next
  fix s t s' t' :: tcp_end and m st
  assume l: "tcp_linked s t" and "tcp_fits m" "tcp_write m (s, t) = Ret st" "tcp_read hdr st = Ret ((s', t'), m)"
  then have w: "st = (s, (fst t, tcp_bytes m))" by (auto simp: tcp_write_def tcp_send_fits tcp_linked_def)
  have "snd (fst t, tcp_bytes m) = tcp_bytes m @ []" by simp
  from tcp_recv_fits[OF \<open>tcp_fits m\<close> this, of hdr] \<open>tcp_read hdr st = Ret ((s', t'), m)\<close> l
  show "tcp_linked t' s'" by (auto simp: w tcp_read_def tcp_linked_def)
next
  fix s t s' t' :: tcp_end and m
  assume l: "tcp_linked s t" and "tcp_fits m" "tcp_write m (s, t) = Ret (s', t')"
  then have "s' = s" by (auto simp: tcp_write_def bind_outcome_Ret_iff)
  then show "tcp_read hdr (t', s') = Blocks"
    using tcp.recv_empty[OF tcp_ok_empty, of s hdr] l by (simp add: tcp_read_def tcp_linked_def)
qed simp_all

section \<open>Sends and receives\<close>

lemma get_recv_buf_waits:
  assumes "qp_recv_cq (so_qp t) = []" and "qp_works t"
  shows "SendRecvSocket_get_recv_buf t = Blocks"
  using assms by (simp add: SendRecvSocket_get_recv_buf_def SendRecvSocket_poll_recv_cq_def qp_works_def)

interpretation sr_wire: wire sr_send sr_recv sr_pending sr_ok sr_fits "\<lambda>n. n < PACKET_WINDOW_SIZE" sr_linked sendable
proof unfold_locales
  fix s t m s' t'
  assume l: "sr_linked s t" and m: "sr_fits m" and send: "sr_send m (s, t) = Ret (s', t')"
  have e: "qp_recv_cq (so_qp s) = []" "qp_sends (so_qp t) = []" "sr_ok (s, t)" "sr_pending (s, t) = []"
    using l by (auto simp: sr_linked_def sr_pending_Nil)
  have s': "SendRecvSocket_send_msg m s = Ret s'" "t' = t" using send by (auto simp: sr_send_def bind_outcome_Ret_iff)
  have "sr_ok (s', t')" using sr.send_works[OF e(3) m] send e(4) by (auto simp: PACKET_WINDOW_SIZE_def)
  then have "qp_works s'" by (simp add: sr_ok_def)
  then show "sr_recv (t', s') = Blocks"
    using send_msg_recv_cq[OF s'(1)] e(1,2)
    by (simp add: sr_recv_def s'(2) deliver_nothing SendRecvSocket_recv_msg_def SendRecvSocket_recv_header_def get_recv_buf_waits)
next
  fix s t m st
  assume l: "sr_linked s t" and m: "sendable m" and send: "sr_send m (s, t) = Ret st"
  obtain s1 b s2 b2 s3 b3 where 1: "SendRecvSocket_get_send_buf s = Ret (s1, b)"
    and 2: "append_bytes (header_bytes (fst m)) (s1, b) = Ret (s2, b2)"
    and 3: "append_bytes (take (hdr_body_size (fst m)) (snd m)) (s2, b2) = Ret (s3, b3)"
    using send by (cases m) (auto simp: sr_send_def SendRecvSocket_send_msg_def bind_outcome_Ret_iff)
  have "send_part s []" using l by (simp add: sr_linked_def sr_ok_def window_inv_def)
  from appended_fits(1)[OF 2 3 m get_send_buf_Ret(1)[OF this 1]] show "sr_fits m"
    using m by (simp add: sr_fits_def sendable_def)
qed

section \<open>RDMA write\<close>

text \<open>Sending does not touch the buffer that the peer writes to.\<close>

lemma rw_send_flag:
  assumes l: "rw_linked s t" and fits: "rw_fits m" and send: "rw_send m (s, t) = Ret (s', t')"
  shows "\<not> rw_flag s'" and "t' = t"
proof -
  note L = l[unfolded rw_linked_def rw_pending_Nil]
  have S: "send_part s []" "zeroed (so_mem s) (buf_addr (rw_write_buf s))"
    using L by (auto simp: rw_ok_def rw_place_def)
  obtain s0 b where g: "bind_outcome (SendRecvSocket_get_send_buf s) (append_arrived m) = Ret (s0, b)"
    and p: "RDMAWriteSocket_post_write b (rw_rka s0) s0 = Ret s'" and t: "t' = t"
    using send by (auto simp: rw_send_def rw_send_msg_split bind_outcome_Ret_iff)
  note K = get_and_append_keeps[OF S(1) fits g]
  obtain a where a: "a \<in> set (send_slots s)" "so_mem s0 = mem_write (so_mem s) a (rw_packet m)" using K(7) by blast
  have "so_mem s' = so_mem s0" "rw_write_buf s' = rw_write_buf s"
    using p K by (auto simp: RDMAWriteSocket_post_write_def split: if_splits)
  moreover have "zeroed (so_mem s0) (buf_addr (rw_write_buf s))"
    unfolding a(2) by (rule zeroed_write_apart[OF S(2)]) (use L a(1) length_rw_packet[OF fits] in \<open>auto simp: apart_def\<close>)
  ultimately show "\<not> rw_flag s'" by (simp add: rw_flag_def zeroed_flag)
  show "t' = t" by (rule t)
qed

lemma rw_recv_msg_waits: "\<not> rw_flag t \<Longrightarrow> RDMAWriteSocket_recv_msg t = Blocks"
  by (simp add: RDMAWriteSocket_recv_msg_def RDMAWriteSocket_recv_header_def rw_flag_def offsetof_is_arrived_def)

interpretation rw_wire: wire rw_send rw_recv rw_pending rw_ok rw_fits "\<lambda>n. n = 0" rw_linked sendable
proof unfold_locales
  fix s t m s' t'
  assume l: "rw_linked s t" and m: "rw_fits m" and send: "rw_send m (s, t) = Ret (s', t')"
  have "qp_sends (so_qp t) = []" using l by (simp add: rw_linked_def rw_pending_Nil)
  then show "rw_recv (t', s') = Blocks"
    using rw_send_flag[OF l m send] by (simp add: rw_recv_def deliver_nothing rw_recv_msg_waits)
next
  fix s t m st
  assume l: "rw_linked s t" and m: "sendable m" and send: "rw_send m (s, t) = Ret st"
  obtain s1 b s2 b2 where 1: "SendRecvSocket_get_send_buf s = Ret (s1, b)" and 2: "append_arrived m (s1, b) = Ret (s2, b2)"
    using send by (auto simp: rw_send_def RDMAWriteSocket_send_msg_def bind_outcome_Ret_iff)
  have "send_part s []" using l by (simp add: rw_linked_def rw_ok_def)
  then have "b = Buffer_on (buf_addr b) PACKET_SIZE" by (rule get_send_buf_Ret(1)) (rule 1)
  with 2 have "append_arrived m (s1, Buffer_on (buf_addr b) PACKET_SIZE) = Ret (s2, b2)" by simp
  then show "rw_fits m" by (rule append_arrived_fits) (rule m)
qed

section \<open>RDMA write with immediate\<close>

interpretation imm_wire: wire imm_send imm_recv imm_pending imm_ok rw_fits "\<lambda>n. n = 0" imm_linked sendable
proof unfold_locales
  fix s t m s' t'
  assume l: "imm_linked s t" and m: "rw_fits m" and send: "imm_send m (s, t) = Ret (s', t')"
  have e: "qp_recv_cq (so_qp s) = []" "qp_sends (so_qp t) = []" "qp_works s" "send_part s []"
    using l by (auto simp: imm_linked_def imm_pending_Nil imm_ok_def)
  obtain s0 b where g: "bind_outcome (SendRecvSocket_get_send_buf s) (append_arrived m) = Ret (s0, b)"
    and p: "RDMAWriteImmSocket_post_write_imm b (rw_rka s0) s0 = Ret s'" and t: "t' = t"
    using send by (auto simp: imm_send_def imm_send_msg_split bind_outcome_Ret_iff)
  have "imm_ok (s', t')" using imm.send_works[of "(s, t)" m] l m send by (auto simp: imm_linked_def)
  then have works: "qp_works s'" by (simp add: imm_ok_def)
  have "qp_recv_cq (so_qp s') = []"
    using p get_and_append_keeps(5)[OF e(4) m g] e(1) by (auto simp: RDMAWriteImmSocket_post_write_imm_def split: if_splits)
  then show "imm_recv (t', s') = Blocks"
    using e(2) works
    by (simp add: imm_recv_def t deliver_nothing RDMAWriteImmSocket_recv_msg_def RDMAWriteImmSocket_recv_header_def get_recv_buf_waits)
next
  fix s t m st
  assume l: "imm_linked s t" and m: "sendable m" and send: "imm_send m (s, t) = Ret st"
  obtain s1 b s2 b2 where 1: "SendRecvSocket_get_send_buf s = Ret (s1, b)" and 2: "append_arrived m (s1, b) = Ret (s2, b2)"
    using send by (auto simp: imm_send_def RDMAWriteImmSocket_send_msg_def bind_outcome_Ret_iff)
  have "send_part s []" using l by (simp add: imm_linked_def imm_ok_def)
  then have "b = Buffer_on (buf_addr b) PACKET_SIZE" by (rule get_send_buf_Ret(1)) (rule 1)
  with 2 have "append_arrived m (s1, Buffer_on (buf_addr b) PACKET_SIZE) = Ret (s2, b2)" by simp
  then show "rw_fits m" by (rule append_arrived_fits) (rule m)
qed

end
