(* ===== verification/Wire_Theorems.thy ===== *)
theory Wire_Theorems
  imports Wire_Sockets Socket_Theorems Ramp_Theorems
begin

text \<open>
  The whole stack: client threads whose requests travel over connected sockets of each class, with all
  steps of all connections interleaved, and what this means for the protocols.
\<close>

section \<open>Threads over sockets\<close>


lemma rw_fits_all: "rw_fits m \<Longrightarrow> tcp_fits m \<and> sr_fits m \<and> sendable m"
  by (auto simp: rw_fits_def tcp_fits_def sr_fits_def sendable_def)

text \<open>C8: The sockets deliver.  When the messages of the threads and the answers fit a packet, everything that the
  system with requests in single steps can do can be done over connected sockets of each of the four
  classes: no request gets stuck on its way, and afterwards the sockets are ready for the next one.\<close>

theorem sockets_deliver_messages:
  assumes "messages_fit rw_fits (cluster_serve mp junk tt home) (cluster_peek home)
    (w, \<lambda>i. client_thread mp junk hash cfg tt (tod i) (perms i) (trxs i) (h i))"
  shows "delivers tcp_write (tcp_read hdr) tcp_fits tcp_linked (cluster_serve mp junk tt home) (cluster_peek home) w
     (\<lambda>i. client_thread mp junk hash cfg tt (tod i) (perms i) (trxs i) (h i)) \<and>
   delivers sr_send sr_recv sendable sr_linked (cluster_serve mp junk tt home) (cluster_peek home) w
     (\<lambda>i. client_thread mp junk hash cfg tt (tod i) (perms i) (trxs i) (h i)) \<and>
   delivers rw_send rw_recv sendable rw_linked (cluster_serve mp junk tt home) (cluster_peek home) w
     (\<lambda>i. client_thread mp junk hash cfg tt (tod i) (perms i) (trxs i) (h i)) \<and>
   delivers imm_send imm_recv sendable imm_linked (cluster_serve mp junk tt home) (cluster_peek home) w
     (\<lambda>i. client_thread mp junk hash cfg tt (tod i) (perms i) (trxs i) (h i))"
  by (intro conjI tcp_wire.delivers[OF assms] sr_wire.delivers[OF assms] rw_wire.delivers[OF assms] imm_wire.delivers[OF assms])
    (simp_all add: rw_fits_all)

text \<open>Thread 1 of the sample reads one key, the others do nothing.\<close>

definition one_read :: trx where
  "one_read = Transaction_add_read ''1'' [''f''] Transaction_new"

definition one_read_trxs :: "nat \<Rightarrow> trx list" where
  "one_read_trxs i = (if i = 1 then [one_read] else [])"

abbreviation one_read_threads :: "trx_type \<Rightarrow> nat \<Rightarrow> (handler \<times> (key, item) cmap list) prog" where
  "one_read_threads tt \<equiv> (\<lambda>i. ramp_thread (sample_ramp tt) (sample_tod i) (sample_perms i) (one_read_trxs i) (sample_handler i))"

lemma one_read_eq: "one_read = \<lparr>access_keys = [''1''], read_set = [(''1'', [''f''])], write_set = []\<rparr>"
  by (simp add: one_read_def Transaction_add_read_def Transaction_new_def insort_insert_key_def)

lemma one_read_thread:
  "\<exists>k h ret. one_read_threads RAMP_FAST 1 = Request 1 (sent_msg sample_mp (0, 0) GET [Key_arg ''1'', Ts_arg Timestamp_default]) k \<and>
     k (sent_msg sample_mp (0, 0) RESULT [Item_arg Item_default]) = Return (h, [ret])"
proof -
  have "item_trx_keys Item_default = []" "item_ts Item_default = Timestamp_default" by (simp_all add: Item_default_def)
  then show ?thesis
    by (simp add: client_thread_def ClientThread_trx_def one_read_trxs_def one_read_eq sample_ramp_def sample_handler_def TrxHandler_new_def
      sample_cfg_def sample_perms_def RAMPFastHandler_get_all_def parallel_for_each_def in_order_def cp_get_def ConnectionPool_get_def
      com_exchange_def get_into_def cmap_index_def cmap_assign_def Let_def second_round_def check_missing_def ret_values_def
      ret_item_def case_prod_beta' recv_body_sent[OF sample_mp_ok])
qed

lemma one_read_served:
  "\<exists>w. cluster_serve sample_mp (0, 0) RAMP_FAST (\<lambda>_. 0) 1 (sent_msg sample_mp (0, 0) GET [Key_arg ''1'', Ts_arg Timestamp_default])
     (sample_cluster RAMP_FAST) = Ret (w, sent_msg sample_mp (0, 0) RESULT [Item_arg Item_default])"
proof -
  have "Table_get_item_by_ver k ts (srv_table sample_server) = Item_default" for k ts
    using Server_new_Ret(1)[OF sample_server_new] by (simp add: Table_get_item_by_ver_def)
  moreover have "cluster_serve sample_mp (0, 0) RAMP_FAST (\<lambda>_. 0) 1 (sent_msg sample_mp (0, 0) GET [Key_arg ''1'', Ts_arg Timestamp_default])
      (sample_cluster RAMP_FAST) =
    (let (t, it) = Table_get_latest_item ''1'' (srv_table sample_server) in
      Ret ((sample_cluster RAMP_FAST)\<lparr>cl_servers := (cl_servers (sample_cluster RAMP_FAST))(0 := sample_server\<lparr>srv_table := t\<rparr>),
        cl_conns := (cl_conns (sample_cluster RAMP_FAST))(1 := cl_conns (sample_cluster RAMP_FAST) 1)\<rparr>,
        sent_msg sample_mp (0, 0) RESULT [Item_arg it]))"
    by (simp add: cluster_serve_def RAMP_iter_sent(3)[OF sample_mp_ok] sample_cluster_def RAMPFastExecutor_def TrxExecutor_def
        RAMPFastExecutor_get_def answered_def Let_def case_prod_beta' del: executor_iter.simps)
  ultimately show ?thesis by (simp add: case_prod_beta')
qed

lemma one_read_fits:
  "rw_fits (sent_msg sample_mp (0, 0) GET [Key_arg ''1'', Ts_arg Timestamp_default])"
  "rw_fits (sent_msg sample_mp (0, 0) RESULT [Item_arg Item_default])"
  by (simp_all add: rw_fits_def sent_msg_eq MessageHeader_def header_ok_def msg_code_less sample_mp_def enc_item_def
      enc_pair_def enc_list_def enc_string_def enc_byte_def enc_ts_def enc_int_def to_string_int_def dec_digits.simps[of 0]
      Item_default_def Timestamp_default_def PACKET_SIZE_def)

lemma one_read_exchange:
  obtains k h ret w where
    "one_read_threads RAMP_FAST 1 = Request 1 (sent_msg sample_mp (0, 0) GET [Key_arg ''1'', Ts_arg Timestamp_default]) k"
    "k (sent_msg sample_mp (0, 0) RESULT [Item_arg Item_default]) = Return (h, [ret])"
    "ramp_serve (sample_ramp RAMP_FAST) 1 (sent_msg sample_mp (0, 0) GET [Key_arg ''1'', Ts_arg Timestamp_default])
       (sample_cluster RAMP_FAST) = Ret (w, sent_msg sample_mp (0, 0) RESULT [Item_arg Item_default])"
    "\<And>j. j \<noteq> 1 \<Longrightarrow> \<exists>x. one_read_threads RAMP_FAST j = Return x"
proof -
  obtain k h ret where k: "one_read_threads RAMP_FAST 1 = Request 1 (sent_msg sample_mp (0, 0) GET [Key_arg ''1'', Ts_arg Timestamp_default]) k"
    "k (sent_msg sample_mp (0, 0) RESULT [Item_arg Item_default]) = Return (h, [ret])" using one_read_thread by blast
  obtain w where w: "ramp_serve (sample_ramp RAMP_FAST) 1 (sent_msg sample_mp (0, 0) GET [Key_arg ''1'', Ts_arg Timestamp_default])
      (sample_cluster RAMP_FAST) = Ret (w, sent_msg sample_mp (0, 0) RESULT [Item_arg Item_default])"
    using one_read_served by (auto simp: sample_ramp_def)
  have "\<exists>x. one_read_threads RAMP_FAST j = Return x" if "j \<noteq> 1" for j
    using that by (simp add: one_read_trxs_def client_thread_def)
  then show thesis by (rule that[OF k w])
qed

lemmas one_read_exchange_fits = one_exchange_fits[where ps = "one_read_threads RAMP_FAST" and i = 1 and c = 1 and P = rw_fits
    and serve = "ramp_serve (sample_ramp RAMP_FAST)" and w = "sample_cluster RAMP_FAST"
    and m = "sent_msg sample_mp (0, 0) GET [Key_arg ''1'', Ts_arg Timestamp_default]"
    and r = "sent_msg sample_mp (0, 0) RESULT [Item_arg Item_default]", OF _ _ _ _ one_read_fits]

lemma one_read_messages_fit:
  "messages_fit rw_fits (ramp_serve (sample_ramp RAMP_FAST)) (cluster_peek (rs_home (sample_ramp RAMP_FAST)))
     (sample_cluster RAMP_FAST, one_read_threads RAMP_FAST)"
  by (rule one_read_exchange) (rule one_read_exchange_fits(1))


theorem sockets_deliver_messages_witness:
  "delivers rw_send rw_recv sendable rw_linked (cluster_serve sample_mp (0, 0) RAMP_FAST (\<lambda>_. 0)) (cluster_peek (\<lambda>_. 0))
     (sample_cluster RAMP_FAST) (one_read_threads RAMP_FAST)"
proof -
  have "messages_fit rw_fits (cluster_serve sample_mp (0, 0) RAMP_FAST (\<lambda>_. 0)) (cluster_peek (\<lambda>_. 0))
      (sample_cluster RAMP_FAST, \<lambda>i. client_thread sample_mp (0, 0) sample_hash sample_cfg RAMP_FAST (sample_tod i) (sample_perms i)
         (one_read_trxs i) (sample_handler i))"
    using one_read_messages_fit by (simp add: sample_ramp_def)
  from sockets_deliver_messages[OF this] show ?thesis by (simp add: sample_ramp_def)
qed

section \<open>Read atomicity over RDMA\<close>






end
