(* ===== verification/Options.thy ===== *)
theory Options
  imports Cmdline "HOL-Library.Sublist"
begin

text \<open>
  What the option parser does on a command line: which ways there are to give an option a value
  (\<open>given\<close>), that each has its effect, and that nothing else has one.  The interface \<open>command_line\<close> is
  about a program that declares its options and calls \<open>parse_check\<close>.
\<close>

section \<open>Declarations\<close>

text \<open>An option as it was declared, and whether it takes a text as its value.\<close>

fun opt_decl :: "option_base \<Rightarrow> option_base" where
  "opt_decl (Option_without_value n c d has) = Option_without_value n c d False"
| "opt_decl (Option_with_value n c need d has def actual rd) = Option_with_value n c need d False def def rd"

fun opt_takes :: "option_base \<Rightarrow> string \<Rightarrow> bool" where
  "opt_takes (Option_without_value _ _ _ _) v \<longleftrightarrow> False"
| "opt_takes (Option_with_value _ _ _ _ _ def _ rd) v \<longleftrightarrow> (case option_read rd def v of Inl _ \<Rightarrow> False | Inr _ \<Rightarrow> True)"

definition decls :: "parser \<Rightarrow> string \<Rightarrow> option_base option" where
  "decls p n = map_option opt_decl (pr_option p n)"

lemma opt_decl_idem [simp]: "opt_decl (opt_decl opt) = opt_decl opt"
  by (cases opt) simp_all

lemma opt_decl_option_set [simp]: "opt_decl (fst (option_set opt)) = opt_decl opt"
  by (cases opt) simp_all

lemma opt_decl_option_set_value [simp]: "opt_decl (fst (option_set_value v opt)) = opt_decl opt"
  by (cases opt) (simp_all split: sum.split)

lemma opt_takes_decl: "opt_decl opt = opt_decl opt' \<Longrightarrow> opt_takes opt = opt_takes opt'"
  by (cases opt; cases opt') (auto simp: fun_eq_iff)

lemma has_value_decl: "opt_decl opt = opt_decl opt' \<Longrightarrow> option_has_value opt = option_has_value opt'"
  by (cases opt; cases opt') auto

lemma takes_has_value: "opt_takes opt v \<Longrightarrow> option_has_value opt"
  by (cases opt) auto

lemma option_set_value_takes: "snd (option_set_value v opt) = opt_takes opt v"
  by (cases opt) (auto split: sum.split)

lemma option_set_value_again:
  "opt_takes opt v \<Longrightarrow> fst (option_set_value v (fst (option_set_value u opt))) = fst (option_set_value v opt)"
  by (cases opt) (auto split: sum.split)

lemma option_valid_set: "opt_takes opt v \<Longrightarrow> option_valid (fst (option_set_value v opt))"
  by (cases opt) (auto split: sum.splits)

lemma not_must_valid: "\<not> option_must opt \<Longrightarrow> option_valid opt"
  by (cases opt) auto

lemmas decl_simps = opt_decl_option_set opt_decl_option_set_value

section \<open>What a step keeps\<close>

lemma push_error_simps [simp]:
  "pr_options (push_error e p) = pr_options p" "pr_option (push_error e p) = pr_option p"
  "pr_errors (push_error e p) = pr_errors p @ [e]" "pr_others (push_error e p) = pr_others p"
  by (simp_all add: push_error_def pr_option_def)

lemma pr_option_update [simp]:
  "pr_option (p\<lparr>pr_others := x\<rparr>) = pr_option p" "pr_option (p\<lparr>pr_errors := e\<rparr>) = pr_option p"
  "pr_option (p\<lparr>pr_prog_name := s\<rparr>) = pr_option p"
  by (simp_all add: pr_option_def)

lemma pr_option_put:
  "smap_ok (pr_options p) \<Longrightarrow> pr_option (p\<lparr>pr_options := smap_put n opt (pr_options p)\<rparr>) = (pr_option p)(n \<mapsto> opt)"
  by (simp add: pr_option_def map_of_smap_put)

text \<open>
  A value that is set was given in one of the arguments: after the equals sign, or as the argument that
  follows the name of the option or a cluster that ends in its letter.  One that is not set is the default.
\<close>

definition names_option :: "(char \<rightharpoonup> string) \<Rightarrow> string \<Rightarrow> string \<Rightarrow> bool" where
  "names_option l n a \<longleftrightarrow> a = ''--'' @ n \<or> take 1 a = ''-'' \<and> take 2 a \<noteq> ''--'' \<and> l (last a) = Some n"

definition given_in :: "(char \<rightharpoonup> string) \<Rightarrow> string list \<Rightarrow> string \<Rightarrow> string \<Rightarrow> bool" where
  "given_in l args n v \<longleftrightarrow>
     (''--'' @ n @ ''='' @ v) \<in> set args \<or> (\<exists>(a, w) \<in> set (zip args (tl args)). w = v \<and> names_option l n a)"

lemma given_in_next:
  assumes "suffix (a # v # rest) args" and "names_option l n a"
  shows "given_in l args n v"
proof -
  obtain xs where xs: "args = xs @ a # v # rest" using assms(1) by (auto simp: suffix_def)
  have "(a, v) \<in> set (zip (xs @ a # v # rest) (tl (xs @ a # v # rest)))"
  proof (induction xs)
    case (Cons x xs)
    then show ?case by (cases xs) auto
  qed simp
  then show ?thesis using assms(2) by (auto simp: given_in_def xs)
qed

fun from_args :: "(char \<rightharpoonup> string) \<Rightarrow> string list \<Rightarrow> string \<Rightarrow> option_base \<Rightarrow> bool" where
  "from_args l args n (Option_without_value _ _ _ _) \<longleftrightarrow> True"
| "from_args l args n (Option_with_value _ _ _ _ has def actual rd) \<longleftrightarrow>
     (if has then \<exists>v. given_in l args n v \<and> option_read rd def v = Inr actual else actual = def)"

definition parser_kept :: "(char \<rightharpoonup> string) \<Rightarrow> string list \<Rightarrow> (string \<Rightarrow> option_base option) \<Rightarrow> parser \<Rightarrow> bool" where
  "parser_kept l args d p \<longleftrightarrow>
     smap_ok (pr_options p) \<and> decls p = d \<and> (\<forall>n opt. pr_option p n = Some opt \<longrightarrow> from_args l args n opt)"

lemma parser_kept_push_error [simp]: "parser_kept l args d (push_error e p) = parser_kept l args d p"
  by (simp add: parser_kept_def decls_def fun_eq_iff)

lemma parser_kept_others [simp]: "parser_kept l args d (p\<lparr>pr_others := x\<rparr>) = parser_kept l args d p"
  by (simp add: parser_kept_def decls_def fun_eq_iff)

lemma parser_kept_put:
  assumes k: "parser_kept l args d p" and n: "pr_option p n = Some opt" and o: "opt_decl opt' = opt_decl opt" and f: "from_args l args n opt'"
  shows "parser_kept l args d (p\<lparr>pr_options := smap_put n opt' (pr_options p)\<rparr>)"
proof -
  let ?p = "p\<lparr>pr_options := smap_put n opt' (pr_options p)\<rparr>"
  have ok: "smap_ok (pr_options p)" using k by (simp add: parser_kept_def)
  note opt = pr_option_put[OF ok, of n opt']
  have "decls ?p = decls p" by (rule ext) (simp add: decls_def opt n o)
  moreover have "from_args l args m opt1" if "pr_option ?p m = Some opt1" for m opt1
    using that k f by (cases "m = n") (auto simp: opt parser_kept_def)
  ultimately show ?thesis using k ok by (simp add: parser_kept_def smap_put_ok)
qed

lemma parser_kept_from: "parser_kept l args d p \<Longrightarrow> pr_option p n = Some opt \<Longrightarrow> from_args l args n opt"
  by (simp add: parser_kept_def)

lemma parser_kept_decls: "parser_kept l args d p \<Longrightarrow> map_option opt_decl (pr_option p n) = d n"
  by (auto simp: parser_kept_def decls_def)

lemma from_args_set: "from_args l args n opt \<Longrightarrow> from_args l args n (fst (option_set opt))"
  by (cases opt) auto

lemma from_args_set_value: "from_args l args n opt \<Longrightarrow> given_in l args n v \<Longrightarrow> from_args l args n (fst (option_set_value v opt))"
  by (cases opt) (auto split: sum.split)

lemma parser_kept_set_option: "parser_kept l args d p \<Longrightarrow> parser_kept l args d (parser_set_option n p)"
  by (auto simp: parser_set_option_def split_beta Let_def split: option.split
      intro!: parser_kept_put from_args_set intro: parser_kept_from)

lemma parser_kept_set_option_value:
  "parser_kept l args d p \<Longrightarrow> given_in l args n v \<Longrightarrow> parser_kept l args d (parser_set_option_value n v p)"
  by (auto simp: parser_set_option_value_def split_beta Let_def split: option.split
      intro!: parser_kept_put from_args_set_value intro: parser_kept_from)

lemma parser_kept_parse_letter: "parser_kept l args d p \<Longrightarrow> parser_kept l args d (parse_letter l c p)"
  by (auto simp: parse_letter_def parser_kept_set_option split: option.split)

lemma parser_kept_letters: "parser_kept l args d p \<Longrightarrow> parser_kept l args d (fold (parse_letter l) cs p)"
  by (induction cs arbitrary: p) (simp_all add: parser_kept_parse_letter)

lemmas parser_kept_steps = parser_kept_set_option parser_kept_set_option_value parser_kept_letters

lemma equals_split:
  "CHR ''='' \<in> set arg \<Longrightarrow> takeWhile (\<lambda>c. c \<noteq> CHR ''='') arg @ ''='' @ tl (dropWhile (\<lambda>c. c \<noteq> CHR ''='') arg) = arg"
  by (induction arg) auto

lemma parse_long_kept:
  assumes "parser_kept l all d p" and sub: "suffix ((''--'' @ arg) # args) all" and "parse_long arg args p = (p', rest)"
  shows "parser_kept l all d p' \<and> suffix rest args"
proof (cases "CHR ''='' \<in> set arg")
  case True
  have "''--'' @ arg \<in> set all" using sub by (auto simp: suffix_def)
  then have "given_in l all (takeWhile (\<lambda>c. c \<noteq> CHR ''='') arg) (tl (dropWhile (\<lambda>c. c \<noteq> CHR ''='') arg))"
    unfolding given_in_def equals_split[OF True] by simp
  then show ?thesis using True assms by (auto simp: parse_long_def parser_kept_steps)
next
  case False
  have "args = v # rest \<Longrightarrow> given_in l all arg v" for v rest
    using sub by (auto intro: given_in_next simp: names_option_def)
  then show ?thesis using False assms
    by (auto simp: parse_long_def parser_kept_steps suffix_ConsI split: option.splits if_splits list.splits)
qed

lemma parse_short_kept:
  assumes k: "parser_kept l all d p" and sub: "suffix ((CHR ''-'' # arg) # args) all" and no: "take 1 arg \<noteq> ''-''"
    and l: "\<forall>c n. l c = Some n \<longrightarrow> d n \<noteq> None"
  shows "\<exists>p' rest. parse_short l arg args p = Inr (p', rest) \<and> parser_kept l all d p' \<and> suffix rest args"
proof -
  let ?p = "fold (parse_letter l) (butlast arg) p"
  have kept: "parser_kept l all d ?p" using k by (rule parser_kept_letters)
  have opt: "\<exists>opt. pr_option ?p n = Some opt" if "l c = Some n" for c n
    using l that kept by (fastforce simp: parser_kept_def decls_def)
  have given: "given_in l all n v" if "arg \<noteq> []" "l (last arg) = Some n" "args = v # rest" for n v rest
    using that sub no by (auto intro!: given_in_next[of "CHR ''-'' # arg" v rest] simp: names_option_def)
  show ?thesis
  proof (cases "arg \<noteq> [] \<and> l (last arg) \<noteq> None")
    case True
    then obtain n where n: "l (last arg) = Some n" by auto
    then obtain opt where "pr_option ?p n = Some opt" using opt by blast
    then show ?thesis using True n k kept given[OF _ n]
      by (cases args) (auto simp: parse_short_def Let_def parser_kept_steps suffix_ConsI)
  qed (use k kept in \<open>auto simp: parse_short_def Let_def\<close>)
qed

lemma take_eq_prefix: "take n xs = ys \<Longrightarrow> xs = ys @ drop n xs"
  by (metis append_take_drop_id)

lemma parse_arg_kept:
  assumes k: "parser_kept l all d p" and sub: "suffix (arg # args) all" and l: "\<forall>c n. l c = Some n \<longrightarrow> d n \<noteq> None"
  shows "\<exists>p' rest. parse_arg l arg args p = Inr (p', rest) \<and> parser_kept l all d p' \<and> suffix rest args"
proof (cases "take 2 arg = ''--''")
  case True
  have "suffix ((''--'' @ drop 2 arg) # args) all" using sub take_eq_prefix[OF True] by simp
  from parse_long_kept[OF k this] show ?thesis
    using True by (cases "parse_long (drop 2 arg) args p") (auto simp: parse_arg_def)
next
  case no: False
  show ?thesis
  proof (cases "take 1 arg = ''-''")
    case True
    then obtain a where a: "arg = CHR ''-'' # a" by (cases arg) auto
    then have "take 1 a \<noteq> ''-''" using no by (cases a) auto
    from parse_short_kept[OF k sub[unfolded a] this l] show ?thesis using no a by (auto simp: parse_arg_def)
  qed (use no k in \<open>auto simp: parse_arg_def\<close>)
qed

lemma parse_args_kept:
  assumes "parser_kept l all d p" and "suffix args all" and l: "\<forall>c n. l c = Some n \<longrightarrow> d n \<noteq> None"
  shows "\<exists>p'. parse_args l args p = Inr p' \<and> parser_kept l all d p'"
  using assms(1,2)
proof (induction "length args" arbitrary: args p rule: less_induct)
  case less
  show ?case
  proof (cases args)
    case (Cons arg rest)
    with less.prems(2) have "suffix (arg # rest) all" by simp
    from parse_arg_kept[OF less.prems(1) this l] obtain p' left where
      step: "parse_arg l arg rest p = Inr (p', left)" "parser_kept l all d p'" "suffix left rest" by auto
    have "suffix left all" using step(3) less.prems(2) Cons by (metis suffix_ConsI suffix_order.trans)
    moreover have "length left < length args" using parse_arg_consumes[OF step(1)] Cons by simp
    ultimately show ?thesis using less.hyps[OF _ step(2)] step(1) Cons by simp
  qed (use less.prems in simp)
qed

section \<open>The end of parsing\<close>

lemma need_options_eq:
  "need_options p = p\<lparr>pr_errors := pr_errors p @
     map (\<lambda>(n, opt). ''need option: --'' @ n) (filter (\<lambda>(n, opt). \<not> option_valid opt) (pr_options p))\<rparr>"
proof -
  have "fold (\<lambda>(n, opt) p. if option_valid opt then p else push_error (''need option: --'' @ n) p) opts p =
      p\<lparr>pr_errors := pr_errors p @ map (\<lambda>(n, opt). ''need option: --'' @ n) (filter (\<lambda>(n, opt). \<not> option_valid opt) opts)\<rparr>" for opts
    by (induction opts arbitrary: p) (auto simp: push_error_def)
  then show ?thesis by (simp add: need_options_def)
qed

lemma pr_option_in: "smap_ok (pr_options p) \<Longrightarrow> (n, opt) \<in> set (pr_options p) \<longleftrightarrow> pr_option p n = Some opt"
  by (simp add: pr_option_def smap_ok_distinct)

lemma need_options_none:
  assumes "smap_ok (pr_options p)"
  shows "pr_errors (need_options p) = [] \<longleftrightarrow> pr_errors p = [] \<and> (\<forall>n opt. pr_option p n = Some opt \<longrightarrow> option_valid opt)"
  using pr_option_in[OF assms] by (auto simp: need_options_eq filter_empty_conv)

lemma short_names_ran:
  assumes "short_names opts l0 = Inr l" and "l c = Some n"
  shows "n \<in> fst ` set opts \<or> l0 c = Some n"
  using assms by (induction opts l0 rule: short_names.induct) (auto simp: Let_def split: if_splits)

section \<open>The ways to give a value\<close>

text \<open>\<open>--name=value\<close>, \<open>--name value\<close>, \<open>-c value\<close>, and a word that is not an option.\<close>

datatype given = Equals string string | Follows string string | Letter char string | Word string

fun spell :: "given \<Rightarrow> string list" where
  "spell (Equals n v) = [''--'' @ n @ ''='' @ v]"
| "spell (Follows n v) = [''--'' @ n, v]"
| "spell (Letter c v) = [[CHR ''-'', c], v]"
| "spell (Word w) = [w]"

fun given_pair :: "(char \<rightharpoonup> string) \<Rightarrow> given \<Rightarrow> (string \<times> string) option" where
  "given_pair l (Equals n v) = Some (n, v)"
| "given_pair l (Follows n v) = Some (n, v)"
| "given_pair l (Letter c v) = (case l c of None \<Rightarrow> None | Some n \<Rightarrow> Some (n, v))"
| "given_pair l (Word w) = None"

definition takes :: "(string \<Rightarrow> option_base option) \<Rightarrow> string \<Rightarrow> string \<Rightarrow> bool" where
  "takes d n v \<longleftrightarrow> (case d n of None \<Rightarrow> False | Some opt \<Rightarrow> opt_takes opt v)"

fun given_ok :: "(char \<rightharpoonup> string) \<Rightarrow> (string \<Rightarrow> option_base option) \<Rightarrow> given \<Rightarrow> bool" where
  "given_ok l d (Equals n v) \<longleftrightarrow> CHR ''='' \<notin> set n \<and> takes d n v"
| "given_ok l d (Follows n v) \<longleftrightarrow> CHR ''='' \<notin> set n \<and> takes d n v"
| "given_ok l d (Letter c v) \<longleftrightarrow> c \<noteq> CHR ''-'' \<and> (case l c of None \<Rightarrow> False | Some n \<Rightarrow> n \<noteq> [] \<and> takes d n v)"
| "given_ok l d (Word w) \<longleftrightarrow> take 1 w \<noteq> ''-''"

fun apply_given :: "(char \<rightharpoonup> string) \<Rightarrow> given \<Rightarrow> parser \<Rightarrow> parser" where
  "apply_given l (Word w) p = p\<lparr>pr_others := pr_others p @ [w]\<rparr>"
| "apply_given l g p = (case given_pair l g of None \<Rightarrow> p | Some (n, v) \<Rightarrow> parser_set_option_value n v p)"

lemma takes_option: "takes (decls p) n v \<Longrightarrow> \<exists>opt. pr_option p n = Some opt \<and> opt_takes opt v \<and> option_has_value opt"
  using opt_takes_decl[OF opt_decl_idem] by (auto simp: takes_def decls_def intro: takes_has_value split: option.splits)

lemma equals_parts:
  assumes "CHR ''='' \<notin> set n"
  shows "takeWhile (\<lambda>c. c \<noteq> CHR ''='') (n @ CHR ''='' # v) = n" "tl (dropWhile (\<lambda>c. c \<noteq> CHR ''='') (n @ CHR ''='' # v)) = v"
  using assms by (induction n) auto

lemma parse_given:
  assumes "given_ok l (decls p) g"
  shows "parse_args l (spell g @ args) p = parse_args l args (apply_given l g p)"
proof (cases g)
  case (Equals n v)
  then show ?thesis using assms by (simp add: parse_arg_def parse_long_def equals_parts)
next
  case (Follows n v)
  then obtain opt where "pr_option p n = Some opt" "option_has_value opt" using assms takes_option[of p n v] by auto
  then show ?thesis using assms Follows by (simp add: parse_arg_def parse_long_def)
next
  case (Letter c v)
  then obtain n where n: "l c = Some n" "n \<noteq> []" "takes (decls p) n v" using assms by (auto split: option.splits)
  then obtain opt where "pr_option p n = Some opt" "option_has_value opt" using takes_option by blast
  then show ?thesis using assms Letter n by (simp add: parse_arg_def parse_short_def)
next
  case (Word w)
  then have "take 2 w \<noteq> ''--''" using assms by (cases w; cases "tl w") auto
  then show ?thesis using assms Word by (simp add: parse_arg_def)
qed

text \<open>The last value that was given to an option, and the option with it.\<close>

definition last_given :: "(char \<rightharpoonup> string) \<Rightarrow> given list \<Rightarrow> string \<Rightarrow> string option" where
  "last_given l gs n =
     fold (\<lambda>g r. case given_pair l g of None \<Rightarrow> r | Some (m, v) \<Rightarrow> if m = n then Some v else r) gs None"

definition option_given :: "string option \<Rightarrow> option_base \<Rightarrow> option_base" where
  "option_given v opt = (case v of None \<Rightarrow> opt | Some v \<Rightarrow> fst (option_set_value v opt))"

lemma last_given_snoc:
  "last_given l (gs @ [g]) n =
     (case given_pair l g of None \<Rightarrow> last_given l gs n | Some (m, v) \<Rightarrow> if m = n then Some v else last_given l gs n)"
  unfolding last_given_def by simp

lemma opt_decl_option_given [simp]: "opt_decl (option_given v opt) = opt_decl opt"
  by (simp add: option_given_def split: option.split)

lemma set_option_value_takes:
  assumes "pr_option p n = Some opt" and "opt_takes opt v"
  shows "parser_set_option_value n v p = p\<lparr>pr_options := smap_put n (fst (option_set_value v opt)) (pr_options p)\<rparr>"
  using assms option_set_value_takes[of v opt] by (simp add: parser_set_option_value_def split_beta)

lemma apply_given_effect:
  assumes ok: "given_ok l (decls p) g" and sm: "smap_ok (pr_options p)"
  shows "smap_ok (pr_options (apply_given l g p)) \<and> pr_errors (apply_given l g p) = pr_errors p \<and>
    decls (apply_given l g p) = decls p \<and>
    pr_option (apply_given l g p) = (case given_pair l g of None \<Rightarrow> pr_option p
      | Some (n, v) \<Rightarrow> (pr_option p)(n \<mapsto> fst (option_set_value v (the (pr_option p n)))))"
proof (cases "given_pair l g")
  case None
  then show ?thesis using sm by (cases g) (simp_all add: decls_def fun_eq_iff split: option.splits)
next
  case (Some nv)
  obtain n v where nv: "nv = (n, v)" by (cases nv)
  then have t: "takes (decls p) n v" using ok Some by (cases g) (auto split: option.splits)
  then obtain opt where opt: "pr_option p n = Some opt" "opt_takes opt v" using takes_option by blast
  have a: "apply_given l g p = parser_set_option_value n v p" using Some nv by (cases g) auto
  show ?thesis unfolding a set_option_value_takes[OF opt] using Some nv opt sm
    by (simp add: pr_option_put smap_put_ok decls_def fun_eq_iff)
qed

lemma apply_givens:
  assumes "\<And>g. g \<in> set gs \<Longrightarrow> given_ok l (decls p) g" and "smap_ok (pr_options p)"
  shows "parse_args l (concat (map spell gs) @ args) p = parse_args l args (fold (apply_given l) gs p) \<and>
    smap_ok (pr_options (fold (apply_given l) gs p)) \<and> pr_errors (fold (apply_given l) gs p) = pr_errors p \<and>
    decls (fold (apply_given l) gs p) = decls p \<and>
    (\<forall>n. pr_option (fold (apply_given l) gs p) n = map_option (option_given (last_given l gs n)) (pr_option p n))"
  using assms
proof (induction gs arbitrary: args rule: rev_induct)
  case Nil
  have "option_given None = (\<lambda>opt. opt)" by (simp add: option_given_def fun_eq_iff)
  then show ?case using Nil by (simp add: last_given_def option.map_ident)
next
  case (snoc g gs)
  let ?p = "fold (apply_given l) gs p"
  have IH: "parse_args l (concat (map spell gs) @ as) p = parse_args l as ?p" "smap_ok (pr_options ?p)" "pr_errors ?p = pr_errors p"
    "decls ?p = decls p" "pr_option ?p n = map_option (option_given (last_given l gs n)) (pr_option p n)" for as n
    using snoc.IH[of as] snoc.prems by auto
  have g: "given_ok l (decls ?p) g" unfolding IH(4) using snoc.prems(1) by simp
  note eff = apply_given_effect[OF g IH(2)]
  have "parse_args l (concat (map spell (gs @ [g])) @ args) p = parse_args l args (apply_given l g ?p)"
    using IH(1)[of "spell g @ args"] parse_given[OF g] by simp
  moreover have "pr_option (apply_given l g ?p) n = map_option (option_given (last_given l (gs @ [g]) n)) (pr_option p n)" for n
  proof (cases "given_pair l g")
    case None
    then show ?thesis using eff IH(5) by (simp add: last_given_snoc)
  next
    case (Some mv)
    obtain m v where mv: "mv = (m, v)" by (cases mv)
    then have "takes (decls p) m v" using g Some IH(4) by (cases g) (auto split: option.splits)
    then obtain opt where opt: "pr_option p m = Some opt" "opt_takes opt v" using takes_option by blast
    show ?thesis
    proof (cases "m = n")
      case True
      then show ?thesis using eff Some mv opt IH(5)[of m]
        by (simp add: last_given_snoc option_given_def option_set_value_again split: option.split)
    next
      case False
      then show ?thesis using eff Some mv IH(5) by (simp add: last_given_snoc)
    qed
  qed
  ultimately show ?case using eff IH(3,4) by simp
qed

lemma last_given_takes:
  assumes "last_given l gs n = Some v" and "\<And>g. g \<in> set gs \<Longrightarrow> given_ok l d g"
  shows "takes d n v"
  using assms
proof (induction gs rule: rev_induct)
  case Nil
  then show ?case by (simp add: last_given_def)
next
  case (snoc g gs)
  have "takes d m u" if "given_pair l g = Some (m, u)" for m u
    using that snoc.prems(2)[of g] by (cases g) (auto split: option.splits)
  then show ?case using snoc by (auto simp: last_given_snoc split: option.splits if_splits)
qed

section \<open>Programs that declare options and parse their arguments\<close>

definition opt_fresh :: "option_base \<Rightarrow> bool" where
  "opt_fresh opt \<longleftrightarrow> opt_decl opt = opt"

definition options_declared :: "stop + parser \<Rightarrow> bool" where
  "options_declared P =
     (case bind_sum P add_help of
        Inl _ \<Rightarrow> False
      | Inr q \<Rightarrow>
          smap_ok (pr_options q) \<and> (\<forall>(n, opt) \<in> set (pr_options q). opt_fresh opt) \<and>
          (case pr_option q ''help'' of Some (Option_without_value _ _ _ _) \<Rightarrow> True | _ \<Rightarrow> False) \<and>
          (case short_names (pr_options q) Map.empty of Inl _ \<Rightarrow> False | Inr _ \<Rightarrow> True))"

definition declared :: "stop + parser \<Rightarrow> parser" where
  "declared P = (case bind_sum P add_help of Inl _ \<Rightarrow> parser_new | Inr q \<Rightarrow> q)"

definition letters :: "stop + parser \<Rightarrow> char \<rightharpoonup> string" where
  "letters P = (case short_names (pr_options (declared P)) Map.empty of Inl _ \<Rightarrow> Map.empty | Inr l \<Rightarrow> l)"

locale command_line =
  fixes P :: "stop + parser"
  assumes declared_ok: "options_declared P"
begin

lemma declared_eq: "bind_sum P add_help = Inr (declared P)"
  using declared_ok by (auto simp: options_declared_def declared_def split: sum.splits)

lemma parse_check_eq: "bind_sum P (parse_check argv) = bind_sum (parser_parse argv (declared P)) (parser_check (length argv))"
proof -
  obtain p where p: "P = Inr p" "add_help p = Inr (declared P)" using declared_eq by (auto simp: bind_sum_Inr_iff)
  show ?thesis unfolding p(1) by (simp add: parse_check_def p(2)) (simp add: p(1))
qed

lemma declared_facts:
  "smap_ok (pr_options (declared P))" "short_names (pr_options (declared P)) Map.empty = Inr (letters P)"
  "pr_option (declared P) n = Some opt \<Longrightarrow> opt_fresh opt"
  using declared_ok pr_option_in[of "declared P" n opt]
  by (auto simp: options_declared_def declared_eq letters_def split: sum.splits option.splits option_base.splits)

lemma help_declared: "\<exists>n c d. pr_option (declared P) ''help'' = Some (Option_without_value n c d False)"
  using declared_ok declared_facts(3)[of "''help''"]
  by (auto simp: options_declared_def declared_eq opt_fresh_def split: option.splits option_base.splits)

lemma letters_declared: "\<forall>c n. letters P c = Some n \<longrightarrow> decls (declared P) n \<noteq> None"
  using short_names_ran[OF declared_facts(2)] pr_option_in[OF declared_facts(1)]
  by (fastforce simp: decls_def)

definition first_state :: "string \<Rightarrow> parser" where
  "first_state prog = (let p = (declared P)\<lparr>pr_errors := [], pr_others := []\<rparr>
     in if pr_prog_name p = [] then p\<lparr>pr_prog_name := prog\<rparr> else p)"

lemma first_state_facts [simp]:
  "pr_options (first_state prog) = pr_options (declared P)" "pr_errors (first_state prog) = []"
  "pr_option (first_state prog) = pr_option (declared P)" "decls (first_state prog) = decls (declared P)"
  by (simp_all add: first_state_def decls_def fun_eq_iff Let_def)

lemma parser_parse_eq:
  "parser_parse (prog # args) (declared P) =
     bind_sum (parse_args (letters P) args (first_state prog)) (\<lambda>p. Inr (need_options p, pr_errors (need_options p) = []))"
  using declared_facts(2) by (simp add: parser_parse_def first_state_def[unfolded Let_def] Let_def)

lemma first_state_kept: "parser_kept (letters P) args (decls (declared P)) (first_state prog)"
proof -
  have "opt_fresh opt \<Longrightarrow> from_args (letters P) args n opt" for n opt by (cases opt) (auto simp: opt_fresh_def)
  then show ?thesis using declared_facts(1,3) by (auto simp: parser_kept_def)
qed

text \<open>Whatever the arguments are: the process ends, or every option that is needed was given.\<close>

lemma parse_check_cases:
  "(\<exists>u. bind_sum P (parse_check argv) = Inl (Exits 0 u)) \<or> (\<exists>u. bind_sum P (parse_check argv) = Inl (Exits 1 u)) \<or>
   (\<exists>p. bind_sum P (parse_check argv) = Inr p \<and> parser_kept (letters P) (tl argv) (decls (declared P)) p \<and>
     (\<forall>n opt. pr_option p n = Some opt \<longrightarrow> option_valid opt))"
proof -
  have ends: "(\<exists>u. parser_check n (p, ok) = Inl (Exits 0 u)) \<or> (\<exists>u. parser_check n (p, ok) = Inl (Exits 1 u)) \<or>
      (parser_check n (p, ok) = Inr p \<and> ok)" if "pr_option p ''help'' \<noteq> None" for n p ok
    using that by (cases "pr_option p ''help''") (simp_all add: parser_check_def parser_exist_def)
  have h0: "pr_option (declared P) ''help'' \<noteq> None" using help_declared by auto
  show ?thesis
  proof (cases argv)
    case Nil
    then show ?thesis using h0 unfolding parse_check_eq
      by (auto simp: parser_parse_def Let_def parser_check_def parser_exist_def)
  next
    case (Cons prog args)
    obtain p where p: "parse_args (letters P) args (first_state prog) = Inr p" "parser_kept (letters P) args (decls (declared P)) p"
      using parse_args_kept[OF first_state_kept[of args prog] suffix_order.refl letters_declared] by auto
    have "decls p ''help'' \<noteq> None" using p(2) h0 by (simp add: parser_kept_def decls_def)
    then have h: "pr_option (need_options p) ''help'' \<noteq> None" by (simp add: need_options_eq decls_def)
    have sm: "smap_ok (pr_options p)" using p(2) by (simp add: parser_kept_def)
    have "parser_kept (letters P) args (decls (declared P)) (need_options p)"
      using p(2) by (simp add: need_options_eq parser_kept_def decls_def fun_eq_iff)
    then show ?thesis
      using ends[OF h, of "length argv" "pr_errors (need_options p) = []"] need_options_none[OF sm] Cons
      unfolding parse_check_eq by (auto simp: parser_parse_eq p(1) need_options_eq)
  qed
qed

lemma declared_option: "decls (declared P) n = pr_option (declared P) n"
  using declared_facts(3)[of n] by (cases "pr_option (declared P) n") (auto simp: decls_def opt_fresh_def)

text \<open>Arguments that are well formed: they have the effect that they spell.\<close>

lemma parse_check_givens:
  assumes ok: "\<And>g. g \<in> set gs \<Longrightarrow> given_ok (letters P) (decls (declared P)) g"
    and need: "\<And>n opt. pr_option (declared P) n = Some opt \<Longrightarrow> option_must opt \<Longrightarrow> last_given (letters P) gs n \<noteq> None"
  shows "\<exists>p. bind_sum P (parse_check (prog # concat (map spell gs))) = Inr p \<and>
    (\<forall>n. pr_option p n = map_option (option_given (last_given (letters P) gs n)) (pr_option (declared P) n))"
proof -
  let ?q = "fold (apply_given (letters P)) gs (first_state prog)"
  have sm: "smap_ok (pr_options (first_state prog))" using declared_facts(1) by simp
  have q: "parse_args (letters P) (concat (map spell gs)) (first_state prog) = Inr ?q" "smap_ok (pr_options ?q)" "pr_errors ?q = []"
    "pr_option ?q n = map_option (option_given (last_given (letters P) gs n)) (pr_option (declared P) n)" for n
    using apply_givens[of gs "letters P" "first_state prog" "[]", OF _ sm] ok by auto
  have valid: "option_valid opt'" if o: "pr_option ?q n = Some opt'" for n opt'
  proof -
    obtain opt where opt: "pr_option (declared P) n = Some opt" "opt' = option_given (last_given (letters P) gs n) opt"
      using o q(4)[of n] by auto
    show ?thesis
    proof (cases "last_given (letters P) gs n")
      case None
      then have "\<not> option_must opt" using need[OF opt(1)] by auto
      then show ?thesis using None opt(2) by (simp add: option_given_def not_must_valid)
    next
      case (Some v)
      then have "takes (decls (declared P)) n v" using last_given_takes ok by blast
      then have "opt_takes opt v" using takes_option[of "declared P" n v] opt(1) by auto
      then show ?thesis using Some opt(2) by (simp add: option_given_def option_valid_set)
    qed
  qed
  then have e: "need_options ?q = ?q" "pr_errors (need_options ?q) = []"
    using need_options_none[OF q(2)] q(2,3) pr_option_in[OF q(2)] by (auto simp: need_options_eq filter_empty_conv)
  obtain n c d where "pr_option (declared P) ''help'' = Some (Option_without_value n c d False)" using help_declared by blast
  then have "pr_option ?q ''help'' = Some (Option_without_value n c d False)" unfolding q(4) by (simp add: option_given_def split: option.split)
  then have "bind_sum P (parse_check (prog # concat (map spell gs))) = Inr ?q"
    unfolding parse_check_eq by (simp add: parser_parse_eq q(1) e q(3) parser_check_def parser_exist_def)
  then show ?thesis using q(4) by blast
qed

end

definition command_line_ok :: "stop + parser \<Rightarrow> given list \<Rightarrow> bool" where
  "command_line_ok P gs \<longleftrightarrow>
     (\<forall>g \<in> set gs. given_ok (letters P) (decls (declared P)) g) \<and>
     (\<forall>(n, opt) \<in> set (pr_options (declared P)). option_must opt \<longrightarrow> last_given (letters P) gs n \<noteq> None)"

text \<open>The value that an option has after that.\<close>

definition given_text :: "stop + parser \<Rightarrow> given list \<Rightarrow> string \<Rightarrow> string \<Rightarrow> string" where
  "given_text P gs n def = (case last_given (letters P) gs n of None \<Rightarrow> def | Some v \<Rightarrow> v)"

definition given_number :: "stop + parser \<Rightarrow> given list \<Rightarrow> string \<Rightarrow> int \<Rightarrow> int" where
  "given_number P gs n def =
     (case last_given (letters P) gs n of
        None \<Rightarrow> def
      | Some v \<Rightarrow> (case lexical_cast_int v of Inl _ \<Rightarrow> def | Inr i \<Rightarrow> i))"

section \<open>Reading the values\<close>

definition text_option :: "string \<Rightarrow> char \<Rightarrow> bool \<Rightarrow> string \<Rightarrow> string \<Rightarrow> option_base" where
  "text_option n c need def desc = option_with_value_with_reader n c need (Text def) desc Default_reader"

definition number_option :: "string \<Rightarrow> char \<Rightarrow> bool \<Rightarrow> int \<Rightarrow> string \<Rightarrow> option_base" where
  "number_option n c need def desc = option_with_value_with_reader n c need (Number def) desc Default_reader"

lemmas option_defs = text_option_def number_option_def option_with_value_with_reader_def

definition text_from :: "stop + parser \<Rightarrow> string list \<Rightarrow> string \<Rightarrow> string \<Rightarrow> bool" where
  "text_from P args n s \<longleftrightarrow> given_in (letters P) args n s"

definition number_from :: "stop + parser \<Rightarrow> string list \<Rightarrow> string \<Rightarrow> int \<Rightarrow> bool" where
  "number_from P args n i \<longleftrightarrow> (\<exists>v. given_in (letters P) args n v \<and> lexical_cast_int v = Inr i)"

lemma get_text_from:
  assumes "parser_kept (letters P) args d p" and "\<forall>n opt. pr_option p n = Some opt \<longrightarrow> option_valid opt"
    and "d n = Some (text_option n c need def desc)"
  shows "\<exists>s. parser_get_text n p = Inr s \<and> (text_from P args n s \<or> \<not> need \<and> s = def)"
proof -
  obtain opt where opt: "pr_option p n = Some opt" "opt_decl opt = text_option n c need def desc"
    using assms(3) parser_kept_decls[OF assms(1), of n] by auto
  then have "option_valid opt" "from_args (letters P) args n opt" using assms(1,2) parser_kept_from by auto
  then show ?thesis using opt
    by (cases opt) (auto simp: option_defs parser_get_text_def text_from_def split: if_splits)
qed

lemma get_number_from:
  assumes "parser_kept (letters P) args d p" and "\<forall>n opt. pr_option p n = Some opt \<longrightarrow> option_valid opt"
    and "d n = Some (number_option n c need def desc)"
  shows "\<exists>i. parser_get_number n p = Inr i \<and> (number_from P args n i \<or> \<not> need \<and> i = def)"
proof -
  obtain opt where opt: "pr_option p n = Some opt" "opt_decl opt = number_option n c need def desc"
    using assms(3) parser_kept_decls[OF assms(1), of n] by auto
  then have "option_valid opt" "from_args (letters P) args n opt" using assms(1,2) parser_kept_from by auto
  then show ?thesis using opt
    by (cases opt) (auto simp: option_defs parser_get_number_def number_from_def bind_sum_Inr_iff split: if_splits)
qed

lemma get_text_given:
  assumes "pr_option p n = map_option (option_given (last_given (letters P) gs n)) (Some (text_option n c need def desc))"
  shows "parser_get_text n p = Inr (given_text P gs n def)"
  using assms by (cases "last_given (letters P) gs n")
    (simp_all add: option_given_def option_defs parser_get_text_def given_text_def)

lemma get_number_given:
  assumes "pr_option p n = map_option (option_given (last_given (letters P) gs n)) (Some (number_option n c need def desc))"
  shows "parser_get_number n p = Inr (given_number P gs n def)"
  using assms by (cases "last_given (letters P) gs n")
    (auto simp: option_given_def option_defs parser_get_number_def given_number_def bind_sum_def split: sum.splits)

text \<open>Every option that the program reads, in one of its two ways.\<close>

context command_line
begin

lemma parse_check_ok:
  assumes "command_line_ok P gs"
  obtains p where "bind_sum P (parse_check (prog # concat (map spell gs))) = Inr p"
    and "\<And>n c need def desc. decls (declared P) n = Some (text_option n c need def desc) \<Longrightarrow>
      parser_get_text n p = Inr (given_text P gs n def)"
    and "\<And>n c need def desc. decls (declared P) n = Some (number_option n c need def desc) \<Longrightarrow>
      parser_get_number n p = Inr (given_number P gs n def)"
proof -
  have "last_given (letters P) gs n \<noteq> None" if "pr_option (declared P) n = Some opt" "option_must opt" for n opt
    using assms that pr_option_in[OF declared_facts(1)] by (fastforce simp: command_line_ok_def)
  then obtain p where p: "bind_sum P (parse_check (prog # concat (map spell gs))) = Inr p"
    "\<And>n. pr_option p n = map_option (option_given (last_given (letters P) gs n)) (decls (declared P) n)"
    using parse_check_givens[of gs prog] assms by (auto simp: command_line_ok_def declared_option)
  show thesis
    by (rule that[OF p(1)]) (auto intro!: get_text_given get_number_given simp: p(2))
qed

lemma parse_check_stops:
  obtains c u where "c \<in> {0, 1}" and "bind_sum P (parse_check argv) = Inl (Exits c u)"
  | p where "bind_sum P (parse_check argv) = Inr p"
    and "\<And>n c need def desc. decls (declared P) n = Some (text_option n c need def desc) \<Longrightarrow>
       \<exists>s. parser_get_text n p = Inr s \<and> (text_from P (tl argv) n s \<or> \<not> need \<and> s = def)"
    and "\<And>n c need def desc. decls (declared P) n = Some (number_option n c need def desc) \<Longrightarrow>
       \<exists>i. parser_get_number n p = Inr i \<and> (number_from P (tl argv) n i \<or> \<not> need \<and> i = def)"
proof -
  consider c u where "c \<in> {0, 1}" "bind_sum P (parse_check argv) = Inl (Exits c u)"
    | p where "bind_sum P (parse_check argv) = Inr p" "parser_kept (letters P) (tl argv) (decls (declared P)) p"
        "\<forall>n opt. pr_option p n = Some opt \<longrightarrow> option_valid opt"
    using parse_check_cases[of argv] by auto
  then show thesis
  proof cases
    case 1
    then show ?thesis by (rule that(1))
  next
    case (2 p)
    from get_text_from[OF this(2,3)] get_number_from[OF this(2,3)] show ?thesis by (intro that(2)[OF 2(1)])
  qed
qed

end

text \<open>\<open>std::to_string\<close> writes numbers so that they are read back.\<close>

lemma takeWhile_digits: "takeWhile is_digit (dec_digits n) = dec_digits n"
  using dec_digits_range by (auto simp: takeWhile_eq_all_conv is_digit_def) force+

lemma dropWhile_digits: "dropWhile is_digit (dec_digits n) = []"
  using takeWhile_digits[of n] takeWhile_dropWhile_id[of is_digit "dec_digits n"] by (metis append_self_conv)

lemma lexical_cast_to_string:
  assumes "- (2 ^ 31) \<le> i" and "i < 2 ^ 31"
  shows "lexical_cast_int (to_string_int i) = Inr i"
proof (cases "i < 0")
  case True
  then show ?thesis using assms
    by (simp add: lexical_cast_int_def istream_int_def to_string_int_def skip_space_def is_space_def Let_def takeWhile_digits dropWhile_digits)
next
  case False
  obtain c cs where d: "dec_digits (nat i) = c # cs" by (cases "dec_digits (nat i)") auto
  then have "c \<in> set (dec_digits (nat i))" by simp
  from dec_digits_range[OF this] have c: "\<not> is_space c" "c \<noteq> CHR ''-''" "c \<noteq> CHR ''+''" by (auto simp: is_space_def)
  then show ?thesis using False assms d takeWhile_digits[of "nat i"] dropWhile_digits[of "nat i"] dec_val_digits[of "nat i"]
    by (simp add: lexical_cast_int_def istream_int_def to_string_int_def skip_space_def Let_def)
qed

end
