(* ===== verification/Command_Lines.thy ===== *)
theory Command_Lines
  imports Options Ycsb_Mains
begin

text \<open>
  The command lines of the four programs: the servers and the clients of the main tree and of the YCSB
  copy are instances of \<open>command_line\<close>.
\<close>

section \<open>What the programs declare\<close>

interpretation client_line: command_line client_parser
  by unfold_locales code_simp

interpretation server_line: command_line server_parser
  by unfold_locales code_simp

interpretation Y_client_line: command_line Y_client_parser
  by unfold_locales code_simp

interpretation Y_server_line: command_line Y_server_parser
  by unfold_locales code_simp

lemma client_declares:
  "decls (declared client_parser) ''log_level'' = Some (text_option ''log_level'' (CHR ''l'') False ''info'' ''log level'')"
  "decls (declared client_parser) ''trx_type'' = Some (text_option ''trx_type'' (CHR ''t'') True [] ''transaction type'')"
  "decls (declared client_parser) ''com_type'' = Some (text_option ''com_type'' (CHR ''c'') True [] ''communication type'')"
  "decls (declared client_parser) ''write_trx_num'' =
     Some (number_option ''write_trx_num'' (CHR ''w'') True 0 ''num of write transactions'')"
  "decls (declared client_parser) ''read_trx_num'' =
     Some (number_option ''read_trx_num'' (CHR ''r'') True 0 ''num of read transactions'')"
  "decls (declared client_parser) ''data_num'' = Some (number_option ''data_num'' (CHR ''n'') False 1000 ''num of data'')"
  "decls (declared client_parser) ''trx_size'' =
     Some (number_option ''trx_size'' (CHR ''s'') False 8 ''transaction size (operations)'')"
  "decls (declared client_parser) ''value_size'' =
     Some (number_option ''value_size'' (CHR ''v'') False 1000 ''value size (bytes)'')"
  by code_simp+


lemma server_declares:
  "decls (declared server_parser) ''log_level'' = Some (text_option ''log_level'' (CHR ''l'') False ''info'' ''log level'')"
  "decls (declared server_parser) ''trx_type'' = Some (text_option ''trx_type'' (CHR ''t'') True [] ''transaction type'')"
  "decls (declared server_parser) ''com_type'' = Some (text_option ''com_type'' (CHR ''c'') True [] ''communication type'')"
  "decls (declared server_parser) ''port_num'' = Some (text_option ''port_num'' (CHR ''p'') False ''50000'' ''port number'')"
  by code_simp+

lemma Y_client_declares:
  "decls (declared Y_client_parser) ''trx_type'' = Some (text_option ''trx_type'' (CHR ''t'') True [] ''transaction type'')"
  "decls (declared Y_client_parser) ''com_type'' = Some (text_option ''com_type'' (CHR ''c'') True [] ''communication type'')"
  "decls (declared Y_client_parser) ''write_trx_num'' =
     Some (number_option ''write_trx_num'' (CHR ''w'') True 0 ''num of write transactions'')"
  "decls (declared Y_client_parser) ''read_trx_num'' =
     Some (number_option ''read_trx_num'' (CHR ''r'') True 0 ''num of read transactions'')"
  "decls (declared Y_client_parser) ''data_num'' = Some (number_option ''data_num'' (CHR ''n'') False 100 ''num of data'')"
  "decls (declared Y_client_parser) ''trx_len'' =
     Some (number_option ''trx_len'' (CHR ''l'') False 8 ''transaction size (operations)'')"
  "decls (declared Y_client_parser) ''value_size'' =
     Some (number_option ''value_size'' (CHR ''v'') False 1000 ''value size (bytes)'')"
  by code_simp+

lemma Y_server_declares:
  "decls (declared Y_server_parser) ''trx_type'' = Some (text_option ''trx_type'' (CHR ''t'') True [] ''transaction type'')"
  "decls (declared Y_server_parser) ''com_type'' = Some (text_option ''com_type'' (CHR ''c'') True [] ''communication type'')"
  by code_simp+

section \<open>Arguments that are well formed\<close>

lemma bind_sum_assoc: "bind_sum (bind_sum m f) g = bind_sum m (\<lambda>x. bind_sum (f x) g)"
  by (cases m) simp_all

lemma client_command_given:
  assumes "command_line_ok client_parser gs"
  shows "client_command (prog # concat (map spell gs)) =
    Inr \<lparr>co_log_level = given_text client_parser gs ''log_level'' ''info'',
      co_trx_type = given_text client_parser gs ''trx_type'' [], co_com_type = given_text client_parser gs ''com_type'' [],
      co_write_trx_num = given_number client_parser gs ''write_trx_num'' 0,
      co_read_trx_num = given_number client_parser gs ''read_trx_num'' 0,
      co_data_num = given_number client_parser gs ''data_num'' 1000,
      co_trx_size = given_number client_parser gs ''trx_size'' 8,
      co_value_size = given_number client_parser gs ''value_size'' 1000\<rparr>"
proof (rule client_line.parse_check_ok[OF assms])
  fix p
  assume p: "bind_sum client_parser (parse_check (prog # concat (map spell gs))) = Inr p"
    and t: "\<And>n c need def desc. decls (declared client_parser) n = Some (text_option n c need def desc) \<Longrightarrow>
      parser_get_text n p = Inr (given_text client_parser gs n def)"
    and i: "\<And>n c need def desc. decls (declared client_parser) n = Some (number_option n c need def desc) \<Longrightarrow>
      parser_get_number n p = Inr (given_number client_parser gs n def)"
  note vals = client_declares(1-3)[THEN t] client_declares(4-8)[THEN i]
  show ?thesis unfolding client_command_def bind_sum_assoc[symmetric] by (simp add: p vals)
qed

lemma server_command_given:
  assumes "command_line_ok server_parser gs"
  shows "server_command (prog # concat (map spell gs)) =
    Inr \<lparr>so_log_level = given_text server_parser gs ''log_level'' ''info'',
      so_trx_type = given_text server_parser gs ''trx_type'' [], so_com_type = given_text server_parser gs ''com_type'' [],
      so_port_num = given_text server_parser gs ''port_num'' ''50000''\<rparr>"
proof (rule server_line.parse_check_ok[OF assms])
  fix p
  assume p: "bind_sum server_parser (parse_check (prog # concat (map spell gs))) = Inr p"
    and t: "\<And>n c need def desc. decls (declared server_parser) n = Some (text_option n c need def desc) \<Longrightarrow>
      parser_get_text n p = Inr (given_text server_parser gs n def)"
  note vals = server_declares[THEN t]
  show ?thesis unfolding server_command_def bind_sum_assoc[symmetric] by (simp add: p vals)
qed

section \<open>Any arguments\<close>

text \<open>The process ends by itself, with one of two statuses, or goes on with a value that satisfies \<open>Q\<close>.\<close>

definition stops_or :: "('a \<Rightarrow> bool) \<Rightarrow> stop + 'a \<Rightarrow> bool" where
  "stops_or Q r = (case r of Inl (Exits c _) \<Rightarrow> c = 0 \<or> c = 1 | Inl _ \<Rightarrow> False | Inr x \<Rightarrow> Q x)"

definition text_or :: "stop + parser \<Rightarrow> string list \<Rightarrow> string \<Rightarrow> string \<Rightarrow> string \<Rightarrow> bool" where
  "text_or P args n def s \<longleftrightarrow> text_from P args n s \<or> s = def"

definition number_or :: "stop + parser \<Rightarrow> string list \<Rightarrow> string \<Rightarrow> int \<Rightarrow> int \<Rightarrow> bool" where
  "number_or P args n def i \<longleftrightarrow> number_from P args n i \<or> i = def"

definition client_options_from :: "string list \<Rightarrow> client_options \<Rightarrow> bool" where
  "client_options_from args opts \<longleftrightarrow>
     text_or client_parser args ''log_level'' ''info'' (co_log_level opts) \<and>
     text_from client_parser args ''trx_type'' (co_trx_type opts) \<and>
     text_from client_parser args ''com_type'' (co_com_type opts) \<and>
     number_from client_parser args ''write_trx_num'' (co_write_trx_num opts) \<and>
     number_from client_parser args ''read_trx_num'' (co_read_trx_num opts) \<and>
     number_or client_parser args ''data_num'' 1000 (co_data_num opts) \<and>
     number_or client_parser args ''trx_size'' 8 (co_trx_size opts) \<and>
     number_or client_parser args ''value_size'' 1000 (co_value_size opts)"

definition server_options_from :: "string list \<Rightarrow> server_options \<Rightarrow> bool" where
  "server_options_from args opts \<longleftrightarrow>
     text_or server_parser args ''log_level'' ''info'' (so_log_level opts) \<and>
     text_from server_parser args ''trx_type'' (so_trx_type opts) \<and>
     text_from server_parser args ''com_type'' (so_com_type opts) \<and>
     text_or server_parser args ''port_num'' ''50000'' (so_port_num opts)"

definition Y_client_options_from :: "string list \<Rightarrow> Y_client_options \<Rightarrow> bool" where
  "Y_client_options_from args opts \<longleftrightarrow>
     text_from Y_client_parser args ''trx_type'' (Yco_trx_type opts) \<and>
     text_from Y_client_parser args ''com_type'' (Yco_com_type opts) \<and>
     number_from Y_client_parser args ''write_trx_num'' (Yco_write_trx_num opts) \<and>
     number_from Y_client_parser args ''read_trx_num'' (Yco_read_trx_num opts) \<and>
     number_or Y_client_parser args ''data_num'' 100 (Yco_data_num opts) \<and>
     number_or Y_client_parser args ''trx_len'' 8 (Yco_trx_len opts) \<and>
     number_or Y_client_parser args ''value_size'' 1000 (Yco_value_size opts)"

definition Y_server_options_from :: "string list \<Rightarrow> string \<times> string \<Rightarrow> bool" where
  "Y_server_options_from args opts \<longleftrightarrow>
     text_from Y_server_parser args ''trx_type'' (fst opts) \<and> text_from Y_server_parser args ''com_type'' (snd opts)"

lemma stops_or_Exits: "c \<in> {0, 1} \<Longrightarrow> stops_or Q (Inl (Exits c u))"
  by (auto simp: stops_or_def)

lemma client_command_stops: "stops_or (client_options_from (tl argv)) (client_command argv)"
proof (rule client_line.parse_check_stops[of argv])
  fix c u assume c: "c \<in> {0, 1}" "bind_sum client_parser (parse_check argv) = Inl (Exits c u)"
  show ?thesis unfolding client_command_def bind_sum_assoc[symmetric] by (simp add: c(2) stops_or_Exits[OF c(1)])
next
  fix p
  assume p: "bind_sum client_parser (parse_check argv) = Inr p"
    and t: "\<And>n c need def desc. decls (declared client_parser) n = Some (text_option n c need def desc) \<Longrightarrow>
      \<exists>s. parser_get_text n p = Inr s \<and> (text_from client_parser (tl argv) n s \<or> \<not> need \<and> s = def)"
    and i: "\<And>n c need def desc. decls (declared client_parser) n = Some (number_option n c need def desc) \<Longrightarrow>
      \<exists>i. parser_get_number n p = Inr i \<and> (number_from client_parser (tl argv) n i \<or> \<not> need \<and> i = def)"
  show ?thesis
    using client_declares(1-3)[THEN t] client_declares(4-8)[THEN i]
    unfolding client_command_def bind_sum_assoc[symmetric]
    by (elim exE conjE) (simp add: p stops_or_def client_options_from_def text_or_def number_or_def)
qed

lemma server_command_stops: "stops_or (server_options_from (tl argv)) (server_command argv)"
proof (rule server_line.parse_check_stops[of argv])
  fix c u assume c: "c \<in> {0, 1}" "bind_sum server_parser (parse_check argv) = Inl (Exits c u)"
  show ?thesis unfolding server_command_def bind_sum_assoc[symmetric] by (simp add: c(2) stops_or_Exits[OF c(1)])
next
  fix p
  assume p: "bind_sum server_parser (parse_check argv) = Inr p"
    and t: "\<And>n c need def desc. decls (declared server_parser) n = Some (text_option n c need def desc) \<Longrightarrow>
      \<exists>s. parser_get_text n p = Inr s \<and> (text_from server_parser (tl argv) n s \<or> \<not> need \<and> s = def)"
  show ?thesis
    using server_declares[THEN t] unfolding server_command_def bind_sum_assoc[symmetric]
    by (elim exE conjE) (simp add: p stops_or_def server_options_from_def text_or_def)
qed

lemma Y_client_command_stops: "stops_or (Y_client_options_from (tl argv)) (Y_client_command argv)"
proof (rule Y_client_line.parse_check_stops[of argv])
  fix c u assume c: "c \<in> {0, 1}" "bind_sum Y_client_parser (parse_check argv) = Inl (Exits c u)"
  show ?thesis unfolding Y_client_command_def bind_sum_assoc[symmetric] by (simp add: c(2) stops_or_Exits[OF c(1)])
next
  fix p
  assume p: "bind_sum Y_client_parser (parse_check argv) = Inr p"
    and t: "\<And>n c need def desc. decls (declared Y_client_parser) n = Some (text_option n c need def desc) \<Longrightarrow>
      \<exists>s. parser_get_text n p = Inr s \<and> (text_from Y_client_parser (tl argv) n s \<or> \<not> need \<and> s = def)"
    and i: "\<And>n c need def desc. decls (declared Y_client_parser) n = Some (number_option n c need def desc) \<Longrightarrow>
      \<exists>i. parser_get_number n p = Inr i \<and> (number_from Y_client_parser (tl argv) n i \<or> \<not> need \<and> i = def)"
  show ?thesis
    using Y_client_declares(1-2)[THEN t] Y_client_declares(3-7)[THEN i]
    unfolding Y_client_command_def bind_sum_assoc[symmetric]
    by (elim exE conjE) (simp add: p stops_or_def Y_client_options_from_def text_or_def number_or_def)
qed

lemma Y_server_command_stops: "stops_or (Y_server_options_from (tl argv)) (Y_server_command argv)"
proof (rule Y_server_line.parse_check_stops[of argv])
  fix c u assume c: "c \<in> {0, 1}" "bind_sum Y_server_parser (parse_check argv) = Inl (Exits c u)"
  show ?thesis unfolding Y_server_command_def bind_sum_assoc[symmetric] by (simp add: c(2) stops_or_Exits[OF c(1)])
next
  fix p
  assume p: "bind_sum Y_server_parser (parse_check argv) = Inr p"
    and t: "\<And>n c need def desc. decls (declared Y_server_parser) n = Some (text_option n c need def desc) \<Longrightarrow>
      \<exists>s. parser_get_text n p = Inr s \<and> (text_from Y_server_parser (tl argv) n s \<or> \<not> need \<and> s = def)"
  show ?thesis
    using Y_server_declares[THEN t] unfolding Y_server_command_def bind_sum_assoc[symmetric]
    by (elim exE conjE) (simp add: p stops_or_def Y_server_options_from_def)
qed

end
