(* ===== verification/Command_Theorems.thy ===== *)
theory Command_Theorems
  imports Command_Lines Samples
begin

text \<open>
  The programs started from a command line: what well-formed arguments lead to, what any arguments can
  lead to, and the quoting of arguments in one string.
\<close>

section \<open>Arguments that are well formed\<close>

text \<open>C27: Command lines reach the programs.  Options of the client and of the server can be given as
  \<open>--name=value\<close>, \<open>--name value\<close> or \<open>-c value\<close>, in any order, mixed with other words, and more than once;
  if all are declared, all values can be read and none that is needed is missing, the main program starts
  with exactly these options: for each one the last value that was given, or its default.\<close>

theorem command_lines_reach_programs:
  assumes "command_line_ok client_parser gs" and "command_line_ok server_parser gs'"
  shows "client_program (prog # concat (map spell gs)) cwd fs stack cfg =
      Inr (client_main cwd fs stack
        \<lparr>co_log_level = given_text client_parser gs ''log_level'' ''info'',
         co_trx_type = given_text client_parser gs ''trx_type'' [], co_com_type = given_text client_parser gs ''com_type'' [],
         co_write_trx_num = given_number client_parser gs ''write_trx_num'' 0,
         co_read_trx_num = given_number client_parser gs ''read_trx_num'' 0,
         co_data_num = given_number client_parser gs ''data_num'' 1000,
         co_trx_size = given_number client_parser gs ''trx_size'' 8,
         co_value_size = given_number client_parser gs ''value_size'' 1000\<rparr> cfg) \<and>
    server_program (prog' # concat (map spell gs')) cfg' os =
      Inr (server_main
        \<lparr>so_log_level = given_text server_parser gs' ''log_level'' ''info'',
         so_trx_type = given_text server_parser gs' ''trx_type'' [], so_com_type = given_text server_parser gs' ''com_type'' [],
         so_port_num = given_text server_parser gs' ''port_num'' ''50000''\<rparr> cfg' os)"
  by (simp add: client_program_def server_program_def client_command_given[OF assms(1)] server_command_given[OF assms(2)])

text \<open>A client with an option of each form, one of them twice, and a word that is no option.\<close>

definition sample_givens :: "given list" where
  "sample_givens =
     [Letter (CHR ''t'') ''RAMP_F'', Equals ''com_type'' ''RDMA_WRITE'', Letter (CHR ''w'') ''10'', Word ''x'',
      Follows ''read_trx_num'' ''-7'', Follows ''write_trx_num'' ''5'']"

definition sample_server_givens :: "given list" where
  "sample_server_givens = [Equals ''com_type'' ''RDMA_WRITE'', Follows ''trx_type'' ''RAMP_F'']"

theorem command_lines_reach_programs_witness:
  "client_program [''client'', ''-t'', ''RAMP_F'', ''--com_type=RDMA_WRITE'', ''-w'', ''10'', ''x'', ''--read_trx_num'', ''-7'',
       ''--write_trx_num'', ''5''] [] Map.empty ([], []) sample_cfg =
     Inr (client_main [] Map.empty ([], [])
       \<lparr>co_log_level = ''info'', co_trx_type = ''RAMP_F'', co_com_type = ''RDMA_WRITE'', co_write_trx_num = 5,
        co_read_trx_num = -7, co_data_num = 1000, co_trx_size = 8, co_value_size = 1000\<rparr> sample_cfg)"
proof -
  have ok: "command_line_ok client_parser sample_givens" "command_line_ok server_parser sample_server_givens" by code_simp+
  have argv: "concat (map spell sample_givens) = [''-t'', ''RAMP_F'', ''--com_type=RDMA_WRITE'', ''-w'', ''10'', ''x'',
      ''--read_trx_num'', ''-7'', ''--write_trx_num'', ''5'']" by code_simp
  have opts: "given_text client_parser sample_givens ''log_level'' ''info'' = ''info''"
    "given_text client_parser sample_givens ''trx_type'' [] = ''RAMP_F''"
    "given_text client_parser sample_givens ''com_type'' [] = ''RDMA_WRITE''"
    "given_number client_parser sample_givens ''write_trx_num'' 0 = 5"
    "given_number client_parser sample_givens ''read_trx_num'' 0 = -7"
    "given_number client_parser sample_givens ''data_num'' 1000 = 1000"
    "given_number client_parser sample_givens ''trx_size'' 8 = 8"
    "given_number client_parser sample_givens ''value_size'' 1000 = 1000"
    by code_simp+
  show ?thesis
    using command_lines_reach_programs[OF ok, of "''client''" "[]" Map.empty "([], [])" sample_cfg] unfolding argv opts by simp
qed

section \<open>Options written out\<close>

definition write_text :: "string \<Rightarrow> string \<Rightarrow> given" where
  "write_text n s = Equals n s"

definition write_number :: "string \<Rightarrow> int \<Rightarrow> given" where
  "write_number n i = Equals n (to_string_int i)"

lemmas write_defs = write_text_def write_number_def

definition write_client_options :: "client_options \<Rightarrow> given list" where
  "write_client_options opts =
     [write_text ''log_level'' (co_log_level opts), write_text ''trx_type'' (co_trx_type opts),
      write_text ''com_type'' (co_com_type opts), write_number ''write_trx_num'' (co_write_trx_num opts),
      write_number ''read_trx_num'' (co_read_trx_num opts), write_number ''data_num'' (co_data_num opts),
      write_number ''trx_size'' (co_trx_size opts), write_number ''value_size'' (co_value_size opts)]"

definition int_range :: "int \<Rightarrow> bool" where
  "int_range i \<longleftrightarrow> - (2 ^ 31) \<le> i \<and> i < 2 ^ 31"

definition client_options_ok :: "client_options \<Rightarrow> bool" where
  "client_options_ok opts \<longleftrightarrow> int_range (co_write_trx_num opts) \<and> int_range (co_read_trx_num opts) \<and>
     int_range (co_data_num opts) \<and> int_range (co_trx_size opts) \<and> int_range (co_value_size opts)"

lemma lexical_cast_range [simp]: "int_range i \<Longrightarrow> lexical_cast_int (to_string_int i) = Inr i"
  by (simp add: int_range_def lexical_cast_to_string)

lemma takes_text: "decls p n = Some (text_option m c need def desc) \<Longrightarrow> takes (decls p) n s"
  by (simp add: takes_def option_defs)

lemma takes_number: "decls p n = Some (number_option m c need def desc) \<Longrightarrow> int_range i \<Longrightarrow> takes (decls p) n (to_string_int i)"
  by (simp add: takes_def option_defs)

lemma write_client_options_given:
  "last_given l (write_client_options opts) n =
     (if n = ''log_level'' then Some (co_log_level opts) else if n = ''trx_type'' then Some (co_trx_type opts)
      else if n = ''com_type'' then Some (co_com_type opts)
      else if n = ''write_trx_num'' then Some (to_string_int (co_write_trx_num opts))
      else if n = ''read_trx_num'' then Some (to_string_int (co_read_trx_num opts))
      else if n = ''data_num'' then Some (to_string_int (co_data_num opts))
      else if n = ''trx_size'' then Some (to_string_int (co_trx_size opts))
      else if n = ''value_size'' then Some (to_string_int (co_value_size opts)) else None)"
  by (simp add: last_given_def write_client_options_def write_defs)

lemma client_needs:
  "list_all (\<lambda>(n, opt). option_must opt \<longrightarrow> n \<in> {''trx_type'', ''com_type'', ''write_trx_num'', ''read_trx_num''})
     (pr_options (declared client_parser))"
  by code_simp

lemma write_client_options_ok:
  assumes "client_options_ok opts"
  shows "command_line_ok client_parser (write_client_options opts)"
proof -
  have "takes (decls (declared client_parser)) ''log_level'' (co_log_level opts)"
    "takes (decls (declared client_parser)) ''trx_type'' (co_trx_type opts)"
    "takes (decls (declared client_parser)) ''com_type'' (co_com_type opts)"
    using client_declares(1-3)[THEN takes_text] by auto
  moreover have "takes (decls (declared client_parser)) ''write_trx_num'' (to_string_int (co_write_trx_num opts))"
    "takes (decls (declared client_parser)) ''read_trx_num'' (to_string_int (co_read_trx_num opts))"
    "takes (decls (declared client_parser)) ''data_num'' (to_string_int (co_data_num opts))"
    "takes (decls (declared client_parser)) ''trx_size'' (to_string_int (co_trx_size opts))"
    "takes (decls (declared client_parser)) ''value_size'' (to_string_int (co_value_size opts))"
    using assms client_declares(4-8)[THEN takes_number] by (auto simp: client_options_ok_def)
  ultimately have "\<forall>g \<in> set (write_client_options opts). given_ok (letters client_parser) (decls (declared client_parser)) g"
    by (simp add: write_client_options_def write_defs)
  then show ?thesis
    using client_needs by (fastforce simp: command_line_ok_def write_client_options_given list_all_iff)
qed

text \<open>C28: Options round trip.  Every record of client options whose numbers fit an \<open>int\<close>, written out as arguments of
  the form \<open>--name=value\<close> with the numbers in decimal, is what the client reads back from its command line.\<close>

theorem client_options_roundtrip:
  assumes "client_options_ok opts"
  shows "client_command (prog # concat (map spell (write_client_options opts))) = Inr opts"
  using assms unfolding client_command_given[OF write_client_options_ok[OF assms]]
  by (simp add: given_text_def given_number_def write_client_options_given client_options_ok_def)

theorem client_options_roundtrip_witness:
  "client_command [''client'', ''--log_level=debug'', ''--trx_type=2PL'', ''--com_type=TCP'', ''--write_trx_num=100'',
     ''--read_trx_num=0'', ''--data_num=1000'', ''--trx_size=-8'', ''--value_size=2147483647''] =
   Inr \<lparr>co_log_level = ''debug'', co_trx_type = ''2PL'', co_com_type = ''TCP'', co_write_trx_num = 100, co_read_trx_num = 0,
     co_data_num = 1000, co_trx_size = -8, co_value_size = 2147483647\<rparr>" (is "client_command (_ # ?args) = Inr ?opts")
proof -
  have "concat (map spell (write_client_options ?opts)) = ?args"
    by (simp add: write_client_options_def write_defs to_string_int_def dec_digits.simps digit_char_def char_of_eq_iff take_bit_eq_mod)
  moreover have "client_options_ok ?opts" by (simp add: client_options_ok_def int_range_def)
  ultimately show ?thesis using client_options_roundtrip[of ?opts "''client''"] by simp
qed

section \<open>Any arguments\<close>

text \<open>C26: Programs start complete.  Whatever the arguments are, each of the four programs of the two trees either
  leaves with status 0 or 1 (no exception, no null pointer), or goes on with options each of which was
  read from an argument that names it, or is the default of an option that may be left out.\<close>

theorem programs_start_complete:
  "stops_or (client_options_from (tl argv)) (client_command argv) \<and>
   stops_or (server_options_from (tl argv)) (server_command argv) \<and>
   stops_or (Y_client_options_from (tl argv)) (Y_client_command argv) \<and>
   stops_or (Y_server_options_from (tl argv)) (Y_server_command argv)"
  using client_command_stops server_command_stops Y_client_command_stops Y_server_command_stops by blast

section \<open>Arguments in one string\<close>

definition quote_char :: "char \<Rightarrow> string" where
  "quote_char c = (if c = CHR 0x22 \<or> c = CHR 0x5C then [CHR 0x5C, c] else [c])"

definition quote_arg :: "string \<Rightarrow> string" where
  "quote_arg arg = [CHR 0x22] @ concat (map quote_char arg) @ [CHR 0x22]"

fun quote_line :: "string list \<Rightarrow> string" where
  "quote_line [] = []"
| "quote_line [arg] = quote_arg arg"
| "quote_line (arg # args) = quote_arg arg @ CHR '' '' # quote_line args"

lemma split_quoted:
  "split_args (concat (map quote_char arg) @ CHR 0x22 # r) buf True args = split_args r (buf @ arg) False args"
  by (induction arg arbitrary: buf) (auto simp: quote_char_def)

lemma split_quote_line: "(args \<noteq> [] \<Longrightarrow> last args \<noteq> []) \<Longrightarrow> split_args (quote_line args) [] False acc = Inr (acc @ args)"
  by (induction args arbitrary: acc rule: quote_line.induct) (simp_all add: quote_arg_def split_quoted)

text \<open>Quoting keeps arguments.  Arguments that are put into one string, each in quotes with a backslash before
  every quote and every backslash, and parsed from there, are parsed as they would have been from \<open>argv\<close>, unless the last one is empty.\<close>

theorem quoted_arguments_parse:
  assumes "\<forall>arg \<in> set args. NUL \<notin> set arg" and "args \<noteq> [] \<Longrightarrow> last args \<noteq> []"
  shows "parser_parse_line (quote_line args) p = parser_parse args p"
proof -
  have "map until_NUL args = args"
    using assms(1) by (intro map_idI) (auto simp: until_NUL_def takeWhile_eq_all_conv)
  then show ?thesis by (simp add: parser_parse_line_def parser_parse_strings_def split_quote_line[OF assms(2)])
qed

theorem quoted_arguments_parse_witness:
  "parser_parse_line (quote_line [''client'', [CHR 0x22, CHR '' '', CHR 0x5C]]) parser_new =
     Inr (parser_new\<lparr>pr_prog_name := ''client'', pr_others := [[CHR 0x22, CHR '' '', CHR 0x5C]]\<rparr>, True)"
proof -
  have "parser_parse [''client'', [CHR 0x22, CHR '' '', CHR 0x5C]] parser_new =
      Inr (parser_new\<lparr>pr_prog_name := ''client'', pr_others := [[CHR 0x22, CHR '' '', CHR 0x5C]]\<rparr>, True)"
    by code_simp
  then show ?thesis by (subst quoted_arguments_parse) (auto simp: NUL_def)
qed

end
