(* ===== verification/Logger_Theorems.thy ===== *)
theory Logger_Theorems
  imports Loggers
begin

text \<open>
  When the names of loggers clash: never in the accept loop of a server over RDMA, whose sockets give
  their name back before their number, and after a reconnect over TCP, where it is the other way round.
\<close>

section \<open>Making loggers\<close>

lemma stdout_logger_new:
  "rg_loggers r name = None \<Longrightarrow> \<exists>r'. stdout_logger_mt name r = Ret r' \<and> dom (rg_loggers r') = insert name (dom (rg_loggers r))"
  by (simp add: stdout_logger_mt_def registry_create_def throw_if_exists_def Let_def)

lemma stdout_logger_taken: "rg_loggers r name \<noteq> None \<Longrightarrow> stdout_logger_mt name r = Dies Uncaught_exception"
  by (simp add: stdout_logger_mt_def registry_create_def throw_if_exists_def)

lemma stdout_loggers_new:
  assumes "distinct names" and "set names \<inter> dom (rg_loggers r) = {}"
  shows "\<exists>r'. stdout_loggers names r = Ret r' \<and> dom (rg_loggers r') = set names \<union> dom (rg_loggers r)"
  using assms
proof (induction names arbitrary: r)
  case (Cons name names)
  then have "rg_loggers r name = None" by auto
  from stdout_logger_new[OF this] obtain r1 where r1: "stdout_logger_mt name r = Ret r1" "dom (rg_loggers r1) = insert name (dom (rg_loggers r))"
    by blast
  have "set names \<inter> dom (rg_loggers r1) = {}" using Cons.prems by (auto simp: r1(2))
  from Cons.IH[OF _ this] Cons.prems(1) obtain r2 where "stdout_loggers names r1 = Ret r2" "dom (rg_loggers r2) = set names \<union> dom (rg_loggers r1)"
    by auto
  then show ?case using r1 by (auto simp: stdout_loggers_def)
qed (simp add: stdout_loggers_def)

section \<open>The names of a server\<close>

lemma numbered_inject [simp]: "numbered name i = numbered name j \<longleftrightarrow> i = j"
  by (simp add: numbered_def)

lemma server_loggers_distinct: "distinct (server_loggers com)"
  by (cases com) (simp_all add: server_loggers_def class_loggers_def)

lemma executor_loggers_distinct: "distinct (executor_loggers tt i)"
  by (cases tt) (simp_all add: numbered_def)

lemma executor_loggers_inject: "name \<in> set (executor_loggers tt i) \<Longrightarrow> name \<in> set (executor_loggers tt j) \<Longrightarrow> i = j"
  by (cases tt) (auto simp: numbered_def)

lemma socket_logger_inject: "socket_logger com h = socket_logger com h' \<longleftrightarrow> h = h'"
  by (simp add: socket_logger_def)

lemma socket_logger_other:
  "socket_logger com h \<notin> set (server_loggers com')" "socket_logger com h \<notin> set (executor_loggers tt i)"
  by (cases com'; cases com; simp add: socket_logger_def numbered_def server_loggers_def class_loggers_def)
    (cases tt; cases com; simp add: socket_logger_def numbered_def)

lemma executor_logger_other: "name \<in> set (executor_loggers tt i) \<Longrightarrow> name \<notin> set (server_loggers com)"
  by (cases tt; cases com) (auto simp: numbered_def server_loggers_def class_loggers_def)

definition ac_names :: "accept_loop \<Rightarrow> string set" where
  "ac_names st = dom (rg_loggers (ac_registry st))"

lemma accept_start_Ret:
  "\<exists>st. accept_start com numbers = Ret st \<and> ac_names st = set (server_loggers com) \<and> ac_numbers st = numbers \<and>
    ac_state st = Accepting \<and> ac_id st = 0 \<and> ac_threads st = []"
  using stdout_loggers_new[OF server_loggers_distinct[of com], of registry_new]
  by (auto simp: accept_start_def ac_names_def registry_new_def)

section \<open>Over RDMA\<close>

text \<open>The number that a thread holds, and whether its socket still has its name.\<close>

fun thread_number :: "thread_state \<Rightarrow> nat option" where
  "thread_number (Serving h) = Some h"
| "thread_number (Deleting h as) = (if Release_number \<in> set as then Some h else None)"

fun thread_named :: "thread_state \<Rightarrow> nat option" where
  "thread_named (Serving h) = Some h"
| "thread_named (Deleting h as) = (if Drop_logger \<in> set as then Some h else None)"

fun thread_ok :: "thread_state \<Rightarrow> bool" where
  "thread_ok (Serving h) \<longleftrightarrow> True"
| "thread_ok (Deleting h as) \<longleftrightarrow> as \<in> {[Drop_logger, Release_number], [Release_number], []}"

fun loop_number :: "accept_state \<Rightarrow> nat option" where
  "loop_number Accepting = None"
| "loop_number (Accepted h) = Some h"
| "loop_number (Connected h) = Some h"

definition numbers_ok :: "accept_loop \<Rightarrow> bool" where
  "numbers_ok st \<longleftrightarrow>
     (\<forall>i h. i < length (ac_threads st) \<longrightarrow> thread_number (ac_threads st ! i) = Some h \<longrightarrow>
        h \<in> ac_numbers st \<and> loop_number (ac_state st) \<noteq> Some h \<and>
        (\<forall>j < length (ac_threads st). thread_number (ac_threads st ! j) = Some h \<longrightarrow> i = j)) \<and>
     (\<forall>h. loop_number (ac_state st) = Some h \<longrightarrow> h \<in> ac_numbers st) \<and> (\<forall>t \<in> set (ac_threads st). thread_ok t)"

definition socket_named :: "accept_loop \<Rightarrow> nat \<Rightarrow> bool" where
  "socket_named st h \<longleftrightarrow> ac_state st = Connected h \<or> (\<exists>t \<in> set (ac_threads st). thread_named t = Some h)"

definition names_ok :: "trx_type \<Rightarrow> com_type \<Rightarrow> accept_loop \<Rightarrow> bool" where
  "names_ok tt com st \<longleftrightarrow>
     ac_names st \<subseteq> set (server_loggers com) \<union> {name. \<exists>j < ac_id st. name \<in> set (executor_loggers tt j)} \<union>
       {socket_logger com h | h. socket_named st h}"

lemma named_number: "thread_ok t \<Longrightarrow> thread_named t = Some h \<Longrightarrow> thread_number t = Some h"
  by (cases t) (auto split: if_splits)

lemma socket_name_free:
  assumes "numbers_ok st" and "names_ok tt com st" and "ac_state st = Accepted h"
  shows "socket_logger com h \<notin> ac_names st"
proof
  assume "socket_logger com h \<in> ac_names st"
  then have "socket_named st h"
    using assms(2) socket_logger_other by (auto simp: names_ok_def socket_logger_inject)
  then obtain t where t: "t \<in> set (ac_threads st)" "thread_named t = Some h" using assms(3) by (auto simp: socket_named_def)
  then have "thread_number t = Some h" using assms(1) by (intro named_number) (auto simp: numbers_ok_def)
  then show False using t(1) assms(1,3) by (auto simp: numbers_ok_def in_set_conv_nth)
qed

lemma executor_names_free:
  assumes "names_ok tt com st"
  shows "set (executor_loggers tt (ac_id st)) \<inter> ac_names st = {}"
proof -
  have "name \<notin> ac_names st" if n: "name \<in> set (executor_loggers tt (ac_id st))" for name
  proof
    assume "name \<in> ac_names st"
    then consider "name \<in> set (server_loggers com)" | j where "j < ac_id st" "name \<in> set (executor_loggers tt j)"
      | h where "name = socket_logger com h"
      using assms by (auto simp: names_ok_def)
    then show False
      using n executor_logger_other[OF n] executor_loggers_inject[OF n] socket_logger_other(2) by cases auto
  qed
  then show ?thesis by blast
qed

lemma accept_cases [consumes 1, case_names accept socket executor close delete]:
  assumes "accept_step tt com st (Ret st')"
  obtains h where "ac_state st = Accepting" "h \<notin> ac_numbers st"
      "st' = st\<lparr>ac_state := Accepted h, ac_numbers := insert h (ac_numbers st)\<rparr>"
  | h r where "ac_state st = Accepted h" "stdout_logger_mt (socket_logger com h) (ac_registry st) = Ret r"
      "st' = st\<lparr>ac_registry := r, ac_state := Connected h\<rparr>"
  | h r where "ac_state st = Connected h" "stdout_loggers (executor_loggers tt (ac_id st)) (ac_registry st) = Ret r"
      "st' = st\<lparr>ac_registry := r, ac_state := Accepting, ac_id := ac_id st + 1, ac_threads := ac_threads st @ [Serving h]\<rparr>"
  | i h where "i < length (ac_threads st)" "ac_threads st ! i = Serving h"
      "st' = st\<lparr>ac_threads := (ac_threads st)[i := Deleting h (socket_teardown com)]\<rparr>"
  | i h a as where "i < length (ac_threads st)" "ac_threads st ! i = Deleting h (a # as)"
      "st' = (tear_down com h a st)\<lparr>ac_threads := (ac_threads st)[i := Deleting h as]\<rparr>"
  using assms
proof cases
  case (loop_accept h)
  then show ?thesis using that(1)[of h] by simp
next
  case (loop_socket h)
  from loop_socket(1)[symmetric] show ?thesis using that(2)[OF loop_socket(2)] by (auto simp: bind_outcome_Ret_iff)
next
  case (loop_executor h)
  from loop_executor(1)[symmetric] show ?thesis using that(3)[OF loop_executor(2)] by (auto simp: bind_outcome_Ret_iff)
next
  case (loop_close i h)
  then show ?thesis using that(4)[of i h] by simp
next
  case (loop_delete i h a as)
  then show ?thesis using that(5)[of i h a as] by simp
qed

lemma delete_cases:
  assumes "numbers_ok st" and "i < length (ac_threads st)" and "ac_threads st ! i = Deleting h (a # as)"
  shows "a = Drop_logger \<and> as = [Release_number] \<or> a = Release_number \<and> as = []"
proof -
  have "thread_ok (Deleting h (a # as))" using assms nth_mem[OF assms(2)] by (auto simp: numbers_ok_def)
  then show ?thesis by auto
qed

lemma numbers_ok_same_loop:
  assumes "numbers_ok st" and "ac_state st' = ac_state st" and "i < length (ac_threads st)"
    and "ac_threads st' = (ac_threads st)[i := t]" and "thread_ok t"
    and "\<And>h. thread_number t = Some h \<Longrightarrow> thread_number (ac_threads st ! i) = Some h \<and> h \<in> ac_numbers st'"
    and "\<And>h. h \<in> ac_numbers st \<Longrightarrow> h \<in> ac_numbers st' \<or> thread_number (ac_threads st ! i) = Some h"
  shows "numbers_ok st'"
proof -
  have old: "h \<in> ac_numbers st \<and> loop_number (ac_state st) \<noteq> Some h \<and>
      (\<forall>k < length (ac_threads st). thread_number (ac_threads st ! k) = Some h \<longrightarrow> j = k)"
    if "j < length (ac_threads st)" "thread_number (ac_threads st ! j) = Some h" for j h
    using assms(1) that by (auto simp: numbers_ok_def)
  have sub: "thread_number (ac_threads st ! j) = Some h \<and> h \<in> ac_numbers st'"
    if "j < length (ac_threads st)" "thread_number (ac_threads st' ! j) = Some h" for j h
  proof (cases "j = i")
    case True
    then show ?thesis using that(2) assms(3,4) assms(6)[of h] by simp
  next
    case False
    then have j: "thread_number (ac_threads st ! j) = Some h" using that(2) assms(4) by simp
    then have "thread_number (ac_threads st ! i) \<noteq> Some h" using old[OF that(1) j] assms(3) False by auto
    then show ?thesis using j old[OF that(1) j] assms(7)[of h] by blast
  qed
  have "h \<in> ac_numbers st'" if "loop_number (ac_state st) = Some h" for h
    using that assms(1,7) old[OF assms(3)] by (auto simp: numbers_ok_def)
  moreover have "thread_ok t'" if "t' \<in> set (ac_threads st')" for t'
    using that set_update_subset_insert[of "ac_threads st" i t] assms(1,4,5) by (auto simp: numbers_ok_def)
  moreover have "length (ac_threads st') = length (ac_threads st)" by (simp add: assms(4))
  moreover have "loop_number (ac_state st) \<noteq> Some h \<and>
      (\<forall>k < length (ac_threads st). thread_number (ac_threads st' ! k) = Some h \<longrightarrow> j = k)"
    if "j < length (ac_threads st)" "thread_number (ac_threads st' ! j) = Some h" for j h
    using old[OF that(1) conjunct1[OF sub[OF that]]] sub by simp
  ultimately show ?thesis unfolding numbers_ok_def assms(2) using sub by simp
qed

lemma numbers_step:
  assumes "numbers_ok st" and "accept_step tt com st (Ret st')" and "\<not> is_tcp com"
  shows "numbers_ok st'"
  using assms(2)
proof (cases rule: accept_cases)
  case (accept h)
  then show ?thesis using assms(1) by (auto simp: numbers_ok_def)
next
  case (socket h r)
  then show ?thesis using assms(1) by (auto simp: numbers_ok_def)
next
  case (executor h r)
  then show ?thesis using assms(1) by (auto simp: numbers_ok_def nth_append less_Suc_eq)
next
  case (close i h)
  have "h \<in> ac_numbers st" using assms(1) close(1,2) by (simp add: numbers_ok_def)
  then show ?thesis using close assms(3)
    by (intro numbers_ok_same_loop[OF assms(1) _ close(1)]) (auto simp: socket_teardown_def SendRecvSocket_teardown_def)
next
  case (delete i h a as)
  from delete_cases[OF assms(1) delete(1,2)] show ?thesis
  proof (elim disjE conjE)
    assume a: "a = Drop_logger" "as = [Release_number]"
    have "h \<in> ac_numbers st" using assms(1) delete(1,2) a by (simp add: numbers_ok_def)
    then show ?thesis using delete a
      by (intro numbers_ok_same_loop[OF assms(1) _ delete(1)]) (auto simp: tear_down_def)
  next
    assume a: "a = Release_number" "as = []"
    then show ?thesis using delete
      by (intro numbers_ok_same_loop[OF assms(1) _ delete(1)]) (auto simp: tear_down_def)
  qed
qed

lemma names_ok_iff:
  "names_ok tt com st \<longleftrightarrow> (\<forall>name \<in> ac_names st. name \<in> set (server_loggers com) \<or>
     (\<exists>j < ac_id st. name \<in> set (executor_loggers tt j)) \<or> (\<exists>k. name = socket_logger com k \<and> socket_named st k))"
  by (auto simp: names_ok_def)

lemma names_ok_mono:
  assumes "names_ok tt com st" and "ac_names st' \<subseteq> ac_names st" and "ac_id st' = ac_id st"
    and "\<And>k. socket_named st k \<Longrightarrow> socket_named st' k"
  shows "names_ok tt com st'"
  using assms(1,2,4) unfolding names_ok_def assms(3) by blast

lemma socket_named_update:
  assumes "socket_named st k" and "i < length (ac_threads st)" and "ac_state st' = ac_state st"
    and "ac_threads st' = (ac_threads st)[i := t]" and "thread_named (ac_threads st ! i) = Some k \<Longrightarrow> thread_named t = Some k"
  shows "socket_named st' k"
proof (cases "ac_state st = Connected k")
  case False
  then obtain j where j: "j < length (ac_threads st)" "thread_named (ac_threads st ! j) = Some k"
    using assms(1) by (auto simp: socket_named_def in_set_conv_nth)
  then have "thread_named (ac_threads st' ! j) = Some k" "j < length (ac_threads st')"
    using assms(2,4,5) by (cases "j = i"; simp)+
  then show ?thesis unfolding socket_named_def using nth_mem by blast
qed (simp add: socket_named_def assms(3))

lemma names_delete:
  assumes n: "numbers_ok st" and names: "names_ok tt com st"
    and delete: "i < length (ac_threads st)" "ac_threads st ! i = Deleting h (a # as)"
      "st' = (tear_down com h a st)\<lparr>ac_threads := (ac_threads st)[i := Deleting h as]\<rparr>"
  shows "names_ok tt com st'"
proof -
  have named: "socket_named st' k" if k: "socket_named st k" and k2: "a = Release_number \<or> k \<noteq> h" for k
    using delete k2 delete_cases[OF n delete(1,2)] socket_named_update[OF k delete(1), of st']
    by (auto simp: tear_down_def)
  have gone: "ac_names st' = (if a = Drop_logger then ac_names st - {socket_logger com h} else ac_names st)" "ac_id st' = ac_id st"
    using delete(3) by (auto simp: ac_names_def tear_down_def registry_drop_def split: teardown.split)
  show ?thesis unfolding names_ok_def gone
  proof (rule subsetI)
    fix name
    assume a: "name \<in> (if a = Drop_logger then ac_names st - {socket_logger com h} else ac_names st)"
    then have "name \<in> ac_names st" by (simp split: if_splits)
    then consider "name \<in> set (server_loggers com)" | j where "j < ac_id st" "name \<in> set (executor_loggers tt j)"
      | k where "name = socket_logger com k" "socket_named st k"
      using names by (auto simp: names_ok_def)
    then show "name \<in> set (server_loggers com) \<union> {name. \<exists>j<ac_id st. name \<in> set (executor_loggers tt j)} \<union>
        {socket_logger com k |k. socket_named st' k}"
    proof cases
      case (3 k)
      then have "\<exists>k. name = socket_logger com k \<and> socket_named st' k"
        using a named[of k] by (cases a) (auto split: if_splits)
      then show ?thesis by blast
    qed blast+
  qed
qed

lemma names_step:
  assumes n: "numbers_ok st" and names: "names_ok tt com st" and step: "accept_step tt com st (Ret st')" and "\<not> is_tcp com"
  shows "names_ok tt com st'"
  using step
proof (cases rule: accept_cases)
  case (accept h)
  then show ?thesis using names by (auto simp: names_ok_def socket_named_def ac_names_def)
next
  case (socket h r)
  have "rg_loggers (ac_registry st) (socket_logger com h) = None"
    using socket_name_free[OF n names socket(1)] by (auto simp: ac_names_def)
  then have "ac_names st' = insert (socket_logger com h) (ac_names st)"
    using stdout_logger_new[of "ac_registry st" "socket_logger com h"] socket by (auto simp: ac_names_def)
  then show ?thesis using names socket by (auto simp: names_ok_def socket_named_def)
next
  case (executor h r)
  have "set (executor_loggers tt (ac_id st)) \<inter> dom (rg_loggers (ac_registry st)) = {}"
    using executor_names_free[OF names] by (simp add: ac_names_def)
  from stdout_loggers_new[OF executor_loggers_distinct this] executor
  have e: "ac_names st' = set (executor_loggers tt (ac_id st)) \<union> ac_names st" by (auto simp: ac_names_def)
  have "socket_named st k \<Longrightarrow> socket_named st' k" for k using executor(1,3) by (auto simp: socket_named_def)
  moreover have "ac_id st' = ac_id st + 1" using executor(3) by simp
  ultimately show ?thesis using names names_ok_iff[of tt com st] by (force simp: names_ok_iff e)
next
  case (close i h)
  have "socket_named st' k" if "socket_named st k" for k
    using close assms(4) socket_named_update[OF that close(1), of st']
    by (auto simp: socket_teardown_def SendRecvSocket_teardown_def)
  then show ?thesis using close(3) by (intro names_ok_mono[OF names]) (simp_all add: ac_names_def)
next
  case (delete i h a as)
  then show ?thesis by (rule names_delete[OF n names])
qed

lemma rdma_reachable_ok:
  assumes "accept_start com numbers = Ret st0" and "(accept_moves tt com)\<^sup>*\<^sup>* st0 st" and "\<not> is_tcp com"
  shows "numbers_ok st \<and> names_ok tt com st"
  using assms(2)
proof (induction rule: rtranclp_induct)
  case base
  show ?case using assms(1) accept_start_Ret[of com numbers] by (auto simp: numbers_ok_def names_ok_def)
next
  case (step st st')
  then show ?case using numbers_step names_step assms(3) unfolding accept_moves_def by blast
qed

text \<open>C23: Logger names never clash over RDMA.  The constructors of acceptor, server, sockets and executors register a
  logger each, and a name that is taken ends the process.  In every interleaving of the accept loop with the
  threads that delete their sockets, with any queue pair numbers that the device gives out again, no step of a
  server over queue pairs throws: a socket drops its logger before it gives up its number.\<close>

theorem rdma_logger_names_never_clash:
  assumes "\<not> is_tcp com" and "accept_start com numbers = Ret st0" and "(accept_moves tt com)\<^sup>*\<^sup>* st0 st"
    and "accept_step tt com st r"
  shows "\<exists>st'. r = Ret st'"
proof -
  have ok: "numbers_ok st" "names_ok tt com st" using rdma_reachable_ok[OF assms(2,3,1)] by auto
  from assms(4) show ?thesis
  proof cases
    case (loop_socket h)
    have "rg_loggers (ac_registry st) (socket_logger com h) = None"
      using socket_name_free[OF ok loop_socket(2)] by (auto simp: ac_names_def)
    from stdout_logger_new[OF this] show ?thesis using loop_socket(1) by auto
  next
    case (loop_executor h)
    have "set (executor_loggers tt (ac_id st)) \<inter> dom (rg_loggers (ac_registry st)) = {}"
      using executor_names_free[OF ok(2)] by (simp add: ac_names_def)
    from stdout_loggers_new[OF executor_loggers_distinct this] show ?thesis using loop_executor(1) by auto
  qed auto
qed

theorem rdma_logger_names_never_clash_witness:
  "\<exists>st0 st st'. accept_start RDMA_WRITE {} = Ret st0 \<and> (accept_moves RAMP_FAST RDMA_WRITE)\<^sup>*\<^sup>* st0 st \<and> ac_state st = Accepted 7 \<and>
     bind_outcome (stdout_logger_mt ''SendRecvSocket-7'' (ac_registry st)) (\<lambda>r.
       Ret (st\<lparr>ac_registry := r, ac_state := Connected 7\<rparr>)) = Ret st'"
proof -
  obtain st0 where st0: "accept_start RDMA_WRITE {} = Ret st0" "ac_state st0 = Accepting" "ac_numbers st0 = {}"
    using accept_start_Ret[of RDMA_WRITE "{}"] by auto
  let ?st = "st0\<lparr>ac_state := Accepted 7, ac_numbers := insert 7 (ac_numbers st0)\<rparr>"
  have "accept_step RAMP_FAST RDMA_WRITE st0 (Ret ?st)" using st0 by (intro loop_accept) simp_all
  then have run: "(accept_moves RAMP_FAST RDMA_WRITE)\<^sup>*\<^sup>* st0 ?st" by (auto simp: accept_moves_def)
  have name: "socket_logger RDMA_WRITE 7 = ''SendRecvSocket-7''"
    by (simp add: socket_logger_def numbered_def to_string_int_def dec_digits.simps digit_char_def char_of_eq_iff take_bit_eq_mod)
  have "accept_step RAMP_FAST RDMA_WRITE ?st (bind_outcome (stdout_logger_mt (socket_logger RDMA_WRITE 7) (ac_registry ?st)) (\<lambda>r.
      Ret (?st\<lparr>ac_registry := r, ac_state := Connected 7\<rparr>)))" by (rule loop_socket) simp
  from rdma_logger_names_never_clash[OF _ st0(1) run this] show ?thesis using st0(1) run unfolding name by auto
qed

section \<open>Over TCP\<close>

lemma lowest_free:
  assumes "finite (numbers :: nat set)"
  obtains h where "h \<notin> numbers" and "{..<h} \<subseteq> numbers"
proof -
  have "\<exists>h. h \<notin> numbers" using assms ex_new_if_finite infinite_UNIV_nat by blast
  then show thesis using that[of "LEAST h. h \<notin> numbers"] by (meson LeastI lessThan_iff not_less_Least subsetI)
qed

definition loop_at :: "accept_state \<Rightarrow> nat set \<Rightarrow> registry \<Rightarrow> int \<Rightarrow> thread_state list \<Rightarrow> accept_loop" where
  "loop_at state numbers r i threads = \<lparr>ac_registry = r, ac_numbers = numbers, ac_state = state, ac_id = i, ac_threads = threads\<rparr>"

lemma tcp_first_served:
  assumes "is_tcp com" and h: "h \<notin> numbers" "{..<h} \<subseteq> numbers"
  shows "\<exists>st0 r. accept_start com numbers = Ret st0 \<and> socket_logger com h \<in> dom (rg_loggers r) \<and>
    (accept_moves tt com)\<^sup>*\<^sup>* st0 (loop_at Accepting (insert h numbers) r 1 [Serving h])"
proof -
  obtain st0 where st0: "accept_start com numbers = Ret st0" "ac_names st0 = set (server_loggers com)" "ac_numbers st0 = numbers"
    "ac_state st0 = Accepting" "ac_id st0 = 0" "ac_threads st0 = []" using accept_start_Ret by blast
  have "rg_loggers (ac_registry st0) (socket_logger com h) = None"
    using socket_logger_other(1)[of com h com] st0(2) by (auto simp: ac_names_def)
  then obtain r1 where r1: "stdout_logger_mt (socket_logger com h) (ac_registry st0) = Ret r1"
    "dom (rg_loggers r1) = insert (socket_logger com h) (set (server_loggers com))"
    using stdout_logger_new st0(2) unfolding ac_names_def by metis
  have "set (executor_loggers tt 0) \<inter> dom (rg_loggers r1) = {}"
    using executor_logger_other[of _ tt 0 com] socket_logger_other(2)[of com h tt 0] by (auto simp: r1(2))
  from stdout_loggers_new[OF executor_loggers_distinct this] obtain r2 where
    r2: "stdout_loggers (executor_loggers tt 0) r1 = Ret r2" "socket_logger com h \<in> dom (rg_loggers r2)" by (auto simp: r1(2))
  have first: "st0\<lparr>ac_state := Accepted h, ac_numbers := insert h numbers\<rparr> = loop_at (Accepted h) (insert h numbers) (ac_registry st0) 0 []"
    using st0(5,6) by (cases st0) (simp add: loop_at_def)
  have "(accept_moves tt com)\<^sup>*\<^sup>* st0 (loop_at (Accepted h) (insert h numbers) (ac_registry st0) 0 [])"
    using loop_accept[of st0 h com tt] h st0(3,4) first by (intro r_into_rtranclp) (simp add: accept_moves_def)
  also have "(accept_moves tt com)\<^sup>*\<^sup>* (loop_at (Accepted h) (insert h numbers) (ac_registry st0) 0 []) (loop_at (Connected h) (insert h numbers) r1 0 [])"
    using loop_socket[of "loop_at (Accepted h) (insert h numbers) (ac_registry st0) 0 []" h tt com] r1(1) by (intro r_into_rtranclp) (simp add: accept_moves_def loop_at_def)
  also have "(accept_moves tt com)\<^sup>*\<^sup>* (loop_at (Connected h) (insert h numbers) r1 0 []) (loop_at Accepting (insert h numbers) r2 1 [Serving h])"
    using loop_executor[of "loop_at (Connected h) (insert h numbers) r1 0 []" h tt com] r2(1) by (intro r_into_rtranclp) (simp add: accept_moves_def loop_at_def)
  finally show ?thesis using st0(1) r2(2) by blast
qed

text \<open>C35: A reconnect can end a TCP server.  A TCPSocket closes its descriptor before it drops its logger.  Whatever
  descriptors are open at the start, there is a run in which a client leaves, the main thread accepts the
  next client on the same descriptor, which is the lowest free one, before the other thread goes on, and the
  constructor of the new socket throws, since the name is still taken: nothing catches it.\<close>

theorem tcp_reconnect_ends_server:
  assumes "is_tcp com" and "finite numbers"
  shows "\<exists>st0 st. accept_start com numbers = Ret st0 \<and> (accept_moves tt com)\<^sup>*\<^sup>* st0 st \<and>
    accept_step tt com st (Dies Uncaught_exception)"
proof -
  obtain h where h: "h \<notin> numbers" "{..<h} \<subseteq> numbers" using lowest_free[OF assms(2)] .
  obtain st0 r2 where st0: "accept_start com numbers = Ret st0" and r2: "socket_logger com h \<in> dom (rg_loggers r2)"
    and served: "(accept_moves tt com)\<^sup>*\<^sup>* st0 (loop_at Accepting (insert h numbers) r2 1 [Serving h])"
    using tcp_first_served[OF assms(1) h] by blast
  note served
  also have "(accept_moves tt com)\<^sup>*\<^sup>* (loop_at Accepting (insert h numbers) r2 1 [Serving h])
      (loop_at Accepting (insert h numbers) r2 1 [Deleting h [Release_number, Drop_logger]])"
    using loop_close[of 0 "loop_at Accepting (insert h numbers) r2 1 [Serving h]" h tt com] assms(1)
    by (intro r_into_rtranclp) (simp add: accept_moves_def loop_at_def socket_teardown_def TCPSocket_teardown_def)
  also have "(accept_moves tt com)\<^sup>*\<^sup>* (loop_at Accepting (insert h numbers) r2 1 [Deleting h [Release_number, Drop_logger]])
      (loop_at Accepting numbers r2 1 [Deleting h [Drop_logger]])"
    using loop_delete[of 0 "loop_at Accepting (insert h numbers) r2 1 [Deleting h [Release_number, Drop_logger]]" h Release_number "[Drop_logger]" tt com] h(1)
    by (intro r_into_rtranclp) (simp add: accept_moves_def loop_at_def tear_down_def)
  also have "(accept_moves tt com)\<^sup>*\<^sup>* (loop_at Accepting numbers r2 1 [Deleting h [Drop_logger]])
      (loop_at (Accepted h) (insert h numbers) r2 1 [Deleting h [Drop_logger]])"
    using loop_accept[of "loop_at Accepting numbers r2 1 [Deleting h [Drop_logger]]" h com tt] h by (intro r_into_rtranclp) (simp add: accept_moves_def loop_at_def)
  finally have "(accept_moves tt com)\<^sup>*\<^sup>* st0 (loop_at (Accepted h) (insert h numbers) r2 1 [Deleting h [Drop_logger]])" .
  moreover have "accept_step tt com (loop_at (Accepted h) (insert h numbers) r2 1 [Deleting h [Drop_logger]]) (Dies Uncaught_exception)"
    using loop_socket[of "loop_at (Accepted h) (insert h numbers) r2 1 [Deleting h [Drop_logger]]" h tt com]
      stdout_logger_taken[of r2 "socket_logger com h"] r2 by (auto simp: loop_at_def)
  ultimately show ?thesis using st0 by blast
qed

theorem tcp_reconnect_ends_server_witness:
  "\<exists>st0 st. accept_start TCP {0, 1, 2, 3} = Ret st0 \<and> (accept_moves RAMP_FAST TCP)\<^sup>*\<^sup>* st0 st \<and>
    accept_step RAMP_FAST TCP st (Dies Uncaught_exception)"
  using tcp_reconnect_ends_server[of TCP "{0, 1, 2, 3}" RAMP_FAST] by simp

section \<open>Clients\<close>

lemma handler_loggers_inject: "name \<in> set (handler_loggers tt i) \<Longrightarrow> name \<in> set (handler_loggers tt j) \<Longrightarrow> i = j"
  by (cases tt) (auto simp: numbered_def)

lemma client_loggers_distinct: "distinct (client_loggers tt n)"
proof -
  have "distinct (concat (map (\<lambda>i. handler_loggers tt (int i)) [0..<n]))"
  proof (induction n)
    case (Suc n)
    have "(\<Union>i \<in> {0..<n}. set (handler_loggers tt (int i))) \<inter> set (handler_loggers tt (int n)) = {}"
      using handler_loggers_inject[of _ tt _ "int n"] by fastforce
    moreover have "distinct (handler_loggers tt (int n))" by (cases tt) simp_all
    ultimately show ?case using Suc by simp
  qed simp
  moreover have "set class_loggers \<inter> set (handler_loggers tt i) = {}" "''main'' \<notin> set (handler_loggers tt i)" "''Client'' \<notin> set (handler_loggers tt i)" for i
    by (cases tt; simp add: numbered_def class_loggers_def)+
  moreover have "distinct (class_loggers @ [''main'', ''Client''])" by (simp add: class_loggers_def)
  ultimately show ?thesis by (auto simp: client_loggers_def)
qed

lemma client_starts_logging: "\<exists>r. stdout_loggers (client_loggers tt n) registry_new = Ret r"
  using stdout_loggers_new[OF client_loggers_distinct[of tt n], of registry_new] by (auto simp: registry_new_def)

end
