(* ===== verification/Spec2Isabelle.thy ===== *)
theory Spec2Isabelle
  imports Ramp_Theorems Lock_Theorems Reader_Theorems Socket_Theorems Setup_Theorems Ycsb_Theorems Ycsb_Socket_Theorems
    Protocol_Theorems Ycsb_Client_Theorems Jni_Theorems Wire_Theorems Command_Theorems Logger_Theorems
begin

text \<open>
  A key-value store whose clients read and write several keys in one transaction, under one of four
  algorithms: RAMP-Fast, RAMP-Fast with a cache of remote addresses (AC-RAMP-Fast), two-phase locking,
  and no concurrency control.  Clients and servers talk over TCP, over RDMA send and receive, or over
  RDMA writes; AC-RAMP-Fast clients also read committed items straight out of the memory of a server.
  The repository holds two copies of the program: the main tree (\<open>src/\<close> and \<open>include/\<close>, below the
  main tree) and an older copy inside the YCSB benchmark (\<open>YCSB-0.5.0/src\<close> and \<open>YCSB-0.5.0/include\<close>),
  with a binding for Java.  Both are modelled.

  Conventions.  A member function \<open>Class::method\<close> is the definition \<open>Class_method\<close>; what belongs to the
  YCSB copy starts with \<open>Y_\<close>, and where the two copies have the same code there is one definition.
  Objects are records, which an operation takes and returns.  \<open>Prelude\<close> has the type \<open>outcome\<close>: \<open>Ret x\<close>
  (the function returns \<open>x\<close>), \<open>Blocks\<close> (it does not return) or \<open>Dies\<close> with what ends the process (exit,
  an uncaught exception, an access out of bounds or through a null pointer, an undefined division).
  Memory maps addresses to bytes, so a write outside of a buffer lands somewhere and can be talked
  about.  A loop over a container is a fold over the list of its elements.

  \<^bold>\<open>Data.\<close>  \<open>Timestamps\<close> (\<open>Timestamp.cpp\<close>), \<open>Items\<close> (\<open>Item.h\<close>, \<open>Transaction.cpp\<close>, \<open>RemoteKeyAndAddr.h\<close>),
  \<open>Buffers\<close> (\<open>Buffer.cpp\<close>, with its bounds check at width 64), \<open>Containers\<close> (the TBB containers that
  \<open>Containers.h\<close> names), \<open>Messages\<close> (message types, headers and \<open>Communicator.h\<close>).  Their lemmas: the
  order of timestamps, well-formed transactions, what is read back after an append, round trips of
  headers and typed bodies, and the interface \<open>concurrent_map\<close> with its instance.

  \<^bold>\<open>Server.\<close>  \<open>Entries\<close> and \<open>Caches\<close> (\<open>Entry.cpp\<close>, \<open>CommittedItems.cpp\<close>: the registered region whose
  slots remote readers copy; invariant \<open>CommittedItems_ok\<close>), \<open>Tables\<close> (\<open>Table.cpp\<close>), \<open>Locks\<close>
  (\<open>Mutex.cpp\<close>, \<open>LockManager.cpp\<close>), \<open>Executors\<close> (\<open>TrxExecutor.h\<close> and its four subclasses, one iteration
  of \<open>run\<close> per definition \<open>_run_iter\<close>), \<open>Cluster\<close> (\<open>Server.cpp\<close>, \<open>ServerThread.cpp\<close>, and the
  connections between all clients and servers).  \<open>Store_Theorems\<close> has the properties of the store alone.

  \<^bold>\<open>Client.\<close>  \<open>Connections\<close> (\<open>HostAndPort.cpp\<close>, \<open>ConnectionPool.cpp\<close>), \<open>Handlers\<close> (\<open>TrxHandler.h\<close> and its
  four subclasses), \<open>Clients\<close> (\<open>TrxQueue.cpp\<close>, \<open>ClientThread.cpp\<close>, \<open>Client.cpp\<close>).  A handler is a
  program in the sense of \<open>Programs\<close>: a tree of requests, one-sided reads and local computation.  The
  relation of \<open>Programs\<close> interleaves the requests of any number of threads; a request that the server
  does not answer, because a lock is taken, leaves its thread where it is.

  \<^bold>\<open>Program logics.\<close>  \<open>Programs\<close> has one invariant and one guarantee for all threads; with
  \<open>Rely_Programs\<close> what a thread may rely on depends on the thread.  Both give safety of every
  interleaving from the safety of each thread, the second one also that there is no endless run.
  \<open>Sessions\<close> is about the types of what is exchanged, with the interfaces \<open>service\<close> and \<open>reply_contract\<close>.

  \<^bold>\<open>Protocols.\<close>  \<open>Ramp_Cluster\<close> has the invariant of the servers under the two RAMP algorithms,
  \<open>Ramp_Clients\<close> the proofs of the handlers on it, \<open>Ramp_Theorems\<close> the results: no fractured reads, no
  thread is stuck, and why committed versions stay invisible to a GET without version.
  \<open>Lock_Cluster\<close>, \<open>Lock_Clients\<close> and \<open>Lock_Theorems\<close> do the same for two-phase locking: locks agree
  with their holders, no fractured reads, termination and absence of deadlock (keys are locked in
  their order), and the locks that a closed connection leaves behind.  \<open>Protocol\<close> and
  \<open>Protocol_Theorems\<close>: both ends of a connection agree on the types of requests and answers.

  \<^bold>\<open>Sockets.\<close>  \<open>Tcp_Sockets\<close>, \<open>Verbs\<close> and \<open>Windows\<close> (queue pairs, posted requests, the windows of ten
  send and ten receive buffers of \<open>SendRecvSocket.cpp\<close>), \<open>Rdma_Sockets\<close> (\<open>RDMAWriteSocket.cpp\<close>,
  \<open>RDMAWriteImmSocket.cpp\<close>).  \<open>Channels\<close> states what the layers above need, as the interface of a
  message channel; \<open>Tcp_Sockets\<close>, \<open>Sendrecv_Channel\<close>, \<open>Rdma_Channels\<close> and \<open>Rdma_Imm_Channel\<close> provide it.
  \<open>Duplex\<close> has the interface of two sockets that take turns, \<open>Rdma_Duplex\<close> and \<open>Handshake\<close> bring two
  RDMA sockets from their constructors to there.  \<open>Socket_Theorems\<close> and \<open>Reader_Theorems\<close> have the
  properties, one-sided readers included.

  \<^bold>\<open>The whole stack.\<close>  \<open>Programs\<close> takes a request and its answer as one step.  \<open>Wires\<close> takes them apart: a
  client thread sends and waits, the server thread of the connection receives, executes and sends, the
  client receives, and these steps interleave with those of all other connections (\<open>wire_step\<close>).
  \<open>com->mtx\<close> is the guard of a request: no other thread waits on that connection.  The interface \<open>wire\<close>
  adds to \<open>duplex\<close> what sockets need for that; under it every run over sockets is one of requests
  (\<open>carries\<close>), and every run of requests is one over sockets (\<open>delivers\<close>).  \<open>Wire_Sockets\<close> provides the
  interface for the four classes of sockets.  \<open>Wire_Theorems\<close> has both directions as theorems about the
  code, and read atomicity of the RAMP clients over RDMA sockets.  A message is \<open>sendable\<close> when its
  header tells the length of its body; bodies are taken to fit the receive buffer, which TCP sockets do
  not check and the other ones do when they append to it.

  \<^bold>\<open>Processes.\<close>  \<open>Setup\<close> (the acceptors and \<open>connect\<close> of each class of socket, with every failing call),
  \<open>Mains\<close> (both \<open>main.cpp\<close> and \<open>Config.cpp\<close>), \<open>Setup_Theorems\<close>.  \<open>Cmdline\<close> is the option parser
  (\<open>cmdline.h\<close>, the same file in both trees), from declaring options to \<open>parse_check\<close> with its messages;
  \<open>Options\<close> shows what arguments do, once for all programs, in the interface \<open>command_line\<close>, of which the
  four programs are instances (\<open>Command_Lines\<close>).  \<open>Command_Theorems\<close>: well-formed arguments reach the main
  program as they were given, any others end it with status 0 or 1.  \<open>Loggers\<close> has the registry of spdlog
  and the names under which the objects register; an accept loop runs against the threads that delete
  their sockets (\<open>accept_step\<close>), and \<open>Logger_Theorems\<close> shows where names clash and where they cannot.

  \<^bold>\<open>YCSB copy.\<close>  \<open>Ycsb_Data\<close> (timestamps, cache, table), \<open>Ycsb_Messages\<close>, \<open>Ycsb_Executors\<close>,
  \<open>Ycsb_Servers\<close>, \<open>Ycsb_Clients\<close>, \<open>Ycsb_Mains\<close>; \<open>Ycsb_Rdmacm\<close>, \<open>Ycsb_Sockets\<close> and \<open>Ycsb_Endpoints\<close> for
  its sockets.  \<open>Ycsb_Simulation\<close>, \<open>Ycsb_Rdma_Simulation\<close> and \<open>Ycsb_Socket_Theorems\<close> relate its sockets
  to those of the main tree, \<open>Ycsb_Agreement\<close> and \<open>Ycsb_Client_Theorems\<close> its clients;
  \<open>Ycsb_Theorems\<close> shows what its servers do differently, above all that the comparison of its
  timestamps makes every GET answer an empty item.  \<open>Jni\<close> and \<open>Ramp_Jni\<close> are the native
  methods of the Java client over the handlers of the copy and of the main tree, with \<open>Jni_Theorems\<close>.

  \<^bold>\<open>Parameters.\<close>  What is not part of the repository is an argument.  \<open>mp\<close> stands for msgpack: how a value
  is packed and what the unpacker takes from the front of its buffer; \<open>msgpack_ok\<close> says that values
  come back as they were packed.  \<open>hash\<close> is \<open>std::hash\<close>, \<open>tod\<close> the time of day, \<open>perms\<close> and \<open>shuffle\<close> the
  orders of parallel loops, of hash tables and of the shuffled queue, \<open>junk\<close> the bytes of padding and
  of uninitialised variables.  What the kernel, the RDMA device and the JNI functions answer is an
  argument of each call.  \<open>Samples\<close> has a concrete msgpack and small configurations, on which every
  property with a hypothesis is instantiated.

  \<^bold>\<open>Bounds.\<close>  There is no fuel: loops follow the data that they visit, or end in \<open>Blocks\<close> where the code
  would spin.  Requests of a connection are served one at a time: \<open>recv\<close> follows \<open>send\<close> on the same
  connection.  The protocol theorems take a request and its answer as one step, which \<open>Wires\<close> justifies.
  Two requests to one server on different connections interleave as whole
  iterations of their executors; the writes of a cache update are split where one-sided readers can see
  them (\<open>Entry_update_writes\<close>).  Sizes are those of the x86-64 ABI.  The results about a run of a cluster
  assume that keys and items fit the entries and that timestamps of different transactions differ,
  which the code does not ensure by itself.

  \<^bold>\<open>Not modelled.\<close>  The YCSB benchmark in Java is third-party code in another language.  Of the
  logging library (spdlog, vendored) only the registry is modelled; what is printed, and how, is left out,
  with \<open>print_result\<close>, which only prints.  Releasing memory is left out as well.  The TCP connection below a
  socket and the queue pair between two sockets are taken to work or to fail as documented.
\<close>

end
